(* ===== verification/Go_Prelude.thy ===== *)
theory Go_Prelude
  imports Main "HOL-Library.Sublist" "HOL-Library.Code_Target_Numeral"
begin

text \<open>
  The vocabulary every component shares.  A Go \<^verbatim>\<open>string\<close> and a Go \<^verbatim>\<open>[]byte\<close> are
  byte sequences, so both are lists of \<open>char\<close> (256 values, one byte each) and \<open>length\<close>
  is Go's \<^verbatim>\<open>len\<close>.  A slice is a list option, because the code distinguishes the nil
  slice from an empty one.  A Go map is an association list with distinct keys; the order
  of the list stands for the unspecified iteration order, and a property of the code has to
  hold for every order.  An \<^verbatim>\<open>int\<close>, \<^verbatim>\<open>int64\<close> or \<^verbatim>\<open>time.Duration\<close> is an
  \<open>int\<close>, with the 64-bit wrap-around written out where it matters.
\<close>

named_theorems go_facts \<open>facts on the string and map operations that component proofs share\<close>

type_synonym 'a slice = "'a list option"
type_synonym ('k, 'v) gomap = "('k \<times> 'v) list"

subsection \<open>Bytes\<close>

abbreviation byte :: "char \<Rightarrow> nat" where
  "byte c \<equiv> of_char c"

definition is_lower :: "char \<Rightarrow> bool" where
  "is_lower c \<longleftrightarrow> 97 \<le> byte c \<and> byte c \<le> 122"

definition is_upper :: "char \<Rightarrow> bool" where
  "is_upper c \<longleftrightarrow> 65 \<le> byte c \<and> byte c \<le> 90"

definition is_digit :: "char \<Rightarrow> bool" where
  "is_digit c \<longleftrightarrow> 48 \<le> byte c \<and> byte c \<le> 57"

definition is_ascii :: "char \<Rightarrow> bool" where
  "is_ascii c \<longleftrightarrow> byte c < 128"

definition lower_byte :: "char \<Rightarrow> char" where
  "lower_byte c = (if is_upper c then char_of (byte c + 32) else c)"

definition upper_byte :: "char \<Rightarrow> char" where
  "upper_byte c = (if is_lower c then char_of (byte c - 32) else c)"

lemma byte_eq_iff: "byte c = byte d \<longleftrightarrow> c = d"
  by simp

lemma byte_less_256 [simp]: "byte c < 256"
proof -
  have "byte c = byte (char_of (byte c))" by simp
  also have "\<dots> = byte c mod 256" by (rule of_char_of)
  finally show ?thesis by (metis mod_less_divisor zero_less_numeral)
qed

lemma byte_char_of: "n < 256 \<Longrightarrow> byte (char_of n) = n"
  by simp

lemma byte_lower_byte: "byte (lower_byte c) = (if is_upper c then byte c + 32 else byte c)"
  by (simp add: lower_byte_def is_upper_def)

lemma byte_upper_byte: "byte (upper_byte c) = (if is_lower c then byte c - 32 else byte c)"
  by (auto simp add: upper_byte_def is_lower_def)

lemma lower_byte_idem [simp]: "lower_byte (lower_byte c) = lower_byte c"
proof -
  have "\<not> is_upper (lower_byte c)"
    by (simp add: is_upper_def byte_lower_byte)
  then show ?thesis by (simp add: lower_byte_def [of "lower_byte c"])
qed

lemma upper_byte_idem [simp]: "upper_byte (upper_byte c) = upper_byte c"
proof -
  have "\<not> is_lower (upper_byte c)"
    by (auto simp add: is_lower_def byte_upper_byte)
  then show ?thesis by (simp add: upper_byte_def [of "upper_byte c"])
qed

lemma lower_byte_ascii [simp]: "is_ascii (lower_byte c) = is_ascii c"
  by (simp add: is_ascii_def byte_lower_byte is_upper_def)

lemma upper_byte_ascii [simp]: "is_ascii (upper_byte c) = is_ascii c"
  by (auto simp add: is_ascii_def byte_upper_byte is_lower_def)

lemma lower_byte_not_upper: "\<not> is_upper c \<Longrightarrow> lower_byte c = c"
  by (simp add: lower_byte_def)

lemma upper_byte_not_lower: "\<not> is_lower c \<Longrightarrow> upper_byte c = c"
  by (simp add: upper_byte_def)

subsection \<open>Slices\<close>

text \<open>Ranging over a slice, and \<^verbatim>\<open>append([]T(nil), xs...)\<close>: a copy that is nil when there is nothing to append.\<close>

definition elems :: "'a slice \<Rightarrow> 'a list" where
  "elems xs = (case xs of None \<Rightarrow> [] | Some ys \<Rightarrow> ys)"

definition append_nil :: "'a slice \<Rightarrow> 'a slice" where
  "append_nil xs = (if elems xs = [] then None else Some (elems xs))"

lemma elems_simps [simp]: "elems None = []" "elems (Some ys) = ys"
  by (simp_all add: elems_def)

lemma elems_append_nil [simp]: "elems (append_nil xs) = elems xs"
  by (simp add: append_nil_def)

lemma append_nil_None_iff: "append_nil xs = None \<longleftrightarrow> elems xs = []"
  by (simp add: append_nil_def)

subsection \<open>Maps\<close>

definition wf_gomap :: "('k, 'v) gomap \<Rightarrow> bool" where
  "wf_gomap m \<longleftrightarrow> distinct (map fst m)"

definition gomap_del :: "'k \<Rightarrow> ('k, 'v) gomap \<Rightarrow> ('k, 'v) gomap" where
  "gomap_del k m = filter (\<lambda>p. fst p \<noteq> k) m"

fun gomap_set :: "'k \<Rightarrow> 'v \<Rightarrow> ('k, 'v) gomap \<Rightarrow> ('k, 'v) gomap" where
  "gomap_set k v [] = [(k, v)]"
| "gomap_set k v (p # m) = (if fst p = k then (k, v) # m else p # gomap_set k v m)"

lemma map_of_gomap_set [simp]: "map_of (gomap_set k v m) = (map_of m)(k \<mapsto> v)"
  by (induction m) (auto simp: fun_eq_iff)

lemma keys_gomap_set [simp]: "fst ` set (gomap_set k v m) = insert k (fst ` set m)"
  by (induction m) auto

lemma gomap_set_new: "k \<notin> fst ` set m \<Longrightarrow> gomap_set k v m = m @ [(k, v)]"
  by (induction m) auto

lemma wf_gomap_set [simp, intro]: "wf_gomap m \<Longrightarrow> wf_gomap (gomap_set k v m)"
proof (induction m)
  case Nil
  then show ?case by (simp add: wf_gomap_def)
next
  case (Cons p m)
  then show ?case
    using keys_gomap_set [of k v m] by (auto simp: wf_gomap_def)
qed

lemma map_of_gomap_del [simp]: "map_of (gomap_del k m) = (map_of m)(k := None)"
  by (induction m) (auto simp: gomap_del_def fun_eq_iff)

lemma keys_gomap_del [simp]: "fst ` set (gomap_del k m) = fst ` set m - {k}"
  by (auto simp: gomap_del_def)

lemma set_gomap_del: "set (gomap_del k m) = {p \<in> set m. fst p \<noteq> k}"
  by (auto simp: gomap_del_def)

lemma wf_gomap_filter [simp, intro]: "wf_gomap m \<Longrightarrow> wf_gomap (filter P m)"
  by (simp add: wf_gomap_def distinct_map_filter)

lemma wf_gomap_del [simp, intro]: "wf_gomap m \<Longrightarrow> wf_gomap (gomap_del k m)"
  unfolding gomap_del_def by (rule wf_gomap_filter)

lemma wf_gomap_Nil [simp]: "wf_gomap []"
  by (simp add: wf_gomap_def)

lemma wf_gomap_map_values: "(\<And>p. fst (f p) = fst p) \<Longrightarrow> wf_gomap (map f m) = wf_gomap m"
  by (simp add: wf_gomap_def comp_def)

lemma map_of_wf_iff: "wf_gomap m \<Longrightarrow> map_of m k = Some v \<longleftrightarrow> (k, v) \<in> set m"
  by (simp add: wf_gomap_def)

subsection \<open>Machine integers\<close>

definition wrap64 :: "int \<Rightarrow> int" where
  "wrap64 x = (x + 2 ^ 63) mod 2 ^ 64 - 2 ^ 63"

lemma wrap64_id: "- (2 ^ 63) \<le> x \<Longrightarrow> x < 2 ^ 63 \<Longrightarrow> wrap64 x = x"
  by (simp add: wrap64_def)

lemma wrap64_range: "- (2 ^ 63) \<le> wrap64 x \<and> wrap64 x < 2 ^ 63"
proof -
  have "0 \<le> (x + 2 ^ 63) mod 2 ^ 64" and "(x + 2 ^ 63) mod 2 ^ 64 < 2 ^ 64"
    by simp_all
  then show ?thesis unfolding wrap64_def by simp
qed

end
