(* ===== verification/Go_Utf8.thy ===== *)
theory Go_Utf8
  imports Go_Prelude
begin

text \<open>
  UTF-8 as package \<^verbatim>\<open>unicode/utf8\<close> and the \<^verbatim>\<open>for range\<close> loop over a string read it:
  the table of accepted second bytes, decoding with the replacement rune for an invalid byte,
  encoding, and \<^verbatim>\<open>utf8.Valid\<close>.  The lemmas say when a loop over runes sees what a loop
  over bytes sees, and how far a valid string has to be cut back to be cut at a rune boundary.
\<close>

subsection \<open>Decoding\<close>

definition rune_error :: nat where
  "rune_error = 65533"

definition is_cont :: "char \<Rightarrow> bool" where
  "is_cont c \<longleftrightarrow> 128 \<le> byte c \<and> byte c \<le> 191"

definition accept_lo :: "nat \<Rightarrow> nat" where
  "accept_lo b = (if b = 224 then 160 else if b = 240 then 144 else 128)"

definition accept_hi :: "nat \<Rightarrow> nat" where
  "accept_hi b = (if b = 237 then 159 else if b = 244 then 143 else 191)"

text \<open>The width of the valid encoding at the head of the string, 0 when there is none.\<close>

definition seq_len :: "string \<Rightarrow> nat" where
  "seq_len s = (case s of [] \<Rightarrow> 0 | a # s1 \<Rightarrow>
     if byte a < 128 then 1
     else if byte a < 194 \<or> 244 < byte a then 0
     else (case s1 of [] \<Rightarrow> 0 | b # s2 \<Rightarrow>
       if byte b < accept_lo (byte a) \<or> accept_hi (byte a) < byte b then 0
       else if byte a < 224 then 2
       else (case s2 of [] \<Rightarrow> 0 | c # s3 \<Rightarrow>
         if \<not> is_cont c then 0
         else if byte a < 240 then 3
         else (case s3 of [] \<Rightarrow> 0 | d # s4 \<Rightarrow> if is_cont d then 4 else 0))))"

text \<open>\<^verbatim>\<open>utf8.DecodeRuneInString\<close>: rune and width.\<close>

definition decode_rune :: "string \<Rightarrow> nat \<times> nat" where
  "decode_rune s = (let n = seq_len s in
     if n = 0 then (rune_error, if s = [] then 0 else 1)
     else if n = 1 then (byte (s ! 0), 1)
     else if n = 2 then ((byte (s ! 0) - 192) * 64 + (byte (s ! 1) - 128), 2)
     else if n = 3 then
       ((byte (s ! 0) - 224) * 4096 + (byte (s ! 1) - 128) * 64 + (byte (s ! 2) - 128), 3)
     else ((byte (s ! 0) - 240) * 262144 + (byte (s ! 1) - 128) * 4096
            + (byte (s ! 2) - 128) * 64 + (byte (s ! 3) - 128), 4))"

lemma seq_len_Nil [simp]: "seq_len [] = 0"
  by (simp add: seq_len_def)

lemma seq_len_le: "seq_len s \<le> length s" "seq_len s \<le> 4"
  by (auto simp: seq_len_def split: list.splits)

lemma seq_len_cases: "seq_len s \<in> {0, 1, 2, 3, 4}"
  by (auto simp: seq_len_def split: list.splits)

lemma seq_len_ascii: "is_ascii a \<Longrightarrow> seq_len (a # s) = 1"
  by (simp add: seq_len_def is_ascii_def)

lemma seq_len_non_ascii: "\<not> is_ascii a \<Longrightarrow> seq_len (a # s) \<noteq> 1"
  by (auto simp: seq_len_def is_ascii_def split: list.splits)

lemma decode_rune_ascii: "is_ascii a \<Longrightarrow> decode_rune (a # s) = (byte a, 1)"
  by (simp add: decode_rune_def seq_len_ascii)

lemma decode_rune_width: "snd (decode_rune (a # s)) = max 1 (seq_len (a # s))"
  using seq_len_cases [of "a # s"] by (auto simp: decode_rune_def Let_def)

lemma decode_rune_non_ascii:
  assumes "\<not> is_ascii a"
  shows "128 \<le> fst (decode_rune (a # s))"
proof -
  consider "seq_len (a # s) = 0" | "seq_len (a # s) = 2" | "seq_len (a # s) = 3"
    | "seq_len (a # s) = 4"
    using assms seq_len_cases [of "a # s"] seq_len_non_ascii [of a s] by auto
  then show ?thesis
  proof cases
    case 1
    then show ?thesis by (simp add: decode_rune_def rune_error_def Let_def)
  next
    case 2
    then have "194 \<le> byte a"
      by (auto simp: seq_len_def split: list.splits if_splits)
    then have "128 \<le> (byte a - 192) * 64" by linarith
    with 2 show ?thesis by (simp add: decode_rune_def Let_def)
  next
    case 3
    then obtain b t where s: "s = b # t" and b: "accept_lo (byte a) \<le> byte b" and a: "224 \<le> byte a"
      by (auto simp: seq_len_def split: list.splits if_splits)
    have "128 \<le> (byte a - 224) * 4096 + (byte b - 128) * 64"
      using a b by (cases "byte a = 224") (auto simp: accept_lo_def split: if_splits)
    with 3 show ?thesis by (simp add: decode_rune_def s Let_def)
  next
    case 4
    then obtain b t where s: "s = b # t" and b: "accept_lo (byte a) \<le> byte b" and a: "240 \<le> byte a"
      by (auto simp: seq_len_def split: list.splits if_splits)
    have "128 \<le> (byte a - 240) * 262144 + (byte b - 128) * 4096"
      using a b by (cases "byte a = 240") (auto simp: accept_lo_def split: if_splits)
    with 4 show ?thesis by (simp add: decode_rune_def s Let_def)
  qed
qed

text \<open>The runes a \<^verbatim>\<open>for range\<close> loop visits.\<close>

function runes :: "string \<Rightarrow> nat list" where
  "runes [] = []"
| "runes (a # s) = fst (decode_rune (a # s)) # runes (drop (snd (decode_rune (a # s))) (a # s))"
  by pat_completeness auto
termination
  by (relation "measure length") (auto simp: decode_rune_width max_def)

declare runes.simps(2) [simp del]

lemma runes_ascii_Cons: "is_ascii a \<Longrightarrow> runes (a # s) = byte a # runes s"
  by (simp add: runes.simps decode_rune_ascii)

lemma runes_ascii: "list_all is_ascii s \<Longrightarrow> runes s = map byte s"
  by (induction s) (auto simp: runes_ascii_Cons)

text \<open>
  The ASCII runes of a string are its ASCII bytes, in order: an encoding never swallows an
  ASCII byte.  So a loop over runes that only reacts to ASCII runes is a loop over bytes; this
  is how the checks of host labels, paths and error codes, which the code writes over runes,
  are read.
\<close>

lemma seq_len_conts:
  assumes "i < seq_len s" and "0 < i"
  shows "\<not> is_ascii (s ! i)"
proof -
  have lo: "128 \<le> accept_lo n" for n by (simp add: accept_lo_def)
  from assms have "i = 1 \<or> i = 2 \<or> i = 3"
    using seq_len_le(2) [of s] by linarith
  then show ?thesis
    using assms(1) lo
    by (elim disjE)
      (auto simp: seq_len_def is_ascii_def is_cont_def not_less split: list.splits if_splits
        intro: order_trans)
qed

lemma seq_len_tail:
  assumes "\<not> is_ascii a" and "n = seq_len (a # s)"
  shows "filter is_ascii (drop n (a # s)) = filter is_ascii s"
proof (cases n)
  case 0
  with assms show ?thesis by simp
next
  case (Suc k)
  have "\<not> is_ascii (s ! i)" if "i < k" for i
    using seq_len_conts [of "Suc i" "a # s"] that assms(2) Suc by simp
  moreover have "k \<le> length s"
    using seq_len_le(1) [of "a # s"] assms(2) Suc by simp
  ultimately have "filter is_ascii (take k s) = []"
    by (auto simp: filter_empty_conv in_set_conv_nth)
  then have "filter is_ascii (take k s @ drop k s) = filter is_ascii (drop k s)"
    by (simp only: filter_append append_Nil)
  then show ?thesis using Suc by simp
qed

lemma runes_ascii_filter: "filter (\<lambda>r. r < 128) (runes s) = map byte (filter is_ascii s)"
proof (induction s rule: runes.induct)
  case 1
  then show ?case by simp
next
  case (2 a s)
  show ?case
  proof (cases "is_ascii a")
    case True
    with 2 show ?thesis by (simp add: runes_ascii_Cons decode_rune_ascii is_ascii_def)
  next
    case False
    have "filter is_ascii (drop (snd (decode_rune (a # s))) (a # s)) = filter is_ascii s"
      using seq_len_tail [OF False, of _ s] False
      by (cases "seq_len (a # s)") (auto simp: decode_rune_width max_def)
    with 2 False show ?thesis
      using decode_rune_non_ascii [OF False, of s] by (simp add: runes.simps)
  qed
qed

lemma runes_ex_ascii:
  assumes "\<And>r. 128 \<le> r \<Longrightarrow> \<not> P r"
  shows "list_ex P (runes s) \<longleftrightarrow> list_ex (\<lambda>c. P (byte c)) s"
proof -
  have "{r \<in> set (runes s). r < 128} = byte ` {c \<in> set s. byte c < 128}"
    using arg_cong [where f = set, OF runes_ascii_filter [of s]] by (simp add: is_ascii_def)
  moreover have small: "P r \<Longrightarrow> r < 128" for r
    using assms [of r] by (cases "r < 128") auto
  ultimately have "(\<exists>r \<in> {r \<in> set (runes s). r < 128}. P r) \<longleftrightarrow> (\<exists>r \<in> byte ` {c \<in> set s. byte c < 128}. P r)"
    by simp
  with small show ?thesis
    unfolding list_ex_iff by auto
qed

lemma runes_all_ascii:
  assumes "\<And>r. 128 \<le> r \<Longrightarrow> \<not> P r"
  shows "list_all P (runes s) \<longleftrightarrow> list_all (\<lambda>c. P (byte c)) s"
proof (induction s)
  case Nil
  then show ?case by simp
next
  case (Cons a s)
  show ?case
  proof (cases "is_ascii a")
    case True
    with Cons show ?thesis by (simp add: runes_ascii_Cons)
  next
    case False
    then have "\<not> P (fst (decode_rune (a # s)))" and "\<not> P (byte a)"
      using assms decode_rune_non_ascii [of a s] by (auto simp: is_ascii_def)
    then show ?thesis by (simp add: runes.simps)
  qed
qed

subsection \<open>Encoding\<close>

definition encode_rune :: "nat \<Rightarrow> string" where
  "encode_rune r0 =
     (let r = (if (55296 \<le> r0 \<and> r0 \<le> 57343) \<or> 1114111 < r0 then rune_error else r0)
      in if r < 128 then [char_of r]
         else if r < 2048 then [char_of (192 + r div 64), char_of (128 + r mod 64)]
         else if r < 65536 then
           [char_of (224 + r div 4096), char_of (128 + r div 64 mod 64), char_of (128 + r mod 64)]
         else [char_of (240 + r div 262144), char_of (128 + r div 4096 mod 64),
               char_of (128 + r div 64 mod 64), char_of (128 + r mod 64)])"

lemma encode_rune_ascii: "r < 128 \<Longrightarrow> encode_rune r = [char_of r]"
  by (simp add: encode_rune_def)

lemma encode_rune_nonempty [simp]: "encode_rune r \<noteq> []"
  by (simp add: encode_rune_def Let_def)

subsection \<open>Validity\<close>

function utf8_valid :: "string \<Rightarrow> bool" where
  "utf8_valid [] = True"
| "utf8_valid (a # s) = (if seq_len (a # s) = 0 then False
     else utf8_valid (drop (seq_len (a # s)) (a # s)))"
  by pat_completeness auto
termination
  by (relation "measure length") auto

declare utf8_valid.simps(2) [simp del]

lemma utf8_valid_ascii: "list_all is_ascii s \<Longrightarrow> utf8_valid s"
  by (induction s) (auto simp: utf8_valid.simps seq_len_ascii)

lemma seq_len_shapes:
  "seq_len s = 0
   \<or> (\<exists>a r. s = a # r \<and> seq_len s = 1 \<and> (\<forall>t. seq_len (a # t) = 1))
   \<or> (\<exists>a b r. s = a # b # r \<and> seq_len s = 2 \<and> (\<forall>t. seq_len (a # b # t) = 2))
   \<or> (\<exists>a b c r. s = a # b # c # r \<and> seq_len s = 3 \<and> (\<forall>t. seq_len (a # b # c # t) = 3))
   \<or> (\<exists>a b c d r. s = a # b # c # d # r \<and> seq_len s = 4
        \<and> (\<forall>t. seq_len (a # b # c # d # t) = 4))"
  by (cases s; cases "tl s"; cases "tl (tl s)"; cases "tl (tl (tl s))")
    (simp_all add: seq_len_def)

lemma seq_len_take:
  assumes "seq_len s \<noteq> 0"
  shows "seq_len (take (seq_len s) s @ t) = seq_len s"
  using assms seq_len_shapes [of s] by auto

lemma utf8_valid_prepend:
  assumes "seq_len s \<noteq> 0" and "utf8_valid t"
  shows "utf8_valid (take (seq_len s) s @ t)"
proof -
  let ?u = "take (seq_len s) s @ t"
  have len: "seq_len ?u = seq_len s"
    using assms(1) by (rule seq_len_take)
  have "length (take (seq_len s) s) = seq_len s"
    using seq_len_le(1) [of s] by simp
  then have "drop (seq_len s) ?u = t" by simp
  moreover obtain a v where u: "?u = a # v"
    using len assms(1) by (cases ?u) auto
  ultimately show ?thesis
    using len assms by (simp add: utf8_valid.simps(2) u)
qed

text \<open>
  Cutting a valid string anywhere leaves a valid string once at most three more bytes are
  removed, which is the number the capture code is prepared to remove.
\<close>

lemma utf8_valid_take:
  assumes "utf8_valid s" and "n \<le> length s"
  shows "\<exists>k \<le> 3. k \<le> n \<and> utf8_valid (take (n - k) s)"
  using assms
proof (induction s arbitrary: n rule: utf8_valid.induct)
  case 1
  then show ?case by auto
next
  case (2 a s)
  let ?m = "seq_len (a # s)"
  have m: "?m \<noteq> 0" and v: "utf8_valid (drop ?m (a # s))" and m4: "?m \<le> 4"
    using "2.prems"(1) seq_len_le(2) by (auto simp: utf8_valid.simps split: if_splits)
  show ?case
  proof (cases "n < ?m")
    case True
    then have "n \<le> 3" using m4 by simp
    then show ?thesis by (intro exI [of _ n]) simp
  next
    case False
    then obtain k where k: "k \<le> 3" "k \<le> n - ?m" "utf8_valid (take (n - ?m - k) (drop ?m (a # s)))"
      using "2.IH" [OF m v, of "n - ?m"] "2.prems"(2) by force
    have split: "take (n - k) (a # s) = take ?m (a # s) @ take (n - ?m - k) (drop ?m (a # s))"
      using False k take_add [of ?m "n - ?m - k" "a # s"] by (simp add: add.commute)
    have "utf8_valid (take ?m (a # s) @ take (n - ?m - k) (drop ?m (a # s)))"
      using m k(3) by (rule utf8_valid_prepend)
    then show ?thesis using k split False by auto
  qed
qed

end
