(* ===== verification/Go_Strings.thy ===== *)
theory Go_Strings
  imports Go_Utf8
begin

text \<open>
  The operations of packages \<^verbatim>\<open>strings\<close> and \<^verbatim>\<open>strconv\<close> that the agent uses.  Case
  mapping outside ASCII is the Unicode table of Go's standard library, which is a parameter
  (record \<open>ext\<close>); inside ASCII it is concrete, and the lemmas show that everything the agent
  compares after validation lies inside ASCII.  The same record carries the two functions of
  third-party or table-driven code that the validators consult: \<^verbatim>\<open>uuid.Validate\<close> of
  \<^verbatim>\<open>github.com/google/uuid\<close>, and whether \<^verbatim>\<open>mime.ParseMediaType\<close> reports an error.
\<close>

record ext =
  rune_lower :: "nat \<Rightarrow> nat"
  rune_upper :: "nat \<Rightarrow> nat"
  rune_fold :: "nat \<Rightarrow> nat"
  uuid_ok :: "string \<Rightarrow> bool"
  media_error :: "string \<Rightarrow> bool"

text \<open>The instance the witnesses run on: no case mapping outside ASCII, and every
  non-empty identifier accepted as a UUID.\<close>

definition sample_ext :: ext where
  "sample_ext = \<lparr>rune_lower = (\<lambda>r. r), rune_upper = (\<lambda>r. r), rune_fold = (\<lambda>r. r),
     uuid_ok = (\<lambda>s. s \<noteq> []), media_error = (\<lambda>s. False)\<rparr>"

subsection \<open>Searching, splitting, joining\<close>

definition contains_any :: "string \<Rightarrow> string \<Rightarrow> bool" where
  "contains_any s chars = list_ex (\<lambda>c. c \<in> set chars) s"

fun split_on :: "char \<Rightarrow> string \<Rightarrow> string list" where
  "split_on d [] = [[]]"
| "split_on d (c # s) =
     (case split_on d s of
        [] \<Rightarrow> []
      | x # xs \<Rightarrow> if c = d then [] # x # xs else (c # x) # xs)"

fun join_with :: "string \<Rightarrow> string list \<Rightarrow> string" where
  "join_with sep [] = []"
| "join_with sep [x] = x"
| "join_with sep (x # y # xs) = x @ sep @ join_with sep (y # xs)"

text \<open>\<^verbatim>\<open>strings.Cut\<close> at a byte: the part before, the part after, and whether it was found.\<close>

definition cut_at :: "char \<Rightarrow> string \<Rightarrow> string \<times> string \<times> bool" where
  "cut_at d s =
     (let before = takeWhile (\<lambda>c. c \<noteq> d) s; rest = dropWhile (\<lambda>c. c \<noteq> d) s
      in case rest of [] \<Rightarrow> (s, [], False) | _ # after \<Rightarrow> (before, after, True))"

definition trim_suffix :: "string \<Rightarrow> string \<Rightarrow> string" where
  "trim_suffix s x = (if suffix x s then take (length s - length x) s else s)"

definition trim_right :: "string \<Rightarrow> string \<Rightarrow> string" where
  "trim_right s cutset = rev (dropWhile (\<lambda>c. c \<in> set cutset) (rev s))"

definition trim_set :: "string \<Rightarrow> string \<Rightarrow> string" where
  "trim_set s cutset = trim_right (dropWhile (\<lambda>c. c \<in> set cutset) s) cutset"

lemma trim_right_idem [simp]: "trim_right (trim_right s cs) cs = trim_right s cs"
  by (simp add: trim_right_def dropWhile_idem)

lemma contains_any_iff: "contains_any s chars \<longleftrightarrow> set s \<inter> set chars \<noteq> {}"
  by (auto simp: contains_any_def list_ex_iff)

lemma split_on_nonempty [simp]: "split_on d s \<noteq> []"
  by (induction s) (auto split: list.splits)

lemma join_split_on [simp]: "join_with [d] (split_on d s) = s"
proof (induction s)
  case Nil
  then show ?case by simp
next
  case (Cons c s)
  obtain x xs where x: "split_on d s = x # xs"
    by (cases "split_on d s") auto
  have eq: "join_with [d] (x # xs) = s"
    using Cons.IH by (simp only: x)
  have "join_with [d] ((c # x) # xs) = c # join_with [d] (x # xs)"
    by (cases xs) simp_all
  then show ?case
    using eq by (cases "c = d") (simp_all add: x)
qed

lemma split_on_parts: "p \<in> set (split_on d s) \<Longrightarrow> d \<notin> set p \<and> set p \<subseteq> set s"
proof (induction s arbitrary: p)
  case Nil
  then show ?case by simp
next
  case (Cons c s)
  obtain x xs where x: "split_on d s = x # xs"
    by (cases "split_on d s") auto
  from Cons.prems consider "p \<in> set (x # xs)" | "p = []" | "p = c # x" and "c \<noteq> d"
    by (auto simp: x split: if_splits)
  then show ?case
  proof cases
    case 1
    with Cons.IH [of p] show ?thesis by (auto simp: x)
  next
    case 2
    then show ?thesis by simp
  next
    case 3
    with Cons.IH [of x] show ?thesis by (auto simp: x)
  qed
qed

lemma split_on_no_sep: "d \<notin> set s \<Longrightarrow> split_on d s = [s]"
  by (induction s) auto

lemma split_on_append_sep: "d \<notin> set x \<Longrightarrow> split_on d (x @ d # s) = x # split_on d s"
proof (induction x)
  case Nil
  obtain y ys where "split_on d s = y # ys" by (cases "split_on d s") auto
  then show ?case by simp
next
  case (Cons c x)
  then show ?case by auto
qed

lemma split_on_snoc: "split_on d (s @ [d]) = split_on d s @ [[]]"
  by (induction s) (auto split: list.split)

lemma last_split_on: "s \<noteq> [] \<Longrightarrow> last s = d \<Longrightarrow> [] \<in> set (split_on d s)"
  using split_on_snoc [of d "butlast s"] by (metis append_butlast_last_id in_set_conv_decomp)

lemma trim_set_id:
  assumes "set s \<inter> set cs = {}"
  shows "trim_set s cs = s"
proof -
  have id: "dropWhile (\<lambda>c. c \<in> set cs) x = x" if "set x \<subseteq> set s" for x
    using that assms by (cases x) auto
  then show ?thesis by (simp add: trim_set_def trim_right_def)
qed

lemma split_join: "xs \<noteq> [] \<Longrightarrow> (\<And>x. x \<in> set xs \<Longrightarrow> d \<notin> set x) \<Longrightarrow> split_on d (join_with [d] xs) = xs"
  by (induction "[d]" xs rule: join_with.induct) (auto simp: split_on_no_sep split_on_append_sep)

lemma cut_at_append: "d \<notin> set x \<Longrightarrow> cut_at d (x @ d # y) = (x, y, True)"
  by (simp add: cut_at_def takeWhile_append dropWhile_append)

lemma cut_at_fst: "fst (cut_at d s) = takeWhile (\<lambda>c. c \<noteq> d) s"
proof (cases "dropWhile (\<lambda>c. c \<noteq> d) s")
  case Nil
  with takeWhile_dropWhile_id [of "\<lambda>c. c \<noteq> d" s] have "takeWhile (\<lambda>c. c \<noteq> d) s = s"
    by (simp only: append_Nil2)
  with Nil show ?thesis unfolding cut_at_def Let_def by (simp only: list.case fst_conv)
next
  case (Cons c s)
  then show ?thesis by (simp add: cut_at_def)
qed

lemma cut_at_none: "d \<notin> set x \<Longrightarrow> cut_at d x = (x, [], False)"
proof -
  assume "d \<notin> set x"
  then have "dropWhile (\<lambda>c. c \<noteq> d) x = []" by auto
  then show "cut_at d x = (x, [], False)" by (simp only: cut_at_def Let_def list.case)
qed

subsection \<open>Case\<close>

definition lower_rune :: "ext \<Rightarrow> nat \<Rightarrow> nat" where
  "lower_rune E r = (if r < 128 then (if 65 \<le> r \<and> r \<le> 90 then r + 32 else r) else rune_lower E r)"

definition upper_rune :: "ext \<Rightarrow> nat \<Rightarrow> nat" where
  "upper_rune E r = (if r < 128 then (if 97 \<le> r \<and> r \<le> 122 then r - 32 else r) else rune_upper E r)"

text \<open>The representative of a rune under simple folding, which is what \<^verbatim>\<open>EqualFold\<close> compares.\<close>

definition fold_rune :: "ext \<Rightarrow> nat \<Rightarrow> nat" where
  "fold_rune E r = (if r < 128 then (if 65 \<le> r \<and> r \<le> 90 then r + 32 else r) else rune_fold E r)"

definition to_lower :: "ext \<Rightarrow> string \<Rightarrow> string" where
  "to_lower E s = (if list_all is_ascii s then map lower_byte s
     else concat (map (\<lambda>r. encode_rune (lower_rune E r)) (runes s)))"

definition to_upper :: "ext \<Rightarrow> string \<Rightarrow> string" where
  "to_upper E s = (if list_all is_ascii s then map upper_byte s
     else concat (map (\<lambda>r. encode_rune (upper_rune E r)) (runes s)))"

definition equal_fold :: "ext \<Rightarrow> string \<Rightarrow> string \<Rightarrow> bool" where
  "equal_fold E s t = (map (fold_rune E) (runes s) = map (fold_rune E) (runes t))"

lemma to_lower_ascii [go_facts]: "list_all is_ascii s \<Longrightarrow> to_lower E s = map lower_byte s"
  by (simp add: to_lower_def)

lemma to_upper_ascii [go_facts]: "list_all is_ascii s \<Longrightarrow> to_upper E s = map upper_byte s"
  by (simp add: to_upper_def)

lemma to_lower_Nil [simp]: "to_lower E [] = []"
  by (simp add: to_lower_def)

lemma fold_rune_byte: "is_ascii c \<Longrightarrow> fold_rune E (byte c) = byte (lower_byte c)"
  by (simp add: fold_rune_def is_ascii_def byte_lower_byte is_upper_def)

lemma equal_fold_ascii [go_facts]:
  assumes "list_all is_ascii s" and "list_all is_ascii t"
  shows "equal_fold E s t \<longleftrightarrow> map lower_byte s = map lower_byte t"
proof -
  have fold: "map (fold_rune E) (runes x) = map byte (map lower_byte x)"
    if "list_all is_ascii x" for x
    using that by (induction x) (auto simp: runes_ascii_Cons fold_rune_byte)
  have "inj (byte :: char \<Rightarrow> nat)" by (rule inj_of_char)
  then have "map byte u = map byte v \<longleftrightarrow> u = v" for u v
    by (simp add: inj_map_eq_map)
  then show ?thesis
    unfolding equal_fold_def fold [OF assms(1)] fold [OF assms(2)] .
qed

lemma equal_fold_refl [simp]: "equal_fold E s s"
  by (simp add: equal_fold_def)

lemma equal_fold_sym: "equal_fold E s t \<longleftrightarrow> equal_fold E t s"
  by (auto simp: equal_fold_def)

lemma equal_fold_trans: "equal_fold E s t \<Longrightarrow> equal_fold E t u \<Longrightarrow> equal_fold E s u"
  by (simp add: equal_fold_def)

subsection \<open>White space\<close>

text \<open>The runes of \<^verbatim>\<open>unicode.IsSpace\<close>, by their encodings.\<close>

definition space_runes :: "nat list" where
  "space_runes = [9, 10, 11, 12, 13, 32, 133, 160, 5760, 8192, 8193, 8194, 8195, 8196, 8197,
     8198, 8199, 8200, 8201, 8202, 8232, 8233, 8239, 8287, 12288]"

definition space_codes :: "string list" where
  "space_codes = map encode_rune space_runes"

lemma space_codes_code [code]: "space_codes = [
  [CHR 0x09], [CHR 0x0A], [CHR 0x0B], [CHR 0x0C], [CHR 0x0D], [CHR 0x20], [CHR 0xC2, CHR 0x85], 
  [CHR 0xC2, CHR 0xA0], [CHR 0xE1, CHR 0x9A, CHR 0x80], [CHR 0xE2, CHR 0x80, CHR 0x80], 
  [CHR 0xE2, CHR 0x80, CHR 0x81], [CHR 0xE2, CHR 0x80, CHR 0x82], 
  [CHR 0xE2, CHR 0x80, CHR 0x83], [CHR 0xE2, CHR 0x80, CHR 0x84], 
  [CHR 0xE2, CHR 0x80, CHR 0x85], [CHR 0xE2, CHR 0x80, CHR 0x86], 
  [CHR 0xE2, CHR 0x80, CHR 0x87], [CHR 0xE2, CHR 0x80, CHR 0x88], 
  [CHR 0xE2, CHR 0x80, CHR 0x89], [CHR 0xE2, CHR 0x80, CHR 0x8A], 
  [CHR 0xE2, CHR 0x80, CHR 0xA8], [CHR 0xE2, CHR 0x80, CHR 0xA9], 
  [CHR 0xE2, CHR 0x80, CHR 0xAF], [CHR 0xE2, CHR 0x81, CHR 0x9F], 
  [CHR 0xE3, CHR 0x80, CHR 0x80]]"
  by (simp add: space_codes_def space_runes_def encode_rune_def rune_error_def char_of_def bit_iff_odd)

function strip_codes :: "string list \<Rightarrow> string \<Rightarrow> string" where
  "strip_codes ps s = (case find (\<lambda>p. p \<noteq> [] \<and> prefix p s) ps of
       None \<Rightarrow> s | Some p \<Rightarrow> strip_codes ps (drop (length p) s))"
  by pat_completeness auto
termination
proof (relation "measure (\<lambda>(ps, s). length s)", simp)
  fix ps :: "string list" and s p
  assume "find (\<lambda>p. p \<noteq> [] \<and> prefix p s) ps = Some p"
  then have "p \<noteq> []" and "prefix p s" by (auto simp: find_Some_iff)
  then have "length p \<le> length s" and "0 < length p" by (auto simp: prefix_length_le)
  then have "length s - length p < length s" by linarith
  then show "((ps, drop (length p) s), (ps, s)) \<in> measure (\<lambda>(ps, s). length s)" by simp
qed

declare strip_codes.simps [simp del]

definition trim_space :: "string \<Rightarrow> string" where
  "trim_space s = rev (strip_codes (map rev space_codes) (rev (strip_codes space_codes s)))"

lemma strip_codes_id: "(\<And>p. p \<in> set ps \<Longrightarrow> p \<noteq> [] \<Longrightarrow> \<not> prefix p s) \<Longrightarrow> strip_codes ps s = s"
proof -
  assume "\<And>p. p \<in> set ps \<Longrightarrow> p \<noteq> [] \<Longrightarrow> \<not> prefix p s"
  then have "find (\<lambda>p. p \<noteq> [] \<and> prefix p s) ps = None"
    by (auto simp: find_None_iff)
  then show ?thesis by (subst strip_codes.simps) simp
qed

lemma strip_codes_set: "set (strip_codes ps s) \<subseteq> set s"
proof (induction ps s rule: strip_codes.induct)
  case (1 ps s)
  show ?case
  proof (cases "find (\<lambda>p. p \<noteq> [] \<and> prefix p s) ps")
    case None
    then show ?thesis by (subst strip_codes.simps) simp
  next
    case (Some p)
    with 1 show ?thesis
      by (subst strip_codes.simps) (auto dest: in_set_dropD)
  qed
qed

lemma trim_space_set: "set (trim_space s) \<subseteq> set s"
  using strip_codes_set [of "map rev space_codes" "rev (strip_codes space_codes s)"]
    strip_codes_set [of space_codes s]
  by (auto simp: trim_space_def)

lemma trim_space_Nil [simp]: "trim_space [] = []"
  using trim_space_set [of "[]"] by simp

text \<open>\<^verbatim>\<open>strings.Fields\<close>: the maximal runs of bytes that are not white space.\<close>

fun fields_from :: "string \<Rightarrow> string \<Rightarrow> nat \<Rightarrow> string list" where
  "fields_from word s 0 = (if word = [] then [] else [word])"
| "fields_from word s (Suc n) = (case s of
      [] \<Rightarrow> if word = [] then [] else [word]
    | c # t \<Rightarrow> (case find (\<lambda>p. p \<noteq> [] \<and> prefix p s) space_codes of
          Some p \<Rightarrow> (if word = [] then [] else [word]) @ fields_from [] (drop (length p) s) n
        | None \<Rightarrow> fields_from (word @ [c]) t n))"

definition split_fields :: "string \<Rightarrow> string list" where
  "split_fields s = fields_from [] s (Suc (length s))"

subsection \<open>Numbers\<close>

function digits_of :: "nat \<Rightarrow> string" where
  "digits_of n = (if n < 10 then [char_of (48 + n)]
     else digits_of (n div 10) @ [char_of (48 + n mod 10)])"
  by pat_completeness auto
termination
  by (relation "measure id") auto

declare digits_of.simps [simp del]

definition itoa :: "int \<Rightarrow> string" where
  "itoa i = (if i < 0 then CHR ''-'' # digits_of (nat (- i)) else digits_of (nat i))"

definition digits_value :: "string \<Rightarrow> nat" where
  "digits_value s = foldl (\<lambda>v c. v * 10 + (byte c - 48)) 0 s"

text \<open>\<^verbatim>\<open>strconv.Atoi\<close>: an optional sign, at least one digit, and a value that fits 64 bits.\<close>

definition atoi :: "string \<Rightarrow> int option" where
  "atoi s =
     (let neg = (s \<noteq> [] \<and> hd s = CHR ''-'');
          ds = (if s \<noteq> [] \<and> (hd s = CHR ''-'' \<or> hd s = CHR ''+'') then tl s else s);
          v = (if neg then - int (digits_value ds) else int (digits_value ds))
      in if ds = [] \<or> \<not> list_all is_digit ds then None
         else if v < - (2 ^ 63) \<or> 2 ^ 63 \<le> v then None
         else Some v)"

lemma digits_of_nonempty [simp]: "digits_of n \<noteq> []"
  by (subst digits_of.simps) simp

lemma digits_of_digits: "list_all is_digit (digits_of n)"
proof (induction n rule: digits_of.induct)
  case (1 n)
  show ?case
  proof (cases "n < 10")
    case True
    then show ?thesis by (subst digits_of.simps) (simp add: is_digit_def)
  next
    case False
    have "n mod 10 < 10" by simp
    then have "is_digit (char_of (48 + n mod 10))" by (simp add: is_digit_def)
    with False 1 show ?thesis by (subst digits_of.simps) simp
  qed
qed

lemma digits_value_snoc: "digits_value (s @ [c]) = digits_value s * 10 + (byte c - 48)"
  by (simp add: digits_value_def)

lemma digits_value_digits_of [simp]: "digits_value (digits_of n) = n"
proof (induction n rule: digits_of.induct)
  case (1 n)
  show ?case
  proof (cases "n < 10")
    case True
    then show ?thesis by (subst digits_of.simps) (simp add: digits_value_def)
  next
    case False
    with 1 show ?thesis
      by (subst digits_of.simps) (simp add: digits_value_snoc)
  qed
qed

lemma itoa_inj: "itoa i = itoa j \<longleftrightarrow> i = j"
proof
  have nominus: "digits_of n \<noteq> CHR ''-'' # s" for n s
  proof
    assume "digits_of n = CHR ''-'' # s"
    with digits_of_digits [of n] show False by (simp add: is_digit_def)
  qed
  assume "itoa i = itoa j"
  then have "i < 0 \<longleftrightarrow> j < 0" and "digits_of (nat \<bar>i\<bar>) = digits_of (nat \<bar>j\<bar>)"
    using nominus nominus [symmetric] by (auto simp: itoa_def split: if_splits)
  moreover from this(2) have "nat \<bar>i\<bar> = nat \<bar>j\<bar>"
    by (metis digits_value_digits_of)
  ultimately show "i = j" by linarith
qed simp

lemma itoa_chars: "c \<in> set (itoa i) \<Longrightarrow> c = CHR ''-'' \<or> is_digit c"
  using digits_of_digits by (auto simp: itoa_def list_all_iff split: if_splits)

lemma atoi_itoa:
  assumes "- (2 ^ 63) \<le> i" and "i < 2 ^ 63"
  shows "atoi (itoa i) = Some i"
proof (cases "i < 0")
  case True
  with assms show ?thesis
    using digits_of_digits [of "nat (- i)"] by (simp add: atoi_def itoa_def Let_def)
next
  case False
  obtain c s where cs: "digits_of (nat i) = c # s"
    by (cases "digits_of (nat i)") auto
  then have "is_digit c" using digits_of_digits [of "nat i"] by simp
  then have "c \<noteq> CHR ''-''" and "c \<noteq> CHR ''+''" by (auto simp: is_digit_def)
  moreover have "digits_value (c # s) = nat i" and "list_all is_digit (c # s)"
    using digits_value_digits_of [of "nat i"] digits_of_digits [of "nat i"] by (simp_all add: cs)
  ultimately show ?thesis
    using assms False by (simp add: atoi_def itoa_def Let_def cs)
qed

end
