(* ===== verification/Go_Net.thy ===== *)
theory Go_Net
  imports Go_Strings
begin

text \<open>
  The textual side of package \<^verbatim>\<open>net\<close> that the agent's validators use:
  \<^verbatim>\<open>net.ParseIP\<close> (IPv4, IPv6 with an ellipsis and an embedded IPv4 tail; an address with a
  zone is not an IP for it), \<^verbatim>\<open>IP.To4\<close>, \<^verbatim>\<open>IP.String\<close>,
  \<^verbatim>\<open>IsLoopback\<close>, \<^verbatim>\<open>IsUnspecified\<close>, \<^verbatim>\<open>SplitHostPort\<close> and
  \<^verbatim>\<open>JoinHostPort\<close>.  An address is its list of 16 byte values.
\<close>

subsection \<open>IPv4\<close>

definition ipv4_octet :: "string \<Rightarrow> nat option" where
  "ipv4_octet s =
     (if s = [] \<or> \<not> list_all is_digit s \<or> 3 < length s \<or> (1 < length s \<and> hd s = CHR ''0'')
         \<or> 255 < digits_value s
      then None else Some (digits_value s))"

definition parse_ipv4 :: "string \<Rightarrow> nat list option" where
  "parse_ipv4 s = (case map ipv4_octet (split_on CHR ''.'' s) of
       [Some a, Some b, Some c, Some d] \<Rightarrow> Some [a, b, c, d] | _ \<Rightarrow> None)"

subsection \<open>IPv6\<close>

definition hex_value :: "char \<Rightarrow> nat" where
  "hex_value c = (if is_digit c then byte c - 48
     else if 97 \<le> byte c \<and> byte c \<le> 102 then byte c - 87 else byte c - 55)"

definition is_hex :: "char \<Rightarrow> bool" where
  "is_hex c \<longleftrightarrow> is_digit c \<or> 97 \<le> byte c \<and> byte c \<le> 102 \<or> 65 \<le> byte c \<and> byte c \<le> 70"

definition hex_number :: "string \<Rightarrow> nat" where
  "hex_number s = foldl (\<lambda>v c. v * 16 + hex_value c) 0 s"

text \<open>
  The group loop of \<^verbatim>\<open>netip.ParseAddr\<close>: the groups left to read, the rest of the text,
  the bytes read so far and the position of the ellipsis.
\<close>

fun ipv6_groups :: "nat \<Rightarrow> string \<Rightarrow> nat list \<Rightarrow> nat option \<Rightarrow> (nat list \<times> nat option) option" where
  "ipv6_groups 0 s acc ell = (if s = [] then Some (acc, ell) else None)"
| "ipv6_groups (Suc n) s acc ell =
     (let h = takeWhile is_hex s; rest = dropWhile is_hex s;
          acc' = acc @ [hex_number h div 256, hex_number h mod 256]
      in if h = [] \<or> 4 < length h then None
         else case rest of
             [] \<Rightarrow> Some (acc', ell)
           | c # r \<Rightarrow>
               if c = CHR ''.'' then
                 (if (ell = None \<and> length acc \<noteq> 12) \<or> 16 < length acc + 4 then None
                  else map_option (\<lambda>fs. (acc @ fs, ell)) (parse_ipv4 s))
               else if c \<noteq> CHR '':'' \<or> r = [] then None
               else if hd r = CHR '':'' then
                 (if ell \<noteq> None then None
                  else if tl r = [] then Some (acc', Some (length acc'))
                  else ipv6_groups n (tl r) acc' (Some (length acc')))
               else ipv6_groups n r acc' ell)"

definition ipv6_expand :: "nat list \<times> nat option \<Rightarrow> nat list option" where
  "ipv6_expand p = (case p of (acc, ell) \<Rightarrow>
     if length acc < 16 then
       (case ell of None \<Rightarrow> None
        | Some e \<Rightarrow> Some (take e acc @ replicate (16 - length acc) 0 @ drop e acc))
     else if ell \<noteq> None then None else Some acc)"

definition parse_ipv6 :: "string \<Rightarrow> nat list option" where
  "parse_ipv6 s =
     (if prefix ''::'' s then
        (if length s = 2 then Some (replicate 16 0)
         else Option.bind (ipv6_groups 8 (drop 2 s) [] (Some 0)) ipv6_expand)
      else Option.bind (ipv6_groups 8 s [] None) ipv6_expand)"

subsection \<open>Addresses\<close>

definition parse_ip :: "string \<Rightarrow> nat list option" where
  "parse_ip s = (case find (\<lambda>c. c \<in> {CHR ''.'', CHR '':'', CHR ''%''}) s of
       None \<Rightarrow> None
     | Some c \<Rightarrow>
         if CHR ''%'' \<in> set s then None
         else if c = CHR ''.''
           then map_option (\<lambda>v. replicate 10 0 @ [255, 255] @ v) (parse_ipv4 s)
           else parse_ipv6 s)"

definition ip_to4 :: "nat list \<Rightarrow> nat list option" where
  "ip_to4 ip = (if take 12 ip = replicate 10 0 @ [255, 255] then Some (drop 12 ip) else None)"

definition is_loopback :: "nat list \<Rightarrow> bool" where
  "is_loopback ip = (case ip_to4 ip of
       Some v \<Rightarrow> v ! 0 = 127 | None \<Rightarrow> ip = replicate 15 0 @ [1])"

definition is_unspecified :: "nat list \<Rightarrow> bool" where
  "is_unspecified ip \<longleftrightarrow>
     ip = replicate 16 0 \<or> ip = replicate 10 0 @ [255, 255] @ replicate 4 0"

definition hex_digit :: "nat \<Rightarrow> char" where
  "hex_digit n = (if n < 10 then char_of (48 + n) else char_of (87 + n))"

definition hex_group :: "nat \<Rightarrow> string" where
  "hex_group v = dropWhile (\<lambda>c. c = CHR ''0'')
       [hex_digit (v div 4096 mod 16), hex_digit (v div 256 mod 16), hex_digit (v div 16 mod 16)]
     @ [hex_digit (v mod 16)]"

fun word_groups :: "nat list \<Rightarrow> nat list" where
  "word_groups (a # b # s) = (a * 256 + b) # word_groups s"
| "word_groups _ = []"

text \<open>The longest run of at least two zero groups, the first one among equals.\<close>

definition zero_run :: "nat list \<Rightarrow> nat \<Rightarrow> nat" where
  "zero_run gs i = length (takeWhile (\<lambda>g. g = 0) (drop i gs))"

definition best_run :: "nat list \<Rightarrow> (nat \<times> nat) option" where
  "best_run gs = fold (\<lambda>i best.
     (let l = zero_run gs i
      in if 2 \<le> l \<and> (case best of None \<Rightarrow> True | Some (_, m) \<Rightarrow> m < l) then Some (i, l) else best))
     [0..<length gs] None"

definition ipv6_string :: "nat list \<Rightarrow> string" where
  "ipv6_string ip =
     (let gs = word_groups ip in case best_run gs of
         None \<Rightarrow> join_with '':'' (map hex_group gs)
       | Some (i, l) \<Rightarrow> join_with '':'' (map hex_group (take i gs)) @ ''::''
           @ join_with '':'' (map hex_group (drop (i + l) gs)))"

definition ip_string :: "nat list \<Rightarrow> string" where
  "ip_string ip = (case ip_to4 ip of
       Some v \<Rightarrow> join_with ''.'' (map digits_of v) | None \<Rightarrow> ipv6_string ip)"

subsection \<open>Host and port\<close>

definition last_colon :: "string \<Rightarrow> (string \<times> string) option" where
  "last_colon s =
     (let p = rev (takeWhile (\<lambda>c. c \<noteq> CHR '':'') (rev s))
      in if CHR '':'' \<in> set s then Some (take (length s - Suc (length p)) s, p) else None)"

definition split_host_port :: "string \<Rightarrow> (string \<times> string) option" where
  "split_host_port s = (case last_colon s of
       None \<Rightarrow> None
     | Some (a, p) \<Rightarrow>
         if hd s = CHR ''['' then
           (let h = takeWhile (\<lambda>c. c \<noteq> CHR '']'') (tl a)
            in if a = CHR ''['' # h @ '']'' \<and> CHR ''['' \<notin> set (h @ p) \<and> CHR '']'' \<notin> set p
               then Some (h, p) else None)
         else if CHR '':'' \<in> set a \<or> CHR ''['' \<in> set s \<or> CHR '']'' \<in> set s then None
         else Some (a, p))"

definition join_host_port :: "string \<Rightarrow> string \<Rightarrow> string" where
  "join_host_port h p =
     (if CHR '':'' \<in> set h then ''['' @ h @ '']:'' @ p else h @ '':'' @ p)"

subsection \<open>Which characters an IP address has\<close>

definition ip_char :: "char \<Rightarrow> bool" where
  "ip_char c \<longleftrightarrow> is_hex c \<or> c = CHR ''.'' \<or> c = CHR '':''"

lemma set_split_on: "set s \<subseteq> insert d (\<Union> (set ` set (split_on d s)))"
proof (induction s)
  case (Cons c s)
  then show ?case by (cases "split_on d s") auto
qed simp

lemma parse_ipv4_chars:
  assumes "parse_ipv4 s \<noteq> None" and "c \<in> set s"
  shows "is_digit c \<or> c = CHR ''.''"
proof (rule ccontr)
  assume no: "\<not> (is_digit c \<or> c = CHR ''.'')"
  obtain o1 o2 o3 o4 where eq: "map ipv4_octet (split_on CHR ''.'' s) = [Some o1, Some o2, Some o3, Some o4]"
    using assms(1) by (auto simp: parse_ipv4_def split: list.splits option.splits)
  obtain p where p: "p \<in> set (split_on CHR ''.'' s)" "c \<in> set p"
    using assms(2) no set_split_on [of s "CHR ''.''"] by auto
  have "ipv4_octet p \<in> set (map ipv4_octet (split_on CHR ''.'' s))" using p(1) by simp
  then have "ipv4_octet p \<noteq> None" unfolding eq by auto
  with p(2) no show False by (auto simp: ipv4_octet_def list_all_iff split: if_splits)
qed

lemma parse_ipv4_length: "parse_ipv4 s = Some v \<Longrightarrow> length v = 4"
  by (auto simp: parse_ipv4_def split: list.splits option.splits)

lemma ipv6_groups_chars:
  "ipv6_groups n s acc ell \<noteq> None \<Longrightarrow> c \<in> set s \<Longrightarrow> ip_char c"
proof (induction n s acc ell rule: ipv6_groups.induct)
  case (1 s acc ell)
  then show ?case by (simp split: if_splits)
next
  case (2 n s acc ell)
  let ?h = "takeWhile is_hex s" and ?rest = "dropWhile is_hex s"
  have hex: "c \<in> set ?h \<Longrightarrow> ip_char c"
    by (auto simp: ip_char_def dest: set_takeWhileD)
  have c: "c \<in> set ?h \<or> c \<in> set ?rest"
    using "2.prems"(2) by (metis Un_iff set_append takeWhile_dropWhile_id)
  show ?case
  proof (cases ?rest)
    case Nil
    with c hex show ?thesis by simp
  next
    case (Cons d r)
    show ?thesis
    proof (cases "d = CHR ''.''")
      case True
      with "2.prems"(1) Cons have "parse_ipv4 s \<noteq> None"
        by (auto simp: Let_def split: if_splits)
      with "2.prems"(2) show ?thesis
        using parse_ipv4_chars by (auto simp: ip_char_def is_hex_def)
    next
      case False
      with "2.prems"(1) Cons have d: "d = CHR '':''" "r \<noteq> []" "?h \<noteq> []" "\<not> 4 < length ?h"
        by (auto simp: Let_def split: if_splits)
      have r: "set r \<subseteq> insert (hd r) (set (tl r))" using d(2) by (cases r) auto
      show ?thesis
        using "2.prems"(1) "2.IH"(1,2) [OF refl refl refl _ Cons] c hex r d False Cons
        by (auto simp: Let_def ip_char_def split: if_splits)
    qed
  qed
qed

lemma parse_ip_chars:
  assumes "parse_ip s \<noteq> None" and "c \<in> set s"
  shows "ip_char c"
proof -
  have v6: "ip_char c" if "parse_ipv6 s \<noteq> None"
  proof (cases "prefix ''::'' s")
    case True
    then obtain t where t: "s = ''::'' @ t" by (auto simp: prefix_def)
    with that show ?thesis
      using assms(2) ipv6_groups_chars [of 8 t "[]" "Some 0" c]
      by (auto simp: parse_ipv6_def ip_char_def bind_eq_Some_conv split: if_splits)
  next
    case False
    with that show ?thesis
      using assms(2) ipv6_groups_chars [of 8 s "[]" None c]
      by (auto simp: parse_ipv6_def bind_eq_Some_conv)
  qed
  show ?thesis
    using assms v6 parse_ipv4_chars
    by (auto simp: parse_ip_def ip_char_def is_hex_def split: option.splits if_splits)
qed

lemma parse_ipv4_last: "parse_ipv4 s \<noteq> None \<Longrightarrow> s \<noteq> [] \<Longrightarrow> last s \<noteq> CHR ''.''"
proof
  assume v4: "parse_ipv4 s \<noteq> None" and "s \<noteq> []" and "last s = CHR ''.''"
  then have "[] \<in> set (split_on CHR ''.'' s)" by (intro last_split_on)
  then have "ipv4_octet [] \<in> set (map ipv4_octet (split_on CHR ''.'' s))"
    by (metis image_eqI set_map)
  with v4 show False
    by (auto simp: parse_ipv4_def ipv4_octet_def split: list.splits option.splits)
qed

lemma ipv6_groups_last:
  "ipv6_groups n s acc ell \<noteq> None \<Longrightarrow> s \<noteq> [] \<Longrightarrow> last s \<noteq> CHR ''.''"
proof (induction n s acc ell rule: ipv6_groups.induct)
  case (1 s acc ell)
  then show ?case by simp
next
  case (2 n s acc ell)
  let ?h = "takeWhile is_hex s" and ?rest = "dropWhile is_hex s"
  show ?case
  proof (cases ?rest)
    case Nil
    then have "is_hex (last s)"
      using "2.prems"(2) by (metis dropWhile_eq_Nil_conv last_in_set)
    then show ?thesis by (auto simp: is_hex_def is_digit_def)
  next
    case (Cons d r)
    then have last: "last s = last (d # r)"
      by (metis last_appendR list.distinct(1) takeWhile_dropWhile_id)
    show ?thesis
    proof (cases "d = CHR ''.''")
      case True
      with "2.prems"(1) Cons have "parse_ipv4 s \<noteq> None"
        by (auto simp: Let_def split: if_splits)
      with "2.prems"(2) show ?thesis by (intro parse_ipv4_last)
    next
      case False
      with "2.prems"(1) Cons have d: "d = CHR '':''" "r \<noteq> []" "?h \<noteq> []" "\<not> 4 < length ?h"
        by (auto simp: Let_def split: if_splits)
      show ?thesis
      proof (cases "hd r = CHR '':''")
        case True
        have lr: "last (d # r) = (if tl r = [] then CHR '':'' else last (tl r))"
          using True d(2) by (cases r) auto
        show ?thesis
          using "2.prems"(1) "2.IH"(1) [OF refl refl refl _ Cons] d False Cons True
          unfolding last lr by (cases "tl r = []") (auto simp: Let_def split: if_splits)
      next
        case no: False
        then show ?thesis
          using "2.prems"(1) "2.IH"(2) [OF refl refl refl _ Cons] d False Cons last
          by (auto simp: Let_def split: if_splits)
      qed
    qed
  qed
qed

lemma parse_ip_last_dot: "parse_ip s \<noteq> None \<Longrightarrow> s \<noteq> [] \<Longrightarrow> last s \<noteq> CHR ''.''"
proof -
  assume ip: "parse_ip s \<noteq> None" and ne: "s \<noteq> []"
  show "last s \<noteq> CHR ''.''"
  proof (cases "parse_ipv4 s = None")
    case False
    then show ?thesis using ne by (rule parse_ipv4_last)
  next
    case True
    then have v6: "parse_ipv6 s \<noteq> None"
      using ip by (auto simp: parse_ip_def split: option.splits if_splits)
    show ?thesis
    proof (cases "prefix ''::'' s")
      case pre: True
      then obtain t where t: "s = ''::'' @ t" by (auto simp: prefix_def)
      with v6 show ?thesis
        using ipv6_groups_last [of 8 t "[]" "Some 0"]
        by (auto simp: parse_ipv6_def bind_eq_Some_conv split: if_splits)
    next
      case False
      with v6 show ?thesis
        using ipv6_groups_last [of 8 s "[]" None] ne
        by (auto simp: parse_ipv6_def bind_eq_Some_conv)
    qed
  qed
qed

lemma ip_char_ascii: "ip_char c \<Longrightarrow> is_ascii c"
  by (auto simp: ip_char_def is_hex_def is_digit_def is_ascii_def)

subsection \<open>Host and port round trip\<close>

lemma last_colon_append: "CHR '':'' \<notin> set p \<Longrightarrow> last_colon (a @ CHR '':'' # p) = Some (a, p)"
proof -
  assume p: "CHR '':'' \<notin> set p"
  then have "takeWhile (\<lambda>c. c \<noteq> CHR '':'') (rev p @ CHR '':'' # rev a) = rev p"
    by (subst takeWhile_append2) auto
  then show ?thesis by (simp add: last_colon_def)
qed

lemma last_colon_none: "CHR '':'' \<notin> set s \<Longrightarrow> last_colon s = None"
  by (simp add: last_colon_def Let_def)

lemma split_join_host_port:
  assumes h: "CHR ''['' \<notin> set h" "CHR '']'' \<notin> set h"
    and p: "set p \<inter> set '':[]'' = {}"
  shows "split_host_port (join_host_port h p) = Some (h, p)"
proof (cases "CHR '':'' \<in> set h")
  case True
  have "last_colon ((''['' @ h @ '']'') @ CHR '':'' # p) = Some (''['' @ h @ '']'', p)"
    by (rule last_colon_append) (use p in auto)
  moreover have "takeWhile (\<lambda>c. c \<noteq> CHR '']'') (h @ '']'') = h"
    using h(2) by (subst takeWhile_append2) auto
  ultimately show ?thesis
    using True h p by (simp add: split_host_port_def join_host_port_def)
next
  case False
  have "last_colon (h @ CHR '':'' # p) = Some (h, p)"
    by (rule last_colon_append) (use p in auto)
  moreover have "hd (h @ CHR '':'' # p) \<noteq> CHR ''[''"
    using h(1) by (cases h) auto
  ultimately show ?thesis
    using False h p by (simp add: split_host_port_def join_host_port_def)
qed

end
