(* ===== verification/Tunnel_Protocol.thy ===== *)
theory Tunnel_Protocol
  imports Go_Net "HOL-Library.Multiset"
begin

text \<open>
  Package \<^verbatim>\<open>tunnelprotocol\<close>: the message types of \<^verbatim>\<open>message.go\<close>, the limits of
  \<^verbatim>\<open>protocol.go\<close>, the error categories of \<^verbatim>\<open>errors.go\<close> and the structural
  validation of \<^verbatim>\<open>validation.go\<close>.  A Go \<^verbatim>\<open>error\<close> result is an option, \<open>None\<close> for
  nil.  A \<^verbatim>\<open>time.Time\<close> is its distance in nanoseconds from the zero time.
\<close>

subsection \<open>Limits and message types\<close>

definition Version :: int where "Version = 1"
definition MaxBodySize :: nat where "MaxBodySize = 10 * 1048576"
definition MaxMessageSize :: nat where "MaxMessageSize = MaxBodySize * 4 div 3 + 1048576"
definition MaxDependencyMessageSize :: nat where "MaxDependencyMessageSize = 2 * 1048576"
definition MaxDependencyRequestPreview :: nat where "MaxDependencyRequestPreview = 256 * 1024"
definition MaxDependencyResponsePreview :: nat where "MaxDependencyResponsePreview = 512 * 1024"
definition MaxDependencyHeaderBytes :: nat where "MaxDependencyHeaderBytes = 256 * 1024"
definition MaxDependencyConfigMessageSize :: nat where
  "MaxDependencyConfigMessageSize = 16 * 1048576"
definition MaxDependencyBehaviors :: nat where "MaxDependencyBehaviors = 1000"
definition MaxDependencyReplayBody :: nat where "MaxDependencyReplayBody = 1048576"

definition TypeRequest :: string where "TypeRequest = ''request''"
definition TypeResponse :: string where "TypeResponse = ''response''"
definition TypePing :: string where "TypePing = ''ping''"
definition TypePong :: string where "TypePong = ''pong''"
definition TypeError :: string where "TypeError = ''error''"
definition TypeDependencyInteraction :: string where
  "TypeDependencyInteraction = ''dependency_interaction_completed''"
definition TypeDependencyConfig :: string where
  "TypeDependencyConfig = ''dependency_behavior_snapshot''"

lemmas type_defs = TypeRequest_def TypeResponse_def TypePing_def TypePong_def TypeError_def
  TypeDependencyInteraction_def TypeDependencyConfig_def

type_synonym gotime = int
type_synonym header_map = "(string, string slice) gomap"
type_synonym headers = "header_map option"

record captured_body =
  cb_captured :: bool
  cb_content_type :: string
  cb_content :: string
  cb_size_bytes :: int
  cb_captured_bytes :: int
  cb_truncated :: bool
  cb_reason :: string

record captured_request =
  rq_method :: string
  rq_path :: string
  rq_raw_query :: string
  rq_headers :: headers
  rq_body :: captured_body
  rq_size_bytes :: int

record captured_response =
  rs_status :: int
  rs_headers :: headers
  rs_body :: captured_body
  rs_size_bytes :: int

record dependency_interaction =
  di_id :: string
  di_scheme :: string
  di_host :: string
  di_port :: int
  di_handled_by :: string
  di_started_at :: gotime
  di_completed_at :: gotime
  di_duration_ms :: int
  di_request :: captured_request
  di_response :: captured_response

record dependency_behavior =
  db_id :: string
  db_scheme :: string
  db_host :: string
  db_port :: int
  db_method :: string
  db_path :: string
  db_status :: int
  db_headers :: headers
  db_body :: string

record dependency_snapshot =
  ds_endpoint_id :: string
  ds_behaviors :: "dependency_behavior slice"

record message =
  msg_version :: int
  msg_type :: string
  msg_request_id :: string
  msg_method :: string
  msg_path :: string
  msg_headers :: headers
  msg_body_base64 :: string
  msg_status :: int
  msg_error_code :: string
  msg_error :: string
  msg_dependency :: "dependency_interaction option"
  msg_dependency_config :: "dependency_snapshot option"

definition empty_message :: message where
  "empty_message = \<lparr>msg_version = 0, msg_type = [], msg_request_id = [], msg_method = [],
     msg_path = [], msg_headers = None, msg_body_base64 = [], msg_status = 0,
     msg_error_code = [], msg_error = [], msg_dependency = None, msg_dependency_config = None\<rparr>"

datatype protocol_error = ErrBodyTooLarge | ErrMessageTooLarge | ErrInvalidMessage
  | ErrUnknownMessageType | ErrUnsupportedVersion

subsection \<open>Validation of the parts\<close>

definition token_punctuation :: string where
  "token_punctuation = ''!#$%&'' @ [CHR 0x27] @ ''*+-.^_'' @ [CHR 0x60] @ ''|~''"

definition token_char :: "char \<Rightarrow> bool" where
  "token_char c \<longleftrightarrow> is_lower c \<or> is_upper c \<or> is_digit c \<or> c \<in> set token_punctuation"

definition validHTTPToken :: "string \<Rightarrow> bool" where
  "validHTTPToken value \<longleftrightarrow> value \<noteq> [] \<and> list_all token_char value"

definition crlf :: string where
  "crlf = [CHR 0x0D, CHR 0x0A]"

definition blanks :: string where
  "blanks = [CHR '' '', CHR 0x09, CHR 0x0D, CHR 0x0A]"

text \<open>
  The loop over the header map, in iteration order, with the running size: the size is
  checked once per entry, after its values.
\<close>

fun validateHeaders_loop :: "nat \<Rightarrow> header_map \<Rightarrow> protocol_error option" where
  "validateHeaders_loop n [] = None"
| "validateHeaders_loop n ((name, values) # rest) =
     (if \<not> validHTTPToken name \<or> values = None then Some ErrInvalidMessage
      else if list_ex (\<lambda>v. contains_any v crlf) (elems values) then Some ErrInvalidMessage
      else let n' = n + length name + sum_list (map length (elems values))
           in if MaxDependencyHeaderBytes < n' then Some ErrMessageTooLarge
              else validateHeaders_loop n' rest)"

definition validateHeaders :: "headers \<Rightarrow> protocol_error option" where
  "validateHeaders hs = (case hs of
       None \<Rightarrow> Some ErrInvalidMessage | Some m \<Rightarrow> validateHeaders_loop 0 m)"

definition validExactDependencyPath :: "string \<Rightarrow> bool" where
  "validExactDependencyPath path =
     (if path = [] \<or> 8192 < length path \<or> hd path \<noteq> CHR ''/'' \<or> contains_any path ''?#''
      then False
      else \<not> list_ex (\<lambda>r. r \<le> 31 \<or> r = 127) (runes path))"

definition label_rune :: "nat \<Rightarrow> bool" where
  "label_rune r \<longleftrightarrow> 97 \<le> r \<and> r \<le> 122 \<or> 65 \<le> r \<and> r \<le> 90 \<or> 48 \<le> r \<and> r \<le> 57 \<or> r = 45"

definition valid_label :: "string \<Rightarrow> bool" where
  "valid_label label \<longleftrightarrow>
     \<not> (length label = 0 \<or> 63 < length label \<or> hd label = CHR ''-'' \<or> last label = CHR ''-'')
     \<and> list_all label_rune (runes label)"

definition host_specials :: string where
  "host_specials = [CHR ''/'', CHR 0x5C, CHR ''@''] @ blanks"

definition validDependencyHost :: "string \<Rightarrow> bool" where
  "validDependencyHost host =
     (if host = [] \<or> 253 < length host \<or> contains_any host host_specials then False
      else if parse_ip host \<noteq> None then True
      else list_all valid_label (split_on CHR ''.'' host))"

definition validateCapturedBody :: "captured_body \<Rightarrow> nat \<Rightarrow> protocol_error option" where
  "validateCapturedBody body limit =
     (if cb_size_bytes body < 0 \<or> cb_captured_bytes body < 0
          \<or> int limit < cb_captured_bytes body \<or> 255 < length (cb_content_type body)
          \<or> 64 < length (cb_reason body) then Some ErrInvalidMessage
      else if \<not> cb_captured body then
        (if cb_content body \<noteq> [] \<or> cb_captured_bytes body \<noteq> 0 \<or> cb_truncated body
         then Some ErrInvalidMessage else None)
      else if \<not> utf8_valid (cb_content body)
          \<or> int (length (cb_content body)) \<noteq> cb_captured_bytes body
          \<or> cb_size_bytes body < cb_captured_bytes body
          \<or> cb_truncated body \<noteq> (cb_captured_bytes body < cb_size_bytes body)
        then Some ErrInvalidMessage
      else None)"

definition validateDependency :: "dependency_interaction \<Rightarrow> protocol_error option" where
  "validateDependency v =
     (let rq = di_request v; rs = di_response v in
      if di_id v = [] \<or> (di_scheme v \<noteq> ''http'' \<and> di_scheme v \<noteq> ''https'')
        \<or> \<not> validDependencyHost (di_host v)
        \<or> di_port v < 1 \<or> 65535 < di_port v \<or> di_started_at v = 0 \<or> di_completed_at v = 0
        \<or> (di_handled_by v \<noteq> [] \<and> di_handled_by v \<noteq> ''ORIGIN'' \<and> di_handled_by v \<noteq> ''REPLAY'')
        \<or> di_completed_at v < di_started_at v \<or> di_duration_ms v < 0
        \<or> rq_method rq = [] \<or> 32 < length (rq_method rq)
        \<or> rq_path rq = [] \<or> 8192 < length (rq_path rq) \<or> hd (rq_path rq) \<noteq> CHR ''/''
        \<or> 65536 < length (rq_raw_query rq) \<or> rq_size_bytes rq < 0
        \<or> rs_status rs < 100 \<or> 599 < rs_status rs \<or> rs_size_bytes rs < 0
        \<or> validateHeaders (rq_headers rq) \<noteq> None \<or> validateHeaders (rs_headers rs) \<noteq> None
        \<or> validateCapturedBody (rq_body rq) MaxDependencyRequestPreview \<noteq> None
        \<or> validateCapturedBody (rs_body rs) MaxDependencyResponsePreview \<noteq> None
      then Some ErrInvalidMessage else None)"

subsection \<open>Behaviour snapshots\<close>

text \<open>
  The matcher key: the five fields with NUL between them.  \<^verbatim>\<open>validateDependencyConfig\<close>
  builds it inline; \<^verbatim>\<open>matcherKey\<close> of the behaviour store builds the same string.
\<close>

definition nul :: char where
  "nul = CHR 0x00"

definition matcherKey :: "string \<Rightarrow> string \<Rightarrow> int \<Rightarrow> string \<Rightarrow> string \<Rightarrow> string" where
  "matcherKey scheme host port method path =
     scheme @ [nul] @ host @ [nul] @ itoa port @ [nul] @ method @ [nul] @ path"

definition behavior_key :: "dependency_behavior \<Rightarrow> string" where
  "behavior_key b = matcherKey (db_scheme b) (db_host b) (db_port b) (db_method b) (db_path b)"

definition valid_behavior :: "ext \<Rightarrow> dependency_behavior \<Rightarrow> bool" where
  "valid_behavior E b \<longleftrightarrow>
     \<not> (\<not> uuid_ok E (db_id b)
        \<or> (db_scheme b \<noteq> ''http'' \<and> db_scheme b \<noteq> ''https'')
        \<or> \<not> validDependencyHost (db_host b) \<or> db_host b \<noteq> to_lower E (db_host b)
        \<or> db_port b < 1 \<or> 65535 < db_port b \<or> 32 < length (db_method b)
        \<or> \<not> validHTTPToken (db_method b)
        \<or> db_method b \<noteq> to_upper E (db_method b) \<or> \<not> validExactDependencyPath (db_path b)
        \<or> db_status b < 100 \<or> 599 < db_status b \<or> MaxDependencyReplayBody < length (db_body b)
        \<or> validateHeaders (db_headers b) \<noteq> None)"

fun validate_behaviors :: "ext \<Rightarrow> string list \<Rightarrow> dependency_behavior list \<Rightarrow> protocol_error option" where
  "validate_behaviors E seen [] = None"
| "validate_behaviors E seen (b # bs) =
     (if \<not> valid_behavior E b then Some ErrInvalidMessage
      else if behavior_key b \<in> set seen then Some ErrInvalidMessage
      else validate_behaviors E (behavior_key b # seen) bs)"

definition validateDependencyConfig :: "ext \<Rightarrow> dependency_snapshot \<Rightarrow> protocol_error option" where
  "validateDependencyConfig E v =
     (if \<not> uuid_ok E (ds_endpoint_id v) \<or> ds_behaviors v = None
          \<or> MaxDependencyBehaviors < length (elems (ds_behaviors v))
      then Some ErrInvalidMessage
      else validate_behaviors E [] (elems (ds_behaviors v)))"

definition Validate :: "ext \<Rightarrow> message \<Rightarrow> protocol_error option" where
  "Validate E m =
     (if msg_version m \<noteq> Version then Some ErrUnsupportedVersion
      else if msg_type m = TypeRequest then
        (if msg_request_id m = [] \<or> msg_method m = [] \<or> msg_path m = []
         then Some ErrInvalidMessage else None)
      else if msg_type m = TypeResponse then
        (if msg_request_id m = [] \<or> msg_status m = 0 then Some ErrInvalidMessage else None)
      else if msg_type m = TypeError then
        (if msg_request_id m = [] \<or> msg_error_code m = [] then Some ErrInvalidMessage else None)
      else if msg_type m = TypePing \<or> msg_type m = TypePong then None
      else if msg_type m = TypeDependencyInteraction then
        (case msg_dependency m of None \<Rightarrow> Some ErrInvalidMessage
         | Some d \<Rightarrow> if validateDependency d \<noteq> None then Some ErrInvalidMessage else None)
      else if msg_type m = TypeDependencyConfig then
        (case msg_dependency_config m of None \<Rightarrow> Some ErrInvalidMessage
         | Some c \<Rightarrow> if validateDependencyConfig E c \<noteq> None then Some ErrInvalidMessage else None)
      else Some ErrUnknownMessageType)"

text \<open>\<^verbatim>\<open>IsValidationError\<close>, and \<^verbatim>\<open>ReadBody\<close> on a reader given by the bytes it
  delivers and whether it then fails (rather than reporting EOF).\<close>

definition IsValidationError :: "protocol_error \<Rightarrow> bool" where
  "IsValidationError e \<longleftrightarrow> e = ErrInvalidMessage \<or> e = ErrUnknownMessageType
     \<or> e = ErrUnsupportedVersion \<or> e = ErrMessageTooLarge"

datatype read_error = ReaderFailed | ReadTooLarge

text \<open>
  \<^verbatim>\<open>io.ReadAll(io.LimitReader(reader, n))\<close>: once \<open>n\<close> bytes have been delivered the
  limited reader reports EOF, so a failure behind them is not seen (a reader reports its
  failure in a read of its own, after its last bytes, as the HTTP body readers do).
\<close>

definition read_limited :: "nat \<Rightarrow> string \<times> bool \<Rightarrow> string option" where
  "read_limited n r = (if snd r \<and> length (fst r) < n then None else Some (take n (fst r)))"

definition ReadBody :: "string \<times> bool \<Rightarrow> read_error + string" where
  "ReadBody r = (case read_limited (MaxBodySize + 1) r of
       None \<Rightarrow> Inl ReaderFailed
     | Some body \<Rightarrow> if MaxBodySize < length body then Inl ReadTooLarge else Inr body)"


subsection \<open>Headers: the map order does not matter\<close>

definition header_bytes :: "header_map \<Rightarrow> nat" where
  "header_bytes m = sum_list (map (\<lambda>p. length (fst p) + sum_list (map length (elems (snd p)))) m)"

definition header_entry_ok :: "string \<times> string slice \<Rightarrow> bool" where
  "header_entry_ok p \<longleftrightarrow> validHTTPToken (fst p) \<and> snd p \<noteq> None
     \<and> (\<forall>v \<in> set (elems (snd p)). set v \<inter> set crlf = {})"

lemma validateHeaders_loop_iff:
  "n \<le> MaxDependencyHeaderBytes \<Longrightarrow>
   validateHeaders_loop n m = None \<longleftrightarrow>
     list_all header_entry_ok m \<and> n + header_bytes m \<le> MaxDependencyHeaderBytes"
proof (induction n m rule: validateHeaders_loop.induct)
  case (1 n)
  then show ?case by (simp add: header_bytes_def)
next
  case (2 n name "values" rest)
  let ?n = "n + length name + sum_list (map length (elems values))"
  show ?case
  proof (cases "header_entry_ok (name, values) \<and> ?n \<le> MaxDependencyHeaderBytes")
    case True
    then have ok: "\<not> (\<not> validHTTPToken name \<or> values = None)"
      "\<not> list_ex (\<lambda>v. contains_any v crlf) (elems values)"
      by (auto simp: header_entry_ok_def list_ex_iff contains_any_iff)
    with 2 True show ?thesis
      by (auto simp: header_bytes_def Let_def)
  next
    case False
    then show ?thesis
      by (auto simp: header_entry_ok_def list_ex_iff contains_any_iff header_bytes_def Let_def)
  qed
qed

lemma validateHeaders_iff:
  "validateHeaders hs = None \<longleftrightarrow> (\<exists>m. hs = Some m \<and> list_all header_entry_ok m
     \<and> header_bytes m \<le> MaxDependencyHeaderBytes)"
  using validateHeaders_loop_iff [of 0]
  by (auto simp: validateHeaders_def split: option.splits)

lemma header_bytes_mset: "mset m = mset m' \<Longrightarrow> header_bytes m = header_bytes m'"
proof -
  assume eq: "mset m = mset m'"
  let ?f = "\<lambda>p. length (fst p) + sum_list (map length (elems (snd p)))"
  have "header_bytes m = sum_mset (image_mset ?f (mset m))" for m
    by (simp only: header_bytes_def mset_map [symmetric] sum_mset_sum_list)
  then show ?thesis by (simp add: eq)
qed

lemma list_all_mset: "mset m = mset m' \<Longrightarrow> list_all P m = list_all P m'"
  by (metis list_all_iff mset_eq_setD)

subsection \<open>Which characters validated fields have\<close>

definition label_char :: "char \<Rightarrow> bool" where
  "label_char c \<longleftrightarrow> is_lower c \<or> is_upper c \<or> is_digit c \<or> c = CHR ''-''"

lemma label_rune_byte: "label_rune (byte c) \<longleftrightarrow> label_char c"
proof -
  have "byte c = 45 \<longleftrightarrow> c = CHR ''-''"
    using byte_eq_iff [of c "CHR ''-''"] by simp
  then show ?thesis
    by (auto simp: label_rune_def label_char_def is_lower_def is_upper_def is_digit_def)
qed

lemma valid_label_iff [code]:
  "valid_label l \<longleftrightarrow> l \<noteq> [] \<and> length l \<le> 63 \<and> hd l \<noteq> CHR ''-'' \<and> last l \<noteq> CHR ''-''
     \<and> list_all label_char l"
proof -
  have "\<not> label_rune r" if "128 \<le> r" for r
    using that by (simp add: label_rune_def)
  then have "list_all label_rune (runes l) \<longleftrightarrow> list_all label_char l"
    by (subst runes_all_ascii) (simp_all add: label_rune_byte)
  then show ?thesis by (auto simp: valid_label_def)
qed

definition host_char :: "char \<Rightarrow> bool" where
  "host_char c \<longleftrightarrow> label_char c \<or> c = CHR ''.'' \<or> c = CHR '':''"

lemma host_char_ascii: "host_char c \<Longrightarrow> is_ascii c"
  by (auto simp: host_char_def label_char_def is_lower_def is_upper_def is_digit_def is_ascii_def)

lemma host_char_not: "\<not> host_char nul" "\<not> host_char CHR ''[''" "\<not> host_char CHR '']''"
  by (auto simp: host_char_def label_char_def is_lower_def is_upper_def is_digit_def nul_def)

lemma ip_char_host: "ip_char c \<Longrightarrow> host_char c"
  by (auto simp: ip_char_def is_hex_def host_char_def label_char_def is_lower_def is_upper_def
      is_digit_def)

lemma valid_host_chars:
  assumes "validDependencyHost h" and "c \<in> set h"
  shows "host_char c"
proof (cases "parse_ip h = None")
  case False
  then show ?thesis using assms(2) by (intro ip_char_host) (rule parse_ip_chars)
next
  case True
  with assms(1) have labels: "list_all valid_label (split_on CHR ''.'' h)"
    by (auto simp: validDependencyHost_def split: if_splits)
  show ?thesis
  proof (cases "c = CHR ''.''")
    case False
    then obtain l where "l \<in> set (split_on CHR ''.'' h)" "c \<in> set l"
      using assms(2) set_split_on [of h "CHR ''.''"] by auto
    with labels show ?thesis
      by (auto simp: list_all_iff valid_label_iff host_char_def)
  qed (simp add: host_char_def)
qed

lemma valid_host_ascii: "validDependencyHost h \<Longrightarrow> list_all is_ascii h"
  using valid_host_chars host_char_ascii by (auto simp: list_all_iff)

lemma valid_host_nonempty: "validDependencyHost h \<Longrightarrow> h \<noteq> []"
  by (auto simp: validDependencyHost_def split: if_splits)

lemma token_char_ascii: "token_char c \<Longrightarrow> is_ascii c \<and> c \<noteq> nul"
  by (auto simp: token_char_def is_lower_def is_upper_def is_digit_def
      is_ascii_def nul_def token_punctuation_def)

lemma token_ascii: "validHTTPToken t \<Longrightarrow> list_all is_ascii t"
  using token_char_ascii by (auto simp: validHTTPToken_def list_all_iff)

lemma exact_path_bytes [code]:
  "validExactDependencyPath p =
     (if p = [] \<or> 8192 < length p \<or> hd p \<noteq> CHR ''/'' \<or> contains_any p ''?#'' then False
      else \<not> list_ex (\<lambda>c. byte c \<le> 31 \<or> byte c = 127) p)"
proof -
  have "list_ex (\<lambda>r. r \<le> 31 \<or> r = 127) (runes p) = list_ex (\<lambda>c. byte c \<le> 31 \<or> byte c = 127) p"
    by (rule runes_ex_ascii) auto
  then show ?thesis by (simp add: validExactDependencyPath_def)
qed

lemma exact_path_chars:
  "validExactDependencyPath p \<Longrightarrow> c \<in> set p \<Longrightarrow> 31 < byte c \<and> byte c \<noteq> 127"
  by (force simp: exact_path_bytes list_ex_iff split: if_splits)

subsection \<open>Matcher keys\<close>

lemma append_sep_inj:
  "d \<notin> set x \<Longrightarrow> d \<notin> set x' \<Longrightarrow> x @ d # y = x' @ d # y' \<longleftrightarrow> x = x' \<and> y = y'"
proof (induction x arbitrary: x')
  case Nil
  then show ?case by (cases x') auto
next
  case (Cons a x)
  then show ?case by (cases x') auto
qed

lemma itoa_no_nul: "nul \<notin> set (itoa i)"
  using itoa_chars [of nul i] by (auto simp: nul_def is_digit_def)

lemma matcherKey_inj:
  assumes "nul \<notin> set s" "nul \<notin> set s'" "nul \<notin> set h" "nul \<notin> set h'" "nul \<notin> set m" "nul \<notin> set m'"
  shows "matcherKey s h p m pa = matcherKey s' h' p' m' pa'
     \<longleftrightarrow> s = s' \<and> h = h' \<and> p = p' \<and> m = m' \<and> pa = pa'"
  using assms itoa_no_nul by (simp add: matcherKey_def append_sep_inj itoa_inj)

definition behavior_matcher :: "dependency_behavior \<Rightarrow> string \<times> string \<times> int \<times> string \<times> string" where
  "behavior_matcher b = (db_scheme b, db_host b, db_port b, db_method b, db_path b)"

lemma valid_behavior_no_nul:
  assumes "valid_behavior E b"
  shows "nul \<notin> set (db_scheme b)" "nul \<notin> set (db_host b)" "nul \<notin> set (db_method b)"
proof -
  show "nul \<notin> set (db_scheme b)"
    using assms by (auto simp: valid_behavior_def nul_def)
  show "nul \<notin> set (db_host b)"
    using assms valid_host_chars host_char_not(1) by (auto simp: valid_behavior_def)
  show "nul \<notin> set (db_method b)"
    using assms token_char_ascii by (auto simp: valid_behavior_def validHTTPToken_def list_all_iff)
qed

lemma behavior_key_inj:
  "valid_behavior E b \<Longrightarrow> valid_behavior E b' \<Longrightarrow>
   behavior_key b = behavior_key b' \<longleftrightarrow> behavior_matcher b = behavior_matcher b'"
  by (simp add: behavior_key_def behavior_matcher_def matcherKey_inj valid_behavior_no_nul)

lemma validate_behaviors_iff:
  "validate_behaviors E seen bs = None \<longleftrightarrow> list_all (valid_behavior E) bs
     \<and> distinct (map behavior_key bs) \<and> set (map behavior_key bs) \<inter> set seen = {}"
  by (induction bs arbitrary: seen) auto

lemma validateDependencyConfig_iff:
  "validateDependencyConfig E v = None \<longleftrightarrow> uuid_ok E (ds_endpoint_id v)
     \<and> (\<exists>bs. ds_behaviors v = Some bs \<and> length bs \<le> MaxDependencyBehaviors
          \<and> list_all (valid_behavior E) bs \<and> distinct (map behavior_matcher bs))"
proof -
  have "distinct (map behavior_key bs) \<longleftrightarrow> distinct (map behavior_matcher bs)"
    if "list_all (valid_behavior E) bs" for bs
    using that by (induction bs) (auto simp: list_all_iff behavior_key_inj image_iff)
  then show ?thesis
    by (auto simp: validateDependencyConfig_def validate_behaviors_iff)
qed

lemma valid_behavior_lower_host: "valid_behavior E b \<Longrightarrow> map lower_byte (db_host b) = db_host b"
  using valid_host_ascii by (force simp: valid_behavior_def to_lower_ascii)

lemma valid_behavior_upper_method: "valid_behavior E b \<Longrightarrow> map upper_byte (db_method b) = db_method b"
  using token_ascii by (force simp: valid_behavior_def to_upper_ascii)

lemma Validate_config_message:
  "msg_version m = Version \<Longrightarrow> msg_type m = TypeDependencyConfig \<Longrightarrow>
   Validate E m = None \<longleftrightarrow> (\<exists>c. msg_dependency_config m = Some c \<and> validateDependencyConfig E c = None)"
  by (auto simp: Validate_def type_defs split: option.splits)

lemma Validate_interaction_message:
  "msg_version m = Version \<Longrightarrow> msg_type m = TypeDependencyInteraction \<Longrightarrow>
   Validate E m = None \<longleftrightarrow> (\<exists>d. msg_dependency m = Some d \<and> validateDependency d = None)"
  by (auto simp: Validate_def type_defs split: option.splits)

subsection \<open>Bodies\<close>

lemma read_limited_length: "read_limited n r = Some d \<Longrightarrow> length d \<le> n"
  by (auto simp: read_limited_def split: if_splits)

lemma ReadBody_Inr:
  "ReadBody (data, failed) = Inr body \<longleftrightarrow>
     body = data \<and> length data \<le> MaxBodySize \<and> \<not> failed"
  by (auto simp: ReadBody_def read_limited_def min_def split: if_splits)

lemma ReadBody_too_large:
  "ReadBody (data, failed) = Inl ReadTooLarge \<longleftrightarrow> MaxBodySize < length data"
  by (auto simp: ReadBody_def read_limited_def min_def split: if_splits)

subsection \<open>The protocol's promises\<close>

text \<open>Whether a header map is accepted does not depend on the order in which Go happens to
  iterate over it, although the loop stops at the first bad entry and counts bytes as it goes.\<close>

theorem validateHeaders_order_free:
  assumes "mset m = mset m'"
  shows "(validateHeaders (Some m) = None) = (validateHeaders (Some m') = None)"
  using list_all_mset [OF assms, of header_entry_ok] header_bytes_mset [OF assms]
  by (simp add: validateHeaders_iff)

lemma validateHeaders_order_free_witness:
  "(validateHeaders (Some [(''A'', Some [''x'']), (''B'', Some [])]) = None)
     = (validateHeaders (Some [(''B'', Some []), (''A'', Some [''x''])]) = None)"
  by (rule validateHeaders_order_free) simp

text \<open>A host is accepted exactly when it has 1 to 253 bytes and is an IP address or a list of
  labels of 1 to 63 letters, digits and inner hyphens: the code's extra scan for slashes, at signs,
  backslashes and blanks excludes nothing that this grammar admits.\<close>

theorem validDependencyHost_grammar:
  "validDependencyHost h \<longleftrightarrow> h \<noteq> [] \<and> length h \<le> 253
     \<and> ((\<exists>ip. parse_ip h = Some ip)
        \<or> list_all (\<lambda>l. l \<noteq> [] \<and> length l \<le> 63 \<and> hd l \<noteq> CHR ''-'' \<and> last l \<noteq> CHR ''-''
             \<and> list_all label_char l) (split_on CHR ''.'' h))"
proof -
  let ?g = "\<lambda>h. parse_ip h \<noteq> None \<or> list_all valid_label (split_on CHR ''.'' h)"
  have "\<not> contains_any h host_specials" if "?g h"
  proof -
    have "host_char c" if "c \<in> set h" for c
    proof (cases "parse_ip h = None")
      case False
      then show ?thesis using that by (intro ip_char_host) (rule parse_ip_chars)
    next
      case True
      show ?thesis
        using True \<open>?g h\<close> that set_split_on [of h "CHR ''.''"]
        by (fastforce simp: list_all_iff valid_label_iff host_char_def)
    qed
    moreover have "\<not> host_char c" if "c \<in> set host_specials" for c
      using that by (auto simp: host_specials_def blanks_def host_char_def label_char_def
          is_lower_def is_upper_def is_digit_def)
    ultimately show ?thesis by (auto simp: contains_any_iff)
  qed
  then have "validDependencyHost h \<longleftrightarrow> h \<noteq> [] \<and> length h \<le> 253 \<and> ?g h"
    by (auto simp: validDependencyHost_def)
  moreover have "list_all valid_label ls = list_all (\<lambda>l. l \<noteq> [] \<and> length l \<le> 63
      \<and> hd l \<noteq> CHR ''-'' \<and> last l \<noteq> CHR ''-'' \<and> list_all label_char l) ls" for ls
    by (simp add: list_all_iff valid_label_iff)
  ultimately show ?thesis by (simp flip: not_None_eq)
qed

text \<open>A message of the snapshot type is accepted exactly when it has the current version, a
  snapshot with a UUID and a non-nil list of at most 1000 valid behaviours, and no two of them
  match the same requests: the check on the joined key string is exact, since no accepted field
  contains the separator byte.\<close>

theorem snapshot_message_accepted:
  "Validate E m = None \<and> msg_type m = TypeDependencyConfig \<longleftrightarrow>
     msg_version m = Version \<and> msg_type m = TypeDependencyConfig
     \<and> (\<exists>c bs. msg_dependency_config m = Some c \<and> uuid_ok E (ds_endpoint_id c)
          \<and> ds_behaviors c = Some bs \<and> length bs \<le> 1000 \<and> list_all (valid_behavior E) bs
          \<and> distinct (map behavior_matcher bs))"
proof -
  have "Validate E m \<noteq> None" if "msg_version m \<noteq> Version"
    using that by (simp add: Validate_def)
  with Validate_config_message [of m E] validateDependencyConfig_iff [of E] show ?thesis
    by (fastforce simp: MaxDependencyBehaviors_def)
qed

text \<open>A message of the interaction type is accepted exactly when it has the current version
  and carries an interaction whose host, port, times, method, path, query, status, headers and
  bodies are within the protocol's bounds; in particular a captured body never exceeds its bound
  and is valid UTF-8.\<close>

theorem interaction_message_bounds:
  assumes "Validate E m = None" and "msg_type m = TypeDependencyInteraction"
    and "msg_dependency m = Some d"
  shows "msg_version m = Version \<and> di_port d \<in> {1..65535} \<and> rs_status (di_response d) \<in> {100..599}
     \<and> di_started_at d \<le> di_completed_at d \<and> length (rq_path (di_request d)) \<le> 8192
     \<and> (\<exists>hs. rq_headers (di_request d) = Some hs \<and> header_bytes hs \<le> 262144)
     \<and> (\<exists>hs. rs_headers (di_response d) = Some hs \<and> header_bytes hs \<le> 262144)
     \<and> length (cb_content (rq_body (di_request d))) \<le> 262144
     \<and> length (cb_content (rs_body (di_response d))) \<le> 524288
     \<and> utf8_valid (cb_content (rq_body (di_request d)))
     \<and> utf8_valid (cb_content (rs_body (di_response d)))"
proof -
  have v: "msg_version m = Version"
    using assms(1) by (auto simp: Validate_def split: if_splits)
  from Validate_interaction_message [OF v assms(2)] assms have "validateDependency d = None" by auto
  then have d: "1 \<le> di_port d" "di_port d \<le> 65535" "100 \<le> rs_status (di_response d)"
    "rs_status (di_response d) \<le> 599" "di_started_at d \<le> di_completed_at d"
    "length (rq_path (di_request d)) \<le> 8192"
    "validateHeaders (rq_headers (di_request d)) = None"
    "validateHeaders (rs_headers (di_response d)) = None"
    "validateCapturedBody (rq_body (di_request d)) MaxDependencyRequestPreview = None"
    "validateCapturedBody (rs_body (di_response d)) MaxDependencyResponsePreview = None"
    by (auto simp: validateDependency_def Let_def split: if_splits)
  have body: "utf8_valid (cb_content b) \<and> length (cb_content b) \<le> n"
    if "validateCapturedBody b n = None" for b n
    using that by (cases "cb_captured b")
      (auto simp: validateCapturedBody_def utf8_valid_ascii split: if_splits)
  from d v body [OF d(9)] body [OF d(10)] show ?thesis
    by (auto simp: validateHeaders_iff MaxDependencyHeaderBytes_def
        MaxDependencyRequestPreview_def MaxDependencyResponsePreview_def)
qed

definition sample_interaction :: dependency_interaction where
  "sample_interaction = \<lparr>di_id = ''i'', di_scheme = ''https'', di_host = ''api.example.com'',
     di_port = 443, di_handled_by = ''ORIGIN'', di_started_at = 10, di_completed_at = 20,
     di_duration_ms = 0,
     di_request = \<lparr>rq_method = ''GET'', rq_path = ''/v1'', rq_raw_query = [], rq_headers = Some [],
       rq_body = \<lparr>cb_captured = False, cb_content_type = [], cb_content = [], cb_size_bytes = 0,
         cb_captured_bytes = 0, cb_truncated = False, cb_reason = ''binary_content''\<rparr>,
       rq_size_bytes = 0\<rparr>,
     di_response = \<lparr>rs_status = 200, rs_headers = Some [(''Content-Type'', Some [''text/plain''])],
       rs_body = \<lparr>cb_captured = True, cb_content_type = ''text/plain'', cb_content = ''ok'',
         cb_size_bytes = 2, cb_captured_bytes = 2, cb_truncated = False, cb_reason = []\<rparr>,
       rs_size_bytes = 2\<rparr>\<rparr>"

definition interaction_message :: "dependency_interaction \<Rightarrow> message" where
  "interaction_message d = empty_message\<lparr>msg_version := Version,
     msg_type := TypeDependencyInteraction, msg_dependency := Some d\<rparr>"

lemma interaction_message_bounds_witness:
  "msg_version (interaction_message sample_interaction) = Version
     \<and> di_port sample_interaction \<in> {1..65535}
     \<and> rs_status (di_response sample_interaction) \<in> {100..599}
     \<and> di_started_at sample_interaction \<le> di_completed_at sample_interaction
     \<and> length (rq_path (di_request sample_interaction)) \<le> 8192
     \<and> (\<exists>hs. rq_headers (di_request sample_interaction) = Some hs \<and> header_bytes hs \<le> 262144)
     \<and> (\<exists>hs. rs_headers (di_response sample_interaction) = Some hs \<and> header_bytes hs \<le> 262144)
     \<and> length (cb_content (rq_body (di_request sample_interaction))) \<le> 262144
     \<and> length (cb_content (rs_body (di_response sample_interaction))) \<le> 524288
     \<and> utf8_valid (cb_content (rq_body (di_request sample_interaction)))
     \<and> utf8_valid (cb_content (rs_body (di_response sample_interaction)))"
proof -
  have "Validate sample_ext (interaction_message sample_interaction) = None"
    by code_simp
  moreover have "msg_type (interaction_message sample_interaction) = TypeDependencyInteraction"
    and "msg_dependency (interaction_message sample_interaction) = Some sample_interaction"
    by (simp_all add: interaction_message_def)
  ultimately show ?thesis by (rule interaction_message_bounds)
qed

text \<open>\<^verbatim>\<open>ReadBody\<close> returns exactly the bytes of the reader when there are at most 10
  MiB of them, reports a body that is too large without looking at how it ends, and reports the
  reader's own failure otherwise.\<close>

theorem ReadBody_exact:
  "ReadBody (data, failed) = (if 10485760 < length data then Inl ReadTooLarge
     else if failed then Inl ReaderFailed else Inr data)"
  by (simp add: ReadBody_def read_limited_def MaxBodySize_def)

end
