(* ===== verification/Hop_Headers.thy ===== *)
theory Hop_Headers
  imports Tunnel_Protocol
begin

text \<open>
  \<^verbatim>\<open>net/http.Header\<close> as the agent uses it (keys looked up in canonical form, the map itself
  indexed by whatever key was stored), and the agent's two filters for hop-by-hop headers:
  \<^verbatim>\<open>tunnelhttp.FilterHeaders\<close>, for traffic through the tunnel, and
  \<^verbatim>\<open>filterHopHeaders\<close> of the dependency proxy.  Both meet one contract, the locale
  \<open>hop_filter\<close>, relative to their own list of fixed names.
\<close>

subsection \<open>Header maps\<close>

fun canonical_bytes :: "bool \<Rightarrow> string \<Rightarrow> string" where
  "canonical_bytes up [] = []"
| "canonical_bytes up (c # s) =
     (let d = (if up then upper_byte c else lower_byte c) in d # canonical_bytes (d = CHR ''-'') s)"

definition canonical_key :: "string \<Rightarrow> string" where
  "canonical_key s = (if list_all token_char s then canonical_bytes True s else s)"

definition header_values :: "header_map \<Rightarrow> string \<Rightarrow> string list" where
  "header_values m k = (case map_of m (canonical_key k) of None \<Rightarrow> [] | Some vs \<Rightarrow> elems vs)"

definition header_get :: "header_map \<Rightarrow> string \<Rightarrow> string" where
  "header_get m k = (case header_values m k of [] \<Rightarrow> [] | v # _ \<Rightarrow> v)"

definition header_set :: "header_map \<Rightarrow> string \<Rightarrow> string \<Rightarrow> header_map" where
  "header_set m k v = gomap_set (canonical_key k) (Some [v]) m"

definition header_add :: "header_map \<Rightarrow> string \<Rightarrow> string \<Rightarrow> header_map" where
  "header_add m k v = gomap_set (canonical_key k) (Some (header_values m k @ [v])) m"

definition header_del :: "header_map \<Rightarrow> string \<Rightarrow> header_map" where
  "header_del m k = gomap_del (canonical_key k) m"

text \<open>Adding every value of a map to a response writer, as the proxy does.\<close>

definition header_add_all :: "header_map \<Rightarrow> header_map \<Rightarrow> header_map" where
  "header_add_all w m = fold (\<lambda>p w. fold (\<lambda>v w. header_add w (fst p) v) (elems (snd p)) w) m w"

subsection \<open>The two filters\<close>

definition hopByHop :: "string list" where
  "hopByHop = [''connection'', ''keep-alive'', ''proxy-authenticate'', ''proxy-authorization'',
     ''te'', ''trailer'', ''transfer-encoding'', ''upgrade'']"

definition connection_names :: "header_map \<Rightarrow> string list" where
  "connection_names m =
     map trim_space (concat (map (split_on CHR '','') (header_values m ''Connection'')))"

definition FilterHeaders :: "ext \<Rightarrow> header_map \<Rightarrow> header_map" where
  "FilterHeaders E src =
     (let blocked = hopByHop @ map (to_lower E) (connection_names src)
      in map (\<lambda>p. (fst p, append_nil (snd p)))
           (filter (\<lambda>p. to_lower E (fst p) \<notin> set blocked) src))"

definition hop_header_names :: "string list" where
  "hop_header_names = [''Connection'', ''Proxy-Connection'', ''Keep-Alive'',
     ''Proxy-Authenticate'', ''Proxy-Authorization'', ''Te'', ''Trailer'', ''Transfer-Encoding'',
     ''Upgrade'']"

definition filterHopHeaders :: "header_map \<Rightarrow> header_map" where
  "filterHopHeaders source =
     (let result = fold (\<lambda>name r. header_del r name) (connection_names source) source
      in fold (\<lambda>name r. header_del r name) hop_header_names result)"

subsection \<open>Canonical keys\<close>

lemma lower_upper_byte [simp]: "lower_byte (upper_byte c) = lower_byte c"
proof -
  have "byte (lower_byte (upper_byte c)) = byte (lower_byte c)"
    by (auto simp add: byte_lower_byte byte_upper_byte is_upper_def is_lower_def)
  then show ?thesis by (simp only: byte_eq_iff)
qed

lemma upper_lower_byte [simp]: "upper_byte (lower_byte c) = upper_byte c"
proof -
  have "byte (upper_byte (lower_byte c)) = byte (upper_byte c)"
    by (auto simp add: byte_lower_byte byte_upper_byte is_upper_def is_lower_def)
  then show ?thesis by (simp only: byte_eq_iff)
qed

lemma lower_canonical_bytes: "map lower_byte (canonical_bytes up s) = map lower_byte s"
  by (induction up s rule: canonical_bytes.induct) (auto simp: Let_def)

lemma canonical_bytes_cong:
  "map lower_byte s = map lower_byte t \<Longrightarrow> canonical_bytes up s = canonical_bytes up t"
proof (induction up s arbitrary: t rule: canonical_bytes.induct)
  case (1 up)
  then show ?case by simp
next
  case (2 up c s)
  then obtain d u where t: "t = d # u" "lower_byte c = lower_byte d"
    "map lower_byte s = map lower_byte u"
    by (cases t) auto
  then have "upper_byte c = upper_byte d" by (metis upper_lower_byte)
  with 2 t show ?case by (simp add: Let_def)
qed

lemma token_char_lower [simp]: "token_char (lower_byte c) = token_char c"
  by (cases "is_upper c")
    (auto simp: token_char_def is_lower_def byte_lower_byte is_upper_def lower_byte_not_upper)

lemma tokens_lower: "list_all token_char (map lower_byte s) = list_all token_char s"
  by (simp add: list_all_iff)

lemma tokens_canonical: "list_all token_char s \<Longrightarrow> list_all token_char (canonical_key s)"
  by (metis canonical_key_def lower_canonical_bytes tokens_lower)

lemma tokens_ascii: "list_all token_char s \<Longrightarrow> list_all is_ascii s"
  using token_char_ascii by (auto simp: list_all_iff)

lemma canonical_key_eq_iff:
  "list_all token_char s \<Longrightarrow> list_all token_char t \<Longrightarrow>
   canonical_key s = canonical_key t \<longleftrightarrow> map lower_byte s = map lower_byte t"
  by (metis canonical_bytes_cong canonical_key_def lower_canonical_bytes)

lemma canonical_key_idem [simp]: "canonical_key (canonical_key s) = canonical_key s"
proof (cases "list_all token_char s")
  case True
  then show ?thesis
    by (simp add: canonical_key_eq_iff tokens_canonical)
      (simp add: canonical_key_def lower_canonical_bytes)
qed (simp add: canonical_key_def)

text \<open>A key a server or a Go client has stored: a canonical token.\<close>

definition canonical :: "string \<Rightarrow> bool" where
  "canonical k \<longleftrightarrow> list_all token_char k \<and> canonical_key k = k"

lemma canonical_eq_iff:
  "canonical k \<Longrightarrow> list_all token_char t \<Longrightarrow> canonical_key t = k \<longleftrightarrow> map lower_byte k = map lower_byte t"
  by (metis canonical_def canonical_key_eq_iff)

lemma header_del_keeps: "map_of (header_del m n) k = (if k = canonical_key n then None else map_of m k)"
  by (simp add: header_del_def)

lemma map_of_fold_del:
  "map_of (fold (\<lambda>n r. header_del r n) ns m) k
     = (if k \<in> canonical_key ` set ns then None else map_of m k)"
  by (induction ns arbitrary: m) (auto simp: header_del_keeps)

lemma set_fold_del:
  "set (fold (\<lambda>n r. header_del r n) ns m) = {p \<in> set m. fst p \<notin> canonical_key ` set ns}"
  by (induction ns arbitrary: m) (auto simp: header_del_def set_gomap_del)

lemma fold_del_filter:
  "fold (\<lambda>n r. header_del r n) ns m = filter (\<lambda>p. fst p \<notin> canonical_key ` set ns) m"
  by (induction ns arbitrary: m) (auto simp: header_del_def gomap_del_def intro: filter_cong)

lemma filterHopHeaders_filter:
  "filterHopHeaders m =
     filter (\<lambda>p. fst p \<notin> canonical_key ` (set (connection_names m) \<union> set hop_header_names)) m"
  by (auto simp: filterHopHeaders_def fold_del_filter Let_def intro: filter_cong)


subsection \<open>The contract of a hop-by-hop filter\<close>

text \<open>
  What the forwarding code relies on: a filter decides per key, keeps the values of what it
  keeps, and always drops \<^verbatim>\<open>Connection\<close> itself, so that nothing depends on the nominated
  names any more and filtering twice changes nothing.
\<close>

locale hop_filter =
  fixes filt :: "header_map \<Rightarrow> header_map"
    and dropped :: "header_map \<Rightarrow> string \<Rightarrow> bool"
    and always :: "string \<Rightarrow> bool"
    and keep :: "string slice \<Rightarrow> string slice"
  assumes lookup: "map_of (filt m) k = (if dropped m k then None else map_option keep (map_of m k))"
    and always_dropped: "always k \<Longrightarrow> dropped m k"
    and connection_always: "always ''Connection''"
    and no_connection: "map_of m ''Connection'' = None \<Longrightarrow> dropped m k \<Longrightarrow> always k"
    and keep_elems: "elems (keep v) = elems v"
    and keep_idem: "keep (keep v) = keep v"
begin

lemma connection_gone: "map_of (filt m) ''Connection'' = None"
  by (simp add: lookup always_dropped connection_always)

lemma kept_values:
  "\<not> dropped m (canonical_key k) \<Longrightarrow> header_values (filt m) k = header_values m k"
  by (simp add: header_values_def lookup keep_elems split: option.split)

lemma nothing_added: "map_of (filt m) k = Some v \<Longrightarrow> \<exists>w. map_of m k = Some w \<and> elems v = elems w"
  by (auto simp: lookup keep_elems split: if_splits)

lemma idempotent: "map_of (filt (filt m)) = map_of (filt m)"
proof
  fix k
  have "dropped (filt m) k \<Longrightarrow> always k"
    using connection_gone by (rule no_connection)
  then show "map_of (filt (filt m)) k = map_of (filt m) k"
    using always_dropped by (auto simp: lookup keep_idem comp_def option.map_comp)
qed

end

lemma connection_names_none: "map_of m ''Connection'' = None \<Longrightarrow> connection_names m = []"
proof -
  have "canonical_key ''Connection'' = ''Connection''" by code_simp
  then show "map_of m ''Connection'' = None \<Longrightarrow> connection_names m = []"
    by (simp add: connection_names_def header_values_def)
qed

lemma map_of_filter_key:
  "map_of (map (\<lambda>p. (fst p, f (snd p))) (filter (\<lambda>p. P (fst p)) m)) k
     = (if P k then map_option f (map_of m k) else None)"
  by (induction m) auto

lemma map_of_filter_key_id:
  "map_of (filter (\<lambda>p. P (fst p)) m) k = (if P k then map_of m k else None)"
  by (induction m) auto

definition tunnel_dropped :: "ext \<Rightarrow> header_map \<Rightarrow> string \<Rightarrow> bool" where
  "tunnel_dropped E m k \<longleftrightarrow>
     to_lower E k \<in> set hopByHop \<union> to_lower E ` set (connection_names m)"

definition proxy_dropped :: "header_map \<Rightarrow> string \<Rightarrow> bool" where
  "proxy_dropped m k \<longleftrightarrow>
     k \<in> set hop_header_names \<union> canonical_key ` set (connection_names m)"

lemma canonical_hop_names: "canonical_key ` set hop_header_names = set hop_header_names"
proof -
  have "map canonical_key hop_header_names = hop_header_names" by code_simp
  then show ?thesis by (metis set_map)
qed

lemma FilterHeaders_lookup:
  "map_of (FilterHeaders E m) k
     = (if tunnel_dropped E m k then None else map_option append_nil (map_of m k))"
  unfolding FilterHeaders_def Let_def
  by (subst map_of_filter_key) (auto simp: tunnel_dropped_def)

lemma filterHopHeaders_lookup:
  "map_of (filterHopHeaders m) k = (if proxy_dropped m k then None else map_of m k)"
  by (subst filterHopHeaders_filter, subst map_of_filter_key_id)
    (auto simp: proxy_dropped_def canonical_hop_names image_Un)

lemma connection_hop: "to_lower E ''Connection'' \<in> set hopByHop"
proof -
  have "list_all is_ascii ''Connection''" and "map lower_byte ''Connection'' = ''connection''"
    by code_simp+
  then show ?thesis by (simp add: to_lower_ascii hopByHop_def)
qed

interpretation tunnel_hop: hop_filter "FilterHeaders E" "tunnel_dropped E"
  "\<lambda>k. to_lower E k \<in> set hopByHop" append_nil for E
  by unfold_locales
    (auto simp: FilterHeaders_lookup tunnel_dropped_def connection_hop connection_names_none
      append_nil_def)

interpretation proxy_hop: hop_filter filterHopHeaders proxy_dropped
  "\<lambda>k. k \<in> set hop_header_names" "\<lambda>v. v"
  by unfold_locales
    (auto simp: filterHopHeaders_lookup proxy_dropped_def connection_names_none
      hop_header_names_def option.map_ident)

subsection \<open>The two filters compared\<close>

lemma canonical_key_eq_canonical:
  assumes "canonical k"
  shows "canonical_key n = k \<longleftrightarrow> map lower_byte n = map lower_byte k"
proof (cases "list_all token_char n")
  case True
  with assms show ?thesis using canonical_eq_iff by metis
next
  case False
  then have "canonical_key n = n" by (simp add: canonical_key_def)
  with False assms show ?thesis by (metis canonical_def tokens_lower)
qed

lemma connection_names_ascii:
  assumes "\<And>v. v \<in> set (header_values m ''Connection'') \<Longrightarrow> list_all is_ascii v"
    and "n \<in> set (connection_names m)"
  shows "list_all is_ascii n"
proof -
  obtain v p where v: "v \<in> set (header_values m ''Connection'')"
    and p: "p \<in> set (split_on CHR '','' v)" and n: "n = trim_space p"
    using assms(2) by (auto simp: connection_names_def)
  have "set n \<subseteq> set v"
    using split_on_parts [OF p] trim_space_set [of p] n by auto
  with assms(1) [OF v] show ?thesis by (auto simp: list_all_iff)
qed

lemma lower_hop_names:
  "map lower_byte ` set hop_header_names = insert ''proxy-connection'' (set hopByHop)"
proof -
  have "map (map lower_byte) hop_header_names
      = ''connection'' # ''proxy-connection'' # tl hopByHop" by code_simp
  then have "map lower_byte ` set hop_header_names
      = set (''connection'' # ''proxy-connection'' # tl hopByHop)" by (metis set_map)
  then show ?thesis by (auto simp: hopByHop_def)
qed

lemma proxy_dropped_iff:
  assumes "canonical k" and "\<And>v. v \<in> set (header_values m ''Connection'') \<Longrightarrow> list_all is_ascii v"
  shows "proxy_dropped m k \<longleftrightarrow> tunnel_dropped E m k \<or> k = ''Proxy-Connection''"
proof -
  have k: "to_lower E k = map lower_byte k"
    using assms(1) by (simp add: to_lower_ascii canonical_def tokens_ascii)
  have eq: "k = canonical_key n \<longleftrightarrow> map lower_byte n = map lower_byte k" for n
    using canonical_key_eq_canonical [OF assms(1), of n] by auto
  have "k \<in> canonical_key ` set (connection_names m)
      \<longleftrightarrow> (\<exists>n \<in> set (connection_names m). map lower_byte n = map lower_byte k)"
    by (simp add: image_iff eq)
  also have "\<dots> \<longleftrightarrow> to_lower E k \<in> to_lower E ` set (connection_names m)"
    using connection_names_ascii [OF assms(2)] k by (auto simp: to_lower_ascii image_iff) metis
  finally have names: "k \<in> canonical_key ` set (connection_names m)
      \<longleftrightarrow> to_lower E k \<in> to_lower E ` set (connection_names m)" .
  have "k \<in> canonical_key ` set hop_header_names
      \<longleftrightarrow> (\<exists>n \<in> set hop_header_names. map lower_byte n = map lower_byte k)"
    by (simp add: image_iff eq)
  then have "k \<in> set hop_header_names \<longleftrightarrow> map lower_byte k \<in> map lower_byte ` set hop_header_names"
    unfolding canonical_hop_names by force
  then have hop: "k \<in> set hop_header_names \<longleftrightarrow>
      map lower_byte k = ''proxy-connection'' \<or> map lower_byte k \<in> set hopByHop"
    unfolding lower_hop_names by (simp only: insert_iff)
  have "canonical_key ''Proxy-Connection'' = ''Proxy-Connection''" by code_simp
  moreover have "map lower_byte ''Proxy-Connection'' = ''proxy-connection''" by code_simp
  ultimately have prox: "k = ''Proxy-Connection'' \<longleftrightarrow> map lower_byte k = ''proxy-connection''"
    using eq [of "''Proxy-Connection''"] by metis
  show ?thesis
    unfolding proxy_dropped_def tunnel_dropped_def Un_iff names hop prox k by argo
qed


subsection \<open>Properties\<close>

text \<open>The tunnel's header filter drops a header exactly when its name, in any case, is one of
  the eight hop-by-hop names or is nominated by a \<^verbatim>\<open>Connection\<close> value (any case, any
  surrounding white space); every other header keeps its values in order, and filtering the
  result again changes nothing.\<close>

theorem FilterHeaders_exact:
  "map_of (FilterHeaders E m) k =
     (if to_lower E k \<in> set hopByHop
        \<or> (\<exists>v \<in> set (header_values m ''Connection''). \<exists>t \<in> set (split_on CHR '','' v).
             to_lower E k = to_lower E (trim_space t))
      then None else map_option append_nil (map_of m k))
   \<and> map_of (FilterHeaders E (FilterHeaders E m)) = map_of (FilterHeaders E m)"
proof
  show "map_of (FilterHeaders E (FilterHeaders E m)) = map_of (FilterHeaders E m)"
    by (rule tunnel_hop.idempotent)
  show "map_of (FilterHeaders E m) k =
     (if to_lower E k \<in> set hopByHop
        \<or> (\<exists>v \<in> set (header_values m ''Connection''). \<exists>t \<in> set (split_on CHR '','' v).
             to_lower E k = to_lower E (trim_space t))
      then None else map_option append_nil (map_of m k))"
    by (auto simp: FilterHeaders_lookup tunnel_dropped_def connection_names_def)
qed

text \<open>On the header maps a Go server or client builds (canonical keys, ASCII
  \<^verbatim>\<open>Connection\<close> values) the proxy's filter, written with canonical keys and
  \<^verbatim>\<open>Header.Del\<close>, and the tunnel's filter, written with lower-cased names, keep the same
  headers with the same values, except that only the proxy's also drops
  \<^verbatim>\<open>Proxy-Connection\<close>.\<close>

theorem hop_filters_agree:
  assumes "\<And>p. p \<in> set m \<Longrightarrow> canonical (fst p)"
    and "\<And>v. v \<in> set (header_values m ''Connection'') \<Longrightarrow> list_all is_ascii v"
  shows "map (\<lambda>p. (fst p, append_nil (snd p))) (filterHopHeaders m)
     = filter (\<lambda>p. fst p \<noteq> ''Proxy-Connection'') (FilterHeaders E m)"
proof -
  have "fst p \<in> canonical_key ` (set (connection_names m) \<union> set hop_header_names)
      \<longleftrightarrow> tunnel_dropped E m (fst p) \<or> fst p = ''Proxy-Connection''" if "p \<in> set m" for p
    using proxy_dropped_iff [OF assms(1) [OF that] assms(2), where E = E]
    by (simp add: proxy_dropped_def image_Un canonical_hop_names Un_commute)
  then have "filterHopHeaders m
      = filter (\<lambda>p. \<not> (tunnel_dropped E m (fst p) \<or> fst p = ''Proxy-Connection'')) m"
    unfolding filterHopHeaders_filter by (intro filter_cong) auto
  then show ?thesis
    by (simp add: FilterHeaders_def tunnel_dropped_def Let_def filter_map comp_def image_Un
        conj_commute flip: filter_filter)
qed

definition sample_headers :: header_map where
  "sample_headers = [(''Connection'', Some [''X-Trace , close'']), (''Accept'', Some [''text/html'']),
     (''X-Trace'', Some [''1'']), (''Proxy-Connection'', Some [''keep-alive''])]"

lemma hop_filters_agree_witness:
  "map (\<lambda>p. (fst p, append_nil (snd p))) (filterHopHeaders sample_headers)
     = filter (\<lambda>p. fst p \<noteq> ''Proxy-Connection'') (FilterHeaders sample_ext sample_headers)
   \<and> filterHopHeaders sample_headers = [(''Accept'', Some [''text/html''])]"
proof
  have keys: "list_all (\<lambda>p. list_all token_char (fst p) \<and> canonical_key (fst p) = fst p) sample_headers"
    by code_simp
  have vals: "list_all (list_all is_ascii) (header_values sample_headers ''Connection'')"
    by code_simp
  show "map (\<lambda>p. (fst p, append_nil (snd p))) (filterHopHeaders sample_headers)
     = filter (\<lambda>p. fst p \<noteq> ''Proxy-Connection'') (FilterHeaders sample_ext sample_headers)"
  proof (rule hop_filters_agree)
    show "canonical (fst p)" if "p \<in> set sample_headers" for p
      using keys that unfolding list_all_iff canonical_def by blast
    show "list_all is_ascii v" if "v \<in> set (header_values sample_headers ''Connection'')" for v
      using vals that unfolding list_all_iff by blast
  qed
  show "filterHopHeaders sample_headers = [(''Accept'', Some [''text/html''])]"
    by code_simp
qed

end
