(* ===== verification/Naming.thy ===== *)
theory Naming
  imports Tunnel_Protocol
begin

text \<open>
  Package \<^verbatim>\<open>internal/naming\<close>: the rule for endpoint names.  The loop over the bytes is
  kept with its index, and the error names the first rule that fails.
\<close>

datatype naming_error = BadLength | BadCharacter | BadHyphen | ReservedName

definition reserved_names :: "string list" where
  "reserved_names = [''api'', ''www'', ''app'', ''gateway'', ''admin'', ''auth'', ''status'',
     ''health'', ''docs'', ''support'', ''mail'', ''smtp'', ''ftp'', ''localhost'']"

definition name_char :: "char \<Rightarrow> bool" where
  "name_char c \<longleftrightarrow> is_lower c \<or> is_digit c \<or> c = CHR ''-''"

text \<open>One turn of the loop: the byte at index \<open>i\<close> of the name.\<close>

definition check_char :: "string \<Rightarrow> nat \<Rightarrow> naming_error option" where
  "check_char name i =
     (let c = name ! i in
      if \<not> name_char c then Some BadCharacter
      else if c = CHR ''-'' \<and> (i = 0 \<or> i = length name - 1 \<or> name ! (i - 1) = CHR ''-'')
        then Some BadHyphen
      else None)"

fun check_chars :: "string \<Rightarrow> nat list \<Rightarrow> naming_error option" where
  "check_chars name [] = None"
| "check_chars name (i # is) =
     (case check_char name i of Some e \<Rightarrow> Some e | None \<Rightarrow> check_chars name is)"

definition validate_name :: "string \<Rightarrow> naming_error option" where
  "validate_name name =
     (if length name < 3 \<or> 40 < length name then Some BadLength
      else case check_chars name [0..<length name] of
          Some e \<Rightarrow> Some e
        | None \<Rightarrow> if name \<in> set reserved_names then Some ReservedName else None)"

subsection \<open>What the loop decides\<close>

text \<open>The rule as a grammar: words of lower-case letters and digits, joined by single hyphens.\<close>

definition name_word :: "string \<Rightarrow> bool" where
  "name_word w \<longleftrightarrow> w \<noteq> [] \<and> list_all (\<lambda>c. is_lower c \<or> is_digit c) w"

definition hyphenated :: "string \<Rightarrow> bool" where
  "hyphenated name \<longleftrightarrow> list_all name_word (split_on CHR ''-'' name)"

lemma check_chars_None: "check_chars name is = None \<longleftrightarrow> (\<forall>i \<in> set is. check_char name i = None)"
  by (induction "is") (auto split: option.splits)

lemma check_char_None:
  "check_char name i = None \<longleftrightarrow> name_char (name ! i)
     \<and> (name ! i = CHR ''-'' \<longrightarrow> i \<noteq> 0 \<and> i \<noteq> length name - 1 \<and> name ! (i - 1) \<noteq> CHR ''-'')"
  by (auto simp: check_char_def Let_def)

text \<open>The same rule, by recursion on the name with the byte before it.\<close>

fun hyphens_ok :: "bool \<Rightarrow> string \<Rightarrow> bool" where
  "hyphens_ok prev [] = (\<not> prev)"
| "hyphens_ok prev (c # s) =
     (name_char c \<and> \<not> (prev \<and> c = CHR ''-'') \<and> hyphens_ok (c = CHR ''-'') s)"

definition hyphen_at :: "bool \<Rightarrow> string \<Rightarrow> nat \<Rightarrow> bool" where
  "hyphen_at prev s i \<longleftrightarrow> (s ! i = CHR ''-'' \<longrightarrow> i \<noteq> length s - 1
     \<and> (if i = 0 then \<not> prev else s ! (i - 1) \<noteq> CHR ''-''))"

lemma hyphen_at_Suc:
  "i < length s \<Longrightarrow> hyphen_at prev (c # s) (Suc i) = hyphen_at (c = CHR ''-'') s i"
  by (cases i; cases s) (auto simp: hyphen_at_def)

lemma hyphens_ok_iff:
  "hyphens_ok prev s \<longleftrightarrow> list_all name_char s \<and> (\<forall>i < length s. hyphen_at prev s i)
     \<and> (s = [] \<longrightarrow> \<not> prev)"
proof (induction s arbitrary: prev)
  case Nil
  then show ?case by simp
next
  case (Cons c s)
  have "(\<forall>i < length (c # s). hyphen_at prev (c # s) i)
      \<longleftrightarrow> hyphen_at prev (c # s) 0 \<and> (\<forall>i < length s. hyphen_at (c = CHR ''-'') s i)"
    by (simp add: All_less_Suc2 hyphen_at_Suc)
  moreover have "hyphen_at prev (c # s) 0 \<longleftrightarrow> (c = CHR ''-'' \<longrightarrow> s \<noteq> [] \<and> \<not> prev)"
    by (auto simp: hyphen_at_def)
  ultimately show ?case using Cons.IH [of "c = CHR ''-''"] by auto
qed

lemma hyphens_ok_split:
  "hyphens_ok True s \<longleftrightarrow> list_all name_word (split_on CHR ''-'' s)"
  "hyphens_ok False s \<longleftrightarrow> list_all (\<lambda>c. is_lower c \<or> is_digit c) (hd (split_on CHR ''-'' s))
     \<and> list_all name_word (tl (split_on CHR ''-'' s))"
proof (induction s)
  case Nil
  { case 1 then show ?case by (simp add: name_word_def) }
  { case 2 then show ?case by simp }
next
  case (Cons c s)
  obtain w ws where w: "split_on CHR ''-'' s = w # ws"
    by (cases "split_on CHR ''-'' s") auto
  { case 1 then show ?case
      using Cons w by (auto simp: name_word_def name_char_def) }
  { case 2 then show ?case
      using Cons w by (auto simp: name_word_def name_char_def is_lower_def is_digit_def) }
qed


lemma check_loop_iff:
  "check_chars name [0..<length name] = None \<longleftrightarrow> name = [] \<or> hyphens_ok True name"
proof -
  have "check_char name i = None \<longleftrightarrow> name_char (name ! i) \<and> hyphen_at True name i"
    if "i < length name" for i
    using that by (auto simp: check_char_None hyphen_at_def)
  then show ?thesis
    unfolding check_chars_None hyphens_ok_iff list_all_length by auto
qed

subsection \<open>Properties\<close>

text \<open>An endpoint name is accepted exactly when it has 3 to 40 bytes, consists of words of
  lower-case letters and digits joined by single hyphens, and is not reserved: the byte loop
  decides this grammar.\<close>

theorem validate_name_grammar:
  "validate_name name = None \<longleftrightarrow>
     3 \<le> length name \<and> length name \<le> 40 \<and> hyphenated name \<and> name \<notin> set reserved_names"
  using check_loop_iff [of name] hyphens_ok_split(1) [of name]
  by (auto simp: validate_name_def hyphenated_def split: option.splits)

text \<open>An accepted endpoint name is a valid host label, so the host name
  \<^verbatim>\<open><name>.mockingo.click\<close> that the control plane derives from it passes the protocol's
  host check.\<close>

theorem valid_name_is_host_label:
  assumes "validate_name name = None"
  shows "valid_label name \<and> validDependencyHost (name @ ''.mockingo.click'')"
proof -
  have len: "3 \<le> length name" "length name \<le> 40" and ok: "hyphens_ok True name"
    using assms check_loop_iff [of name]
    by (auto simp: validate_name_def split: option.splits if_splits)
  have chars: "list_all name_char name" and at: "\<And>i. i < length name \<Longrightarrow> hyphen_at True name i"
    using ok by (auto simp: hyphens_ok_iff)
  have "hd name \<noteq> CHR ''-''"
    using at [of 0] len by (cases name) (auto simp: hyphen_at_def)
  moreover have "last name \<noteq> CHR ''-''"
    using at [of "length name - 1"] len by (cases name) (auto simp: hyphen_at_def last_conv_nth)
  moreover have "list_all label_char name"
    using chars by (auto simp: list_all_iff name_char_def label_char_def)
  ultimately have label: "valid_label name"
    using len by (auto simp: valid_label_iff)
  have no_dot: "CHR ''.'' \<notin> set name"
    using chars by (auto simp: list_all_iff name_char_def is_lower_def is_digit_def)
  have "split_on CHR ''.'' (name @ ''.mockingo.click'') = name # split_on CHR ''.'' ''mockingo.click''"
    by (rule split_on_append_sep [OF no_dot])
  moreover have "list_all valid_label (split_on CHR ''.'' ''mockingo.click'')"
    by code_simp
  ultimately have labels: "list_all valid_label (split_on CHR ''.'' (name @ ''.mockingo.click''))"
    using label by simp
  have "label_char c \<or> c = CHR ''.''" if "c \<in> set (name @ ''.mockingo.click'')" for c
    using that chars by (auto simp: list_all_iff name_char_def label_char_def is_lower_def)
  then have "\<not> contains_any (name @ ''.mockingo.click'') host_specials"
    unfolding contains_any_iff host_specials_def blanks_def
    by (fastforce simp: label_char_def is_lower_def is_upper_def is_digit_def)
  with labels len show ?thesis
    using label by (simp add: validDependencyHost_def)
qed

lemma valid_name_is_host_label_witness:
  "validate_name ''spring-demo'' = None \<and> validDependencyHost (''spring-demo'' @ ''.mockingo.click'')"
proof -
  have "validate_name ''spring-demo'' = None" by code_simp
  with valid_name_is_host_label [OF this] show ?thesis by blast
qed

end
