(* ===== verification/Behaviors.thy ===== *)
theory Behaviors
  imports Tunnel_Protocol
begin

text \<open>
  \<^verbatim>\<open>internal/dependencycapture/behaviors.go\<close>: the store of replay behaviours.  The atomic
  pointer holds the configuration of the last accepted snapshot; \<^verbatim>\<open>Replace\<close> validates and
  swaps the whole configuration, \<^verbatim>\<open>Match\<close> looks a request up by its matcher key.  The
  locale \<open>behavior_table\<close> is the contract the proxy relies on: a table of behaviours indexed by
  the five matched fields, replaced as a whole.
\<close>

subsection \<open>The store\<close>

record behavior_config =
  bc_endpoint_id :: string
  bc_by_matcher :: "(string, dependency_behavior) gomap"

text \<open>The pointer, which is nil only in a store that was never initialised.\<close>

type_synonym behavior_store = "behavior_config option"

definition NewBehaviorStore :: behavior_store where
  "NewBehaviorStore = Some \<lparr>bc_endpoint_id = [], bc_by_matcher = []\<rparr>"

definition config_message :: "dependency_snapshot \<Rightarrow> message" where
  "config_message snapshot = empty_message\<lparr>msg_version := Version,
     msg_type := TypeDependencyConfig, msg_dependency_config := Some snapshot\<rparr>"

definition Replace ::
  "ext \<Rightarrow> behavior_store \<Rightarrow> dependency_snapshot \<Rightarrow> protocol_error option \<times> behavior_store" where
  "Replace E s snapshot = (case Validate E (config_message snapshot) of
       Some e \<Rightarrow> (Some e, s)
     | None \<Rightarrow> (None, Some \<lparr>bc_endpoint_id = ds_endpoint_id snapshot,
         bc_by_matcher = fold (\<lambda>b m. gomap_set (behavior_key b) b m)
           (elems (ds_behaviors snapshot)) []\<rparr>))"

definition normalizeHostname :: "ext \<Rightarrow> string \<Rightarrow> string" where
  "normalizeHostname E host = to_lower E (trim_suffix (trim_set host ''[]'') ''.'')"

definition Match ::
  "ext \<Rightarrow> behavior_store option \<Rightarrow> string \<Rightarrow> string \<Rightarrow> int \<Rightarrow> string \<Rightarrow> string
    \<Rightarrow> dependency_behavior option" where
  "Match E s scheme host port method path = (case s of
       None \<Rightarrow> None
     | Some None \<Rightarrow> None
     | Some (Some config) \<Rightarrow> map_of (bc_by_matcher config)
         (matcherKey (to_lower E scheme) (normalizeHostname E host) port (to_upper E method) path))"

definition Count :: "behavior_store option \<Rightarrow> nat" where
  "Count s = (case s of None \<Rightarrow> 0 | Some None \<Rightarrow> 0
     | Some (Some config) \<Rightarrow> length (bc_by_matcher config))"

subsection \<open>The contract\<close>

type_synonym matcher = "string \<times> string \<times> int \<times> string \<times> string"

definition matcher_clean :: "matcher \<Rightarrow> bool" where
  "matcher_clean k = (case k of (s, h, p, m, pa) \<Rightarrow> nul \<notin> set s \<and> nul \<notin> set h \<and> nul \<notin> set m)"

definition snapshot_behavior :: "dependency_snapshot \<Rightarrow> matcher \<Rightarrow> dependency_behavior option" where
  "snapshot_behavior sn k = find (\<lambda>b. behavior_matcher b = k) (elems (ds_behaviors sn))"

locale behavior_table =
  fixes lookup :: "'s \<Rightarrow> matcher \<Rightarrow> dependency_behavior option"
    and replace :: "'s \<Rightarrow> dependency_snapshot \<Rightarrow> protocol_error option \<times> 's"
    and count :: "'s \<Rightarrow> nat"
    and accepts :: "dependency_snapshot \<Rightarrow> bool"
  assumes accepted: "accepts sn \<Longrightarrow> replace s sn = (None, s') \<Longrightarrow> matcher_clean k \<Longrightarrow>
      lookup s' k = snapshot_behavior sn k"
    and accepts_iff: "fst (replace s sn) = None \<longleftrightarrow> accepts sn"
    and rejected: "\<not> accepts sn \<Longrightarrow> snd (replace s sn) = s"
    and counted: "accepts sn \<Longrightarrow> count (snd (replace s sn)) = length (elems (ds_behaviors sn))"
begin

lemma lookup_replace:
  "matcher_clean k \<Longrightarrow>
   lookup (snd (replace s sn)) k = (if accepts sn then snapshot_behavior sn k else lookup s k)"
  using accepted [of sn s _ k] rejected [of sn s] accepts_iff [of s sn]
  by (cases "replace s sn") auto

text \<open>After any sequence of snapshots the last accepted one decides, and nothing else.\<close>

lemma lookup_sequence:
  assumes "matcher_clean k"
  shows "lookup (fold (\<lambda>sn s. snd (replace s sn)) sns s) k =
     (case filter accepts sns of [] \<Rightarrow> lookup s k
      | good \<Rightarrow> snapshot_behavior (last good) k)"
proof (induction sns arbitrary: s)
  case Nil
  then show ?case by simp
next
  case (Cons sn sns)
  then show ?case
    using lookup_replace [OF assms, of s sn] by (auto split: list.split)
qed

end

subsection \<open>The store meets the contract\<close>

definition store_lookup :: "behavior_store \<Rightarrow> matcher \<Rightarrow> dependency_behavior option" where
  "store_lookup s k = (case k of (scheme, host, port, method, path) \<Rightarrow>
     case s of None \<Rightarrow> None
     | Some c \<Rightarrow> map_of (bc_by_matcher c) (matcherKey scheme host port method path))"

lemma Match_store_lookup:
  "Match E (Some s) scheme host port method path = store_lookup s
     (to_lower E scheme, normalizeHostname E host, port, to_upper E method, path)"
  by (simp add: Match_def store_lookup_def split: option.split)

lemma Validate_config: "Validate E (config_message sn) = None \<longleftrightarrow> validateDependencyConfig E sn = None"
  by (simp add: Validate_config_message config_message_def)

lemma fold_set_other:
  "K \<notin> f ` set bs \<Longrightarrow> map_of (fold (\<lambda>b m. gomap_set (f b) b m) bs m) K = map_of m K"
  by (induction bs arbitrary: m) auto

lemma map_of_fold_set:
  assumes "distinct (map f bs)" and "b \<in> set bs"
  shows "map_of (fold (\<lambda>b m. gomap_set (f b) b m) bs m) (f b) = Some b"
  using assms
proof (induction bs arbitrary: m)
  case (Cons a bs)
  then show ?case
    using fold_set_other [of "f a" f bs "gomap_set (f a) a m"] by auto
qed simp

lemma length_fold_set:
  assumes "distinct (map f bs)" and "fst ` set m \<inter> f ` set bs = {}"
  shows "length (fold (\<lambda>b m. gomap_set (f b) b m) bs m) = length m + length bs"
  using assms
proof (induction bs arbitrary: m)
  case (Cons a bs)
  have "length (gomap_set (f a) a m) = Suc (length m)" if "f a \<notin> fst ` set m"
    using that by (induction m) auto
  with Cons show ?case by auto
qed simp

lemma store_lookup_accepted:
  assumes "validateDependencyConfig E sn = None" and "matcher_clean k"
  shows "store_lookup (snd (Replace E s sn)) k = snapshot_behavior sn k"
proof -
  let ?bs = "elems (ds_behaviors sn)"
  let ?m = "fold (\<lambda>b m. gomap_set (behavior_key b) b m) ?bs []"
  have valid: "list_all (valid_behavior E) ?bs" and dist: "distinct (map behavior_key ?bs)"
    using assms(1) by (auto simp: validateDependencyConfig_def validate_behaviors_iff split: if_splits)
  obtain sc h p me pa where k: "k = (sc, h, p, me, pa)" by (cases k) auto
  have key: "behavior_key b = matcherKey sc h p me pa \<longleftrightarrow> behavior_matcher b = k" if "b \<in> set ?bs" for b
    using that valid assms(2) valid_behavior_no_nul [of E b]
    by (auto simp: k matcher_clean_def list_all_iff behavior_key_def behavior_matcher_def matcherKey_inj)
  have "map_of ?m (matcherKey sc h p me pa) = find (\<lambda>b. behavior_matcher b = k) ?bs"
  proof (cases "find (\<lambda>b. behavior_matcher b = k) ?bs")
    case None
    then have "behavior_key b \<noteq> matcherKey sc h p me pa" if "b \<in> set ?bs" for b
      using key [OF that] that by (auto simp: find_None_iff)
    then have "matcherKey sc h p me pa \<notin> behavior_key ` set ?bs"
      by (metis imageE)
    then show ?thesis using None by (subst fold_set_other) auto
  next
    case (Some b)
    then have b: "b \<in> set ?bs" "behavior_matcher b = k"
      by (auto simp: find_Some_iff)
    then have "matcherKey sc h p me pa = behavior_key b" using key [OF b(1)] by simp
    then show ?thesis using Some b map_of_fold_set [OF dist b(1)] by simp
  qed
  moreover have "Validate E (config_message sn) = None"
    using assms(1) by (simp add: Validate_config)
  ultimately show ?thesis
    by (simp add: Replace_def store_lookup_def snapshot_behavior_def k)
qed

lemma find_distinct_map:
  "distinct (map f xs) \<Longrightarrow> find (\<lambda>x. f x = k) xs = Some b \<longleftrightarrow> b \<in> set xs \<and> f b = k"
  by (induction xs) auto

interpretation behavior_store: behavior_table store_lookup "Replace E"
  "\<lambda>s. Count (Some s)" "\<lambda>sn. validateDependencyConfig E sn = None" for E
proof unfold_locales
  fix sn s s' k
  show "store_lookup s' k = snapshot_behavior sn k"
    if "validateDependencyConfig E sn = None" "Replace E s sn = (None, s')" "matcher_clean k"
    using store_lookup_accepted [OF that(1,3), of s] that(2) by simp
next
  fix s sn
  show "fst (Replace E s sn) = None \<longleftrightarrow> validateDependencyConfig E sn = None"
    using Validate_config [of E sn]
    by (cases "Validate E (config_message sn)") (simp_all add: Replace_def)
  show "snd (Replace E s sn) = s" if "\<not> validateDependencyConfig E sn = None"
    using that Validate_config [of E sn] by (auto simp: Replace_def split: option.splits)
  show "Count (Some (snd (Replace E s sn))) = length (elems (ds_behaviors sn))"
    if "validateDependencyConfig E sn = None"
    using that Validate_config [of E sn]
      length_fold_set [of behavior_key "elems (ds_behaviors sn)" "[]"]
    by (auto simp: Replace_def Count_def validateDependencyConfig_def validate_behaviors_iff
        split: option.splits if_splits)
qed


subsection \<open>Normalised hosts\<close>

text \<open>A validated host is its own normal form, so a snapshot's hosts are the ones requests match.\<close>

lemma valid_host_normal:
  assumes "validDependencyHost h" and "h = to_lower E h"
  shows "normalizeHostname E h = h"
proof -
  have "set h \<inter> set ''[]'' = {}"
    using valid_host_chars [OF assms(1)] host_char_not by auto
  then have trim: "trim_set h ''[]'' = h" by (rule trim_set_id)
  have "trim_suffix h ''.'' = h" if "parse_ip h = None"
  proof (rule ccontr)
    assume "trim_suffix h ''.'' \<noteq> h"
    then have "h \<noteq> [] \<and> last h = CHR ''.''"
      by (auto simp: trim_suffix_def suffix_def split: if_splits)
    then have "[] \<in> set (split_on CHR ''.'' h)"
      using last_split_on [of h "CHR ''.''"] last_in_set [OF split_on_nonempty, of "CHR ''.''" h]
      by simp
    then show False
      using assms(1) that by (auto simp: validDependencyHost_def list_all_iff valid_label_iff split: if_splits)
  qed
  moreover have "trim_suffix h ''.'' = h" if "parse_ip h \<noteq> None"
    using that parse_ip_last_dot [of h] valid_host_nonempty [OF assms(1)]
    by (auto simp: trim_suffix_def suffix_def)
  ultimately show ?thesis
    using assms(2) trim by (cases "parse_ip h") (simp_all add: normalizeHostname_def)
qed


subsection \<open>Properties\<close>

lemma Match_snapshot:
  assumes "Replace E s sn = (None, s')"
    and "nul \<notin> set (to_lower E scheme)" "nul \<notin> set (normalizeHostname E host)"
      "nul \<notin> set (to_upper E method)"
  shows "Match E (Some s') scheme host port method path = Some b \<longleftrightarrow>
     b \<in> set (elems (ds_behaviors sn))
     \<and> behavior_matcher b = (to_lower E scheme, normalizeHostname E host, port, to_upper E method, path)"
    and "list_all (valid_behavior E) (elems (ds_behaviors sn))"
proof -
  let ?bs = "elems (ds_behaviors sn)"
  let ?k = "(to_lower E scheme, normalizeHostname E host, port, to_upper E method, path)"
  have ok: "validateDependencyConfig E sn = None"
    using behavior_store.accepts_iff [where E = E and s = s and sn = sn] assms(1) by simp
  then show "list_all (valid_behavior E) ?bs"
    by (auto simp: validateDependencyConfig_iff)
  from ok have dist: "distinct (map behavior_matcher ?bs)"
    by (auto simp: validateDependencyConfig_iff)
  have clean: "matcher_clean ?k"
    using assms(2,3,4) by (simp add: matcher_clean_def)
  have "Match E (Some s') scheme host port method path = snapshot_behavior sn ?k"
    using behavior_store.accepted [OF ok assms(1) clean] by (simp only: Match_store_lookup)
  then show "Match E (Some s') scheme host port method path = Some b \<longleftrightarrow> b \<in> set ?bs \<and> behavior_matcher b = ?k"
    using find_distinct_map [OF dist] by (simp add: snapshot_behavior_def)
qed

lemma valid_behavior_normal:
  assumes "valid_behavior E b"
  shows "to_lower E (db_scheme b) = db_scheme b" "normalizeHostname E (db_host b) = db_host b"
    "to_upper E (db_method b) = db_method b"
proof -
  have "db_scheme b = ''http'' \<or> db_scheme b = ''https''"
    using assms by (auto simp: valid_behavior_def)
  moreover have "to_lower E ''http'' = ''http''" "to_lower E ''https'' = ''https''"
    by (simp_all add: to_lower_ascii is_ascii_def lower_byte_def is_upper_def)
  ultimately show "to_lower E (db_scheme b) = db_scheme b" by metis
  show "normalizeHostname E (db_host b) = db_host b"
    using assms by (intro valid_host_normal) (auto simp: valid_behavior_def)
  show "to_upper E (db_method b) = db_method b"
    using assms by (auto simp: valid_behavior_def)
qed

lemma Match_stored:
  assumes "Replace E s sn = (None, s')" and "b \<in> set (elems (ds_behaviors sn))"
  shows "Match E (Some s') (db_scheme b) (db_host b) (db_port b) (db_method b) (db_path b) = Some b"
proof -
  have "validateDependencyConfig E sn = None"
    using behavior_store.accepts_iff [where E = E and s = s and sn = sn] assms(1) by simp
  then have b: "valid_behavior E b"
    using assms(2) by (auto simp: validateDependencyConfig_iff list_all_iff)
  from valid_behavior_no_nul [OF b] show ?thesis
    by (subst Match_snapshot(1) [OF assms(1)])
      (simp_all add: valid_behavior_normal [OF b] assms(2) behavior_matcher_def)
qed

text \<open>C10: Once a snapshot is accepted, a request whose normalised host and method carry no NUL
  byte is matched by exactly the behaviour with its scheme, host, effective port, method and
  exact path, and by at most one: the NUL-joined key confuses no two requests, and the hosts
  and methods of a snapshot are already in the form requests are normalised to.\<close>

theorem Match_exact:
  assumes "Replace E s sn = (None, s')"
    and "nul \<notin> set (to_lower E scheme)" "nul \<notin> set (normalizeHostname E host)"
      "nul \<notin> set (to_upper E method)"
  shows "Match E (Some s') scheme host port method path = Some b \<longleftrightarrow>
     b \<in> set (elems (ds_behaviors sn))
     \<and> db_scheme b = to_lower E scheme
     \<and> normalizeHostname E (db_host b) = normalizeHostname E host
     \<and> db_port b = port \<and> db_method b = to_upper E method \<and> db_path b = path"
proof -
  have "valid_behavior E b" if "b \<in> set (elems (ds_behaviors sn))"
    using that Match_snapshot(2) [OF assms] by (simp add: list_all_iff)
  then show ?thesis
    using valid_behavior_normal(2) [of E b]
    by (auto simp: Match_snapshot(1) [OF assms] behavior_matcher_def)
qed

definition sample_behavior :: dependency_behavior where
  "sample_behavior = \<lparr>db_id = ''b1'', db_scheme = ''https'', db_host = ''api.example.com'',
     db_port = 443, db_method = ''GET'', db_path = ''/v1/pets'', db_status = 200,
     db_headers = Some [(''Content-Type'', Some [''application/json''])], db_body = ''[]''\<rparr>"

definition sample_snapshot :: dependency_snapshot where
  "sample_snapshot = \<lparr>ds_endpoint_id = ''e1'', ds_behaviors = Some [sample_behavior]\<rparr>"

lemma sample_snapshot_accepted: "fst (Replace sample_ext NewBehaviorStore sample_snapshot) = None"
  by code_simp

lemma Match_exact_witness:
  "Match sample_ext (Some (snd (Replace sample_ext NewBehaviorStore sample_snapshot)))
     ''HTTPS'' ''API.example.com.'' 443 ''get'' ''/v1/pets'' = Some sample_behavior
   \<and> Match sample_ext (Some (snd (Replace sample_ext NewBehaviorStore sample_snapshot)))
     ''https'' ''api.example.com'' 443 ''GET'' ''/v1/pets/'' \<noteq> Some sample_behavior"
proof -
  have accepted: "Replace sample_ext NewBehaviorStore sample_snapshot
      = (None, snd (Replace sample_ext NewBehaviorStore sample_snapshot))"
    using sample_snapshot_accepted by (simp add: prod_eq_iff)
  have hit: "nul \<notin> set (to_lower sample_ext ''HTTPS'')"
    "nul \<notin> set (normalizeHostname sample_ext ''API.example.com.'')"
    "nul \<notin> set (to_upper sample_ext ''get'')" by code_simp+
  have miss: "nul \<notin> set (to_lower sample_ext ''https'')"
    "nul \<notin> set (normalizeHostname sample_ext ''api.example.com'')"
    "nul \<notin> set (to_upper sample_ext ''GET'')" by code_simp+
  have fields: "sample_behavior \<in> set (elems (ds_behaviors sample_snapshot))
     \<and> db_scheme sample_behavior = to_lower sample_ext ''HTTPS''
     \<and> normalizeHostname sample_ext (db_host sample_behavior)
         = normalizeHostname sample_ext ''API.example.com.''
     \<and> db_port sample_behavior = 443 \<and> db_method sample_behavior = to_upper sample_ext ''get''
     \<and> db_path sample_behavior = ''/v1/pets''"
    by code_simp
  have other: "db_path sample_behavior \<noteq> ''/v1/pets/''" by code_simp
  show ?thesis
    using Match_exact [OF accepted hit] Match_exact [OF accepted miss] fields other by blast
qed

text \<open>The store always serves the last accepted snapshot as a whole: after any sequence of
  snapshots, a rejected one changes nothing, an accepted one replaces every behaviour of its
  predecessors, and the number of active behaviours is that of the last accepted snapshot.\<close>

theorem Replace_sequence:
  "let good = filter (\<lambda>sn. validateDependencyConfig E sn = None) sns;
       final = fold (\<lambda>sn s. snd (Replace E s sn)) sns s
   in final = (if good = [] then s else snd (Replace E NewBehaviorStore (last good)))
      \<and> Count (Some final) =
          (if good = [] then Count (Some s) else length (elems (ds_behaviors (last good))))"
proof -
  let ?good = "filter (\<lambda>sn. validateDependencyConfig E sn = None) sns"
  have indep: "snd (Replace E s sn) = snd (Replace E t sn)"
    if "validateDependencyConfig E sn = None" for s t sn
    using that by (simp add: Replace_def Validate_config [symmetric])
  have final: "fold (\<lambda>sn s. snd (Replace E s sn)) sns s
      = (if ?good = [] then s else snd (Replace E NewBehaviorStore (last ?good)))"
  proof (induction sns arbitrary: s)
    case (Cons sn sns)
    then show ?case
      using behavior_store.rejected [where E = E and s = s and sn = sn] indep [of sn s NewBehaviorStore]
      by auto
  qed simp
  have "validateDependencyConfig E (last ?good) = None" if "?good \<noteq> []"
    using last_in_set [OF that] by simp
  then show ?thesis
    unfolding Let_def final using behavior_store.counted by simp
qed

end
