(* ===== verification/Go_Url.thy ===== *)
theory Go_Url
  imports Go_Net
begin

text \<open>
  The part of \<^verbatim>\<open>net/url\<close> the code relies on: \<^verbatim>\<open>ParseRequestURI\<close> and
  \<^verbatim>\<open>Parse\<close> into the fields of \<^verbatim>\<open>url.URL\<close>, and reading them back:
  \<^verbatim>\<open>EscapedPath\<close>, \<^verbatim>\<open>RequestURI\<close>, \<^verbatim>\<open>Hostname\<close>, \<^verbatim>\<open>Port\<close> and
  \<^verbatim>\<open>String\<close>.
\<close>

record go_url =
  gu_scheme :: string
  gu_opaque :: string
  gu_user :: "(string \<times> string option) option"
  gu_host :: string
  gu_path :: string
  gu_raw_path :: string
  gu_force_query :: bool
  gu_raw_query :: string
  gu_fragment :: string
  gu_raw_fragment :: string
  gu_omit_host :: bool

definition empty_url :: go_url where
  "empty_url = \<lparr>gu_scheme = [], gu_opaque = [], gu_user = None, gu_host = [], gu_path = [],
     gu_raw_path = [], gu_force_query = False, gu_raw_query = [], gu_fragment = [],
     gu_raw_fragment = [], gu_omit_host = False\<rparr>"

definition is_alpha :: "char \<Rightarrow> bool" where
  "is_alpha c \<longleftrightarrow> is_lower c \<or> is_upper c"

definition is_ctl :: "char \<Rightarrow> bool" where
  "is_ctl c \<longleftrightarrow> byte c < 32 \<or> byte c = 127"

subsection \<open>Percent encoding\<close>

fun pct_unescape :: "string \<Rightarrow> string option" where
  "pct_unescape [] = Some []"
| "pct_unescape (c # s) =
     (if c = CHR ''%'' then
        (case s of a # b # t \<Rightarrow>
           if is_hex a \<and> is_hex b
           then map_option (\<lambda>u. char_of (hex_value a * 16 + hex_value b) # u) (pct_unescape t)
           else None
         | _ \<Rightarrow> None)
      else map_option (\<lambda>u. c # u) (pct_unescape s))"

definition unreserved :: "char \<Rightarrow> bool" where
  "unreserved c \<longleftrightarrow> is_alpha c \<or> is_digit c \<or> c \<in> set ''-_.~''"

definition path_safe :: "char \<Rightarrow> bool" where
  "path_safe c \<longleftrightarrow> unreserved c \<or> c \<in> set ''$&+,/:;=@''"

definition upper_hex :: "nat \<Rightarrow> char" where
  "upper_hex n = ''0123456789ABCDEF'' ! n"

definition pct_byte :: "char \<Rightarrow> string" where
  "pct_byte c = [CHR ''%'', upper_hex (byte c div 16), upper_hex (byte c mod 16)]"

definition escape_with :: "(char \<Rightarrow> bool) \<Rightarrow> string \<Rightarrow> string" where
  "escape_with safe s = concat (map (\<lambda>c. if safe c then [c] else pct_byte c) s)"

definition escape_path :: "string \<Rightarrow> string" where
  "escape_path s = escape_with path_safe s"

definition valid_encoded_path :: "string \<Rightarrow> bool" where
  "valid_encoded_path s = list_all (\<lambda>c. c = CHR ''%'' \<or> path_safe c
     \<or> c \<in> set (''!()*[]'' @ [CHR 0x27])) s"

definition host_safe :: "char \<Rightarrow> bool" where
  "host_safe c \<longleftrightarrow> unreserved c \<or> c \<in> set (''!$&()*+,;=:[]<>'' @ [CHR 0x27, CHR 0x22])"

text \<open>\<^verbatim>\<open>unescape\<close> in host mode: only bytes outside ASCII, and \<^verbatim>\<open>%25\<close>, may be percent-encoded.\<close>

fun host_unescape :: "string \<Rightarrow> string option" where
  "host_unescape [] = Some []"
| "host_unescape (c # s) =
     (if c = CHR ''%'' then
        (case s of a # b # t \<Rightarrow>
           if is_hex a \<and> is_hex b \<and> (8 \<le> hex_value a \<or> [a, b] = ''25'')
           then map_option (\<lambda>u. char_of (hex_value a * 16 + hex_value b) # u) (host_unescape t)
           else None
         | _ \<Rightarrow> None)
      else if is_ascii c \<and> \<not> host_safe c then None
      else map_option (\<lambda>u. c # u) (host_unescape s))"

text \<open>\<^verbatim>\<open>unescape\<close> in zone mode.\<close>

fun zone_unescape :: "string \<Rightarrow> string option" where
  "zone_unescape [] = Some []"
| "zone_unescape (c # s) =
     (if c = CHR ''%'' then
        (case s of a # b # t \<Rightarrow>
           let v = char_of (hex_value a * 16 + hex_value b) in
           if is_hex a \<and> is_hex b \<and> ([a, b] = ''25'' \<or> v = CHR 0x20 \<or> host_safe v)
           then map_option (\<lambda>u. v # u) (zone_unescape t) else None
         | _ \<Rightarrow> None)
      else if is_ascii c \<and> \<not> host_safe c then None
      else map_option (\<lambda>u. c # u) (zone_unescape s))"

subsection \<open>Parsing\<close>

fun scheme_split :: "string \<Rightarrow> string \<Rightarrow> string option" where
  "scheme_split seen [] = Some []"
| "scheme_split seen (c # s) =
     (if is_alpha c then scheme_split (seen @ [c]) s
      else if is_digit c \<or> c \<in> set ''+-.'' then
        (if seen = [] then Some [] else scheme_split (seen @ [c]) s)
      else if c = CHR '':'' then (if seen = [] then None else Some seen)
      else Some [])"

text \<open>\<^verbatim>\<open>getScheme\<close>: the scheme, empty if there is none, and the rest.\<close>

definition getScheme :: "string \<Rightarrow> (string \<times> string) option" where
  "getScheme raw = map_option (\<lambda>sc. if sc = [] then ([], raw)
     else (sc, drop (Suc (length sc)) raw)) (scheme_split [] raw)"

definition valid_optional_port :: "string \<Rightarrow> bool" where
  "valid_optional_port p \<longleftrightarrow> p = [] \<or> (hd p = CHR '':'' \<and> list_all is_digit (tl p))"

text \<open>The text before the last \<open>d\<close>, and the text after it.\<close>

definition cut_last :: "char \<Rightarrow> string \<Rightarrow> (string \<times> string) option" where
  "cut_last d s =
     (let p = rev (takeWhile (\<lambda>c. c \<noteq> d) (rev s))
      in if d \<in> set s then Some (take (length s - Suc (length p)) s, p) else None)"

text \<open>The text before the first \<^verbatim>\<open>%25\<close>, and the text from there.\<close>

fun zone_split :: "string \<Rightarrow> (string \<times> string) option" where
  "zone_split [] = None"
| "zone_split (c # s) = (if prefix ''%25'' (c # s) then Some ([], c # s)
     else map_option (\<lambda>p. (c # fst p, snd p)) (zone_split s))"

definition bracket_unescape :: "string \<Rightarrow> string \<Rightarrow> string option" where
  "bracket_unescape host port = (case zone_split (take (length host - Suc (length port)) host) of
       None \<Rightarrow> host_unescape host
     | Some (before, zone) \<Rightarrow>
         (case (host_unescape before, zone_unescape zone, host_unescape (CHR '']'' # port)) of
            (Some a, Some b, Some c) \<Rightarrow> Some (a @ b @ c) | _ \<Rightarrow> None))"

definition parseHost :: "string \<Rightarrow> string option" where
  "parseHost host =
     (if prefix ''['' host then
        (case cut_last CHR '']'' host of
           None \<Rightarrow> None
         | Some (_, port) \<Rightarrow> if valid_optional_port port then bracket_unescape host port else None)
      else case cut_last CHR '':'' host of
          None \<Rightarrow> host_unescape host
        | Some (_, port) \<Rightarrow> if list_all is_digit port then host_unescape host else None)"

definition valid_userinfo :: "string \<Rightarrow> bool" where
  "valid_userinfo s = list_all (\<lambda>c. is_alpha c \<or> is_digit c
     \<or> c \<in> set (''-._:~!$&()*+,;=%@'' @ [CHR 0x27])) s"

text \<open>User name and password, and the host.\<close>

definition parseUserinfo :: "string \<Rightarrow> (string \<times> string option) option" where
  "parseUserinfo userinfo =
     (if \<not> valid_userinfo userinfo then None
      else case cut_at CHR '':'' userinfo of (username, password, found) \<Rightarrow>
        if \<not> found then map_option (\<lambda>n. (n, None)) (pct_unescape userinfo)
        else (case (pct_unescape username, pct_unescape password) of
            (Some n, Some p) \<Rightarrow> Some (n, Some p) | _ \<Rightarrow> None))"

definition parseAuthority :: "string \<Rightarrow> ((string \<times> string option) option \<times> string) option" where
  "parseAuthority authority = (case cut_last CHR ''@'' authority of
       None \<Rightarrow> map_option (\<lambda>h. (None, h)) (parseHost authority)
     | Some (userinfo, rest) \<Rightarrow>
         (case (parseHost rest, parseUserinfo userinfo) of
            (Some h, Some user) \<Rightarrow> Some (Some user, h) | _ \<Rightarrow> None))"

definition set_path :: "string \<Rightarrow> go_url \<Rightarrow> go_url option" where
  "set_path p u = map_option (\<lambda>path. u\<lparr>gu_path := path,
     gu_raw_path := (if p = escape_path path then [] else p)\<rparr>) (pct_unescape p)"

definition cut_query :: "string \<Rightarrow> string \<times> string \<times> bool" where
  "cut_query rest =
     (if suffix ''?'' rest \<and> CHR ''?'' \<notin> set (butlast rest) then (butlast rest, [], True)
      else (case cut_at CHR ''?'' rest of (r, q, found) \<Rightarrow> (r, q, False)))"

definition parse_url :: "bool \<Rightarrow> string \<Rightarrow> go_url option" where
  "parse_url viaRequest raw =
     (if list_ex is_ctl raw \<or> (raw = [] \<and> viaRequest) then None
      else if raw = ''*'' then Some (empty_url\<lparr>gu_path := ''*''\<rparr>)
      else case getScheme raw of None \<Rightarrow> None | Some (sc, rest) \<Rightarrow>
        let scheme = map lower_byte sc; (rest, query, force) = cut_query rest;
            u = empty_url\<lparr>gu_scheme := scheme, gu_raw_query := query, gu_force_query := force\<rparr>
        in if \<not> prefix ''/'' rest \<and> scheme \<noteq> [] then Some (u\<lparr>gu_opaque := rest\<rparr>)
           else if \<not> prefix ''/'' rest \<and> viaRequest then None
           else if \<not> prefix ''/'' rest \<and> CHR '':'' \<in> set (fst (cut_at CHR ''/'' rest)) then None
           else if (scheme \<noteq> [] \<or> (\<not> viaRequest \<and> \<not> prefix ''///'' rest)) \<and> prefix ''//'' rest then
             (let authority = takeWhile (\<lambda>c. c \<noteq> CHR ''/'') (drop 2 rest);
                  path = dropWhile (\<lambda>c. c \<noteq> CHR ''/'') (drop 2 rest)
              in case parseAuthority authority of
                   None \<Rightarrow> None
                 | Some (user, host) \<Rightarrow> set_path path (u\<lparr>gu_user := user, gu_host := host\<rparr>))
           else set_path rest (u\<lparr>gu_omit_host := scheme \<noteq> []\<rparr>))"

definition fragment_safe :: "char \<Rightarrow> bool" where
  "fragment_safe c \<longleftrightarrow> unreserved c \<or> c \<in> set ''$&+,/:;=?@!()*''"

definition ParseRequestURI :: "string \<Rightarrow> go_url option" where
  "ParseRequestURI raw = parse_url True raw"

definition Parse_url :: "string \<Rightarrow> go_url option" where
  "Parse_url raw = (case cut_at CHR ''#'' raw of (r, frag, found) \<Rightarrow>
     case parse_url False r of
       None \<Rightarrow> None
     | Some u \<Rightarrow> map_option (\<lambda>f. u\<lparr>gu_fragment := f,
         gu_raw_fragment := (if frag = escape_with fragment_safe f then [] else frag)\<rparr>) (pct_unescape frag))"

subsection \<open>Reading a URL\<close>

definition EscapedPath :: "go_url \<Rightarrow> string" where
  "EscapedPath u =
     (if gu_raw_path u \<noteq> [] \<and> valid_encoded_path (gu_raw_path u)
         \<and> pct_unescape (gu_raw_path u) = Some (gu_path u) then gu_raw_path u
      else if gu_path u = ''*'' then ''*'' else escape_path (gu_path u))"

definition RequestURI :: "go_url \<Rightarrow> string" where
  "RequestURI u =
     (let result = (if gu_opaque u = [] then (if EscapedPath u = [] then ''/'' else EscapedPath u)
                    else if prefix ''//'' (gu_opaque u) then gu_scheme u @ '':'' @ gu_opaque u
                    else gu_opaque u)
      in if gu_force_query u \<or> gu_raw_query u \<noteq> [] then result @ ''?'' @ gu_raw_query u else result)"

definition host_port_split :: "string \<Rightarrow> string \<times> string" where
  "host_port_split hostPort =
     (let (host, port) = (case cut_last CHR '':'' hostPort of
          Some (h, p) \<Rightarrow> if list_all is_digit p then (h, p) else (hostPort, [])
        | None \<Rightarrow> (hostPort, []))
      in if prefix ''['' host \<and> suffix '']'' host \<and> 2 \<le> length host
         then (butlast (tl host), port) else (host, port))"

definition Hostname :: "go_url \<Rightarrow> string" where
  "Hostname u = fst (host_port_split (gu_host u))"

definition Port :: "go_url \<Rightarrow> string" where
  "Port u = snd (host_port_split (gu_host u))"

subsection \<open>Printing a URL\<close>

definition user_safe :: "char \<Rightarrow> bool" where
  "user_safe c \<longleftrightarrow> unreserved c \<or> c \<in> set ''$&+,;=''"

definition user_string :: "string \<times> string option \<Rightarrow> string" where
  "user_string u = escape_with user_safe (fst u)
     @ (case snd u of None \<Rightarrow> [] | Some p \<Rightarrow> '':'' @ escape_with user_safe p)"

definition valid_encoded_fragment :: "string \<Rightarrow> bool" where
  "valid_encoded_fragment s = list_all (\<lambda>c. c = CHR ''%'' \<or> fragment_safe c
     \<or> c \<in> set (''!()*[]'' @ [CHR 0x27])) s"

definition EscapedFragment :: "go_url \<Rightarrow> string" where
  "EscapedFragment u =
     (if gu_raw_fragment u \<noteq> [] \<and> valid_encoded_fragment (gu_raw_fragment u)
         \<and> pct_unescape (gu_raw_fragment u) = Some (gu_fragment u) then gu_raw_fragment u
      else escape_with fragment_safe (gu_fragment u))"

definition url_authority :: "go_url \<Rightarrow> string" where
  "url_authority u =
     (if gu_scheme u = [] \<and> gu_host u = [] \<and> gu_user u = None then []
      else if gu_omit_host u \<and> gu_host u = [] \<and> gu_user u = None then []
      else (if gu_host u \<noteq> [] \<or> gu_path u \<noteq> [] \<or> gu_user u \<noteq> None then ''//'' else [])
        @ (case gu_user u of None \<Rightarrow> [] | Some ui \<Rightarrow> user_string ui @ ''@'')
        @ escape_with host_safe (gu_host u))"

definition url_string :: "go_url \<Rightarrow> string" where
  "url_string u =
     (let scheme = (if gu_scheme u = [] then [] else gu_scheme u @ '':'');
          path = EscapedPath u;
          rooted = (if path \<noteq> [] \<and> hd path \<noteq> CHR ''/'' \<and> gu_host u \<noteq> [] then ''/'' else []);
          front = scheme @ url_authority u @ rooted;
          dot = (if front = [] \<and> CHR '':'' \<in> set (fst (cut_at CHR ''/'' path)) then ''./'' else []);
          main = (if gu_opaque u \<noteq> [] then scheme @ gu_opaque u else front @ dot @ path)
      in main @ (if gu_force_query u \<or> gu_raw_query u \<noteq> [] then ''?'' @ gu_raw_query u else [])
         @ (if gu_fragment u \<noteq> [] then ''#'' @ EscapedFragment u else []))"

subsection \<open>Paths of a request\<close>

lemma not_Some_pair_iff [simp]: "(\<forall>a b. x \<noteq> Some (a, b)) \<longleftrightarrow> x = None"
  by (cases x) auto

lemma escape_path_hd: "hd s = CHR ''/'' \<Longrightarrow> s \<noteq> [] \<Longrightarrow> prefix ''/'' (escape_path s)"
  by (cases s) (auto simp: escape_path_def escape_with_def path_safe_def)

lemma pct_unescape_hd: "pct_unescape (CHR ''/'' # s) = Some p \<Longrightarrow> p \<noteq> [] \<and> hd p = CHR ''/''"
  by auto

lemma RequestURI_rooted:
  assumes "ParseRequestURI raw = Some u" and "gu_scheme u = []" and "gu_path u \<noteq> []"
    and "hd (gu_path u) = CHR ''/''"
  shows "prefix ''/'' (RequestURI u)"
proof -
  have opaque: "gu_opaque u = [] \<and> (gu_raw_path u = [] \<or> prefix ''/'' (gu_raw_path u))"
    using assms(1,2,4)
    by (auto simp: ParseRequestURI_def parse_url_def set_path_def empty_url_def Let_def
        split: if_splits option.splits prod.splits)
  have "prefix ''/'' (EscapedPath u) \<and> EscapedPath u \<noteq> []"
    using opaque escape_path_hd [OF assms(4,3)] assms(4)
    by (auto simp: EscapedPath_def prefix_def)
  with opaque show ?thesis by (auto simp: RequestURI_def Let_def)
qed

subsection \<open>Parsing what was printed\<close>

lemma upper_hex_16: "n < 16 \<Longrightarrow> is_hex (upper_hex n) \<and> hex_value (upper_hex n) = n"
proof -
  have "\<forall>n < 16. is_hex (upper_hex n) \<and> hex_value (upper_hex n) = n"
    by (simp add: All_less_Suc numeral_eq_Suc upper_hex_def is_hex_def hex_value_def is_digit_def)
  then show "n < 16 \<Longrightarrow> is_hex (upper_hex n) \<and> hex_value (upper_hex n) = n" by blast
qed

lemma pct_byte_value:
  "is_hex (upper_hex (byte c div 16)) \<and> is_hex (upper_hex (byte c mod 16))
   \<and> (char_of (hex_value (upper_hex (byte c div 16)) * 16 + hex_value (upper_hex (byte c mod 16))) :: char) = c"
proof -
  have "byte c div 16 < 16" using byte_less_256 [of c] by linarith
  then show ?thesis
    using upper_hex_16 [of "byte c div 16"] upper_hex_16 [of "byte c mod 16"] by simp
qed

lemma pct_unescape_byte: "pct_unescape (pct_byte c @ s) = map_option (\<lambda>u. c # u) (pct_unescape s)"
  using pct_byte_value [of c] by (simp add: pct_byte_def)

lemma pct_unescape_escape:
  assumes "\<not> safe CHR ''%''"
  shows "pct_unescape (escape_with safe s) = Some s"
proof (induction s)
  case (Cons c s)
  have "escape_with safe (c # s) = (if safe c then [c] else pct_byte c) @ escape_with safe s"
    by (simp add: escape_with_def)
  moreover have "safe c \<Longrightarrow> c \<noteq> CHR ''%''" using assms by blast
  ultimately show ?case using Cons pct_unescape_byte [of c "escape_with safe s"] by auto
qed (simp add: escape_with_def)

lemma cut_at_prefix: "d \<notin> set p \<Longrightarrow> fst (cut_at d (p @ s)) = p @ fst (cut_at d s)"
  unfolding cut_at_fst by (subst takeWhile_append2) auto

lemma getScheme_http: "getScheme (''http://'' @ s) = Some (''http'', ''//'' @ s)"
proof -
  have "scheme_split [] (''http'' @ CHR '':'' # ''//'' @ s) = Some ''http''"
    by (simp add: is_alpha_def is_lower_def is_upper_def is_digit_def)
  then show ?thesis by (simp add: getScheme_def)
qed

lemma lower_http: "map lower_byte ''http'' = ''http''"
  by code_simp

lemma fst_cut_query:
  assumes "CHR ''?'' \<notin> set p"
  shows "\<exists>t. fst (cut_query (p @ s)) = p @ t \<and> prefix t s"
proof (cases "suffix ''?'' (p @ s) \<and> CHR ''?'' \<notin> set (butlast (p @ s))")
  case True
  with assms have s: "s \<noteq> []" by (auto simp: suffix_def)
  then have "fst (cut_query (p @ s)) = p @ butlast s"
    using True by (simp add: cut_query_def butlast_append)
  moreover have "prefix (butlast s) s"
    using s by (metis append_butlast_last_id prefixI)
  ultimately show ?thesis by blast
next
  case False
  then have "fst (cut_query (p @ s)) = fst (cut_at CHR ''?'' (p @ s))"
    unfolding cut_query_def if_not_P [OF False] by (simp split: prod.split)
  moreover have "prefix (fst (cut_at CHR ''?'' s)) s"
    by (simp add: cut_at_fst takeWhile_is_prefix)
  ultimately show ?thesis using cut_at_prefix [OF assms] by auto
qed

lemma host_unescape_safe: "list_all host_safe s \<Longrightarrow> CHR ''%'' \<notin> set s \<Longrightarrow> host_unescape s = Some s"
  by (induction s) auto

lemma cut_last_append: "d \<notin> set p \<Longrightarrow> cut_last d (a @ d # p) = Some (a, p)"
proof -
  assume p: "d \<notin> set p"
  then have "takeWhile (\<lambda>c. c \<noteq> d) (rev p @ d # rev a) = rev p"
    by (subst takeWhile_append2) auto
  then show ?thesis by (simp add: cut_last_def)
qed

lemma itoa_digits: "0 \<le> i \<Longrightarrow> list_all is_digit (itoa i)"
  using digits_of_digits [of "nat i"] by (simp add: itoa_def)

lemma zone_split_none: "CHR ''%'' \<notin> set s \<Longrightarrow> zone_split s = None"
  by (induction s) auto

lemma escape_with_safe: "list_all safe s \<Longrightarrow> escape_with safe s = s"
  by (induction s) (simp_all add: escape_with_def)

text \<open>A host that is an IP literal, joined with a port.\<close>

lemma ip_char_safe: "ip_char c \<Longrightarrow> host_safe c \<and> c \<notin> set ''%@/?#[]'' \<and> \<not> is_ctl c"
  by (auto simp: ip_char_def is_hex_def host_safe_def unreserved_def is_alpha_def is_lower_def
      is_upper_def is_digit_def is_ctl_def)

lemma digit_safe: "is_digit c \<Longrightarrow> host_safe c \<and> c \<notin> set ''%@/?#[]:'' \<and> \<not> is_ctl c"
  by (auto simp: host_safe_def unreserved_def is_digit_def is_ctl_def)

lemma join_host_port_chars:
  assumes "list_all ip_char h" and "list_all is_digit p" and "c \<in> set (join_host_port h p)"
  shows "host_safe c \<and> c \<notin> set ''%@/?#'' \<and> \<not> is_ctl c"
proof -
  have "ip_char c \<or> is_digit c \<or> c \<in> set ''[]:''"
    using assms by (auto simp: join_host_port_def list_all_iff split: if_splits)
  moreover have "\<forall>c \<in> set ''[]:''. host_safe c \<and> c \<notin> set ''%@/?#'' \<and> \<not> is_ctl c" by code_simp
  moreover have "ip_char c \<or> is_digit c \<Longrightarrow> ?thesis"
    using ip_char_safe [of c] digit_safe [of c] by auto
  ultimately show ?thesis by blast
qed

lemma parse_joined_authority:
  assumes h: "list_all ip_char h" and p: "list_all is_digit p"
  shows "parseAuthority (join_host_port h p) = Some (None, join_host_port h p)"
proof -
  let ?H = "join_host_port h p"
  have chars: "list_all host_safe ?H" "CHR ''%'' \<notin> set ?H" "CHR ''@'' \<notin> set ?H"
    using join_host_port_chars [OF h p] by (auto simp: list_all_iff)
  have un: "host_unescape ?H = Some ?H" using chars(1,2) by (rule host_unescape_safe)
  have "CHR '']'' \<notin> set ('':'' @ p)" "CHR '':'' \<notin> set p"
    using p digit_safe by (auto simp: list_all_iff)
  note cuts = cut_last_append [OF this(1), of "''['' @ h"] cut_last_append [OF this(2), of h]
  have "\<not> prefix ''['' ?H" if "CHR '':'' \<notin> set h"
    using that h ip_char_safe by (cases h) (auto simp: join_host_port_def)
  moreover have "bracket_unescape ?H q = Some ?H" for q
  proof -
    have "zone_split (take n ?H) = None" for n
      using chars(2) by (intro zone_split_none) (meson in_set_takeD)
    then show ?thesis by (simp add: bracket_unescape_def un)
  qed
  ultimately have "parseHost ?H = Some ?H"
    using cuts un p
    by (cases "CHR '':'' \<in> set h")
      (simp_all add: parseHost_def join_host_port_def valid_optional_port_def)
  then show ?thesis using chars(3) by (simp add: parseAuthority_def cut_last_def Let_def)
qed

lemma split_joined_host:
  assumes h: "list_all ip_char h" and p: "list_all is_digit p"
  shows "host_port_split (join_host_port h p) = (h, p)"
proof -
  have "CHR '':'' \<notin> set p" using p digit_safe by (auto simp: list_all_iff)
  note cuts = cut_last_append [OF this, of "''['' @ h @ '']''"] cut_last_append [OF this, of h]
  have "\<not> prefix ''['' h" using h ip_char_safe by (cases h) auto
  then show ?thesis using cuts p
    by (auto simp: host_port_split_def join_host_port_def butlast_append suffix_def)
qed

end
