(* ===== verification/Go_Query.thy ===== *)
theory Go_Query
  imports Go_Url "HOL-Library.List_Lexorder" "HOL-Library.Char_ord"
begin

text \<open>
  Query strings of \<^verbatim>\<open>net/url\<close>: \<^verbatim>\<open>QueryEscape\<close>, \<^verbatim>\<open>QueryUnescape\<close>,
  \<^verbatim>\<open>ParseQuery\<close> (with its errors ignored, as \<^verbatim>\<open>URL.Query\<close> does) and
  \<^verbatim>\<open>Values.Encode\<close>, with the round trip between them.  A \<^verbatim>\<open>url.Values\<close> is a map from
  keys to their values in order.
\<close>

subsection \<open>Escaping\<close>

fun query_unescape :: "string \<Rightarrow> string option" where
  "query_unescape [] = Some []"
| "query_unescape (c # s) =
     (if c = CHR ''%'' then
        (case s of a # b # t \<Rightarrow>
           if is_hex a \<and> is_hex b
           then map_option (\<lambda>u. char_of (hex_value a * 16 + hex_value b) # u) (query_unescape t)
           else None
         | _ \<Rightarrow> None)
      else map_option (\<lambda>u. (if c = CHR ''+'' then CHR '' '' else c) # u) (query_unescape s))"

definition query_byte :: "char \<Rightarrow> string" where
  "query_byte c = (if unreserved c then [c] else if c = CHR '' '' then ''+'' else pct_byte c)"

definition query_escape :: "string \<Rightarrow> string" where
  "query_escape s = concat (map query_byte s)"

lemma query_unescape_byte [simp]:
  "query_unescape (query_byte c @ s) = map_option (\<lambda>u. c # u) (query_unescape s)"
proof (cases "unreserved c \<or> c = CHR '' ''")
  case True
  have "\<not> unreserved CHR ''%''" "\<not> unreserved CHR ''+''"
    by (simp_all add: unreserved_def is_alpha_def is_lower_def is_upper_def is_digit_def)
  with True have "c \<noteq> CHR ''%''" "c \<noteq> CHR ''+''" by auto
  with True show ?thesis by (auto simp: query_byte_def)
next
  case False
  then have "query_byte c @ s = CHR ''%'' # upper_hex (byte c div 16) # upper_hex (byte c mod 16) # s"
    by (simp add: query_byte_def pct_byte_def)
  then show ?thesis using pct_byte_value [of c] by simp
qed

lemma query_unescape_escape [simp]: "query_unescape (query_escape s) = Some s"
  by (induction s) (simp_all add: query_escape_def)

lemma query_byte_chars: "d \<in> set (query_byte c) \<Longrightarrow> unreserved d \<or> d = CHR ''+'' \<or> d = CHR ''%'' \<or> is_hex d"
  using pct_byte_value [of c] by (auto simp: query_byte_def pct_byte_def split: if_splits)

lemma query_escape_chars:
  "d \<in> set (query_escape s) \<Longrightarrow> unreserved d \<or> d = CHR ''+'' \<or> d = CHR ''%'' \<or> is_hex d"
  using query_byte_chars by (auto simp: query_escape_def)

lemma query_escape_no:
  assumes "d \<in> {CHR ''&'', CHR '';'', CHR ''='', CHR ''#'', CHR ''?'', CHR '' '', CHR 0x0A, CHR 0x0D}"
  shows "d \<notin> set (query_escape s)"
proof
  assume "d \<in> set (query_escape s)"
  from query_escape_chars [OF this] assms show False
    by (auto simp: unreserved_def is_alpha_def is_lower_def is_upper_def is_digit_def is_hex_def)
qed

subsection \<open>Values\<close>

type_synonym url_values = "(string, string list) gomap"

definition values_get :: "url_values \<Rightarrow> string \<Rightarrow> string" where
  "values_get m k = (case map_of m k of None \<Rightarrow> [] | Some [] \<Rightarrow> [] | Some (v # vs) \<Rightarrow> v)"

definition values_set :: "string \<Rightarrow> string \<Rightarrow> url_values \<Rightarrow> url_values" where
  "values_set k v m = gomap_set k [v] m"

definition values_add :: "string \<times> string \<Rightarrow> url_values \<Rightarrow> url_values" where
  "values_add p m = gomap_set (fst p)
     ((case map_of m (fst p) of None \<Rightarrow> [] | Some vs \<Rightarrow> vs) @ [snd p]) m"

text \<open>One segment of a query: the decoded key and value, unless it is empty, has a semicolon or is
  badly escaped.\<close>

definition query_pair :: "string \<Rightarrow> (string \<times> string) option" where
  "query_pair segment =
     (if CHR '';'' \<in> set segment \<or> segment = [] then None
      else case cut_at CHR ''='' segment of (key, val, found) \<Rightarrow>
        (case (query_unescape key, query_unescape val) of
           (Some k, Some v) \<Rightarrow> Some (k, v) | _ \<Rightarrow> None))"

definition query_pairs :: "string \<Rightarrow> (string \<times> string) list" where
  "query_pairs raw = List.map_filter query_pair (split_on CHR ''&'' raw)"

definition parse_query :: "string \<Rightarrow> url_values" where
  "parse_query raw = fold values_add (query_pairs raw) []"

definition values_pairs :: "url_values \<Rightarrow> (string \<times> string) list" where
  "values_pairs m = concat (map (\<lambda>k. map (\<lambda>v. (k, v)) (case map_of m k of None \<Rightarrow> [] | Some vs \<Rightarrow> vs))
     (sort (map fst m)))"

definition query_segment :: "string \<times> string \<Rightarrow> string" where
  "query_segment p = query_escape (fst p) @ ''='' @ query_escape (snd p)"

definition values_encode :: "url_values \<Rightarrow> string" where
  "values_encode m = join_with ''&'' (map query_segment (values_pairs m))"

subsection \<open>Round trip\<close>

lemma query_pair_segment [simp]: "query_pair (query_segment p) = Some p"
proof -
  have "CHR '';'' \<notin> set (query_segment p)" and eq: "CHR ''='' \<notin> set (query_escape (fst p))"
    using query_escape_no by (simp_all add: query_segment_def)
  moreover have "cut_at CHR ''='' (query_segment p) = (query_escape (fst p), query_escape (snd p), True)"
    using cut_at_append [OF eq, of "query_escape (snd p)"] by (simp add: query_segment_def)
  moreover have "query_segment p \<noteq> []" by (simp add: query_segment_def)
  ultimately show ?thesis by (simp add: query_pair_def)
qed

lemma query_segment_no_amp: "CHR ''&'' \<notin> set (query_segment p)"
  using query_escape_no by (simp add: query_segment_def)

lemma query_pairs_join: "query_pairs (join_with ''&'' (map query_segment ps)) = ps"
proof (cases "ps = []")
  case True
  then show ?thesis by (simp add: query_pairs_def query_pair_def List.map_filter_def)
next
  case False
  then have "split_on CHR ''&'' (join_with ''&'' (map query_segment ps)) = map query_segment ps"
    using query_segment_no_amp by (intro split_join) auto
  then show ?thesis by (simp add: query_pairs_def List.map_filter_def comp_def)
qed

lemma map_of_values_add:
  "map_of (values_add p m) k = (if k = fst p then Some ((case map_of m k of None \<Rightarrow> [] | Some vs \<Rightarrow> vs) @ [snd p])
     else map_of m k)"
  by (simp add: values_add_def)

definition values_of :: "string \<Rightarrow> (string \<times> string) list \<Rightarrow> string list" where
  "values_of k ps = map snd (filter (\<lambda>p. fst p = k) ps)"

lemma map_of_fold_add:
  "map_of (fold values_add ps m) k =
     (if values_of k ps = [] then map_of m k
      else Some ((case map_of m k of None \<Rightarrow> [] | Some vs \<Rightarrow> vs) @ values_of k ps))"
  by (induction ps arbitrary: m) (auto simp: values_of_def map_of_values_add split: option.splits)

lemma map_of_parse_query:
  "map_of (parse_query raw) k = (let vs = values_of k (query_pairs raw) in if vs = [] then None else Some vs)"
  by (simp add: parse_query_def map_of_fold_add)

lemma wf_parse_query: "wf_gomap (parse_query raw)"
proof -
  have "wf_gomap m \<Longrightarrow> wf_gomap (fold values_add ps m)" for ps m
    by (induction ps arbitrary: m) (simp_all add: values_add_def)
  then show ?thesis by (simp add: parse_query_def)
qed

lemma values_of_concat:
  "distinct ks \<Longrightarrow> values_of k (concat (map (\<lambda>k. map (\<lambda>v. (k, v)) (f k)) ks)) = (if k \<in> set ks then f k else [])"
  by (induction ks) (auto simp: values_of_def filter_map comp_def filter_empty_conv)

lemma values_of_pairs:
  assumes "wf_gomap m"
  shows "values_of k (values_pairs m) = (case map_of m k of None \<Rightarrow> [] | Some vs \<Rightarrow> vs)"
proof -
  have "distinct (sort (map fst m))" using assms by (simp add: wf_gomap_def)
  from values_of_concat [OF this, of k "\<lambda>k. case map_of m k of None \<Rightarrow> [] | Some vs \<Rightarrow> vs"] show ?thesis
    using map_of_eq_None_iff [of m k] by (auto simp: values_pairs_def split: option.split)
qed

lemma parse_encode:
  "wf_gomap m \<Longrightarrow> map_of (parse_query (values_encode m)) k =
     (case map_of m k of None \<Rightarrow> None | Some vs \<Rightarrow> if vs = [] then None else Some vs)"
  by (auto simp: map_of_parse_query values_encode_def query_pairs_join values_of_pairs Let_def
      split: option.split)

lemma values_encode_chars:
  assumes "d \<in> {CHR ''#'', CHR ''?'', CHR '' '', CHR 0x0A, CHR 0x0D}"
  shows "d \<notin> set (values_encode m)"
proof -
  have seg: "d \<notin> set (query_segment p)" for p
    using assms query_escape_no [of d] by (auto simp: query_segment_def)
  have "d \<noteq> CHR ''&''" using assms by auto
  then have "d \<notin> set (join_with ''&'' (map query_segment ps))" for ps
    by (induction ps rule: induct_list012) (auto simp: seg)
  then show ?thesis by (simp add: values_encode_def)
qed

lemma sublist_values_encode:
  assumes "map_of m k = Some vs" and "v \<in> set vs"
  shows "sublist (query_escape v) (values_encode m)"
proof -
  have "(k, v) \<in> set (values_pairs m)"
    using assms map_of_SomeD [OF assms(1)] by (force simp: values_pairs_def)
  then have "query_segment (k, v) \<in> set (map query_segment (values_pairs m))" by force
  moreover have "x \<in> set xs \<Longrightarrow> sublist x (join_with sep xs)" for x sep :: string and xs
  proof (induction sep xs rule: join_with.induct)
    case (3 sep a b xs)
    then show ?case
      by (auto intro: sublist_append_rightI sublist_order.order.trans [OF _ sublist_append_leftI])
  qed auto
  ultimately have "sublist (query_segment (k, v)) (values_encode m)" by (simp add: values_encode_def)
  moreover have "sublist (query_escape v) (query_segment (k, v))"
    using sublist_append_leftI [of "query_escape v" "query_escape k @ ''=''"] by (simp add: query_segment_def)
  ultimately show ?thesis by (rule sublist_order.order.trans [rotated])
qed

end
