(* ===== verification/Capture.thy ===== *)
theory Capture
  imports Hop_Headers Go_Query
begin

text \<open>
  \<^verbatim>\<open>internal/dependencycapture/capture.go\<close>: the bounded inspection copies of request
  and response bodies, what of them may leave the machine, and the redaction of headers and
  query parameters.  The decompressors (\<^verbatim>\<open>compress/gzip\<close>, \<^verbatim>\<open>compress/zlib\<close> and the
  third-party brotli package) are a parameter: a record of reader operations over an abstract
  reader type.
\<close>

subsection \<open>Content types and encodings\<close>

definition redactedValue :: string where
  "redactedValue = ''[REDACTED]''"

definition sensitiveHeaders :: "string list" where
  "sensitiveHeaders = [''authorization'', ''proxy-authorization'', ''cookie'', ''set-cookie'']"

definition sensitiveQueryKeys :: "string list" where
  "sensitiveQueryKeys = [''access_token'', ''token'', ''api_key'', ''apikey'', ''key'',
     ''secret'', ''password'', ''passwd'']"

text \<open>\<^verbatim>\<open>mime.ParseMediaType\<close>, of which only the media type is used: the trimmed, lower-cased
  text before the first semicolon, unless the parser reports an error.\<close>

definition ParseMediaType :: "ext \<Rightarrow> string \<Rightarrow> string option" where
  "ParseMediaType E value =
     (if media_error E value then None
      else Some (trim_space (to_lower E (fst (cut_at CHR '';'' value)))))"

definition normalizedContentType :: "ext \<Rightarrow> string \<Rightarrow> string" where
  "normalizedContentType E value =
     (let mediaType = (case ParseMediaType E value of
          Some t \<Rightarrow> t | None \<Rightarrow> trim_space (hd (split_on CHR '';'' value)))
      in to_lower E mediaType)"

definition isTextualContentType :: "string \<Rightarrow> bool" where
  "isTextualContentType contentType =
     (if prefix ''text/'' contentType then True
      else if contentType = ''application/json''
          \<or> (prefix ''application/'' contentType \<and> suffix ''+json'' contentType) then True
      else if contentType = ''application/xml'' \<or> contentType = ''text/xml''
          \<or> contentType = ''application/soap+xml''
          \<or> (prefix ''application/'' contentType \<and> suffix ''+xml'' contentType) then True
      else contentType = ''application/x-www-form-urlencoded'')"

definition bodyCaptureAllowed :: "ext \<Rightarrow> header_map \<Rightarrow> bool" where
  "bodyCaptureAllowed E headers =
     isTextualContentType (normalizedContentType E (header_get headers ''Content-Type''))"

definition encoding_names :: "ext \<Rightarrow> string \<Rightarrow> string list" where
  "encoding_names E value = map (\<lambda>e. to_lower E (trim_space e)) (split_on CHR '','' value)"

definition hasContentEncoding :: "ext \<Rightarrow> string \<Rightarrow> bool" where
  "hasContentEncoding E value = list_ex (\<lambda>e. e \<noteq> [] \<and> e \<noteq> ''identity'') (encoding_names E value)"

subsection \<open>Observing a stream\<close>

record preview =
  pv_preview :: string
  pv_limit :: nat
  pv_total :: int
  pv_capture :: bool

text \<open>\<^verbatim>\<open>newPreviewReader\<close> and \<^verbatim>\<open>newPreviewWriter\<close>.\<close>

definition newPreview :: "ext \<Rightarrow> header_map \<Rightarrow> nat \<Rightarrow> preview" where
  "newPreview E headers limit = \<lparr>pv_preview = [], pv_limit = limit, pv_total = 0,
     pv_capture = bodyCaptureAllowed E headers\<rparr>"

text \<open>\<^verbatim>\<open>previewReader.Read\<close> after the inner reader has returned the bytes \<open>value\<close>.\<close>

definition previewReader_Read :: "preview \<Rightarrow> string \<Rightarrow> preview" where
  "previewReader_Read r value =
     (let n = length value; r1 = r\<lparr>pv_total := pv_total r + int n\<rparr> in
      if pv_capture r1 \<and> length (pv_preview r1) < pv_limit r1 then
        (let remaining = pv_limit r1 - length (pv_preview r1);
             remaining = (if remaining > n then n else remaining)
         in r1\<lparr>pv_preview := pv_preview r1 @ take remaining value\<rparr>)
      else r1)"

definition previewWriter_observe :: "preview \<Rightarrow> string \<Rightarrow> preview" where
  "previewWriter_observe w value =
     (let w1 = w\<lparr>pv_total := pv_total w + int (length value)\<rparr> in
      if \<not> pv_capture w1 \<or> pv_limit w1 \<le> length (pv_preview w1) then w1
      else
        (let remaining = pv_limit w1 - length (pv_preview w1);
             remaining = (if remaining > length value then length value else remaining)
         in w1\<lparr>pv_preview := pv_preview w1 @ take remaining value\<rparr>))"

subsection \<open>Decoding the copy\<close>

record 'r codecs =
  new_bytes :: "string \<Rightarrow> 'r"
  new_gzip :: "'r \<Rightarrow> 'r option"
  new_zlib :: "'r \<Rightarrow> 'r option"
  new_brotli :: "'r \<Rightarrow> 'r"
  read_all :: "nat \<Rightarrow> 'r \<Rightarrow> string option"

text \<open>
  \<^verbatim>\<open>read_all n r\<close> is \<^verbatim>\<open>io.ReadAll(io.LimitReader(r, n))\<close>; the documented behaviour
  of \<^verbatim>\<open>io.LimitReader\<close> is that it never delivers more than \<open>n\<close> bytes.
\<close>

definition codecs_limited :: "'r codecs \<Rightarrow> bool" where
  "codecs_limited C \<longleftrightarrow> (\<forall>n r d. read_all C n r = Some d \<longrightarrow> length d \<le> n)"

fun decode_chain :: "'r codecs \<Rightarrow> 'r \<Rightarrow> string list \<Rightarrow> 'r option" where
  "decode_chain C reader [] = Some reader"
| "decode_chain C reader (e # es) =
     (if e = [] \<or> e = ''identity'' then decode_chain C reader es
      else if e = ''gzip'' \<or> e = ''x-gzip'' then
        (case new_gzip C reader of None \<Rightarrow> None | Some r \<Rightarrow> decode_chain C r es)
      else if e = ''deflate'' then
        (case new_zlib C reader of None \<Rightarrow> None | Some r \<Rightarrow> decode_chain C r es)
      else if e = ''br'' then decode_chain C (new_brotli C reader) es
      else None)"

definition decodeBodyPreview ::
  "ext \<Rightarrow> 'r codecs \<Rightarrow> string \<Rightarrow> string \<Rightarrow> nat \<Rightarrow> (string \<times> bool) option" where
  "decodeBodyPreview E C source contentEncoding limit =
     (case decode_chain C (new_bytes C source) (rev (encoding_names E contentEncoding)) of
        None \<Rightarrow> None
      | Some reader \<Rightarrow> (case read_all C (limit + 1) reader of
            None \<Rightarrow> None
          | Some decoded \<Rightarrow>
              if limit < length decoded then Some (take limit decoded, True)
              else Some (decoded, False)))"

subsection \<open>The captured body\<close>

definition empty_body :: "string \<Rightarrow> int \<Rightarrow> captured_body" where
  "empty_body contentType n = \<lparr>cb_captured = False, cb_content_type = contentType,
     cb_content = [], cb_size_bytes = n, cb_captured_bytes = 0, cb_truncated = False,
     cb_reason = []\<rparr>"

text \<open>The loop that removes one, two or three bytes of a cut rune.\<close>

definition cut_rune :: "string \<Rightarrow> string option" where
  "cut_rune preview = map_option (\<lambda>removed. take (length preview - removed) preview)
     (find (\<lambda>removed. removed \<le> length preview
        \<and> utf8_valid (take (length preview - removed) preview)) [1, 2, 3])"

text \<open>The part of \<^verbatim>\<open>capturedBody\<close> after decoding.\<close>

definition captured_text :: "captured_body \<Rightarrow> string \<Rightarrow> nat \<Rightarrow> captured_body" where
  "captured_text result preview0 limit =
     (let preview = (if limit < length preview0 then take limit preview0 else preview0);
          text = (if utf8_valid preview then Some preview
                  else if int (length preview) < cb_size_bytes result then cut_rune preview
                  else None)
      in case text of
          None \<Rightarrow> result\<lparr>cb_reason := ''invalid_text''\<rparr>
        | Some content \<Rightarrow> result\<lparr>cb_captured := True, cb_content := content,
            cb_captured_bytes := int (length content),
            cb_truncated := int (length content) < cb_size_bytes result\<rparr>)"

definition capturedBody ::
  "ext \<Rightarrow> 'r codecs \<Rightarrow> header_map \<Rightarrow> string \<Rightarrow> int \<Rightarrow> nat \<Rightarrow> captured_body" where
  "capturedBody E C headers preview n limit =
     (let contentType = normalizedContentType E (header_get headers ''Content-Type'');
          result = empty_body contentType n;
          encoding = header_get headers ''Content-Encoding''
      in if \<not> isTextualContentType contentType then result\<lparr>cb_reason := ''binary_content''\<rparr>
         else if hasContentEncoding E encoding then
           (if int (length preview) < cb_size_bytes result
            then result\<lparr>cb_reason := ''encoded_content''\<rparr>
            else case decodeBodyPreview E C preview encoding limit of
                None \<Rightarrow> result\<lparr>cb_reason := ''encoded_content''\<rparr>
              | Some (decoded, truncated) \<Rightarrow>
                  captured_text (result\<lparr>cb_size_bytes :=
                    int (length decoded) + (if truncated then 1 else 0)\<rparr>) decoded limit)
         else captured_text result preview limit)"

subsection \<open>Redaction\<close>

definition redactHeaders :: "ext \<Rightarrow> header_map \<Rightarrow> header_map" where
  "redactHeaders E source = map (\<lambda>p. (fst p,
     if to_lower E (fst p) \<in> set sensitiveHeaders
     then map_option (map (\<lambda>v. redactedValue)) (append_nil (snd p))
     else append_nil (snd p))) source"

definition redact_part :: "ext \<Rightarrow> string \<Rightarrow> string" where
  "redact_part E part =
     (let name = fst (cut_at CHR ''='' part) in
      case query_unescape name of
        None \<Rightarrow> part
      | Some decoded \<Rightarrow> if to_lower E decoded \<in> set sensitiveQueryKeys
          then name @ ''='' @ redactedValue else part)"

definition redactRawQuery :: "ext \<Rightarrow> string \<Rightarrow> string" where
  "redactRawQuery E raw = (if raw = [] then []
     else join_with ''&'' (map (redact_part E) (split_on CHR ''&'' raw)))"

subsection \<open>The contract of a stream observer\<close>

locale stream_observer =
  fixes observe :: "preview \<Rightarrow> string \<Rightarrow> preview"
  assumes total: "pv_total (observe p v) = pv_total p + int (length v)"
    and frame: "pv_limit (observe p v) = pv_limit p" "pv_capture (observe p v) = pv_capture p"
    and ignored: "\<not> pv_capture p \<Longrightarrow> pv_preview (observe p v) = pv_preview p"
    and copied: "pv_capture p \<Longrightarrow> length (pv_preview p) \<le> pv_limit p \<Longrightarrow>
      pv_preview (observe p v) = take (pv_limit p) (pv_preview p @ v)"
begin

text \<open>However the stream is cut into reads or writes, the copy is its first bytes.\<close>

lemma observe_all:
  assumes "length (pv_preview p) \<le> pv_limit p"
  shows "fold (\<lambda>v p. observe p v) vs p = p\<lparr>
     pv_preview := (if pv_capture p then take (pv_limit p) (pv_preview p @ concat vs) else pv_preview p),
     pv_total := pv_total p + int (length (concat vs))\<rparr>"
  using assms
proof (induction vs arbitrary: p)
  case Nil
  then show ?case by simp
next
  case (Cons v vs)
  let ?q = "observe p v"
  have "length (pv_preview ?q) \<le> pv_limit ?q"
    using Cons.prems by (cases "pv_capture p") (simp_all add: copied ignored frame)
  from Cons.IH [OF this] have *: "fold (\<lambda>v p. observe p v) (v # vs) p = ?q\<lparr>
     pv_preview := (if pv_capture p then take (pv_limit p) (pv_preview ?q @ concat vs) else pv_preview ?q),
     pv_total := pv_total ?q + int (length (concat vs))\<rparr>"
    by (simp add: frame)
  show ?case
    unfolding * using Cons.prems
    by (intro preview.equality) (auto simp: frame total copied ignored min_def)
qed

end

interpretation reader: stream_observer previewReader_Read
  by unfold_locales (auto simp: previewReader_Read_def Let_def)

interpretation writer: stream_observer previewWriter_observe
  by unfold_locales (auto simp: previewWriter_observe_def Let_def)

subsection \<open>What a capture promises\<close>

text \<open>The inspection copy does not depend on how the stream is cut: a fresh reader or
  writer that sees a body in any sequence of chunks holds the first \<open>limit\<close> bytes of it when the
  content type is textual and nothing otherwise, and has counted every byte.\<close>

theorem preview_of_stream:
  "fold (\<lambda>v p. previewReader_Read p v) chunks (newPreview E hs limit)
     = \<lparr>pv_preview = (if bodyCaptureAllowed E hs then take limit (concat chunks) else []),
        pv_limit = limit, pv_total = int (length (concat chunks)),
        pv_capture = bodyCaptureAllowed E hs\<rparr>
   \<and> fold (\<lambda>v p. previewWriter_observe p v) chunks (newPreview E hs limit)
     = fold (\<lambda>v p. previewReader_Read p v) chunks (newPreview E hs limit)"
  by (subst reader.observe_all writer.observe_all, simp add: newPreview_def)+
    (simp add: newPreview_def)

lemma cut_rune_Some:
  "cut_rune p = Some c \<Longrightarrow> utf8_valid c \<and> (\<exists>k \<in> {1, 2, 3}. k \<le> length p \<and> c = take (length p - k) p)"
  by (auto simp: cut_rune_def split: if_splits)

lemma captured_text_valid:
  assumes "cb_captured r = False" "cb_content r = []" "cb_captured_bytes r = 0"
    "cb_truncated r = False" "cb_reason r = []" "length (cb_content_type r) \<le> 255"
    and n: "int (length p) \<le> cb_size_bytes r"
  shows "validateCapturedBody (captured_text r p limit) limit = None"
proof -
  let ?q = "if limit < length p then take limit p else p"
  define got where "got = (if utf8_valid ?q then Some ?q
    else if int (length ?q) < cb_size_bytes r then cut_rune ?q else None)"
  have got: "utf8_valid c \<and> length c \<le> limit \<and> length c \<le> length p" if "got = Some c" for c
    using that cut_rune_Some [of ?q c] by (auto simp: got_def min_def split: if_splits)
  have eq: "captured_text r p limit = (case got of
          None \<Rightarrow> r\<lparr>cb_reason := ''invalid_text''\<rparr>
        | Some content \<Rightarrow> r\<lparr>cb_captured := True, cb_content := content,
            cb_captured_bytes := int (length content),
            cb_truncated := int (length content) < cb_size_bytes r\<rparr>)"
    unfolding captured_text_def Let_def got_def by (rule refl)
  show ?thesis
  proof (cases got)
    case None
    with assms show ?thesis by (auto simp: eq validateCapturedBody_def)
  next
    case (Some c)
    with got [OF Some] assms show ?thesis by (auto simp: eq validateCapturedBody_def)
  qed
qed

lemma decodeBodyPreview_bound:
  "decodeBodyPreview E C s enc limit = Some (d, t) \<Longrightarrow> length d \<le> limit"
  by (auto simp: decodeBodyPreview_def split: option.splits if_splits)

lemma capturedBody_valid:
  assumes "length (normalizedContentType E (header_get hs ''Content-Type'')) \<le> 255"
    and "int (length p) \<le> n"
  shows "validateCapturedBody (capturedBody E C hs p n limit) limit = None"
proof -
  let ?ct = "normalizedContentType E (header_get hs ''Content-Type'')"
  let ?enc = "header_get hs ''Content-Encoding''"
  have plain: "validateCapturedBody ((empty_body ?ct n)\<lparr>cb_reason := why\<rparr>) limit = None"
    if "length why \<le> 64" for why
    using that assms by (simp add: validateCapturedBody_def empty_body_def)
  have inner: "validateCapturedBody (captured_text ((empty_body ?ct n)\<lparr>cb_size_bytes := m\<rparr>) q limit) limit = None"
    if "int (length q) \<le> m" for q m
    using that assms by (intro captured_text_valid) (simp_all add: empty_body_def)
  have same: "(empty_body ?ct n)\<lparr>cb_size_bytes := n\<rparr> = empty_body ?ct n"
    by (simp add: empty_body_def)
  from inner [of p n] assms have direct: "validateCapturedBody (captured_text (empty_body ?ct n) p limit) limit = None"
    by (simp add: same)
  show ?thesis
    unfolding capturedBody_def Let_def
    by (auto simp: plain inner direct split: option.splits)
qed

lemma capturedBody_content_type:
  "cb_content_type (capturedBody E C hs p n limit) = normalizedContentType E (header_get hs ''Content-Type'')"
proof -
  have "cb_content_type (captured_text r q limit) = cb_content_type r" for r q
    by (auto simp: captured_text_def Let_def split: option.split)
  note inner = this
  let ?ct = "normalizedContentType E (header_get hs ''Content-Type'')"
  have empty: "cb_content_type ((empty_body ?ct n)\<lparr>cb_reason := x\<rparr>) = ?ct"
    "cb_content_type ((empty_body ?ct n)\<lparr>cb_size_bytes := m\<rparr>) = ?ct"
    "cb_content_type (empty_body ?ct n) = ?ct" for x m
    by (simp_all add: empty_body_def)
  show ?thesis
    unfolding capturedBody_def Let_def
    by (simp add: inner empty split: option.split prod.split)
qed

lemma capturedBody_accepted_iff:
  assumes "int (length p) \<le> n"
  shows "validateCapturedBody (capturedBody E C hs p n limit) limit = None
     \<longleftrightarrow> length (normalizedContentType E (header_get hs ''Content-Type'')) \<le> 255"
proof -
  have "length (cb_content_type b) \<le> 255" if "validateCapturedBody b limit = None" for b
    using that by (auto simp: validateCapturedBody_def split: if_splits)
  from this [of "capturedBody E C hs p n limit"] show ?thesis
    using capturedBody_valid [OF _ assms] by (auto simp only: capturedBody_content_type)
qed

definition sample_text :: string where
  "sample_text = ''caf'' @ [CHR 0xC3, CHR 0xA9] @ ''!''"

definition text_headers :: header_map where
  "text_headers = [(''Content-Type'', Some [''text/plain''])]"

definition no_codecs :: "string codecs" where
  "no_codecs = \<lparr>new_bytes = (\<lambda>s. s), new_gzip = (\<lambda>r. None), new_zlib = (\<lambda>r. None),
     new_brotli = (\<lambda>r. r), read_all = (\<lambda>n r. Some (take n r))\<rparr>"

text \<open>A bounded copy of a valid UTF-8 text body is always captured, although the bound may
  fall inside a rune: the captured content is a valid prefix of the body that loses at most three
  of the copied bytes, and it is marked truncated exactly when it is not the whole body.\<close>

theorem capturedBody_text:
  assumes "bodyCaptureAllowed E hs" and "\<not> hasContentEncoding E (header_get hs ''Content-Encoding'')"
    and "utf8_valid body"
  shows "let r = capturedBody E C hs (take limit body) (int (length body)) limit in
     cb_captured r \<and> prefix (cb_content r) body \<and> utf8_valid (cb_content r)
     \<and> length (cb_content r) \<le> limit \<and> min limit (length body) - 3 \<le> length (cb_content r)
     \<and> cb_truncated r = (cb_content r \<noteq> body)"
proof -
  define q where "q = take limit body"
  let ?ct = "normalizedContentType E (header_get hs ''Content-Type'')"
  have q: "(if limit < length q then take limit q else q) = q"
    by (simp add: q_def)
  have "\<exists>c. (if utf8_valid q then Some q
      else if int (length q) < int (length body) then cut_rune q else None) = Some c
      \<and> utf8_valid c \<and> (\<exists>k \<le> 3. k \<le> length q \<and> c = take (length q - k) q)"
  proof (cases "utf8_valid q")
    case True
    then show ?thesis by (auto intro: exI [of _ 0])
  next
    case False
    with assms(3) have less: "length q < length body"
      by (cases "limit < length body") (auto simp: q_def)
    then have len: "length q = limit" and lim: "limit \<le> length body" by (auto simp: q_def)
    obtain k where k: "k \<le> 3" "k \<le> limit" "utf8_valid (take (limit - k) body)"
      using utf8_valid_take [OF assms(3) lim] by blast
    with False have "k \<noteq> 0" by (metis diff_zero q_def)
    with k(1) have "k \<in> {1, 2, 3}" by auto
    moreover have "take (length q - k) q = take (limit - k) body"
      unfolding len by (simp add: q_def)
    ultimately have "cut_rune q \<noteq> None"
      using k(2,3) len by (auto simp: cut_rune_def find_None_iff)
    then obtain c where c: "cut_rune q = Some c" by auto
    from cut_rune_Some [OF c] obtain k where "k \<in> {1, 2, 3}" "k \<le> length q"
      "c = take (length q - k) q" "utf8_valid c" by blast
    moreover from this(1) have "k \<le> 3" by auto
    ultimately have "utf8_valid c \<and> (\<exists>k \<le> 3. k \<le> length q \<and> c = take (length q - k) q)" by blast
    with c False less show ?thesis by simp
  qed
  then obtain c k where c: "(if utf8_valid q then Some q
      else if int (length q) < int (length body) then cut_rune q else None) = Some c"
    "utf8_valid c" "k \<le> 3" "k \<le> length q" "c = take (length q - k) q"
    by blast
  have c_body: "c = take (length q - k) body"
    using c(5) by (simp add: q_def min_def)
  have n: "cb_size_bytes (empty_body ?ct (int (length body))) = int (length body)"
    by (simp add: empty_body_def)
  have inner: "captured_text (empty_body ?ct (int (length body))) q limit
      = (empty_body ?ct (int (length body)))\<lparr>cb_captured := True, cb_content := c,
         cb_captured_bytes := int (length c), cb_truncated := int (length c) < int (length body)\<rparr>"
    unfolding captured_text_def Let_def q n c(1) by simp
  have r: "capturedBody E C hs q (int (length body)) limit = (empty_body ?ct (int (length body)))
      \<lparr>cb_captured := True, cb_content := c, cb_captured_bytes := int (length c),
       cb_truncated := int (length c) < int (length body)\<rparr>"
    using assms(1,2) inner
    by (simp add: capturedBody_def bodyCaptureAllowed_def Let_def)
  have "length c = length q - k" using c(5) by simp
  then show ?thesis
    using c(2,3) c_body unfolding q_def [symmetric] r
    by (auto simp: take_is_prefix q_def)
qed

lemma capturedBody_text_witness:
  "let r = capturedBody sample_ext no_codecs text_headers (take 4 sample_text)
      (int (length sample_text)) 4 in
     cb_captured r \<and> prefix (cb_content r) sample_text \<and> utf8_valid (cb_content r)
     \<and> length (cb_content r) \<le> 4 \<and> min 4 (length sample_text) - 3 \<le> length (cb_content r)
     \<and> cb_truncated r = (cb_content r \<noteq> sample_text)"
proof -
  have "bodyCaptureAllowed sample_ext text_headers"
    by code_simp
  moreover have "\<not> hasContentEncoding sample_ext (header_get text_headers ''Content-Encoding'')"
    by code_simp
  moreover have "utf8_valid sample_text"
    by code_simp
  ultimately show ?thesis by (rule capturedBody_text)
qed

subsection \<open>What redaction promises\<close>

definition part_name :: "string \<Rightarrow> string" where
  "part_name part = fst (cut_at CHR ''='' part)"

definition part_value :: "string \<Rightarrow> string" where
  "part_value part = fst (snd (cut_at CHR ''='' part))"

text \<open>A query part whose decoded name is sensitive and whose value is not the placeholder.\<close>

definition exposes_secret :: "ext \<Rightarrow> string \<Rightarrow> bool" where
  "exposes_secret E part = (case query_unescape (part_name part) of
       None \<Rightarrow> False
     | Some decoded \<Rightarrow> to_lower E decoded \<in> set sensitiveQueryKeys \<and> part_value part \<noteq> redactedValue)"

lemma part_name_takeWhile: "part_name p = takeWhile (\<lambda>c. c \<noteq> CHR ''='') p"
  by (simp add: part_name_def cut_at_fst)

lemma part_name_set: "set (part_name p) \<subseteq> set p" "CHR ''='' \<notin> set (part_name p)"
  by (auto simp: part_name_takeWhile dest: set_takeWhileD)

lemma part_split: "part_value p \<noteq> [] \<Longrightarrow> p = part_name p @ CHR ''='' # part_value p"
proof -
  assume v: "part_value p \<noteq> []"
  then obtain c rest where rest: "dropWhile (\<lambda>c. c \<noteq> CHR ''='') p = c # rest"
    by (auto simp: part_value_def cut_at_def split: list.splits)
  moreover from rest have "c = CHR ''=''"
    by (metis (mono_tags) hd_dropWhile list.distinct(1) list.sel(1))
  ultimately show ?thesis
    using takeWhile_dropWhile_id [of "\<lambda>c. c \<noteq> CHR ''=''" p]
    by (simp add: part_name_takeWhile part_value_def cut_at_def)
qed

lemma redact_part_eq:
  "redact_part E p = (if exposes_secret E p then part_name p @ CHR ''='' # redactedValue else p)"
proof -
  have "p = part_name p @ CHR ''='' # redactedValue" if "part_value p = redactedValue"
    using part_split [of p] that by (simp add: redactedValue_def)
  then show ?thesis
    by (auto simp: redact_part_def exposes_secret_def part_name_def Let_def split: option.splits)
qed

lemma redacted_part:
  "part_name (part_name p @ CHR ''='' # v) = part_name p" "part_value (part_name p @ CHR ''='' # v) = v"
  using cut_at_append [OF part_name_set(2) [of p]]
  by (simp_all add: part_name_def [of "part_name p @ _"] part_value_def)

lemma redact_part_safe: "\<not> exposes_secret E (redact_part E p)"
proof -
  have "\<not> exposes_secret E (part_name p @ CHR ''='' # redactedValue)"
    by (simp add: exposes_secret_def redacted_part split: option.split)
  then show ?thesis by (simp add: redact_part_eq)
qed

lemma redact_part_name: "part_name (redact_part E p) = part_name p"
  by (simp add: redact_part_eq redacted_part)

lemma redact_part_idem: "redact_part E (redact_part E p) = redact_part E p"
  using redact_part_safe [of E p] by (simp add: redact_part_eq [of E "redact_part E p"])

lemma redact_part_chars: "set (redact_part E p) \<subseteq> set p \<union> set (CHR ''='' # redactedValue)"
  using part_name_set(1) [of p] by (auto simp: redact_part_eq)

lemma redact_parts:
  "split_on CHR ''&'' (redactRawQuery E raw) = map (redact_part E) (split_on CHR ''&'' raw)"
proof (cases "raw = []")
  case True
  have "redact_part E [] = []"
    by (simp add: redact_part_def cut_at_def sensitiveQueryKeys_def)
  with True show ?thesis by (simp add: redactRawQuery_def)
next
  case False
  have "CHR ''&'' \<notin> set (redact_part E p)" if "p \<in> set (split_on CHR ''&'' raw)" for p
    using split_on_parts [OF that] redact_part_chars [of E p] by (auto simp: redactedValue_def)
  with False show ?thesis
    by (simp add: redactRawQuery_def) (subst split_join, auto)
qed

text \<open>No secret query value survives: no part of a redacted query has a sensitive decoded
  name and a value other than the placeholder; the parts keep their number, order and names, a
  part that carries no secret is unchanged, and redacting twice changes nothing more.\<close>

theorem redactRawQuery_safe:
  "\<not> list_ex (exposes_secret E) (split_on CHR ''&'' (redactRawQuery E raw))
   \<and> map part_name (split_on CHR ''&'' (redactRawQuery E raw)) = map part_name (split_on CHR ''&'' raw)
   \<and> list_all2 (\<lambda>p q. q = (if exposes_secret E p then part_name p @ CHR ''='' # redactedValue else p))
       (split_on CHR ''&'' raw) (split_on CHR ''&'' (redactRawQuery E raw))
   \<and> redactRawQuery E (redactRawQuery E raw) = redactRawQuery E raw"
proof -
  have "redactRawQuery E (redactRawQuery E raw) = redactRawQuery E raw"
  proof -
    have "split_on CHR ''&'' (redactRawQuery E (redactRawQuery E raw)) = split_on CHR ''&'' (redactRawQuery E raw)"
      by (simp add: redact_parts redact_part_idem)
    then show ?thesis by (metis join_split_on)
  qed
  then show ?thesis
    by (auto simp: redact_parts list_ex_iff redact_part_safe redact_part_name list_all2_conv_all_nth redact_part_eq [symmetric])
qed

definition sensitive_name :: "ext \<Rightarrow> string \<Rightarrow> bool" where
  "sensitive_name E name \<longleftrightarrow> to_lower E name \<in> set sensitiveHeaders"

lemma redactHeaders_lookup:
  "map_of (redactHeaders E m) k = map_option (\<lambda>vs. if sensitive_name E k
     then map_option (map (\<lambda>v. redactedValue)) (append_nil vs) else append_nil vs) (map_of m k)"
  by (induction m) (auto simp: redactHeaders_def sensitive_name_def)

lemma redactHeaders_keys: "map fst (redactHeaders E m) = map fst m"
  by (simp add: redactHeaders_def comp_def)

lemma crlf_redacted: "set redactedValue \<inter> set crlf = {}"
  by (simp add: redactedValue_def crlf_def)

lemma redactHeaders_entry:
  "header_entry_ok (k, if sensitive_name E k
     then map_option (map (\<lambda>v. redactedValue)) (append_nil vs) else append_nil vs)
   \<longleftrightarrow> validHTTPToken k \<and> elems vs \<noteq> []
     \<and> (sensitive_name E k \<or> list_all (\<lambda>v. set v \<inter> set crlf = {}) (elems vs))"
  using crlf_redacted
  by (auto simp: header_entry_ok_def append_nil_def list_all_iff)

text \<open>The headers of a telemetry event, which are the redacted copy of the observed ones,
  pass the protocol's validation exactly when every name is a token, every entry has at least one
  value, the values that are not replaced by the placeholder have no line break, and the redacted
  copy is within the size limit.  The copy turns an entry with an empty value list into a nil one,
  so such an entry always makes the event invalid, although the original map may be valid.\<close>

theorem redactHeaders_accepted:
  "validateHeaders (Some (redactHeaders E m)) = None \<longleftrightarrow>
     list_all (\<lambda>p. validHTTPToken (fst p) \<and> elems (snd p) \<noteq> []
       \<and> (sensitive_name E (fst p) \<or> list_all (\<lambda>v. set v \<inter> set crlf = {}) (elems (snd p)))) m
     \<and> header_bytes (redactHeaders E m) \<le> MaxDependencyHeaderBytes"
proof -
  have "list_all header_entry_ok (redactHeaders E m) \<longleftrightarrow>
    list_all (\<lambda>p. validHTTPToken (fst p) \<and> elems (snd p) \<noteq> []
       \<and> (sensitive_name E (fst p) \<or> list_all (\<lambda>v. set v \<inter> set crlf = {}) (elems (snd p)))) m"
    by (simp add: redactHeaders_def list.pred_map comp_def redactHeaders_entry
        sensitive_name_def [symmetric])
  then show ?thesis by (simp add: validateHeaders_iff)
qed

end
