(* ===== verification/Proxy.thy ===== *)
theory Proxy
  imports Behaviors Capture
begin

text \<open>
  \<^verbatim>\<open>internal/dependencycapture/proxy.go\<close>: the dependency proxy.  A handler run is a
  function of the request and of an environment that fixes what the network, the clock, the
  UUID generator and the client's connection do; its result is the reply the client gets, the
  request sent upstream and the telemetry event.  Verbose log lines are not modelled.
\<close>

subsection \<open>Requests, replies and the environment\<close>

record http_url =
  ur_scheme :: string
  ur_host :: string
  ur_path :: string
  ur_raw_query :: string

text \<open>A body is the chunks its reads deliver, and whether it then fails instead of ending.\<close>

type_synonym stream = "string list \<times> bool"

record http_request =
  hr_method :: string
  hr_url :: "http_url option"
  hr_host :: string
  hr_request_uri :: string
  hr_close :: bool
  hr_headers :: header_map
  hr_body :: "stream option"
  hr_content_length :: int

record http_response =
  hp_status :: int
  hp_headers :: header_map
  hp_body :: stream

text \<open>
  \<^verbatim>\<open>Http_Error\<close> is a reply of \<^verbatim>\<open>http.Error\<close>.  In a \<open>Reply\<close> the first list
  holds the informational statuses written before the final one.
\<close>

datatype reply = Http_Error string int | Reply "int list" int header_map string | Handler_Panic

datatype net_failure = Timed_Out | Connection_Failed

text \<open>
  The environment of one handler run: \<open>round_trip\<close> gives the reads the transport makes of the
  outgoing body and the response or failure; \<open>client_write i c\<close> the bytes and the error that the
  \<open>i\<close>-th write to the client reports.
\<close>

record 'r env =
  ev_ext :: ext
  ev_codecs :: "'r codecs"
  ev_uuid :: string
  ev_started :: gotime
  ev_duration :: int
  ev_round_trip :: "http_request \<Rightarrow> string list \<times> (net_failure + http_response)"
  ev_client_write :: "nat \<Rightarrow> string \<Rightarrow> nat \<times> bool"

record outcome =
  oc_reply :: reply
  oc_outgoing :: "http_request option"
  oc_event :: "dependency_interaction option"

record proxy_config =
  pc_bind_address :: string
  pc_port :: int
  pc_has_ca :: bool
  pc_passthrough :: "string list"
  pc_behaviors :: "behavior_store option"

record proxy =
  px_config :: proxy_config
  px_passthrough :: "string list"
  px_connections :: "nat list"

datatype proxy_error = Invalid_Bind_Address string | Invalid_Proxy_Port | Missing_Authority

definition NewProxy :: "ext \<Rightarrow> proxy_config \<Rightarrow> proxy_error + proxy" where
  "NewProxy E config =
     (let config = (if pc_bind_address config = []
        then config\<lparr>pc_bind_address := ''127.0.0.1''\<rparr> else config) in
      case parse_ip (pc_bind_address config) of
        None \<Rightarrow> Inl (Invalid_Bind_Address (pc_bind_address config))
      | Some bindIP \<Rightarrow>
          let config = config\<lparr>pc_bind_address := ip_string bindIP\<rparr> in
          if pc_port config < 0 \<or> 65535 < pc_port config then Inl Invalid_Proxy_Port
          else if \<not> pc_has_ca config then Inl Missing_Authority
          else Inr \<lparr>px_config = config,
            px_passthrough = map (normalizeHostname E) (pc_passthrough config),
            px_connections = []\<rparr>)"

text \<open>The network and the address \<^verbatim>\<open>Listen\<close> binds.\<close>

definition Listen_address :: "proxy \<Rightarrow> string \<times> string" where
  "Listen_address p =
     ((case parse_ip (pc_bind_address (px_config p)) of
         Some ip \<Rightarrow> if ip_to4 ip = None then ''tcp6'' else ''tcp4'' | None \<Rightarrow> ''tcp6''),
      join_host_port (pc_bind_address (px_config p)) (itoa (pc_port (px_config p))))"

subsection \<open>The target of a request\<close>

datatype target_error = Invalid_Authority | Invalid_Port | Invalid_Host

definition target_port :: "string \<Rightarrow> string \<Rightarrow> int option" where
  "target_port portText scheme =
     (if portText \<noteq> [] then
        (case atoi portText of None \<Rightarrow> None
         | Some parsed \<Rightarrow> if parsed < 1 \<or> 65535 < parsed then None else Some parsed)
      else Some (if scheme = ''https'' then 443 else 80))"

definition authority_specials :: string where
  "authority_specials = ''/@'' @ blanks"

definition targetHostPort :: "ext \<Rightarrow> string \<Rightarrow> string \<Rightarrow> target_error + string \<times> int" where
  "targetHostPort E authority scheme =
     (if authority = [] \<or> contains_any authority authority_specials then Inl Invalid_Authority
      else
        let split = (case split_host_port authority of
             Some (h, p) \<Rightarrow> Some (h, p)
           | None \<Rightarrow> if CHR '':'' \<in> set authority then None else Some (authority, []))
        in case split of
          None \<Rightarrow> Inl Invalid_Authority
        | Some (host, portText) \<Rightarrow>
            (case target_port portText scheme of
               None \<Rightarrow> Inl Invalid_Port
             | Some port \<Rightarrow>
                 let host = normalizeHostname E host
                 in if host = [] then Inl Invalid_Host else Inr (host, port)))"

subsection \<open>Writing a response\<close>

text \<open>
  \<^verbatim>\<open>WriteHeader\<close> and \<^verbatim>\<open>Write\<close> of \<^verbatim>\<open>net/http\<close>: a status from 100 to 199
  other than 101 is sent as an informational header and is not the final status, which the
  first \<^verbatim>\<open>Write\<close> makes 200; a final status of 101, 204 or 304 and the method HEAD allow
  no body.
\<close>

definition informational :: "int \<Rightarrow> bool" where
  "informational status \<longleftrightarrow> 100 \<le> status \<and> status \<le> 199 \<and> status \<noteq> 101"

definition body_allowed :: "string \<Rightarrow> int \<Rightarrow> bool" where
  "body_allowed method status \<longleftrightarrow> method \<noteq> ''HEAD'' \<and> status \<noteq> 101 \<and> status \<noteq> 204 \<and> status \<noteq> 304"

definition write_reply :: "string \<Rightarrow> int \<Rightarrow> header_map \<Rightarrow> string \<Rightarrow> reply" where
  "write_reply method status hs body =
     (let final = (if informational status then 200 else status)
      in Reply (if informational status then [status] else []) final hs
           (if body_allowed method final then body else []))"

fun copy_response ::
  "(nat \<Rightarrow> string \<Rightarrow> nat \<times> bool) \<Rightarrow> nat \<Rightarrow> string list \<Rightarrow> bool \<Rightarrow> preview \<Rightarrow> string
    \<Rightarrow> string \<times> preview \<times> bool" where
  "copy_response write i [] failed pv sent = (sent, pv, \<not> failed)"
| "copy_response write i (chunk # chunks) failed pv sent =
     (if chunk = [] then copy_response write i chunks failed pv sent
      else
        let (written, writeErr) = write i chunk;
            pv = (if 0 < written then previewWriter_observe pv (take written chunk) else pv);
            sent = sent @ take written chunk
        in if writeErr \<or> written \<noteq> length chunk then (sent, pv, False)
           else copy_response write (Suc i) chunks failed pv sent)"

subsection \<open>Telemetry events\<close>

definition read_preview :: "ext \<Rightarrow> header_map \<Rightarrow> nat \<Rightarrow> string list \<Rightarrow> preview" where
  "read_preview E hs limit chunks = fold (\<lambda>v p. previewReader_Read p v) chunks (newPreview E hs limit)"

definition request_size :: "http_request \<Rightarrow> preview \<Rightarrow> int" where
  "request_size r pv = (if 0 \<le> hr_content_length r then hr_content_length r else pv_total pv)"

definition make_event ::
  "'r env \<Rightarrow> string \<Rightarrow> string \<Rightarrow> int \<Rightarrow> string \<Rightarrow> http_request \<Rightarrow> http_url \<Rightarrow> preview
    \<Rightarrow> int \<Rightarrow> header_map \<Rightarrow> string \<Rightarrow> int \<Rightarrow> dependency_interaction" where
  "make_event V scheme host port handledBy r u requestCapture status hs rpreview rsize =
     (let E = ev_ext V; requestSize = request_size r requestCapture in
      \<lparr>di_id = ev_uuid V, di_scheme = scheme, di_host = host, di_port = port,
       di_handled_by = handledBy, di_started_at = ev_started V,
       di_completed_at = ev_started V + ev_duration V,
       di_duration_ms = ev_duration V div 1000000,
       di_request = \<lparr>rq_method = hr_method r, rq_path = ur_path u,
         rq_raw_query = redactRawQuery E (ur_raw_query u),
         rq_headers = Some (redactHeaders E (hr_headers r)),
         rq_body = capturedBody E (ev_codecs V) (hr_headers r) (pv_preview requestCapture)
           requestSize MaxDependencyRequestPreview,
         rq_size_bytes = requestSize\<rparr>,
       di_response = \<lparr>rs_status = status, rs_headers = Some (redactHeaders E hs),
         rs_body = capturedBody E (ev_codecs V) hs rpreview rsize MaxDependencyResponsePreview,
         rs_size_bytes = rsize\<rparr>\<rparr>)"

subsection \<open>Replaying a behaviour\<close>

definition replay_dropped :: "string list" where
  "replay_dropped = [''Authentication-Info'', ''Authorization'', ''Content-Encoding'',
     ''Content-Length'', ''Cookie'', ''Date'', ''Proxy-Authentication-Info'', ''Server'',
     ''Set-Cookie'', ''Via'']"

text \<open>The response headers of a behaviour; setting a key of a nil map panics.\<close>

definition replay_headers :: "dependency_behavior \<Rightarrow> header_map option" where
  "replay_headers behavior = (case db_headers behavior of
       None \<Rightarrow> None
     | Some hs \<Rightarrow> Some (header_set
         (fold (\<lambda>name r. header_del r name) replay_dropped (filterHopHeaders hs))
         ''Content-Length'' (itoa (int (length (db_body behavior))))))"

definition replay ::
  "'r env \<Rightarrow> http_request \<Rightarrow> http_url \<Rightarrow> string \<Rightarrow> string \<Rightarrow> int \<Rightarrow> dependency_behavior \<Rightarrow> outcome" where
  "replay V request u scheme host port behavior =
     (let E = ev_ext V;
          (chunks, failed) = (case hr_body request of None \<Rightarrow> ([], False) | Some b \<Rightarrow> b);
          requestCapture = read_preview E (hr_headers request) MaxDependencyRequestPreview chunks
      in if failed then \<lparr>oc_reply = Http_Error ''Could not read dependency request'' 400,
           oc_outgoing = None, oc_event = None\<rparr>
         else case replay_headers behavior of
           None \<Rightarrow> \<lparr>oc_reply = Handler_Panic, oc_outgoing = None, oc_event = None\<rparr>
         | Some responseHeaders \<Rightarrow>
             let responseBytes = db_body behavior;
                 responsePreview = (if MaxDependencyResponsePreview < length responseBytes
                   then take MaxDependencyResponsePreview responseBytes else responseBytes)
             in \<lparr>oc_reply = write_reply (hr_method request) (db_status behavior)
                   (header_add_all [] responseHeaders) responseBytes,
                 oc_outgoing = None,
                 oc_event = Some (make_event V scheme host port ''REPLAY'' request u requestCapture
                   (db_status behavior) responseHeaders responsePreview (int (length responseBytes)))\<rparr>)"

subsection \<open>Forwarding to the origin\<close>

definition outgoing_request :: "http_request \<Rightarrow> http_url \<Rightarrow> string \<Rightarrow> string \<Rightarrow> http_request" where
  "outgoing_request request u scheme authority = request\<lparr>hr_request_uri := [],
     hr_url := Some (u\<lparr>ur_scheme := scheme, ur_host := authority\<rparr>),
     hr_headers := header_del (filterHopHeaders (hr_headers request)) ''Proxy-Authorization'',
     hr_body := Some (case hr_body request of None \<Rightarrow> ([], False) | Some b \<Rightarrow> b),
     hr_close := False\<rparr>"

definition safeNetworkError :: "net_failure \<Rightarrow> string" where
  "safeNetworkError err = (case err of Timed_Out \<Rightarrow> ''connection timed out''
     | Connection_Failed \<Rightarrow> ''upstream connection or TLS validation failed'')"

definition to_origin ::
  "'r env \<Rightarrow> http_request \<Rightarrow> http_url \<Rightarrow> string \<Rightarrow> string \<Rightarrow> string \<Rightarrow> int \<Rightarrow> outcome" where
  "to_origin V request u scheme authority host port =
     (let E = ev_ext V; outgoing = outgoing_request request u scheme authority;
          (reads, result) = ev_round_trip V outgoing;
          requestCapture = read_preview E (hr_headers request) MaxDependencyRequestPreview reads
      in case result of
           Inl err \<Rightarrow> \<lparr>oc_reply = Http_Error (''Dependency request failed: '' @ safeNetworkError err) 502,
             oc_outgoing = Some outgoing, oc_event = None\<rparr>
         | Inr response \<Rightarrow>
             let (sent, responseCapture, completed) = copy_response (ev_client_write V) 0
                   (fst (hp_body response)) (snd (hp_body response))
                   (newPreview E (hp_headers response) MaxDependencyResponsePreview) []
             in \<lparr>oc_reply = write_reply (hr_method request) (hp_status response)
                   (header_add_all [] (filterHopHeaders (hp_headers response))) sent,
                 oc_outgoing = Some outgoing,
                 oc_event = (if completed then Some (make_event V scheme host port ''ORIGIN'' request u
                   requestCapture (hp_status response) (hp_headers response)
                   (pv_preview responseCapture) (pv_total responseCapture)) else None)\<rparr>)"

definition forward ::
  "'r env \<Rightarrow> proxy \<Rightarrow> http_request \<Rightarrow> string \<Rightarrow> string \<Rightarrow> outcome" where
  "forward V p request forcedScheme forcedAuthority =
     (case hr_url request of
        None \<Rightarrow> \<lparr>oc_reply = Http_Error ''Bad proxy request'' 400, oc_outgoing = None, oc_event = None\<rparr>
      | Some u \<Rightarrow>
          let E = ev_ext V;
              scheme = (if forcedScheme \<noteq> [] then forcedScheme else to_lower E (ur_scheme u));
              authority = (if forcedScheme \<noteq> [] then forcedAuthority else ur_host u)
          in if scheme \<noteq> ''http'' \<and> scheme \<noteq> ''https''
             then \<lparr>oc_reply = Http_Error ''Only HTTP and HTTPS proxy requests are supported'' 400,
                   oc_outgoing = None, oc_event = None\<rparr>
             else case targetHostPort E authority scheme of
               Inl e \<Rightarrow> \<lparr>oc_reply = Http_Error ''Invalid dependency target'' 400,
                   oc_outgoing = None, oc_event = None\<rparr>
             | Inr (host, port) \<Rightarrow>
                 (case Match E (pc_behaviors (px_config p)) scheme host port (hr_method request) (ur_path u) of
                    Some behavior \<Rightarrow> replay V request u scheme host port behavior
                  | None \<Rightarrow> to_origin V request u scheme authority host port))"

subsection \<open>Targets\<close>

lemma itoa_nat: "0 \<le> i \<Longrightarrow> itoa i = digits_of (nat i)"
  by (simp add: itoa_def)

lemma digits_char: "is_digit c \<Longrightarrow> host_char c"
  by (simp add: host_char_def label_char_def)

lemma itoa_host_chars: "0 \<le> i \<Longrightarrow> c \<in> set (itoa i) \<Longrightarrow> is_digit c"
  using digits_of_digits [of "nat i"] by (simp add: itoa_nat list_all_iff)

lemma valid_authority:
  assumes "validDependencyHost h"
  shows "\<not> contains_any h authority_specials" "CHR ''['' \<notin> set h" "CHR '']'' \<notin> set h"
proof -
  have not: "\<not> host_char c" if "c \<in> set authority_specials" for c
    using that by (auto simp: authority_specials_def blanks_def host_char_def label_char_def
        is_lower_def is_upper_def is_digit_def)
  show "\<not> contains_any h authority_specials"
    using valid_host_chars [OF assms] not by (auto simp: contains_any_iff)
  show "CHR ''['' \<notin> set h" "CHR '']'' \<notin> set h"
    using valid_host_chars [OF assms] host_char_not by blast+
qed

lemma target_join:
  assumes h: "validDependencyHost h" "h = to_lower E h" and p: "1 \<le> port" "port \<le> 65535"
  shows "targetHostPort E (join_host_port h (itoa port)) scheme = Inr (h, port)"
proof -
  let ?a = "join_host_port h (itoa port)"
  have digits: "is_digit c" if "c \<in> set (itoa port)" for c
    using that p itoa_host_chars [of port c] by simp
  have sep: "set (itoa port) \<inter> set '':[]'' = {}"
    using digits by (force simp: is_digit_def)
  have "set ?a \<subseteq> set h \<union> set (itoa port) \<union> set ''[]:''"
    by (auto simp: join_host_port_def)
  moreover have "set authority_specials \<inter> (set (itoa port) \<union> set ''[]:'') = {}"
    using digits by (force simp: authority_specials_def blanks_def is_digit_def)
  ultimately have "\<not> contains_any ?a authority_specials"
    using valid_authority(1) [OF h(1)] by (auto simp: contains_any_iff)
  moreover have "?a \<noteq> []" by (simp add: join_host_port_def)
  moreover have "split_host_port ?a = Some (h, itoa port)"
    using valid_authority(2,3) [OF h(1)] sep by (rule split_join_host_port)
  moreover have "target_port (itoa port) scheme = Some port"
    using p atoi_itoa [of port] by (simp add: target_port_def itoa_nat)
  ultimately show ?thesis
    using valid_host_normal [OF h] valid_host_nonempty [OF h(1)] by (simp add: targetHostPort_def)
qed

lemma target_default:
  assumes h: "validDependencyHost h" "h = to_lower E h" and "CHR '':'' \<notin> set h"
  shows "targetHostPort E h scheme = Inr (h, if scheme = ''https'' then 443 else 80)"
proof -
  have "split_host_port h = None"
    using assms(3) by (simp add: split_host_port_def last_colon_none)
  then show ?thesis
    using valid_authority(1) [OF h(1)] valid_host_normal [OF h] valid_host_nonempty [OF h(1)] assms(3)
    by (simp add: targetHostPort_def target_port_def)
qed

lemma target_range:
  "targetHostPort E a scheme = Inr (h, port) \<Longrightarrow> 1 \<le> port \<and> port \<le> 65535 \<and> h \<noteq> []"
  by (auto simp: targetHostPort_def target_port_def Let_def split: if_splits option.splits)

text \<open>Every target the proxy accepts has a non-empty host and a port from 1 to 65535; and for a
  lower-case valid host, whether a name, an IPv4 or an IPv6 address, the authority that carries it
  with any port is split into exactly that host and port, and without a port (when it has no
  colon) into the host and the default port of the scheme.\<close>

theorem targetHostPort_roundtrip:
  assumes "validDependencyHost h" and "h = to_lower E h" and "1 \<le> port" and "port \<le> 65535"
  shows "targetHostPort E (join_host_port h (itoa port)) scheme = Inr (h, port)
    \<and> (CHR '':'' \<in> set h \<or>
        targetHostPort E h scheme = Inr (h, if scheme = ''https'' then 443 else 80))
    \<and> (case targetHostPort E any scheme of
          Inl e \<Rightarrow> True | Inr (h', q) \<Rightarrow> h' \<noteq> [] \<and> 1 \<le> q \<and> q \<le> 65535)"
proof (intro conjI)
  show "targetHostPort E (join_host_port h (itoa port)) scheme = Inr (h, port)"
    by (rule target_join [OF assms])
  show "CHR '':'' \<in> set h \<or>
        targetHostPort E h scheme = Inr (h, if scheme = ''https'' then 443 else 80)"
    using target_default [OF assms(1,2)] by blast
  show "case targetHostPort E any scheme of
          Inl e \<Rightarrow> True | Inr (h', q) \<Rightarrow> h' \<noteq> [] \<and> 1 \<le> q \<and> q \<le> 65535"
    using target_range [of E any scheme] by (simp split: sum.split)
qed

lemma targetHostPort_roundtrip_witness:
  "targetHostPort sample_ext (join_host_port ''::1'' (itoa 8443)) ''https'' = Inr (''::1'', 8443)
    \<and> (CHR '':'' \<in> set ''::1'' \<or>
        targetHostPort sample_ext ''::1'' ''https'' = Inr (''::1'', if ''https'' = ''https'' then 443 else 80))
    \<and> (case targetHostPort sample_ext ''h:0'' ''https'' of
          Inl e \<Rightarrow> True | Inr (h', q) \<Rightarrow> h' \<noteq> [] \<and> 1 \<le> q \<and> q \<le> 65535)"
proof -
  have "validDependencyHost ''::1''" and "''::1'' = to_lower sample_ext ''::1''"
    by code_simp+
  then show ?thesis by (rule targetHostPort_roundtrip) simp_all
qed

subsection \<open>Replayed headers\<close>

lemma header_values_add:
  "header_values (header_add w n v) k = header_values w k @ (if canonical_key n = canonical_key k then [v] else [])"
  by (auto simp: header_values_def header_add_def)

lemma header_values_add_values:
  "header_values (fold (\<lambda>v w. header_add w n v) vs w) k
     = header_values w k @ (if canonical_key n = canonical_key k then vs else [])"
  by (induction vs arbitrary: w) (auto simp: header_values_add)

lemma header_values_add_all:
  "header_values (header_add_all w m) k = header_values w k
     @ concat (map (\<lambda>p. if canonical_key (fst p) = canonical_key k then elems (snd p) else []) m)"
  by (induction m arbitrary: w) (simp_all add: header_add_all_def header_values_add_values)

lemma header_values_Nil [simp]: "header_values [] k = []"
  by (simp add: header_values_def)

definition replay_removed :: "header_map \<Rightarrow> string set" where
  "replay_removed hs = set (connection_names hs) \<union> set hop_header_names \<union> set replay_dropped"

lemma replay_headers_eq:
  assumes "db_headers b = Some hs"
  shows "replay_headers b = Some
     (filter (\<lambda>p. fst p \<notin> canonical_key ` replay_removed hs) hs
      @ [(''Content-Length'', Some [itoa (int (length (db_body b)))])])"
proof -
  have cl: "canonical_key ''Content-Length'' = ''Content-Length''" by code_simp
  have "''Content-Length'' \<in> set replay_dropped" by code_simp
  with cl have cl_in: "''Content-Length'' \<in> canonical_key ` set replay_dropped" by (metis imageI)
  have eq: "fold (\<lambda>n r. header_del r n) replay_dropped (filterHopHeaders hs)
      = filter (\<lambda>p. fst p \<notin> canonical_key ` replay_removed hs) hs"
    unfolding fold_del_filter filterHopHeaders_filter filter_filter replay_removed_def image_Un
    by (rule filter_cong) blast+
  have "''Content-Length'' \<notin> fst ` set (filter (\<lambda>p. fst p \<notin> canonical_key ` replay_removed hs) hs)"
    using cl_in by (auto simp: replay_removed_def image_Un)
  then show ?thesis
    unfolding replay_headers_def assms option.case header_set_def cl eq
    by (simp add: gomap_set_new)
qed

definition canonical_map :: "header_map \<Rightarrow> bool" where
  "canonical_map hs \<longleftrightarrow> wf_gomap hs \<and> list_all (\<lambda>p. canonical (fst p)) hs"

lemma header_values_canonical:
  assumes "canonical_map hs"
  shows "concat (map (\<lambda>p. if canonical_key (fst p) = canonical_key k then elems (snd p) else [])
       (filter (\<lambda>p. fst p \<notin> D) hs))
     = (if canonical_key k \<in> D then [] else header_values hs k)"
  using assms
proof (induction hs)
  case (Cons p hs)
  obtain n vs where p: "p = (n, vs)" by (cases p)
  have n: "canonical_key n = n" "n \<notin> fst ` set hs" "canonical_map hs"
    using Cons.prems by (auto simp: canonical_map_def canonical_def wf_gomap_def p)
  have s1: "header_values hs k = []" if "n = canonical_key k"
  proof -
    from n(2) have "map_of hs n = None" by (simp only: map_of_eq_None_iff not_False_eq_True)
    with that show ?thesis by (simp add: header_values_def)
  qed
  have s2: "header_values (p # hs) k
      = (if n = canonical_key k then elems vs else header_values hs k)"
    by (simp add: p header_values_def)
  define L where "L = concat (map (\<lambda>p. if canonical_key (fst p) = canonical_key k
      then elems (snd p) else []) (filter (\<lambda>p. fst p \<notin> D) hs))"
  have s3: "concat (map (\<lambda>p. if canonical_key (fst p) = canonical_key k then elems (snd p) else [])
       (filter (\<lambda>p. fst p \<notin> D) (p # hs)))
      = (if n \<notin> D \<and> n = canonical_key k then elems vs else []) @ L"
    using n(1) by (cases "n \<in> D"; cases "n = canonical_key k") (simp_all add: p L_def)
  have s4: "L = (if canonical_key k \<in> D then [] else header_values hs k)"
    unfolding L_def by (rule Cons.IH [OF n(3)])
  show ?case unfolding s2 s3 s4 using s1 by simp
qed simp

lemma replay_reply_values:
  assumes "db_headers b = Some hs" and "canonical_map hs" and "replay_headers b = Some h"
  shows "header_values (header_add_all [] h) k =
     (if canonical_key k = ''Content-Length'' then [itoa (int (length (db_body b)))]
      else if canonical_key k \<in> canonical_key ` replay_removed hs then []
      else header_values hs k)"
proof -
  let ?cl = "''Content-Length''"
  have cl: "canonical_key ?cl = ?cl" by code_simp
  have "?cl \<in> set replay_dropped" by code_simp
  with cl have cl_in: "?cl \<in> canonical_key ` replay_removed hs"
    by (metis UnI2 imageI replay_removed_def)
  have h: "h = filter (\<lambda>p. fst p \<notin> canonical_key ` replay_removed hs) hs
      @ [(?cl, Some [itoa (int (length (db_body b)))])]"
    using assms(3) by (simp add: replay_headers_eq [OF assms(1)])
  show ?thesis
    unfolding h header_values_add_all
    using header_values_canonical [OF assms(2), of k "canonical_key ` replay_removed hs"] cl cl_in
    by auto
qed

lemma canonical_replay_removed:
  "canonical_key ` set hop_header_names = set hop_header_names"
  "canonical_key ` set replay_dropped = set replay_dropped"
  by (rule canonical_hop_names) code_simp

text \<open>A replayed response carries exactly the configured headers less what must not be
  replayed: for a behaviour whose header names are canonical and distinct, the client sees one
  Content-Length, that of the configured body, no other hop-by-hop, nominated or excluded header,
  and every other header with all its values; nothing is sent upstream, and the status and body
  are those of the behaviour as the response writer sends them.\<close>

theorem replay_response:
  assumes "db_headers b = Some hs" and "canonical_map hs"
    and "case hr_body r of None \<Rightarrow> True | Some (chunks, failed) \<Rightarrow> \<not> failed"
  shows "\<exists>h. oc_reply (replay V r u scheme host port b) = write_reply (hr_method r) (db_status b) h (db_body b)
     \<and> oc_outgoing (replay V r u scheme host port b) = None
     \<and> (\<forall>k. header_values h k =
          (if canonical_key k = ''Content-Length'' then [itoa (int (length (db_body b)))]
           else if canonical_key k \<in> canonical_key ` set (connection_names hs)
             \<union> set hop_header_names \<union> set replay_dropped then []
           else header_values hs k))"
proof -
  obtain h where h: "replay_headers b = Some h"
    using replay_headers_eq [OF assms(1)] by blast
  obtain chunks where body: "(case hr_body r of None \<Rightarrow> ([], False) | Some b \<Rightarrow> b) = (chunks, False)"
    using assms(3) by (auto split: option.splits)
  have removed: "canonical_key ` replay_removed hs = canonical_key ` set (connection_names hs)
      \<union> set hop_header_names \<union> set replay_dropped"
    by (simp add: replay_removed_def image_Un canonical_replay_removed)
  have "oc_reply (replay V r u scheme host port b)
      = write_reply (hr_method r) (db_status b) (header_add_all [] h) (db_body b)"
    "oc_outgoing (replay V r u scheme host port b) = None"
    by (simp_all add: replay_def body h Let_def)
  with replay_reply_values [OF assms(1,2) h] show ?thesis
    unfolding removed by blast
qed

definition sample_request :: http_request where
  "sample_request = \<lparr>hr_method = ''GET'',
     hr_url = Some \<lparr>ur_scheme = ''https'', ur_host = ''api.example.com:443'',
       ur_path = ''/v1/pets'', ur_raw_query = ''token=abc&page=2''\<rparr>,
     hr_host = ''api.example.com:443'', hr_request_uri = ''https://api.example.com:443/v1/pets'',
     hr_close = False, hr_headers = [(''Authorization'', Some [''Bearer abc'']),
       (''Connection'', Some [''X-Hop'']), (''X-Hop'', Some [''1'']), (''Accept'', Some [''*/*''])],
     hr_body = None, hr_content_length = 0\<rparr>"

definition sample_response :: http_response where
  "sample_response = \<lparr>hp_status = 200, hp_headers = [(''Content-Type'', Some [''text/plain'']),
     (''Set-Cookie'', Some [''sid=1''])], hp_body = ([''he'', [], ''llo''], False)\<rparr>"

definition sample_env :: "string env" where
  "sample_env = \<lparr>ev_ext = sample_ext, ev_codecs = no_codecs, ev_uuid = ''id'', ev_started = 1000,
     ev_duration = 2500000, ev_round_trip = (\<lambda>r. ([], Inr sample_response)),
     ev_client_write = (\<lambda>i c. (length c, False))\<rparr>"

definition cookie_behavior :: dependency_behavior where
  "cookie_behavior = sample_behavior\<lparr>db_headers := Some [(''Content-Type'', Some [''application/json'']),
     (''Set-Cookie'', Some [''sid=1'']), (''Connection'', Some [''X-Hop'']), (''X-Hop'', Some [''1''])]\<rparr>"

lemma replay_response_witness:
  "\<exists>h. oc_reply (replay sample_env sample_request (the (hr_url sample_request)) ''https''
         ''api.example.com'' 443 cookie_behavior) = write_reply ''GET'' 200 h ''[]''
     \<and> oc_outgoing (replay sample_env sample_request (the (hr_url sample_request)) ''https''
         ''api.example.com'' 443 cookie_behavior) = None
     \<and> header_values h ''set-cookie'' = []"
proof -
  let ?hs = "the (db_headers cookie_behavior)"
  have hs: "db_headers cookie_behavior = Some ?hs"
    by (simp add: cookie_behavior_def)
  have canonical: "canonical_map ?hs"
    by code_simp
  have body: "case hr_body sample_request of None \<Rightarrow> True | Some (chunks, failed) \<Rightarrow> \<not> failed"
    by (simp add: sample_request_def)
  have fields: "hr_method sample_request = ''GET''" "db_status cookie_behavior = 200"
    "db_body cookie_behavior = ''[]''"
    by (simp_all add: sample_request_def cookie_behavior_def sample_behavior_def)
  have dropped: "canonical_key ''set-cookie'' \<in> set replay_dropped"
    "canonical_key ''set-cookie'' \<noteq> ''Content-Length''" by code_simp+
  show ?thesis
    using replay_response [OF hs canonical body, of sample_env "the (hr_url sample_request)"
        "''https''" "''api.example.com''" 443] dropped
    unfolding fields by auto
qed

lemma forward_replays:
  assumes "Replace (ev_ext V) s sn = (None, s')" and "b \<in> set (elems (ds_behaviors sn))"
    and "pc_behaviors (px_config p) = Some s'"
    and "hr_url r = Some u" and "ur_scheme u = db_scheme b"
    and "ur_host u = join_host_port (db_host b) (itoa (db_port b))"
    and "ur_path u = db_path b" and "hr_method r = db_method b"
    and "case hr_body r of None \<Rightarrow> True | Some (chunks, failed) \<Rightarrow> \<not> failed"
  shows "\<exists>h e. forward V p r [] [] = \<lparr>oc_reply = write_reply (db_method b) (db_status b) h (db_body b),
        oc_outgoing = None, oc_event = Some e\<rparr>
     \<and> di_handled_by e = ''REPLAY'' \<and> di_scheme e = db_scheme b \<and> di_host e = db_host b
     \<and> di_port e = db_port b \<and> rs_status (di_response e) = db_status b
     \<and> rs_size_bytes (di_response e) = int (length (db_body b))"
proof -
  let ?E = "ev_ext V"
  have "validateDependencyConfig ?E sn = None"
    using behavior_store.accepts_iff [where E = ?E and s = s and sn = sn] assms(1) by simp
  then have b: "valid_behavior ?E b"
    using assms(2) by (auto simp: validateDependencyConfig_iff list_all_iff)
  then have ok: "validDependencyHost (db_host b)" "db_host b = to_lower ?E (db_host b)"
    "1 \<le> db_port b" "db_port b \<le> 65535" "validateHeaders (db_headers b) = None"
    and scheme: "db_scheme b = ''http'' \<or> db_scheme b = ''https''"
    by (auto simp: valid_behavior_def)
  obtain hs where hs: "db_headers b = Some hs"
    using ok(5) by (auto simp: validateHeaders_iff)
  obtain h where h: "replay_headers b = Some h"
    using replay_headers_eq [OF hs] by blast
  obtain chunks where body: "(case hr_body r of None \<Rightarrow> ([], False) | Some b \<Rightarrow> b) = (chunks, False)"
    using assms(9) by (auto split: option.splits)
  have "forward V p r [] [] = replay V r u (db_scheme b) (db_host b) (db_port b) b"
    using scheme target_join [OF ok(1-4), of "db_scheme b"] Match_stored [OF assms(1,2)]
    by (auto simp: forward_def assms(3-8) valid_behavior_normal(1) [OF b] Let_def)
  moreover have "\<exists>e. replay V r u (db_scheme b) (db_host b) (db_port b) b
      = \<lparr>oc_reply = write_reply (db_method b) (db_status b) (header_add_all [] h) (db_body b),
         oc_outgoing = None, oc_event = Some e\<rparr>
     \<and> di_handled_by e = ''REPLAY'' \<and> di_scheme e = db_scheme b \<and> di_host e = db_host b
     \<and> di_port e = db_port b \<and> rs_status (di_response e) = db_status b
     \<and> rs_size_bytes (di_response e) = int (length (db_body b))"
    by (simp add: replay_def body h Let_def make_event_def assms(8))
  ultimately show ?thesis by metis
qed


definition sample_proxy :: proxy where
  "sample_proxy = \<lparr>px_config = \<lparr>pc_bind_address = ''127.0.0.1'', pc_port = 8080, pc_has_ca = True,
     pc_passthrough = [], pc_behaviors = Some (snd (Replace sample_ext NewBehaviorStore sample_snapshot))\<rparr>,
     px_passthrough = [], px_connections = []\<rparr>"


subsection \<open>Telemetry\<close>

lemma read_preview_total: "pv_total (read_preview E hs n chunks) = int (length (concat chunks))"
  and read_preview_length: "length (pv_preview (read_preview E hs n chunks)) \<le> length (concat chunks)"
  by (simp_all add: read_preview_def reader.observe_all newPreview_def)

lemma copy_response_preview:
  "copy_response w i cs failed pv sent = (sent', pv', ok) \<Longrightarrow>
   int (length (pv_preview pv)) \<le> pv_total pv \<Longrightarrow> int (length (pv_preview pv')) \<le> pv_total pv'"
proof (induction w i cs failed pv sent rule: copy_response.induct)
  case (1 w i failed pv sent)
  then show ?case by simp
next
  case (2 w i chunk chunks failed pv sent)
  obtain written writeErr where w: "w i chunk = (written, writeErr)" by fastforce
  define q where "q = (if 0 < written then previewWriter_observe pv (take written chunk) else pv)"
  have q: "int (length (pv_preview q)) \<le> pv_total q"
    using "2.prems"(2) by (auto simp: q_def previewWriter_observe_def Let_def)
  show ?case
  proof (cases "chunk = [] \<or> \<not> (writeErr \<or> written \<noteq> length chunk)")
    case True
    then show ?thesis
      using 2 q w by (cases "chunk = []") (auto simp: q_def)
  next
    case False
    then show ?thesis
      using "2.prems"(1) q w by (auto simp: q_def)
  qed
qed

text \<open>What the environment guarantees of a run: the generated identifier is not empty, the clock is
  past the zero time and does not run backwards, and neither the client's body nor the
  transport's reads of it exceed a declared content length.\<close>

definition env_ok :: "'r env \<Rightarrow> http_request \<Rightarrow> bool" where
  "env_ok V r \<longleftrightarrow> ev_uuid V \<noteq> [] \<and> 0 < ev_started V \<and> 0 \<le> ev_duration V
     \<and> (0 \<le> hr_content_length r \<longrightarrow>
         (case hr_body r of None \<Rightarrow> True
          | Some (chunks, failed) \<Rightarrow> int (length (concat chunks)) \<le> hr_content_length r)
         \<and> (\<forall>out. int (length (concat (fst (ev_round_trip V out)))) \<le> hr_content_length r))"

lemma forward_event:
  assumes "oc_event (forward V p r fs fa) = Some e" and "env_ok V r"
  obtains u scheme host port handled pv status hs rp rsize where
    "hr_url r = Some u" "scheme = ''http'' \<or> scheme = ''https''"
    "1 \<le> port" "port \<le> 65535" "handled = ''ORIGIN'' \<or> handled = ''REPLAY''"
    "e = make_event V scheme host port handled r u pv status hs rp rsize"
    "int (length rp) \<le> rsize" "int (length (pv_preview pv)) \<le> request_size r pv"
proof -
  from assms(1) obtain u where u: "hr_url r = Some u"
    by (auto simp: forward_def split: option.splits)
  define E where "E = ev_ext V"
  define scheme where "scheme = (if fs \<noteq> [] then fs else to_lower E (ur_scheme u))"
  define authority where "authority = (if fs \<noteq> [] then fa else ur_host u)"
  have scheme: "scheme = ''http'' \<or> scheme = ''https''"
    using assms(1) by (auto simp: forward_def u scheme_def E_def Let_def split: if_splits)
  obtain host port where target: "targetHostPort E authority scheme = Inr (host, port)"
    using assms(1) scheme
    by (auto simp: forward_def u scheme_def [symmetric] authority_def [symmetric] E_def [symmetric] Let_def
        split: sum.splits)
  have size: "int (length (pv_preview pv)) \<le> request_size r pv"
    if "pv = read_preview E' hs n chunks" "0 \<le> hr_content_length r \<Longrightarrow> int (length (concat chunks)) \<le> hr_content_length r"
    for pv E' hs n chunks
    using that read_preview_total [of E' hs n chunks] read_preview_length [of E' hs n chunks]
    by (auto simp: request_size_def)
  have fwd: "forward V p r fs fa =
      (case Match E (pc_behaviors (px_config p)) scheme host port (hr_method r) (ur_path u) of
         Some behavior \<Rightarrow> replay V r u scheme host port behavior
       | None \<Rightarrow> to_origin V r u scheme authority host port)"
    unfolding forward_def u option.case Let_def E_def [symmetric] scheme_def [symmetric]
      authority_def [symmetric]
    using scheme target by auto
  show thesis
  proof (cases "Match E (pc_behaviors (px_config p)) scheme host port (hr_method r) (ur_path u)")
    case None
    define out where "out = outgoing_request r u scheme authority"
    obtain reads result where rt: "ev_round_trip V out = (reads, result)" by fastforce
    obtain response where result: "result = Inr response"
      using assms(1) by (auto simp: fwd None to_origin_def Let_def out_def [symmetric] rt split: sum.splits)
    let ?pv0 = "newPreview E (hp_headers response) MaxDependencyResponsePreview"
    obtain sent pv' completed where copy: "copy_response (ev_client_write V) 0 (fst (hp_body response))
        (snd (hp_body response)) ?pv0 [] = (sent, pv', completed)" by (rule prod_cases3)
    have e: "e = make_event V scheme host port ''ORIGIN'' r u
        (read_preview E (hr_headers r) MaxDependencyRequestPreview reads) (hp_status response)
        (hp_headers response) (pv_preview pv') (pv_total pv')"
      using assms(1)
      by (auto simp: fwd None to_origin_def Let_def out_def [symmetric] rt result E_def [symmetric] copy
          split: if_splits)
    have "int (length (pv_preview pv')) \<le> pv_total pv'"
      using copy_response_preview [OF copy] by (simp add: newPreview_def)
    moreover have "0 \<le> hr_content_length r \<Longrightarrow> int (length (concat reads)) \<le> hr_content_length r"
      using assms(2) rt by (metis env_ok_def fst_conv)
    ultimately show thesis
      using that [OF u scheme _ _ _ e] target_range [OF target] size [OF refl] by simp
  next
    case (Some b)
    obtain chunks failed where body: "(case hr_body r of None \<Rightarrow> ([], False) | Some b \<Rightarrow> b) = (chunks, failed)"
      by fastforce
    have chunks: "int (length (concat chunks)) \<le> hr_content_length r" if "0 \<le> hr_content_length r"
      using assms(2) body that by (auto simp: env_ok_def split: option.splits)
    obtain h where h: "replay_headers b = Some h"
      using assms(1) by (auto simp: fwd Some replay_def body Let_def split: if_splits option.splits)
    let ?rp = "if MaxDependencyResponsePreview < length (db_body b)
      then take MaxDependencyResponsePreview (db_body b) else db_body b"
    have e: "e = make_event V scheme host port ''REPLAY'' r u
        (read_preview E (hr_headers r) MaxDependencyRequestPreview chunks) (db_status b) h
        ?rp (int (length (db_body b)))"
      using assms(1)
      by (auto simp: fwd Some replay_def body Let_def h E_def [symmetric] split: if_splits)
    have "int (length ?rp) \<le> int (length (db_body b))" by simp
    then show thesis
      using that [OF u scheme _ _ _ e] target_range [OF target] size [OF refl chunks] by simp
  qed
qed

definition content_type_of :: "ext \<Rightarrow> header_map \<Rightarrow> string" where
  "content_type_of E hs = normalizedContentType E (header_get hs ''Content-Type'')"

definition event_fits :: "dependency_interaction \<Rightarrow> bool" where
  "event_fits e \<longleftrightarrow> validDependencyHost (di_host e)
     \<and> rq_method (di_request e) \<noteq> [] \<and> length (rq_method (di_request e)) \<le> 32
     \<and> rq_path (di_request e) \<noteq> [] \<and> length (rq_path (di_request e)) \<le> 8192
     \<and> hd (rq_path (di_request e)) = CHR ''/''
     \<and> length (rq_raw_query (di_request e)) \<le> 65536
     \<and> 100 \<le> rs_status (di_response e) \<and> rs_status (di_response e) \<le> 599
     \<and> validateHeaders (rq_headers (di_request e)) = None
     \<and> validateHeaders (rs_headers (di_response e)) = None
     \<and> length (cb_content_type (rq_body (di_request e))) \<le> 255
     \<and> length (cb_content_type (rs_body (di_response e))) \<le> 255"

text \<open>C18: An event of the proxy is accepted by the protocol exactly when the host is a valid
  dependency host, the method, the rooted path, the redacted query, the status, the redacted
  headers and the content types are within their bounds: its identifier, scheme, port, handler,
  times, sizes and captured bodies are always valid, whatever the peers did.\<close>

theorem event_accepted_iff:
  assumes "oc_event (forward V p r fs fa) = Some e" and "env_ok V r"
  shows "validateDependency e = None \<longleftrightarrow> event_fits e"
proof -
  obtain u scheme host port handled pv status hs rp rsize where
    *: "scheme = ''http'' \<or> scheme = ''https''" "1 \<le> port" "port \<le> 65535"
      "handled = ''ORIGIN'' \<or> handled = ''REPLAY''"
      "int (length rp) \<le> rsize" "int (length (pv_preview pv)) \<le> request_size r pv"
    and e: "e = make_event V scheme host port handled r u pv status hs rp rsize"
    using assms by (rule forward_event)
  have V: "ev_uuid V \<noteq> []" "0 < ev_started V" "0 \<le> ev_duration V"
    using assms(2) by (simp_all add: env_ok_def)
  have bodies: "validateCapturedBody (rq_body (di_request e)) MaxDependencyRequestPreview = None
      \<longleftrightarrow> length (cb_content_type (rq_body (di_request e))) \<le> 255"
    "validateCapturedBody (rs_body (di_response e)) MaxDependencyResponsePreview = None
      \<longleftrightarrow> length (cb_content_type (rs_body (di_response e))) \<le> 255"
    using *(5,6) by (simp_all add: e make_event_def Let_def capturedBody_accepted_iff capturedBody_content_type)
  have fixed: "di_id e \<noteq> []" "di_scheme e = ''http'' \<or> di_scheme e = ''https''" "1 \<le> di_port e"
    "di_port e \<le> 65535" "di_handled_by e = ''ORIGIN'' \<or> di_handled_by e = ''REPLAY''"
    "0 < di_started_at e" "di_started_at e \<le> di_completed_at e" "0 \<le> di_duration_ms e"
    "0 \<le> rq_size_bytes (di_request e)" "0 \<le> rs_size_bytes (di_response e)"
    using * V by (simp_all add: e make_event_def Let_def)
  show ?thesis
    using fixed bodies by (auto simp: validateDependency_def event_fits_def Let_def not_less)
qed

lemma event_accepted_iff_witness:
  "\<exists>e. oc_event (forward sample_env sample_proxy (sample_request\<lparr>hr_method := ''PUT''\<rparr>) [] []) = Some e
     \<and> validateDependency e = None \<and> di_handled_by e = ''ORIGIN''"
proof -
  let ?r = "sample_request\<lparr>hr_method := ''PUT''\<rparr>"
  let ?o = "oc_event (forward sample_env sample_proxy ?r [] [])"
  have "?o \<noteq> None" by code_simp
  then have e: "?o = Some (the ?o)" by simp
  have env: "env_ok sample_env ?r"
    by (simp add: env_ok_def sample_env_def sample_request_def)
  have "event_fits (the ?o)" by code_simp
  then have "validateDependency (the ?o) = None"
    using event_accepted_iff [OF e env] by simp
  moreover have "di_handled_by (the ?o) = ''ORIGIN''" by code_simp
  ultimately show ?thesis using e by blast
qed

lemma redactHeaders_hides:
  "sensitive_name E k \<Longrightarrow> map_of (redactHeaders E m) k = Some vs \<Longrightarrow> set (elems vs) \<subseteq> {redactedValue}"
  by (auto simp: redactHeaders_lookup append_nil_def split: if_splits)

text \<open>C5: No event carries a credential: in the query no sensitive parameter keeps its value, and no
  value of a header whose lower-cased name is authorization, proxy-authorization, cookie or
  set-cookie is anything but the placeholder, in the request and in the response, for events of
  the origin and of replays alike.\<close>

theorem event_hides_secrets:
  assumes "oc_event (forward V p r fs fa) = Some e" and "env_ok V r"
    and "sensitive_name (ev_ext V) k"
  shows "\<not> list_ex (exposes_secret (ev_ext V)) (split_on CHR ''&'' (rq_raw_query (di_request e)))
    \<and> (\<exists>rq rs. rq_headers (di_request e) = Some rq \<and> rs_headers (di_response e) = Some rs
        \<and> (case map_of rq k of None \<Rightarrow> True | Some vs \<Rightarrow> set (elems vs) \<subseteq> {redactedValue})
        \<and> (case map_of rs k of None \<Rightarrow> True | Some vs \<Rightarrow> set (elems vs) \<subseteq> {redactedValue}))"
proof -
  obtain u scheme host port handled pv status hs rp rsize where
    e: "e = make_event V scheme host port handled r u pv status hs rp rsize"
    using assms(1,2) by (rule forward_event)
  have hides: "case map_of (redactHeaders (ev_ext V) m) k of
      None \<Rightarrow> True | Some vs \<Rightarrow> set (elems vs) \<subseteq> {redactedValue}" for m
    using redactHeaders_hides [OF assms(3), of m]
    by (cases "map_of (redactHeaders (ev_ext V) m) k") simp_all
  have "\<not> list_ex (exposes_secret (ev_ext V)) (split_on CHR ''&'' (redactRawQuery (ev_ext V) (ur_raw_query u)))"
    by (simp add: redact_parts list_ex_iff redact_part_safe)
  moreover have "rq_headers (di_request e) = Some (redactHeaders (ev_ext V) (hr_headers r))"
    "rs_headers (di_response e) = Some (redactHeaders (ev_ext V) hs)"
    "rq_raw_query (di_request e) = redactRawQuery (ev_ext V) (ur_raw_query u)"
    by (simp_all add: e make_event_def Let_def)
  ultimately show ?thesis using hides by simp
qed

lemma event_hides_secrets_witness:
  "\<exists>e. oc_event (forward sample_env sample_proxy sample_request [] []) = Some e
    \<and> \<not> list_ex (exposes_secret sample_ext) (split_on CHR ''&'' (rq_raw_query (di_request e)))
    \<and> rq_raw_query (di_request e) = ''token=[REDACTED]&page=2''"
proof -
  let ?o = "oc_event (forward sample_env sample_proxy sample_request [] [])"
  have "?o \<noteq> None" by code_simp
  then have e: "?o = Some (the ?o)" by simp
  have env: "env_ok sample_env sample_request"
    by (simp add: env_ok_def sample_env_def sample_request_def)
  have ext: "ev_ext sample_env = sample_ext" by (simp add: sample_env_def)
  have sensitive: "sensitive_name (ev_ext sample_env) ''Authorization''" by code_simp
  have "rq_raw_query (di_request (the ?o)) = ''token=[REDACTED]&page=2''" by code_simp
  then show ?thesis
    using event_hides_secrets [OF e env sensitive] e unfolding ext by blast
qed

subsection \<open>Where replay departs from its configuration\<close>

definition proxy_with :: "dependency_behavior \<Rightarrow> proxy" where
  "proxy_with b = sample_proxy\<lparr>px_config := (px_config sample_proxy)\<lparr>pc_behaviors :=
     Some (snd (Replace sample_ext NewBehaviorStore (sample_snapshot\<lparr>ds_behaviors := Some [b]\<rparr>)))\<rparr>\<rparr>"

definition accepted_alone :: "dependency_behavior \<Rightarrow> bool" where
  "accepted_alone b \<longleftrightarrow>
     fst (Replace sample_ext NewBehaviorStore (sample_snapshot\<lparr>ds_behaviors := Some [b]\<rparr>)) = None"

definition uncanonical_behavior :: dependency_behavior where
  "uncanonical_behavior = sample_behavior\<lparr>db_headers := Some [(''set-cookie'', Some [''sid=1'']),
     (''transfer-encoding'', Some [''chunked'']), (''content-length'', Some [''7''])]\<rparr>"

definition reply_values :: "reply \<Rightarrow> string \<Rightarrow> string list" where
  "reply_values rep k = (case rep of Reply i s h b \<Rightarrow> header_values h k | _ \<Rightarrow> [])"

text \<open>The exclusion of headers from a replay depends on how the snapshot spells them: a
  behaviour that passes validation with the names in lower case is replayed with its Set-Cookie
  and Transfer-Encoding headers, and with two different Content-Length values, because deletion
  uses the canonical key while the map keeps the spelling of the snapshot.\<close>

theorem uncanonical_headers_replayed:
  "accepted_alone uncanonical_behavior
   \<and> (let rep = oc_reply (forward sample_env (proxy_with uncanonical_behavior) sample_request [] [])
      in reply_values rep ''Set-Cookie'' = [''sid=1'']
        \<and> reply_values rep ''Transfer-Encoding'' = [''chunked'']
        \<and> reply_values rep ''Content-Length'' = [''7'', ''2''])"
  by code_simp

definition valueless_behavior :: dependency_behavior where
  "valueless_behavior = sample_behavior\<lparr>db_headers := Some [(''X-Empty'', Some [])]\<rparr>"

text \<open>A behaviour whose snapshot gives a header an empty list of values is accepted and
  replayed, but the event of every replay is rejected by the protocol and never delivered, since
  the redacted copy of the list is nil.\<close>

theorem valueless_header_event_rejected:
  "accepted_alone valueless_behavior
   \<and> (let oc = forward sample_env (proxy_with valueless_behavior) sample_request [] []
      in (case oc_reply oc of Reply i s h b \<Rightarrow> i = [] \<and> s = 200 \<and> b = ''[]'' | _ \<Rightarrow> False)
        \<and> (case oc_event oc of None \<Rightarrow> False
           | Some e \<Rightarrow> validateDependency e = Some ErrInvalidMessage))"
  by code_simp

definition early_hints_behavior :: dependency_behavior where
  "early_hints_behavior = sample_behavior\<lparr>db_status := 103\<rparr>"

text \<open>A behaviour with an informational status is accepted, but what the client gets is that
  status as an informational response followed by a final 200, while the event reports the
  configured status.\<close>

theorem informational_behavior_becomes_200:
  "accepted_alone early_hints_behavior
   \<and> (let oc = forward sample_env (proxy_with early_hints_behavior) sample_request [] []
      in (case oc_reply oc of Reply i s h b \<Rightarrow> i = [103] \<and> s = 200 \<and> b = ''[]'' | _ \<Rightarrow> False)
        \<and> (case oc_event oc of None \<Rightarrow> False | Some e \<Rightarrow> rs_status (di_response e) = 103))"
  by code_simp

end
