(* ===== verification/Proxy_Connections.thy ===== *)
theory Proxy_Connections
  imports Proxy
begin

text \<open>
  The connection side of \<^verbatim>\<open>internal/dependencycapture/proxy.go\<close>: what a CONNECT
  request does to connections (passthrough or interception), the set of hijacked connections the
  proxy closes at shutdown, and the listener that hands a single connection to an
  \<^verbatim>\<open>http.Server\<close>, whose two closers run concurrently.
\<close>

subsection \<open>Connections and what happens to them\<close>

datatype action = Replied_Error string int | Dialled nat | Hijacked nat | Tracked nat
  | Untracked nat | Copied nat nat | Served nat string | Closed nat

text \<open>Which of the calls of a CONNECT handler succeed, and the connections it gets.\<close>

record connect_env =
  ce_client :: nat
  ce_upstream :: nat
  ce_dial :: bool
  ce_hijack :: bool
  ce_write :: bool
  ce_flush :: bool
  ce_certificate :: bool
  ce_handshake :: bool

definition tunnelPassthrough :: "connect_env \<Rightarrow> action list" where
  "tunnelPassthrough ce =
     (let client = ce_client ce; upstream = ce_upstream ce in
      if \<not> ce_dial ce then [Replied_Error ''Dependency connection failed'' 502]
      else if \<not> ce_hijack ce then [Dialled upstream, Closed upstream]
      else if \<not> ce_write ce then [Dialled upstream, Hijacked client, Closed client, Closed upstream]
      else if \<not> ce_flush ce then [Dialled upstream, Hijacked client, Closed client, Closed upstream]
      else [Dialled upstream, Hijacked client, Tracked client, Tracked upstream,
        Copied client upstream, Closed upstream, Closed client, Untracked upstream, Untracked client])"

definition interceptTLS :: "connect_env \<Rightarrow> string \<Rightarrow> action list" where
  "interceptTLS ce authority =
     (let client = ce_client ce in
      if \<not> ce_certificate ce then [Replied_Error ''Cannot create inspection certificate'' 502]
      else if \<not> ce_hijack ce then []
      else if \<not> ce_write ce then [Hijacked client, Tracked client, Closed client, Untracked client]
      else if \<not> ce_flush ce then [Hijacked client, Tracked client, Closed client, Untracked client]
      else if \<not> ce_handshake ce then [Hijacked client, Tracked client, Closed client, Untracked client]
      else [Hijacked client, Tracked client, Served client authority, Closed client, Untracked client])"

definition handleConnect :: "ext \<Rightarrow> proxy \<Rightarrow> string \<Rightarrow> connect_env \<Rightarrow> action list" where
  "handleConnect E p authority ce =
     (case targetHostPort E authority ''https'' of
        Inl e \<Rightarrow> [Replied_Error ''Invalid CONNECT target'' 400]
      | Inr (host, _) \<Rightarrow>
          if normalizeHostname E host \<in> set (px_passthrough p) then tunnelPassthrough ce
          else interceptTLS ce authority)"

text \<open>\<^verbatim>\<open>ServeHTTP\<close>, and the handler of an intercepted connection.\<close>

definition ServeHTTP ::
  "'r env \<Rightarrow> proxy \<Rightarrow> http_request \<Rightarrow> connect_env \<Rightarrow> action list + outcome" where
  "ServeHTTP V p r ce =
     (if hr_method r = ''CONNECT'' then Inl (handleConnect (ev_ext V) p (hr_host r) ce)
      else Inr (forward V p r [] []))"

definition serve_intercepted :: "'r env \<Rightarrow> proxy \<Rightarrow> string \<Rightarrow> http_request \<Rightarrow> outcome" where
  "serve_intercepted V p authority inner = forward V p inner ''https'' authority"

subsection \<open>The tracked connections\<close>

definition trackConnection :: "proxy \<Rightarrow> nat \<Rightarrow> proxy" where
  "trackConnection p c = p\<lparr>px_connections := List.insert c (px_connections p)\<rparr>"

definition untrackConnection :: "proxy \<Rightarrow> nat \<Rightarrow> proxy" where
  "untrackConnection p c = p\<lparr>px_connections := filter (\<lambda>d. d \<noteq> c) (px_connections p)\<rparr>"

definition closeHijackedConnections :: "proxy \<Rightarrow> action list" where
  "closeHijackedConnections p = map Closed (px_connections p)"

fun apply_action :: "action \<Rightarrow> proxy \<Rightarrow> proxy" where
  "apply_action (Tracked c) p = trackConnection p c"
| "apply_action (Untracked c) p = untrackConnection p c"
| "apply_action a p = p"

fun opened_by :: "action \<Rightarrow> nat list" where
  "opened_by (Dialled c) = [c]"
| "opened_by (Hijacked c) = [c]"
| "opened_by a = []"

text \<open>The connections that a run opens and does not close afterwards.\<close>

fun leaked :: "action list \<Rightarrow> nat list" where
  "leaked [] = []"
| "leaked (a # as) = filter (\<lambda>c. Closed c \<notin> set as) (opened_by a) @ leaked as"

lemma untrack_fresh: "c \<notin> set (px_connections p) \<Longrightarrow> untrackConnection p c = p"
proof -
  assume "c \<notin> set (px_connections p)"
  then have "filter (\<lambda>d. d \<noteq> c) (px_connections p) = px_connections p"
    by (intro filter_True) auto
  then show ?thesis by (simp add: untrackConnection_def)
qed

lemma untrack_track: "c \<notin> set (px_connections p) \<Longrightarrow> untrackConnection (trackConnection p c) c = p"
  using untrack_fresh [of c p] by (simp add: untrackConnection_def trackConnection_def)

lemma run_passthrough_state:
  assumes "ce_client ce \<notin> set (px_connections p)" and "ce_upstream ce \<notin> set (px_connections p)"
  shows "fold apply_action (tunnelPassthrough ce) p = p"
proof -
  let ?c = "ce_client ce" and ?u = "ce_upstream ce"
  have "untrackConnection (untrackConnection (trackConnection (trackConnection p ?c) ?u) ?u) ?c = p"
  proof (cases "?u = ?c")
    case True
    have "trackConnection (trackConnection p ?c) ?c = trackConnection p ?c"
      by (simp add: trackConnection_def)
    then show ?thesis using True assms by (simp add: untrack_track untrack_fresh)
  next
    case False
    then have "?u \<notin> set (px_connections (trackConnection p ?c))"
      using assms(2) by (simp add: trackConnection_def)
    then show ?thesis using assms(1) by (simp add: untrack_track)
  qed
  then show ?thesis by (simp add: tunnelPassthrough_def Let_def)
qed

lemma run_intercept_state:
  "ce_client ce \<notin> set (px_connections p) \<Longrightarrow> fold apply_action (interceptTLS ce a) p = p"
  by (simp add: interceptTLS_def Let_def untrack_track)

lemma leaked_passthrough: "leaked (tunnelPassthrough ce) = []"
  by (simp add: tunnelPassthrough_def Let_def)

lemma leaked_intercept: "leaked (interceptTLS ce a) = []"
  by (simp add: interceptTLS_def Let_def)

text \<open>C36: However a CONNECT request fails or ends, no connection outlives its handler: every
  connection that was dialled or hijacked is closed afterwards, and the set of tracked
  connections is what it was before, so that shutdown closes exactly the live tunnels.\<close>

theorem connect_leaves_nothing:
  assumes "ce_client ce \<notin> set (px_connections p)" and "ce_upstream ce \<notin> set (px_connections p)"
  shows "leaked (handleConnect E p authority ce) = []
    \<and> fold apply_action (handleConnect E p authority ce) p = p"
proof -
  have "(\<exists>m s. handleConnect E p authority ce = [Replied_Error m s])
    \<or> handleConnect E p authority ce = tunnelPassthrough ce
    \<or> handleConnect E p authority ce = interceptTLS ce authority"
    by (auto simp: handleConnect_def split: sum.split)
  then consider (bad) "\<exists>m s. handleConnect E p authority ce = [Replied_Error m s]"
    | (pass) "handleConnect E p authority ce = tunnelPassthrough ce"
    | (tls) "handleConnect E p authority ce = interceptTLS ce authority" by blast
  then show ?thesis
  proof cases
    case bad
    then show ?thesis by auto
  next
    case pass
    then show ?thesis
      by (simp add: leaked_passthrough run_passthrough_state [OF assms])
  next
    case tls
    then show ?thesis
      by (simp add: leaked_intercept run_intercept_state [OF assms(1)])
  qed
qed

definition sample_connect :: connect_env where
  "sample_connect = \<lparr>ce_client = 1, ce_upstream = 2, ce_dial = True, ce_hijack = True,
     ce_write = True, ce_flush = True, ce_certificate = True, ce_handshake = True\<rparr>"

lemma connect_leaves_nothing_witness:
  "leaked (handleConnect sample_ext sample_proxy ''api.example.com:443'' sample_connect) = []
    \<and> Served 1 ''api.example.com:443''
        \<in> set (handleConnect sample_ext sample_proxy ''api.example.com:443'' sample_connect)"
proof -
  have "ce_client sample_connect \<notin> set (px_connections sample_proxy)"
    "ce_upstream sample_connect \<notin> set (px_connections sample_proxy)"
    by (simp_all add: sample_proxy_def)
  moreover have "Served 1 ''api.example.com:443''
      \<in> set (handleConnect sample_ext sample_proxy ''api.example.com:443'' sample_connect)"
    by code_simp
  ultimately show ?thesis using connect_leaves_nothing by blast
qed

definition intercepts :: "action list \<Rightarrow> bool" where
  "intercepts as \<longleftrightarrow> list_ex (\<lambda>a. case a of Served c s \<Rightarrow> True | _ \<Rightarrow> False) as"

definition all_calls_succeed :: "connect_env \<Rightarrow> bool" where
  "all_calls_succeed ce \<longleftrightarrow> ce_dial ce \<and> ce_hijack ce \<and> ce_write ce \<and> ce_flush ce
     \<and> ce_certificate ce \<and> ce_handshake ce"

lemma NewProxy_passthrough:
  "NewProxy E config = Inr p \<Longrightarrow> px_passthrough p = map (normalizeHostname E) (pc_passthrough config)"
  by (auto simp: NewProxy_def Let_def split: if_splits option.splits)

text \<open>TLS of a configured passthrough host is never opened: a CONNECT tunnel is served in
  clear by the proxy exactly when its target is valid, its normalised host is not one of the
  normalised passthrough hosts of the configuration, and every call on the way succeeds.\<close>

theorem passthrough_never_intercepted:
  assumes "NewProxy E config = Inr p"
    and "all_calls_succeed ce \<or> normalizeHostname E host \<in> set (map (normalizeHostname E) (pc_passthrough config))"
    and "targetHostPort E authority ''https'' = Inr (host, port)"
  shows "intercepts (handleConnect E p authority ce) \<longleftrightarrow>
     normalizeHostname E host \<notin> set (map (normalizeHostname E) (pc_passthrough config))"
  using assms(2,3) NewProxy_passthrough [OF assms(1)]
  by (auto simp: handleConnect_def intercepts_def tunnelPassthrough_def interceptTLS_def
      all_calls_succeed_def Let_def)

definition passthrough_config :: proxy_config where
  "passthrough_config = (px_config sample_proxy)\<lparr>pc_passthrough := [''Bank.example.com'']\<rparr>"

lemma passthrough_never_intercepted_witness:
  "\<exists>p. NewProxy sample_ext passthrough_config = Inr p
    \<and> \<not> intercepts (handleConnect sample_ext p ''bank.EXAMPLE.com.:8443'' sample_connect)"
proof -
  let ?new = "NewProxy sample_ext passthrough_config"
  have "\<not> isl ?new" by code_simp
  then obtain p where p: "?new = Inr p" by (cases ?new) auto
  have member: "normalizeHostname sample_ext ''bank.example.com''
      \<in> set (map (normalizeHostname sample_ext) (pc_passthrough passthrough_config))"
    by code_simp
  have target: "targetHostPort sample_ext ''bank.EXAMPLE.com.:8443'' ''https'' = Inr (''bank.example.com'', 8443)"
    by code_simp
  show ?thesis
    using passthrough_never_intercepted [OF p disjI2 [OF member] target, of sample_connect] p member
    by blast
qed

subsection \<open>The listener of a single connection\<close>

text \<open>
  \<^verbatim>\<open>singleConnListener\<close> and \<^verbatim>\<open>trackedConn\<close> as a transition system.  The server's
  loop calls \<^verbatim>\<open>Accept\<close> until it fails and then \<^verbatim>\<open>Close\<close>; the connection's own
  \<^verbatim>\<open>Close\<close> runs in another goroutine at any time after it was accepted.  Both look at the
  \<open>done\<close> channel and close it in two separate steps (\<open>L_Closing\<close>, \<open>C_Closing\<close> are the points
  between them), and closing it twice would panic.
\<close>

datatype loop_pc = L_Accept | L_Waiting | L_Failed | L_Closing | L_Done
datatype conn_pc = C_Unborn | C_Open | C_Closing | C_Closed

record listener =
  sl_accepted :: bool
  sl_closes :: nat
  sl_conn_closes :: nat
  sl_loop :: loop_pc
  sl_conn :: conn_pc

definition newSingleConnListener :: listener where
  "newSingleConnListener = \<lparr>sl_accepted = False, sl_closes = 0, sl_conn_closes = 0,
     sl_loop = L_Accept, sl_conn = C_Unborn\<rparr>"

definition channel_closed :: "listener \<Rightarrow> bool" where
  "channel_closed l \<longleftrightarrow> 0 < sl_closes l"

text \<open>\<^verbatim>\<open>Accept\<close> up to the point where it returns the connection or blocks on the channel.\<close>

definition Accept_begin :: "listener \<Rightarrow> listener" where
  "Accept_begin l = (if \<not> sl_accepted l then l\<lparr>sl_accepted := True, sl_conn := C_Open\<rparr>
     else l\<lparr>sl_loop := L_Waiting\<rparr>)"

definition Close_select :: "listener \<Rightarrow> listener" where
  "Close_select l = (if channel_closed l
     then l\<lparr>sl_loop := L_Done, sl_conn_closes := Suc (sl_conn_closes l)\<rparr>
     else l\<lparr>sl_loop := L_Closing\<rparr>)"

definition conn_Close_select :: "listener \<Rightarrow> listener" where
  "conn_Close_select l = (if channel_closed l
     then l\<lparr>sl_conn := C_Closed, sl_conn_closes := Suc (sl_conn_closes l)\<rparr>
     else l\<lparr>sl_conn := C_Closing\<rparr>)"

inductive listener_step :: "listener \<Rightarrow> listener \<Rightarrow> bool" where
  accept: "sl_loop l = L_Accept \<Longrightarrow> listener_step l (Accept_begin l)"
| unblock: "sl_loop l = L_Waiting \<Longrightarrow> channel_closed l \<Longrightarrow> listener_step l (l\<lparr>sl_loop := L_Failed\<rparr>)"
| close_select: "sl_loop l = L_Failed \<Longrightarrow> listener_step l (Close_select l)"
| close_channel: "sl_loop l = L_Closing \<Longrightarrow>
    listener_step l (l\<lparr>sl_closes := Suc (sl_closes l), sl_loop := L_Done,
      sl_conn_closes := Suc (sl_conn_closes l)\<rparr>)"
| conn_select: "sl_conn l = C_Open \<Longrightarrow> listener_step l (conn_Close_select l)"
| conn_channel: "sl_conn l = C_Closing \<Longrightarrow>
    listener_step l (l\<lparr>sl_closes := Suc (sl_closes l), sl_conn := C_Closed,
      sl_conn_closes := Suc (sl_conn_closes l)\<rparr>)"

inductive_cases listener_stepE: "listener_step l l'"

inductive listener_reachable :: "listener \<Rightarrow> bool" where
  init: "listener_reachable newSingleConnListener"
| step: "listener_reachable l \<Longrightarrow> listener_step l l' \<Longrightarrow> listener_reachable l'"

definition listener_inv :: "listener \<Rightarrow> bool" where
  "listener_inv l \<longleftrightarrow> sl_loop l \<noteq> L_Closing
     \<and> (sl_accepted l \<longleftrightarrow> sl_conn l \<noteq> C_Unborn)
     \<and> (sl_loop l \<noteq> L_Accept \<longrightarrow> sl_accepted l)
     \<and> sl_closes l = (if sl_conn l = C_Closed then 1 else 0)
     \<and> (sl_loop l = L_Failed \<or> sl_loop l = L_Done \<longrightarrow> sl_conn l = C_Closed)
     \<and> sl_conn_closes l = (if sl_conn l = C_Closed then 1 else 0) + (if sl_loop l = L_Done then 1 else 0)"

lemma listener_inv_step: "listener_inv l \<Longrightarrow> listener_step l l' \<Longrightarrow> listener_inv l'"
  by (erule listener_stepE)
    (auto simp: listener_inv_def Accept_begin_def Close_select_def conn_Close_select_def
      channel_closed_def split: if_splits)

lemma listener_inv_reachable: "listener_reachable l \<Longrightarrow> listener_inv l"
  by (induction rule: listener_reachable.induct)
    (auto simp: listener_inv_step, simp add: listener_inv_def newSingleConnListener_def)

text \<open>C37: In every interleaving of the server's accept loop and the closing of the connection, the
  \<open>done\<close> channel is closed at most once, so neither side panics; the loop only leaves once the
  connection has been closed; and from every reachable state in which a side is not finished
  some step is possible, so the loop cannot hang after the connection is closed.\<close>

theorem listener_never_panics:
  assumes "listener_reachable l"
  shows "sl_closes l \<le> 1
    \<and> (sl_loop l = L_Done \<longrightarrow> sl_conn l = C_Closed \<and> 1 \<le> sl_conn_closes l)
    \<and> (sl_loop l = L_Done \<and> sl_conn l = C_Closed \<or> (\<exists>l'. listener_step l l'))"
proof -
  have inv: "listener_inv l" by (rule listener_inv_reachable [OF assms])
  have "\<exists>l'. listener_step l l'" if "\<not> (sl_loop l = L_Done \<and> sl_conn l = C_Closed)"
  proof (cases "sl_loop l")
    case L_Waiting
    show ?thesis
    proof (cases "sl_conn l")
      case C_Unborn
      with inv L_Waiting show ?thesis by (auto simp: listener_inv_def)
    next
      case C_Closed
      with inv have "channel_closed l" by (simp add: listener_inv_def channel_closed_def)
      with L_Waiting show ?thesis by (blast intro: unblock)
    qed (blast intro: conn_select conn_channel)+
  next
    case L_Done
    with inv that show ?thesis by (auto simp: listener_inv_def)
  qed (blast intro: accept close_select close_channel)+
  with inv show ?thesis by (auto simp: listener_inv_def)
qed

definition accepted_listener :: listener where
  "accepted_listener = Accept_begin (Accept_begin newSingleConnListener)"

lemma listener_never_panics_witness:
  "sl_closes accepted_listener \<le> 1 \<and> (\<exists>l'. listener_step accepted_listener l')"
proof -
  have "listener_reachable (Accept_begin newSingleConnListener)"
    by (rule step [OF init accept]) (simp add: newSingleConnListener_def)
  then have "listener_reachable accepted_listener"
    unfolding accepted_listener_def
    by (rule step) (rule accept, simp add: newSingleConnListener_def Accept_begin_def)
  moreover have "sl_loop accepted_listener \<noteq> L_Done"
    by (simp add: accepted_listener_def newSingleConnListener_def Accept_begin_def)
  ultimately show ?thesis using listener_never_panics by blast
qed

end
