(* ===== verification/Backoff.thy ===== *)
theory Backoff
  imports Go_Prelude
begin

text \<open>
  The reconnect delays of \<^verbatim>\<open>internal/agent/agent.go\<close> and
  \<^verbatim>\<open>internal/dependencycapture/uploader.go\<close>: both loops choose their limits the same
  way, wait a delay with random jitter and double it.  A \<^verbatim>\<open>time.Duration\<close> is its number of
  nanoseconds, and the doubling is 64-bit arithmetic.  The locale \<open>backoff\<close> is what the loops
  rely on.
\<close>

definition second :: int where
  "second = 1000000000"

definition initial_delay :: "int \<Rightarrow> int" where
  "initial_delay configured = (if configured \<le> 0 then second else configured)"

definition max_delay :: "int \<Rightarrow> int \<Rightarrow> int" where
  "max_delay configured initial = (if configured < initial then 30 * second else configured)"

definition nextDelayMax :: "int \<Rightarrow> int \<Rightarrow> int" where
  "nextDelayMax current maximum =
     (let next = wrap64 (current * 2) in if next > maximum then maximum else next)"

definition nextCaptureDelay :: "int \<Rightarrow> int \<Rightarrow> int" where
  "nextCaptureDelay current maximum =
     (let next = wrap64 (current * 2) in if next > maximum then maximum else next)"

text \<open>
  The duration a wait sleeps, for the random number \<open>r\<close> that \<^verbatim>\<open>rand.Int63n\<close> draws below
  \<^verbatim>\<open>base/2 + 1\<close>; \<^verbatim>\<open>Int63n\<close> panics when that bound is not positive, and the
  division truncates.
\<close>

definition go_half :: "int \<Rightarrow> int" where
  "go_half x = (if x < 0 then - ((- x) div 2) else x div 2)"

definition wait_duration :: "int \<Rightarrow> int \<Rightarrow> int option" where
  "wait_duration r base = (let bound = go_half base + 1
     in if bound \<le> 0 then None else Some (wrap64 (base + r mod bound)))"

locale backoff =
  fixes nxt :: "int \<Rightarrow> int \<Rightarrow> int"
  assumes doubles: "0 < c \<Longrightarrow> c < 2 ^ 62 \<Longrightarrow> nxt c m = min (2 * c) m"
begin

lemma next_bounds:
  "0 < c \<Longrightarrow> c < 2 ^ 62 \<Longrightarrow> 0 < m \<Longrightarrow> 0 < nxt c m \<and> nxt c m \<le> m"
  by (simp add: doubles)

lemma iterate:
  assumes "0 < c" and "c \<le> m" and "m < 2 ^ 62"
  shows "((\<lambda>d. nxt d m) ^^ n) c = min (c * 2 ^ n) m"
proof (induction n)
  case 0
  then show ?case using assms by simp
next
  case (Suc n)
  have "0 < min (c * 2 ^ n) m" "min (c * 2 ^ n) m < 2 ^ 62" using assms by auto
  then have "nxt (min (c * 2 ^ n) m) m = min (2 * min (c * 2 ^ n) m) m" by (rule doubles)
  also have "\<dots> = min (c * 2 ^ Suc n) m" using assms by (auto simp: min_def)
  finally show ?case using Suc.IH by simp
qed

text \<open>The maximum is reached after finitely many failures and kept from then on.\<close>

lemma reaches_maximum:
  assumes "0 < c" and "c \<le> m" and "m < 2 ^ 62"
  shows "\<exists>n. \<forall>k\<ge>n. ((\<lambda>d. nxt d m) ^^ k) c = m"
proof (intro exI allI impI)
  fix k assume k: "nat m \<le> k"
  have "int k < int (2 ^ k)" by (simp only: of_nat_less_iff less_exp)
  then have "int k < 2 ^ k" by simp
  then have "m \<le> 2 ^ k" using k by linarith
  also have "(2::int) ^ k \<le> c * 2 ^ k" using assms(1) by simp
  finally show "((\<lambda>d. nxt d m) ^^ k) c = m" by (simp add: iterate [OF assms])
qed

end

interpretation agent_backoff: backoff nextDelayMax
  by unfold_locales (auto simp: nextDelayMax_def wrap64_id Let_def min_def)

interpretation capture_backoff: backoff nextCaptureDelay
  by unfold_locales (auto simp: nextCaptureDelay_def wrap64_id Let_def min_def)

lemma initial_delay_pos: "0 < initial_delay c"
  by (simp add: initial_delay_def second_def)

lemma wait_duration_Some:
  assumes "0 < base" and "base < 2 ^ 62"
  shows "\<exists>d. wait_duration r base = Some d \<and> base \<le> d \<and> 2 * d \<le> 3 * base"
proof -
  define bound j where "bound = base div 2 + 1" and "j = r mod bound"
  have "0 < bound" using assms by (simp add: bound_def)
  then have "0 \<le> j" "j < bound"
    unfolding j_def by (rule pos_mod_sign, rule pos_mod_bound)
  then have j: "0 \<le> j" "2 * j \<le> base" by (simp_all add: bound_def)
  then have "wrap64 (base + j) = base + j" using assms by (intro wrap64_id) simp_all
  then have "wait_duration r base = Some (base + j)"
    using assms \<open>0 < bound\<close>
    by (simp add: wait_duration_def go_half_def Let_def bound_def j_def)
  moreover have "base \<le> base + j" "2 * (base + j) \<le> 3 * base" using j by simp_all
  ultimately show ?thesis by blast
qed

text \<open>After \<open>n\<close> failures in a row both reconnect loops wait a base delay of exactly
  \<open>min (initial * 2 ^ n) maximum\<close>, the maximum is reached and kept, and each wait sleeps between
  one and one and a half times its base delay without a panic, for all limits below
  \<open>2 ^ 62\<close> nanoseconds (146 years).\<close>

theorem backoff_schedule:
  assumes "0 < initial" and "initial \<le> maximum" and "maximum < 2 ^ 62"
  shows "((\<lambda>d. nextDelayMax d maximum) ^^ n) initial = min (initial * 2 ^ n) maximum
    \<and> ((\<lambda>d. nextCaptureDelay d maximum) ^^ n) initial = min (initial * 2 ^ n) maximum
    \<and> (\<exists>m. \<forall>k\<ge>m. ((\<lambda>d. nextDelayMax d maximum) ^^ k) initial = maximum)
    \<and> (\<exists>d. wait_duration r (((\<lambda>d. nextDelayMax d maximum) ^^ n) initial) = Some d
         \<and> min (initial * 2 ^ n) maximum \<le> d \<and> 2 * d \<le> 3 * maximum)"
proof -
  let ?b = "min (initial * 2 ^ n) maximum"
  have b: "0 < ?b" "?b < 2 ^ 62" using assms by auto
  obtain d where d: "wait_duration r ?b = Some d" "?b \<le> d" "2 * d \<le> 3 * ?b"
    using wait_duration_Some [OF b] by blast
  have "2 * d \<le> 3 * maximum" using d(3) by linarith
  then show ?thesis
    using agent_backoff.iterate [OF assms, of n] capture_backoff.iterate [OF assms, of n]
      agent_backoff.reaches_maximum [OF assms] d by simp
qed

lemma backoff_schedule_witness:
  "((\<lambda>d. nextDelayMax d (30 * second)) ^^ 3) second = 8 * second
    \<and> ((\<lambda>d. nextCaptureDelay d (30 * second)) ^^ 5) second = 30 * second"
proof -
  have 1: "0 < second" "second \<le> 30 * second" "30 * second < 2 ^ 62" by (simp_all add: second_def)
  show ?thesis
    using backoff_schedule [OF 1, of 3 0] backoff_schedule [OF 1, of 5 0] by (simp add: second_def)
qed

text \<open>Outside that range the doubling wraps: a base delay of \<open>2 ^ 62\<close> nanoseconds is followed by
  a negative one, which the comparison with the maximum does not catch, and the next wait panics.\<close>

theorem backoff_overflow:
  "nextDelayMax (2 ^ 62) (2 ^ 63 - 1) = - (2 ^ 63)
   \<and> nextCaptureDelay (2 ^ 62) (2 ^ 63 - 1) = - (2 ^ 63)
   \<and> wait_duration r (nextDelayMax (2 ^ 62) (2 ^ 63 - 1)) = None"
  by (simp add: nextDelayMax_def nextCaptureDelay_def wrap64_def wait_duration_def go_half_def Let_def)

end
