(* ===== verification/Agent.thy ===== *)
theory Agent
  imports Backoff Go_Base64 Go_Url Hop_Headers
begin

text \<open>
  \<^verbatim>\<open>internal/agent/agent.go\<close>: the tunnel agent.  The connection loop of
  \<^verbatim>\<open>runTicket\<close> is a step function over its local variables; what the outside world does
  during one iteration (the session provider, the gateway, cancellation) is a \<open>round\<close>, and a run
  consumes a list of rounds and produces the list of visible events.  The second part is the
  handling of one forwarded request.
\<close>

subsection \<open>Sessions and gateway errors\<close>

record session =
  ss_endpoint_id :: string
  ss_endpoint_name :: string
  ss_session_id :: string
  ss_connect_url :: string
  ss_ticket :: string
  ss_public_url :: string

record gateway_error =
  ge_status :: int
  ge_code :: string

datatype serve_error = Close_Error string | Read_Error

definition DisconnectEndpointVirtualized :: string where
  "DisconnectEndpointVirtualized = ''endpoint_virtualized''"

definition endpointVirtualizedDisconnect :: "serve_error \<Rightarrow> bool" where
  "endpointVirtualizedDisconnect err = (case err of
       Close_Error reason \<Rightarrow> reason = DisconnectEndpointVirtualized | Read_Error \<Rightarrow> False)"

definition code_rune :: "nat \<Rightarrow> bool" where
  "code_rune r \<longleftrightarrow> 97 \<le> r \<and> r \<le> 122 \<or> 48 \<le> r \<and> r \<le> 57 \<or> r = 95"

text \<open>A gateway response is its status and the \<^verbatim>\<open>code\<close> the JSON decoder found in its body.\<close>

definition decodeGatewayError :: "(int \<times> string) option \<Rightarrow> gateway_error option" where
  "decodeGatewayError response = (case response of
       None \<Rightarrow> None
     | Some (status, code) \<Rightarrow> Some \<lparr>ge_status = status,
         ge_code = (if list_ex (\<lambda>r. \<not> code_rune r) (runes code) then [] else code)\<rparr>)"

definition retryableGatewayError :: "gateway_error option \<Rightarrow> bool" where
  "retryableGatewayError gatewayErr = (case gatewayErr of
       None \<Rightarrow> True
     | Some ge \<Rightarrow>
         if 500 \<le> ge_status ge \<or> ge_status ge = 401 then True
         else if ge_status ge = 409
           then ge_code ge = ''endpoint_already_connected'' \<or> ge_code ge = ''tunnel_session_replayed''
         else False)"

subsection \<open>The connection loop\<close>

record 'e agent_config =
  ac_local_port :: int
  ac_on_state :: bool
  ac_initial_session :: "session option"
  ac_acquire_set :: bool
  ac_retryable :: "('e \<Rightarrow> bool) option"
  ac_conflict :: "('e \<Rightarrow> bool) option"
  ac_reconnect :: bool
  ac_initial_delay :: int
  ac_max_delay :: int

record 'e round =
  rd_cancelled :: bool
  rd_acquire :: "'e + session"
  rd_cancelled_acquire :: bool
  rd_dialled :: bool
  rd_response :: "(int \<times> string) option"
  rd_cancelled_dial :: bool
  rd_serve :: serve_error
  rd_cancelled_serve :: bool
  rd_wait_cancelled :: bool

datatype 'e run_error = Provider_Required | Acquire_Error 'e | Gateway_Rejected gateway_error
  | Connect_Error | Disconnected serve_error

datatype event = Acquired session | Said string | Dialled string string | Served session | Waited int

record run_state =
  ru_delay :: int
  ru_connected_once :: bool
  ru_first :: bool
  ru_pending :: bool
  ru_next :: "session option"

definition connected_text :: string where
  "connected_text = ''Tunnel connected.''"

definition reconnected_text :: string where
  "reconnected_text = ''Tunnel reconnected.''"

definition lost_text :: string where
  "lost_text = ''Connection lost. Reconnecting...''"

definition conflict_text :: string where
  "conflict_text = ''Waiting for the previous tunnel session to close...''"

definition unavailable_text :: string where
  "unavailable_text = ''Mockingo control plane unavailable. Retrying...''"

text \<open>The outcome of an iteration: the loop returns (an error or nil), or goes on.\<close>

type_synonym 'e verdict = "'e run_error option + run_state"

definition run_initial :: "'e agent_config \<Rightarrow> int" where
  "run_initial c = initial_delay (ac_initial_delay c)"

definition run_maximum :: "'e agent_config \<Rightarrow> int" where
  "run_maximum c = max_delay (ac_max_delay c) (run_initial c)"

definition say :: "'e agent_config \<Rightarrow> string \<Rightarrow> event list" where
  "say c text = (if ac_on_state c then [Said text] else [])"

text \<open>The format \<^verbatim>\<open>%q\<close> quotes; an endpoint name has nothing to escape.\<close>

definition virtual_text :: "string \<Rightarrow> string" where
  "virtual_text name = ''Endpoint '' @ [CHR 0x22] @ name @ [CHR 0x22]
     @ '' was switched to Virtual mode.'' @ [CHR 0x0A] @ ''The local tunnel has been disconnected.''"

definition wait_and_retry :: "'e agent_config \<Rightarrow> 'e round \<Rightarrow> run_state \<Rightarrow> event list \<times> 'e verdict" where
  "wait_and_retry c rd st = ([Waited (ru_delay st)],
     if rd_wait_cancelled rd then Inl None
     else Inr (st\<lparr>ru_delay := nextDelayMax (ru_delay st) (run_maximum c)\<rparr>))"

definition prepend :: "event list \<Rightarrow> event list \<times> 'v \<Rightarrow> event list \<times> 'v" where
  "prepend es r = (es @ fst r, snd r)"

definition acquire_failed :: "'e agent_config \<Rightarrow> 'e round \<Rightarrow> run_state \<Rightarrow> 'e \<Rightarrow> event list \<times> 'e verdict" where
  "acquire_failed c rd st err =
     (if rd_cancelled_acquire rd then ([], Inl None)
      else if (case ac_retryable c of None \<Rightarrow> True | Some f \<Rightarrow> \<not> f err) then ([], Inl (Some (Acquire_Error err)))
      else if \<not> ac_reconnect c \<and> \<not> ru_first st then ([], Inl (Some (Acquire_Error err)))
      else
        let announce = \<not> ru_pending st \<and> ac_on_state c;
            text = (if (case ac_conflict c of None \<Rightarrow> False | Some f \<Rightarrow> f err)
              then conflict_text else unavailable_text)
        in prepend (if announce then [Said text] else [])
             (wait_and_retry c rd (st\<lparr>ru_pending := ru_pending st \<or> announce, ru_first := False\<rparr>)))"

definition dial_failed ::
  "'e agent_config \<Rightarrow> 'e round \<Rightarrow> run_state \<Rightarrow> gateway_error option \<Rightarrow> event list \<times> 'e verdict" where
  "dial_failed c rd st gatewayErr =
     (if rd_cancelled_dial rd then ([], Inl None)
      else case gatewayErr of
        Some ge \<Rightarrow> if \<not> retryableGatewayError gatewayErr \<or> \<not> ac_reconnect c
            then ([], Inl (Some (Gateway_Rejected ge))) else wait_and_retry c rd st
      | None \<Rightarrow> if \<not> ac_reconnect c then ([], Inl (Some Connect_Error)) else wait_and_retry c rd st)"

definition connected :: "'e agent_config \<Rightarrow> 'e round \<Rightarrow> run_state \<Rightarrow> session \<Rightarrow> event list \<times> 'e verdict" where
  "connected c rd st s =
     prepend (say c (if ru_connected_once st then reconnected_text else connected_text) @ [Served s])
      (let st = st\<lparr>ru_delay := run_initial c, ru_connected_once := True\<rparr>; err = rd_serve rd in
       if rd_cancelled_serve rd then ([], Inl None)
       else if endpointVirtualizedDisconnect err then
         (say c (virtual_text (ss_endpoint_name s)), Inl None)
       else if \<not> ac_reconnect c then ([], Inl (Some (Disconnected err)))
       else prepend (say c lost_text) (wait_and_retry c rd st))"

definition use_session :: "'e agent_config \<Rightarrow> 'e round \<Rightarrow> run_state \<Rightarrow> session \<Rightarrow> event list \<times> 'e verdict" where
  "use_session c rd st s =
     (let st = st\<lparr>ru_first := False, ru_pending := False\<rparr>
      in prepend [Dialled (ss_connect_url s) (ss_ticket s)]
          (if \<not> rd_dialled rd then dial_failed c rd st (decodeGatewayError (rd_response rd))
           else connected c rd st (s\<lparr>ss_ticket := []\<rparr>)))"

definition agent_round :: "'e agent_config \<Rightarrow> 'e round \<Rightarrow> run_state \<Rightarrow> event list \<times> 'e verdict" where
  "agent_round c rd st =
     (if rd_cancelled rd then ([], Inl None)
      else case ru_next st of
        Some s \<Rightarrow> use_session c rd (st\<lparr>ru_next := None\<rparr>) s
      | None \<Rightarrow>
          (case rd_acquire rd of
             Inl err \<Rightarrow> acquire_failed c rd st err
           | Inr s \<Rightarrow> prepend [Acquired s] (use_session c rd st s)))"

fun run_rounds ::
  "'e agent_config \<Rightarrow> run_state \<Rightarrow> 'e round list \<Rightarrow> event list \<times> 'e run_error option option" where
  "run_rounds c st [] = ([], None)"
| "run_rounds c st (rd # rds) =
     (case agent_round c rd st of
        (es, Inl result) \<Rightarrow> (es, Some result)
      | (es, Inr st') \<Rightarrow> prepend es (run_rounds c st' rds))"

text \<open>The loop's local variables at its start; the caller's copy of the ticket is cleared.\<close>

definition run_start :: "'e agent_config \<Rightarrow> run_state" where
  "run_start c = \<lparr>ru_delay = run_initial c, ru_connected_once = False, ru_first = True,
     ru_pending = False, ru_next = ac_initial_session c\<rparr>"

definition runTicket ::
  "'e agent_config \<Rightarrow> 'e round list \<Rightarrow> (event list \<times> 'e run_error option option) \<times> 'e agent_config" where
  "runTicket c rds = (run_rounds c (run_start c) rds,
     c\<lparr>ac_initial_session := map_option (\<lambda>s. s\<lparr>ss_ticket := []\<rparr>) (ac_initial_session c)\<rparr>)"

definition Run ::
  "'e agent_config \<Rightarrow> 'e round list \<Rightarrow> (event list \<times> 'e run_error option option) \<times> 'e agent_config" where
  "Run c rds = (if \<not> ac_acquire_set c then (([], Some (Some Provider_Required)), c) else runTicket c rds)"

subsection \<open>What the loop emits\<close>

definition presented :: "event list \<Rightarrow> string list" where
  "presented es = concat (map (\<lambda>e. case e of Dialled u t \<Rightarrow> [t] | _ \<Rightarrow> []) es)"

definition obtained :: "event list \<Rightarrow> string list" where
  "obtained es = concat (map (\<lambda>e. case e of Acquired s \<Rightarrow> [ss_ticket s] | _ \<Rightarrow> []) es)"

definition said :: "event list \<Rightarrow> string list" where
  "said es = concat (map (\<lambda>e. case e of Said t \<Rightarrow> [t] | _ \<Rightarrow> []) es)"

definition connections :: "event list \<Rightarrow> nat" where
  "connections es = length (filter (\<lambda>e. case e of Served s \<Rightarrow> True | _ \<Rightarrow> False) es)"

definition connect_texts :: "event list \<Rightarrow> string list" where
  "connect_texts es = filter (\<lambda>t. t \<in> {connected_text, reconnected_text}) (said es)"

text \<open>The abstract schedule of waits: \<open>k\<close> failures since the last connection.\<close>

fun on_schedule :: "int \<Rightarrow> int \<Rightarrow> nat \<Rightarrow> event list \<Rightarrow> bool" where
  "on_schedule i m k [] = True"
| "on_schedule i m k (Waited d # es) = (d = min (i * 2 ^ k) m \<and> on_schedule i m (Suc k) es)"
| "on_schedule i m k (Served s # es) = on_schedule i m 0 es"
| "on_schedule i m k (e # es) = on_schedule i m k es"

lemmas event_views = presented_def obtained_def said_def connections_def connect_texts_def

lemma prepend_eq: "prepend es r = (es', v) \<longleftrightarrow> (\<exists>es''. r = (es'', v) \<and> es' = es @ es'')"
  by (cases r) (auto simp: prepend_def)

lemma views_append [simp]:
  "presented (a @ b) = presented a @ presented b" "obtained (a @ b) = obtained a @ obtained b"
  "connect_texts (a @ b) = connect_texts a @ connect_texts b"
  "connections (a @ b) = connections a + connections b"
  by (simp_all add: event_views)

lemma views_simps [simp]:
  "presented [] = []" "presented (Dialled u t # es) = t # presented es"
  "presented (Acquired s # es) = presented es" "presented (Said x # es) = presented es"
  "presented (Served s # es) = presented es" "presented (Waited d # es) = presented es"
  "obtained [] = []" "obtained (Dialled u t # es) = obtained es"
  "obtained (Acquired s # es) = ss_ticket s # obtained es" "obtained (Said x # es) = obtained es"
  "obtained (Served s # es) = obtained es" "obtained (Waited d # es) = obtained es"
  "connections [] = 0" "connections (Dialled u t # es) = connections es"
  "connections (Acquired s # es) = connections es" "connections (Said x # es) = connections es"
  "connections (Served s # es) = Suc (connections es)" "connections (Waited d # es) = connections es"
  by (simp_all add: event_views)

definition pending_ticket :: "run_state \<Rightarrow> string list" where
  "pending_ticket st = (case ru_next st of None \<Rightarrow> [] | Some s \<Rightarrow> [ss_ticket s])"

lemma views_say [simp]:
  "presented (say c x) = []" "obtained (say c x) = []" "connections (say c x) = 0"
  by (simp_all add: say_def)

lemma wait_quiet:
  "wait_and_retry c rd st = (es, v) \<Longrightarrow> presented es = [] \<and> obtained es = [] \<and> connections es = 0
     \<and> (\<forall>st'. v = Inr st' \<longrightarrow> ru_next st' = ru_next st)"
  by (auto simp: wait_and_retry_def split: if_splits)

lemma acquire_failed_quiet:
  "acquire_failed c rd st err = (es, v) \<Longrightarrow> presented es = [] \<and> obtained es = [] \<and> connections es = 0
     \<and> (\<forall>st'. v = Inr st' \<longrightarrow> ru_next st' = ru_next st)"
  by (auto simp: acquire_failed_def prepend_eq Let_def split: if_splits dest!: wait_quiet)

lemma dial_failed_quiet:
  "dial_failed c rd st ge = (es, v) \<Longrightarrow> presented es = [] \<and> obtained es = [] \<and> connections es = 0
     \<and> (\<forall>st'. v = Inr st' \<longrightarrow> ru_next st' = ru_next st \<and> ac_reconnect c)"
  by (auto simp: dial_failed_def split: if_splits option.splits dest!: wait_quiet)

lemma connected_views:
  "connected c rd st s = (es, v) \<Longrightarrow> presented es = [] \<and> obtained es = [] \<and> connections es = 1
     \<and> (\<forall>st'. v = Inr st' \<longrightarrow> ru_next st' = ru_next st \<and> ac_reconnect c)"
  by (auto simp: connected_def prepend_eq Let_def split: if_splits dest!: wait_quiet)

lemma use_session_views:
  "use_session c rd st s = (es, v) \<Longrightarrow>
   presented es = [ss_ticket s] \<and> obtained es = [] \<and> connections es \<le> 1
   \<and> (\<forall>st'. v = Inr st' \<longrightarrow> ru_next st' = ru_next st \<and> ac_reconnect c)"
  by (auto simp: use_session_def prepend_eq Let_def split: if_splits
      dest!: dial_failed_quiet connected_views)

lemma agent_round_views:
  assumes "agent_round c rd st = (es, v)"
  shows "(presented es = pending_ticket st @ obtained es \<and> length (presented es) \<le> 1
         \<or> presented es = [] \<and> obtained es = [] \<and> (\<exists>r. v = Inl r))
     \<and> connections es \<le> length (presented es)
     \<and> (\<forall>st'. v = Inr st' \<longrightarrow> ru_next st' = None \<and> (presented es \<noteq> [] \<longrightarrow> ac_reconnect c))"
proof (cases "rd_cancelled rd")
  case True
  with assms show ?thesis by (auto simp: agent_round_def)
next
  case False
  show ?thesis
  proof (cases "ru_next st")
    case (Some s)
    with False assms have "use_session c rd (st\<lparr>ru_next := None\<rparr>) s = (es, v)"
      by (simp add: agent_round_def)
    from use_session_views [OF this] Some show ?thesis by (simp add: pending_ticket_def)
  next
    case None
    show ?thesis
    proof (cases "rd_acquire rd")
      case (Inl err)
      with False None assms have "acquire_failed c rd st err = (es, v)"
        by (simp add: agent_round_def)
      from acquire_failed_quiet [OF this] None show ?thesis by (simp add: pending_ticket_def)
    next
      case (Inr s)
      with False None assms obtain es' where "use_session c rd st s = (es', v)" "es = Acquired s # es'"
        by (auto simp: agent_round_def prepend_eq)
      with use_session_views [OF this(1)] None show ?thesis by (simp add: pending_ticket_def)
    qed
  qed
qed

lemma run_rounds_Cons:
  assumes "run_rounds c st (rd # rds) = (es, r)"
  obtains "agent_round c rd st = (es, Inl (the r))" "r \<noteq> None"
  | es1 st' es2 where "agent_round c rd st = (es1, Inr st')" "run_rounds c st' rds = (es2, r)" "es = es1 @ es2"
  using assms by (auto simp: prepend_eq split: prod.splits sum.splits)

lemma run_rounds_tickets:
  "run_rounds c st rds = (es, r) \<Longrightarrow>
   presented es = pending_ticket st @ obtained es \<or> presented es = [] \<and> obtained es = []"
proof (induction rds arbitrary: st es)
  case Nil
  then show ?case by simp
next
  case (Cons rd rds)
  from Cons.prems show ?case
  proof (cases rule: run_rounds_Cons)
    case 1
    from agent_round_views [OF 1(1)] show ?thesis by blast
  next
    case (2 es1 st' es2)
    from agent_round_views [OF 2(1)] have v: "presented es1 = pending_ticket st @ obtained es1"
      "ru_next st' = None" by auto
    from Cons.IH [OF 2(2)] v(2) have "presented es2 = obtained es2"
      by (auto simp: pending_ticket_def)
    with v(1) 2(3) show ?thesis by simp
  qed
qed

lemma run_rounds_single:
  assumes "\<not> ac_reconnect c"
  shows "run_rounds c st rds = (es, r) \<Longrightarrow> length (presented es) \<le> 1 \<and> connections es \<le> 1"
proof (induction rds arbitrary: st es)
  case Nil
  then show ?case by simp
next
  case (Cons rd rds)
  from Cons.prems show ?case
  proof (cases rule: run_rounds_Cons)
    case 1
    from agent_round_views [OF 1(1)] show ?thesis by auto
  next
    case (2 es1 st' es2)
    from agent_round_views [OF 2(1)] assms have "presented es1 = []" "connections es1 = 0" by auto
    with Cons.IH [OF 2(2)] 2(3) show ?thesis by simp
  qed
qed

subsection \<open>Delays and messages\<close>

fun failures :: "nat \<Rightarrow> event list \<Rightarrow> nat" where
  "failures k [] = k"
| "failures k (Waited d # es) = failures (Suc k) es"
| "failures k (Served s # es) = failures 0 es"
| "failures k (e # es) = failures k es"

lemma on_schedule_append [simp]:
  "on_schedule i m k (a @ b) \<longleftrightarrow> on_schedule i m k a \<and> on_schedule i m (failures k a) b"
  by (induction i m k a rule: on_schedule.induct) auto

lemma failures_append [simp]: "failures k (a @ b) = failures (failures k a) b"
  by (induction k a rule: failures.induct) auto

lemma schedule_say [simp]: "on_schedule i m k (say c x)" "failures k (say c x) = k"
  by (simp_all add: say_def)

definition limits_ok :: "'e agent_config \<Rightarrow> bool" where
  "limits_ok c \<longleftrightarrow> run_initial c \<le> run_maximum c \<and> run_maximum c < 2 ^ 62"

definition delay_at :: "'e agent_config \<Rightarrow> nat \<Rightarrow> int" where
  "delay_at c k = min (run_initial c * 2 ^ k) (run_maximum c)"

lemma delay_at_Suc:
  assumes "limits_ok c"
  shows "nextDelayMax (delay_at c k) (run_maximum c) = delay_at c (Suc k)"
  using agent_backoff.iterate [of "run_initial c" "run_maximum c" k]
    agent_backoff.iterate [of "run_initial c" "run_maximum c" "Suc k"] assms
    initial_delay_pos [of "ac_initial_delay c"]
  by (simp add: limits_ok_def delay_at_def run_initial_def)

lemma delay_at_0: "limits_ok c \<Longrightarrow> run_initial c = delay_at c 0"
  by (simp add: limits_ok_def delay_at_def)

abbreviation scheduled :: "'e agent_config \<Rightarrow> nat \<Rightarrow> event list \<Rightarrow> bool" where
  "scheduled c k es \<equiv> on_schedule (run_initial c) (run_maximum c) k es"

lemma wait_schedule:
  assumes "limits_ok c" and "wait_and_retry c rd st = (es, v)" and "ru_delay st = delay_at c k"
  shows "scheduled c k es \<and> (\<forall>st'. v = Inr st' \<longrightarrow> ru_delay st' = delay_at c (failures k es))"
  using assms delay_at_Suc [OF assms(1), of k]
  by (auto simp: wait_and_retry_def delay_at_def split: if_splits)

lemma acquire_failed_schedule:
  assumes ok: "limits_ok c" and "acquire_failed c rd st err = (es, v)" and "ru_delay st = delay_at c k"
  shows "scheduled c k es \<and> (\<forall>st'. v = Inr st' \<longrightarrow> ru_delay st' = delay_at c (failures k es))"
  using assms(2,3)
  by (auto simp: acquire_failed_def prepend_eq Let_def split: if_splits dest!: wait_schedule [OF ok])

lemma dial_failed_schedule:
  assumes ok: "limits_ok c" and "dial_failed c rd st ge = (es, v)" and "ru_delay st = delay_at c k"
  shows "scheduled c k es \<and> (\<forall>st'. v = Inr st' \<longrightarrow> ru_delay st' = delay_at c (failures k es))"
  using assms(2,3)
  by (auto simp: dial_failed_def split: if_splits option.splits dest!: wait_schedule [OF ok])

lemma connected_schedule:
  assumes ok: "limits_ok c" and "connected c rd st s = (es, v)"
  shows "scheduled c k es \<and> (\<forall>st'. v = Inr st' \<longrightarrow> ru_delay st' = delay_at c (failures k es))"
proof -
  have 0: "ru_delay (st\<lparr>ru_delay := run_initial c, ru_connected_once := True\<rparr>) = delay_at c 0"
    using delay_at_0 [OF ok] by simp
  show ?thesis
    using assms(2) wait_schedule [OF ok _ 0]
    by (auto simp: connected_def prepend_eq Let_def split: if_splits)
qed

lemma use_session_schedule:
  assumes ok: "limits_ok c" and "use_session c rd st s = (es, v)" and "ru_delay st = delay_at c k"
  shows "scheduled c k es \<and> (\<forall>st'. v = Inr st' \<longrightarrow> ru_delay st' = delay_at c (failures k es))"
  using assms(2,3)
  by (auto simp: use_session_def prepend_eq Let_def split: if_splits
      dest!: dial_failed_schedule [OF ok] connected_schedule [OF ok])

lemma agent_round_schedule:
  assumes ok: "limits_ok c" and "agent_round c rd st = (es, v)" and "ru_delay st = delay_at c k"
  shows "scheduled c k es \<and> (\<forall>st'. v = Inr st' \<longrightarrow> ru_delay st' = delay_at c (failures k es))"
  using assms(2,3)
  by (auto simp: agent_round_def prepend_eq split: if_splits option.splits sum.splits
      dest!: use_session_schedule [OF ok] acquire_failed_schedule [OF ok])

lemma run_rounds_schedule:
  assumes ok: "limits_ok c"
  shows "run_rounds c st rds = (es, r) \<Longrightarrow> ru_delay st = delay_at c k \<Longrightarrow> scheduled c k es"
proof (induction rds arbitrary: st es k)
  case Nil
  then show ?case by simp
next
  case (Cons rd rds)
  from Cons.prems(1) show ?case
  proof (cases rule: run_rounds_Cons)
    case 1
    from agent_round_schedule [OF ok 1(1) Cons.prems(2)] show ?thesis by blast
  next
    case (2 es1 st' es2)
    from agent_round_schedule [OF ok 2(1) Cons.prems(2)] Cons.IH [OF 2(2)] 2(3) show ?thesis by simp
  qed
qed

fun greetings :: "bool \<Rightarrow> nat \<Rightarrow> string list" where
  "greetings again 0 = []"
| "greetings again (Suc n) = (if again then reconnected_text else connected_text) # greetings True n"

lemma greetings_add: "greetings b (m + n) = greetings b m @ greetings (b \<or> 0 < m) n"
  by (induction b m rule: greetings.induct) auto

definition greeting_texts :: "string set" where
  "greeting_texts = {connected_text, reconnected_text}"

lemma other_texts:
  "lost_text \<notin> greeting_texts" "conflict_text \<notin> greeting_texts" "unavailable_text \<notin> greeting_texts"
  "virtual_text n \<notin> greeting_texts"
  by (simp_all add: greeting_texts_def lost_text_def conflict_text_def unavailable_text_def
      virtual_text_def connected_text_def reconnected_text_def)

lemma connect_texts_simps [simp]:
  "connect_texts [] = []" "connect_texts (Dialled u t # es) = connect_texts es"
  "connect_texts (Acquired s # es) = connect_texts es" "connect_texts (Served s # es) = connect_texts es"
  "connect_texts (Waited d # es) = connect_texts es"
  "connect_texts (Said x # es) = (if x \<in> greeting_texts then x # connect_texts es else connect_texts es)"
  by (simp_all add: connect_texts_def said_def greeting_texts_def)

lemma connect_texts_say: "connect_texts (say c x) = (if ac_on_state c \<and> x \<in> greeting_texts then [x] else [])"
  by (simp add: say_def)

text \<open>\<open>greeted\<close>: what a part of a run says on its connections, and what it leaves in the state.\<close>

definition greeted :: "'e agent_config \<Rightarrow> run_state \<Rightarrow> event list \<Rightarrow> 'e verdict \<Rightarrow> bool" where
  "greeted c st es v \<longleftrightarrow>
     connect_texts es = (if ac_on_state c then greetings (ru_connected_once st) (connections es) else [])
     \<and> (\<forall>st'. v = Inr st' \<longrightarrow> ru_connected_once st' = (ru_connected_once st \<or> 0 < connections es))"

lemma wait_greeted: "wait_and_retry c rd st = (es, v) \<Longrightarrow> greeted c st es v"
  by (auto simp: wait_and_retry_def greeted_def split: if_splits)

lemma acquire_failed_greeted: "acquire_failed c rd st err = (es, v) \<Longrightarrow> greeted c st es v"
  using other_texts(2,3)
  by (auto simp: acquire_failed_def prepend_eq Let_def greeted_def split: if_splits dest!: wait_greeted)

lemma dial_failed_greeted: "dial_failed c rd st ge = (es, v) \<Longrightarrow> greeted c st es v"
  by (auto simp: dial_failed_def greeted_def split: if_splits option.splits dest!: wait_greeted)

lemma connected_greeted: "connected c rd st s = (es, v) \<Longrightarrow> greeted c st es v"
  using other_texts(1) other_texts(4) [of "ss_endpoint_name s"]
  by (auto simp: connected_def prepend_eq Let_def greeted_def connect_texts_say greeting_texts_def
      split: if_splits dest!: wait_greeted)

lemma use_session_greeted: "use_session c rd st s = (es, v) \<Longrightarrow> greeted c st es v"
  by (auto simp: use_session_def prepend_eq Let_def greeted_def split: if_splits
      dest!: dial_failed_greeted connected_greeted)

lemma agent_round_greeted: "agent_round c rd st = (es, v) \<Longrightarrow> greeted c st es v"
  by (auto simp: agent_round_def prepend_eq greeted_def split: if_splits option.splits sum.splits
      dest!: use_session_greeted acquire_failed_greeted)

lemma run_rounds_greetings:
  "run_rounds c st rds = (es, r) \<Longrightarrow>
   connect_texts es = (if ac_on_state c then greetings (ru_connected_once st) (connections es) else [])"
proof (induction rds arbitrary: st es)
  case Nil
  then show ?case by simp
next
  case (Cons rd rds)
  from Cons.prems(1) show ?case
  proof (cases rule: run_rounds_Cons)
    case 1
    from agent_round_greeted [OF 1(1)] show ?thesis by (simp add: greeted_def)
  next
    case (2 es1 st' es2)
    from agent_round_greeted [OF 2(1)] Cons.IH [OF 2(2)] 2(3) show ?thesis
      by (simp add: greeted_def greetings_add)
  qed
qed

subsection \<open>What the loop promises\<close>

lemma Run_cases:
  assumes "Run c rds = ((es, r), c')"
  shows "es = [] \<and> c' = c \<and> \<not> ac_acquire_set c
    \<or> run_rounds c (run_start c) rds = (es, r) \<and> ac_acquire_set c
      \<and> c' = c\<lparr>ac_initial_session := map_option (\<lambda>s. s\<lparr>ss_ticket := []\<rparr>) (ac_initial_session c)\<rparr>"
  using assms by (auto simp: Run_def runTicket_def split: if_splits)

definition initial_tickets :: "'e agent_config \<Rightarrow> string list" where
  "initial_tickets c = (case ac_initial_session c of None \<Rightarrow> [] | Some s \<Rightarrow> [ss_ticket s])"

text \<open>C1: A ticket is presented to the gateway at most once: in every run the tickets presented are
  exactly the initial one followed by those the provider issued, in that order and one dial each
  (or none at all when the run is cancelled before its first dial), so distinct tickets are never
  reused; and the caller's copy of the initial ticket is erased.\<close>

theorem tickets_presented_once:
  assumes "Run c rds = ((es, r), c')" and "ac_acquire_set c"
  shows "(presented es = initial_tickets c @ obtained es \<or> presented es = [] \<and> obtained es = [])
    \<and> (distinct (initial_tickets c @ obtained es) \<longrightarrow> distinct (presented es))
    \<and> set (initial_tickets c') \<subseteq> {[]}"
proof -
  from Run_cases [OF assms(1)] assms(2) have run: "run_rounds c (run_start c) rds = (es, r)"
    and c': "c' = c\<lparr>ac_initial_session := map_option (\<lambda>s. s\<lparr>ss_ticket := []\<rparr>) (ac_initial_session c)\<rparr>"
    by auto
  have "pending_ticket (run_start c) = initial_tickets c"
    by (simp add: pending_ticket_def run_start_def initial_tickets_def)
  with run_rounds_tickets [OF run] c' show ?thesis
    by (auto simp: initial_tickets_def split: option.split)
qed

definition sample_session :: "string \<Rightarrow> session" where
  "sample_session ticket = \<lparr>ss_endpoint_id = ''e1'', ss_endpoint_name = ''demo'', ss_session_id = ''s1'',
     ss_connect_url = ''wss://gateway.example.com/v1/connect'', ss_ticket = ticket,
     ss_public_url = ''https://demo.mockingo.click''\<rparr>"

definition sample_agent :: "string agent_config" where
  "sample_agent = \<lparr>ac_local_port = 3000, ac_on_state = True,
     ac_initial_session = Some (sample_session ''t0''), ac_acquire_set = True,
     ac_retryable = Some (\<lambda>e. e = ''busy''), ac_conflict = None, ac_reconnect = True,
     ac_initial_delay = 0, ac_max_delay = 30 * second\<rparr>"

definition lost_round :: "string \<Rightarrow> string round" where
  "lost_round ticket = \<lparr>rd_cancelled = False, rd_acquire = Inr (sample_session ticket),
     rd_cancelled_acquire = False, rd_dialled = True, rd_response = Some (101, []),
     rd_cancelled_dial = False, rd_serve = Read_Error, rd_cancelled_serve = False,
     rd_wait_cancelled = False\<rparr>"

definition refused_round :: "string \<Rightarrow> int \<Rightarrow> string round" where
  "refused_round ticket status = (lost_round ticket)\<lparr>rd_dialled := False, rd_response := Some (status, ''Bad!'')\<rparr>"

definition sample_rounds :: "string round list" where
  "sample_rounds = [lost_round ''unused'', refused_round ''t1'' 503, refused_round ''t2'' 503, lost_round ''t3'']"

definition sample_events :: "event list" where
  "sample_events = (let dial = \<lambda>t. Dialled ''wss://gateway.example.com/v1/connect'' t;
       s = sample_session [] in
     [dial ''t0'', Said connected_text, Served s, Said lost_text, Waited second,
      Acquired (sample_session ''t1''), dial ''t1'', Waited (2 * second),
      Acquired (sample_session ''t2''), dial ''t2'', Waited (4 * second),
      Acquired (sample_session ''t3''), dial ''t3'', Said reconnected_text, Served s, Said lost_text,
      Waited second])"

lemma sample_run: "fst (Run sample_agent sample_rounds) = (sample_events, None)"
  by code_simp

lemma tickets_presented_once_witness:
  "presented (fst (fst (Run sample_agent sample_rounds))) = [''t0'', ''t1'', ''t2'', ''t3'']
    \<and> distinct (presented (fst (fst (Run sample_agent sample_rounds))))"
proof -
  let ?r = "Run sample_agent sample_rounds"
  have run: "?r = ((fst (fst ?r), snd (fst ?r)), snd ?r)" by simp
  have set: "ac_acquire_set sample_agent" by (simp add: sample_agent_def)
  have "presented (fst (fst ?r)) = [''t0'', ''t1'', ''t2'', ''t3'']"
    unfolding sample_run by (simp add: sample_events_def Let_def)
  moreover have "distinct (initial_tickets sample_agent @ obtained (fst (fst ?r)))"
    unfolding sample_run
    by (simp add: sample_events_def Let_def initial_tickets_def sample_agent_def sample_session_def)
  ultimately show ?thesis using tickets_presented_once [OF run set] by blast
qed



text \<open>The user is told about every connection and about nothing else as one: with a state
  callback, the first connection of a run says that the tunnel is connected and every later one
  that it is reconnected, in the number and order of the connections.\<close>

theorem connections_announced:
  assumes "Run c rds = ((es, r), c')" and "ac_on_state c"
  shows "connect_texts es = (if connections es = 0 then []
     else connected_text # replicate (connections es - 1) reconnected_text)"
proof -
  have again: "greetings True n = replicate n reconnected_text" for n
    by (induction n) auto
  have "connect_texts es = greetings False (connections es)"
    using Run_cases [OF assms(1)] run_rounds_greetings [of c "run_start c" rds es r] assms(2)
    by (auto simp: run_start_def)
  then show ?thesis using again by (cases "connections es") auto
qed

lemma connections_announced_witness:
  "connect_texts (fst (fst (Run sample_agent sample_rounds))) = [connected_text, reconnected_text]"
proof -
  let ?r = "Run sample_agent sample_rounds"
  have run: "?r = ((fst (fst ?r), snd (fst ?r)), snd ?r)" by simp
  have on: "ac_on_state sample_agent" by (simp add: sample_agent_def)
  have "connections (fst (fst ?r)) = 2" unfolding sample_run by (simp add: sample_events_def Let_def)
  then show ?thesis using connections_announced [OF run on] by simp
qed

text \<open>With reconnecting disabled a run makes at most one attempt to connect, whatever happens.\<close>

theorem reconnect_disabled_dials_once:
  assumes "Run c rds = ((es, r), c')" and "\<not> ac_reconnect c"
  shows "length (presented es) \<le> 1 \<and> connections es \<le> 1"
  using Run_cases [OF assms(1)] run_rounds_single [OF assms(2), of "run_start c" rds es r] by auto

lemma reconnect_disabled_dials_once_witness:
  "length (presented (fst (fst (Run (sample_agent\<lparr>ac_reconnect := False\<rparr>) sample_rounds)))) \<le> 1"
proof -
  let ?c = "sample_agent\<lparr>ac_reconnect := False\<rparr>"
  let ?r = "Run ?c sample_rounds"
  have run: "?r = ((fst (fst ?r), snd (fst ?r)), snd ?r)" by simp
  have off: "\<not> ac_reconnect ?c" by simp
  show ?thesis using reconnect_disabled_dials_once [OF run off] by blast
qed

text \<open>An iteration in which nothing is cancelled and every failure is a transient one.\<close>

definition transient :: "'e agent_config \<Rightarrow> 'e round \<Rightarrow> bool" where
  "transient c rd \<longleftrightarrow> \<not> rd_cancelled rd \<and> \<not> rd_cancelled_acquire rd \<and> \<not> rd_cancelled_dial rd
     \<and> \<not> rd_cancelled_serve rd \<and> \<not> rd_wait_cancelled rd
     \<and> (case rd_acquire rd of Inr s \<Rightarrow> True
        | Inl e \<Rightarrow> (case ac_retryable c of None \<Rightarrow> False | Some f \<Rightarrow> f e))
     \<and> (rd_dialled rd \<or> retryableGatewayError (decodeGatewayError (rd_response rd)))
     \<and> \<not> endpointVirtualizedDisconnect (rd_serve rd)"

lemma transient_goes_on:
  assumes "ac_reconnect c" and "transient c rd"
  shows "\<exists>es st'. agent_round c rd st = (es, Inr st')"
proof -
  have wait: "\<exists>es st'. wait_and_retry c rd t = (es, Inr st')" for t
    using assms(2) by (simp add: wait_and_retry_def transient_def)
  have pre: "(\<exists>es st'. prepend xs p = (es, Inr st')) = (\<exists>es st'. p = (es, Inr st'))"
    for xs and p :: "event list \<times> 'a verdict"
    by (cases p) (simp add: prepend_def)
  have acquire: "\<exists>es st'. acquire_failed c rd t e = (es, Inr st')" if "rd_acquire rd = Inl e" for t e
    using assms that wait by (auto simp: acquire_failed_def transient_def Let_def pre split: option.splits)
  have dial: "\<exists>es st'. dial_failed c rd t (decodeGatewayError (rd_response rd)) = (es, Inr st')"
    if "\<not> rd_dialled rd" for t
    using assms that wait by (auto simp: dial_failed_def transient_def split: option.split)
  have conn: "\<exists>es st'. connected c rd t s = (es, Inr st')" for t s
    using assms wait by (auto simp: connected_def transient_def Let_def pre)
  have use: "\<exists>es st'. use_session c rd t s = (es, Inr st')" for t s
    using dial conn by (auto simp: use_session_def Let_def pre)
  show ?thesis
    using assms(2) use acquire
    by (auto simp: agent_round_def transient_def pre split: option.split sum.split)
qed

text \<open>The agent never gives up on transient trouble: with reconnecting enabled, after any number
  of iterations in which the provider's errors are retryable, the gateway's refusals are retryable
  and connections are lost for other reasons than the switch to virtual mode, the loop is still
  running and has waited before each further iteration.\<close>

theorem keeps_reconnecting:
  assumes "Run c rds = ((es, r), c')" and "ac_acquire_set c" and "ac_reconnect c"
    and "list_all (transient c) rds"
  shows "r = None \<and> length rds \<le> length es"
proof -
  have "run_rounds c st rds = (es, r) \<Longrightarrow> r = None \<and> length rds \<le> length es" for st
    using assms(4)
  proof (induction rds arbitrary: st es)
    case Nil
    then show ?case by auto
  next
    case (Cons rd rds)
    obtain es1 st' where round: "agent_round c rd st = (es1, Inr st')"
      using transient_goes_on [OF assms(3)] Cons.prems(2) by (metis list.pred_inject(2))
    then obtain es2 where es2: "run_rounds c st' rds = (es2, r)" "es = es1 @ es2"
      using Cons.prems(1) by (auto simp: prepend_eq)
    have "es1 \<noteq> []"
    proof
      assume "es1 = []"
      with round show False
        by (auto simp: agent_round_def use_session_def acquire_failed_def prepend_eq wait_and_retry_def
            Let_def split: if_splits option.splits sum.splits)
    qed
    then have "1 \<le> length es1" by (cases es1) auto
    with Cons.IH [OF es2(1)] Cons.prems(2) es2(2) show ?case by simp
  qed
  then show ?thesis using Run_cases [OF assms(1)] assms(2) by auto
qed

lemma keeps_reconnecting_witness:
  "snd (fst (Run sample_agent sample_rounds)) = None"
proof -
  let ?r = "Run sample_agent sample_rounds"
  have run: "?r = ((fst (fst ?r), snd (fst ?r)), snd ?r)" by simp
  have set: "ac_acquire_set sample_agent" "ac_reconnect sample_agent" by (simp_all add: sample_agent_def)
  have "list_all (transient sample_agent) sample_rounds" by code_simp
  from keeps_reconnecting [OF run set this] show ?thesis by blast
qed

lemma decoded_code_chars:
  assumes "decodeGatewayError response = Some ge"
  shows "list_all (\<lambda>c. is_lower c \<or> is_digit c \<or> c = CHR ''_'') (ge_code ge)"
proof -
  have byte: "code_rune (byte c) \<longleftrightarrow> is_lower c \<or> is_digit c \<or> c = CHR ''_''" for c
    using byte_eq_iff [of c "CHR ''_''"] by (auto simp: code_rune_def is_lower_def is_digit_def)
  have "list_all code_rune (runes s) = list_all (\<lambda>c. is_lower c \<or> is_digit c \<or> c = CHR ''_'') s" for s
    by (subst runes_all_ascii) (simp_all add: byte, simp add: code_rune_def)
  moreover have "list_all code_rune (runes (ge_code ge))"
    using assms by (auto simp: decodeGatewayError_def list_ex_iff list_all_iff split: option.splits if_splits)
  ultimately show ?thesis by simp
qed

text \<open>A refusal by the gateway that cannot become an acceptance ends the run at once: for a 4xx
  status other than 401, and other than 409 with one of the two codes of a session conflict, the
  iteration returns that status without waiting, even with reconnecting enabled, and the code it
  reports has only lower-case letters, digits and underscores whatever the response body held.\<close>

theorem permanent_rejection_ends_run:
  assumes "ru_next st = Some s" and "\<not> rd_cancelled rd" and "\<not> rd_cancelled_dial rd"
    and "\<not> rd_dialled rd" and "rd_response rd = Some (status, code)"
    and "400 \<le> status" and "status < 500" and "status \<noteq> 401"
    and "status = 409 \<longrightarrow> code \<notin> {''endpoint_already_connected'', ''tunnel_session_replayed''}"
  shows "\<exists>ge. agent_round c rd st = ([Dialled (ss_connect_url s) (ss_ticket s)], Inl (Some (Gateway_Rejected ge)))
    \<and> ge_status ge = status \<and> ge_code ge \<in> {code, []}
    \<and> list_all (\<lambda>c. is_lower c \<or> is_digit c \<or> c = CHR ''_'') (ge_code ge)"
proof -
  obtain ge where ge: "decodeGatewayError (rd_response rd) = Some ge"
    "ge_status ge = status" "ge_code ge \<in> {code, []}"
    by (simp add: decodeGatewayError_def assms(5))
  have "\<not> retryableGatewayError (Some ge)"
    using ge(2,3) assms(6-9) by (auto simp: retryableGatewayError_def)
  then have "agent_round c rd st = ([Dialled (ss_connect_url s) (ss_ticket s)], Inl (Some (Gateway_Rejected ge)))"
    using assms(1-4) ge(1) by (simp add: agent_round_def use_session_def dial_failed_def prepend_def Let_def)
  with ge decoded_code_chars [OF ge(1)] show ?thesis by blast
qed

lemma permanent_rejection_ends_run_witness:
  "\<exists>ge. agent_round sample_agent (refused_round ''t1'' 403) (run_start sample_agent)
      = ([Dialled ''wss://gateway.example.com/v1/connect'' ''t0''], Inl (Some (Gateway_Rejected ge)))
    \<and> ge_status ge = 403"
proof -
  let ?rd = "refused_round ''t1'' 403"
  have 1: "ru_next (run_start sample_agent) = Some (sample_session ''t0'')"
    by (simp add: run_start_def sample_agent_def)
  have 2: "\<not> rd_cancelled ?rd" "\<not> rd_cancelled_dial ?rd" "\<not> rd_dialled ?rd"
    "rd_response ?rd = Some (403, ''Bad!'')"
    by (simp_all add: refused_round_def lost_round_def)
  have 3: "400 \<le> (403::int)" "(403::int) < 500" "(403::int) \<noteq> 401" by simp_all
  have 4: "(403::int) = 409 \<longrightarrow> ''Bad!'' \<notin> {''endpoint_already_connected'', ''tunnel_session_replayed''}"
    by simp
  have fields: "ss_connect_url (sample_session ''t0'') = ''wss://gateway.example.com/v1/connect''"
    "ss_ticket (sample_session ''t0'') = ''t0''" by (simp_all add: sample_session_def)
  show ?thesis
    using permanent_rejection_ends_run [OF 1 2 3 4, of sample_agent] unfolding fields by blast
qed

end
