(* ===== verification/Agent_Requests.thy ===== *)
theory Agent_Requests
  imports Agent Tunnel_Protocol
begin

text \<open>
  \<^verbatim>\<open>serveConnection\<close> and \<^verbatim>\<open>handleRequest\<close> of
  \<^verbatim>\<open>internal/agent/agent.go\<close>: what the agent does with the messages of the gateway, and how
  one request is forwarded to the local server and answered.  The local server and the clock are a
  function from the outgoing request to its result; the messages written are values.
\<close>

subsection \<open>Forwarding one request\<close>

definition ErrorCodeInvalidRequest :: string where
  "ErrorCodeInvalidRequest = ''invalid_request''"
definition ErrorCodeTimeout :: string where
  "ErrorCodeTimeout = ''timeout''"
definition ErrorCodeLocalUnreachable :: string where
  "ErrorCodeLocalUnreachable = ''local_unreachable''"
definition ErrorCodeResponseTooLarge :: string where
  "ErrorCodeResponseTooLarge = ''response_too_large''"
definition ErrorCodeLocalResponseError :: string where
  "ErrorCodeLocalResponseError = ''local_response_error''"

record local_request =
  lr_method :: string
  lr_url :: go_url
  lr_headers :: header_map
  lr_body :: string

record local_response =
  lp_status :: int
  lp_headers :: header_map
  lp_body :: "string \<times> bool"

datatype local_result = Deadline_Exceeded | Request_Failed | Responded local_response

definition respond_error :: "message \<Rightarrow> string \<Rightarrow> message" where
  "respond_error m code = empty_message\<lparr>msg_version := Version, msg_type := TypeError,
     msg_request_id := msg_request_id m, msg_error_code := code,
     msg_error := ''local forwarding failed''\<rparr>"

definition local_url :: "int \<Rightarrow> go_url \<Rightarrow> string" where
  "local_url port path = ''http://127.0.0.1:'' @ itoa port @ RequestURI path"

text \<open>
  \<^verbatim>\<open>http.NewRequestWithContext\<close>: an empty method is GET, a method has to be a token and
  the URL has to parse.
\<close>

definition new_request :: "string \<Rightarrow> string \<Rightarrow> string \<Rightarrow> local_request option" where
  "new_request method target body =
     (let method = (if method = [] then ''GET'' else method) in
      if \<not> validHTTPToken method then None
      else map_option (\<lambda>u. \<lparr>lr_method = method, lr_url = u, lr_headers = [], lr_body = body\<rparr>)
             (Parse_url target))"

text \<open>The request that is sent, or the error code that is answered instead.\<close>

definition build_request :: "ext \<Rightarrow> int \<Rightarrow> message \<Rightarrow> string + local_request" where
  "build_request E port m =
     (case b64_decode (msg_body_base64 m) of
        None \<Rightarrow> Inl ErrorCodeInvalidRequest
      | Some body \<Rightarrow>
          if MaxBodySize < length body then Inl ErrorCodeInvalidRequest
          else case ParseRequestURI (msg_path m) of
            None \<Rightarrow> Inl ErrorCodeInvalidRequest
          | Some path \<Rightarrow>
              if gu_scheme path \<noteq> [] \<or> gu_host path \<noteq> [] \<or> length (gu_path path) = 0
                \<or> hd (gu_path path) \<noteq> CHR ''/'' then Inl ErrorCodeInvalidRequest
              else case new_request (msg_method m) (local_url port path) body of
                None \<Rightarrow> Inl ErrorCodeInvalidRequest
              | Some request \<Rightarrow> Inr (request\<lparr>lr_headers := FilterHeaders E (elems (msg_headers m))\<rparr>))"

definition build_response :: "ext \<Rightarrow> message \<Rightarrow> local_result \<Rightarrow> message" where
  "build_response E m result = (case result of
       Deadline_Exceeded \<Rightarrow> respond_error m ErrorCodeTimeout
     | Request_Failed \<Rightarrow> respond_error m ErrorCodeLocalUnreachable
     | Responded response \<Rightarrow>
         (case ReadBody (lp_body response) of
            Inl ReadTooLarge \<Rightarrow> respond_error m ErrorCodeResponseTooLarge
          | Inl ReaderFailed \<Rightarrow> respond_error m ErrorCodeLocalResponseError
          | Inr responseBody \<Rightarrow> empty_message\<lparr>msg_version := Version, msg_type := TypeResponse,
              msg_request_id := msg_request_id m, msg_status := lp_status response,
              msg_headers := Some (FilterHeaders E (lp_headers response)),
              msg_body_base64 := b64_encode responseBody\<rparr>))"

definition handleRequest :: "ext \<Rightarrow> int \<Rightarrow> (local_request \<Rightarrow> local_result) \<Rightarrow> message \<Rightarrow> message" where
  "handleRequest E port client m = (case build_request E port m of
       Inl code \<Rightarrow> respond_error m code
     | Inr request \<Rightarrow> build_response E m (client request))"

subsection \<open>Serving a connection\<close>

datatype served = Wrote message | Started message

definition pong :: message where
  "pong = empty_message\<lparr>msg_version := Version, msg_type := TypePong\<rparr>"

definition serve_message :: "message \<Rightarrow> served list" where
  "serve_message m =
     (if msg_version m \<noteq> Version then []
      else if msg_type m = TypeRequest then [Started m]
      else if msg_type m = TypePing then [Wrote pong]
      else [])"

text \<open>
  The loop until the read error \<open>err\<close>: what it does with each message, and the error it returns.
  Every started request runs in a goroutine of its own; the loop waits for all of them before it
  returns, so their answers are written in any order.
\<close>

definition serveConnection :: "message list \<Rightarrow> serve_error \<Rightarrow> served list \<times> serve_error" where
  "serveConnection messages err = (concat (map serve_message messages), err)"

definition answers :: "ext \<Rightarrow> int \<Rightarrow> (local_request \<Rightarrow> local_result) \<Rightarrow> served list \<Rightarrow> message list" where
  "answers E port client actions =
     map (\<lambda>a. case a of Wrote m \<Rightarrow> m | Started m \<Rightarrow> handleRequest E port client m) actions"

subsection \<open>Requests only reach the local server\<close>

definition local_authority :: "int \<Rightarrow> string" where
  "local_authority port = ''127.0.0.1:'' @ itoa port"

lemma local_authority_chars:
  assumes "0 \<le> port" and "c \<in> set (local_authority port)"
  shows "is_digit c \<or> c = CHR ''.'' \<or> c = CHR '':''"
  using assms itoa_digits [OF assms(1)]
  by (auto simp: local_authority_def list_all_iff is_digit_def)

lemma local_authority_not:
  assumes "0 \<le> port"
  shows "CHR ''/'' \<notin> set (local_authority port)" "CHR ''@'' \<notin> set (local_authority port)"
    "CHR ''?'' \<notin> set (local_authority port)" "CHR ''#'' \<notin> set (local_authority port)"
    "CHR ''%'' \<notin> set (local_authority port)"
  using local_authority_chars [OF assms] by (force simp: is_digit_def)+

lemma parse_local_authority:
  assumes "0 \<le> port"
  shows "parseAuthority (local_authority port) = Some (None, local_authority port)"
proof -
  have no_at: "cut_last CHR ''@'' (local_authority port) = None"
    using local_authority_not(2) [OF assms] by (simp add: cut_last_def Let_def)
  have "CHR '':'' \<notin> set (itoa port)"
    using itoa_digits [OF assms] by (force simp: list_all_iff is_digit_def)
  then have "cut_last CHR '':'' (''127.0.0.1'' @ CHR '':'' # itoa port) = Some (''127.0.0.1'', itoa port)"
    by (rule cut_last_append)
  then have colon: "cut_last CHR '':'' (local_authority port) = Some (''127.0.0.1'', itoa port)"
    by (simp add: local_authority_def)
  have "host_safe c" if "c \<in> set (local_authority port)" for c
    using local_authority_chars [OF assms that] by (auto simp: host_safe_def unreserved_def)
  then have "list_all host_safe (local_authority port)" by (simp add: list_all_iff)
  then have host: "host_unescape (local_authority port) = Some (local_authority port)"
    using local_authority_not(5) [OF assms] by (rule host_unescape_safe)
  have "\<not> prefix ''['' (local_authority port)" by (simp add: local_authority_def)
  then have "parseHost (local_authority port) = Some (local_authority port)"
    using itoa_digits [OF assms] by (simp add: parseHost_def colon host)
  then show ?thesis by (simp add: parseAuthority_def no_at)
qed

lemma parse_local:
  assumes "0 \<le> port" and "parse_url False (''http://'' @ local_authority port @ CHR ''/'' # w) = Some u"
  shows "gu_scheme u = ''http'' \<and> gu_host u = local_authority port \<and> gu_user u = None"
proof -
  let ?p = "''//'' @ local_authority port @ ''/''"
  have "CHR ''?'' \<notin> set ?p" using local_authority_not(3) [OF assms(1)] by simp
  from fst_cut_query [OF this, of w] obtain t q f where
    cut: "cut_query (?p @ w) = (?p @ t, q, f)" by (metis prod.collapse)
  have scheme: "getScheme (''http://'' @ local_authority port @ CHR ''/'' # w) = Some (''http'', ?p @ w)"
    using getScheme_http [of "local_authority port @ CHR ''/'' # w"] by simp
  have slash: "takeWhile (\<lambda>c. c \<noteq> CHR ''/'') (local_authority port @ CHR ''/'' # t) = local_authority port"
    using local_authority_not(1) [OF assms(1)] by (subst takeWhile_append2) auto
  have not_star: "''http://'' @ local_authority port @ CHR ''/'' # w \<noteq> ''*''" by simp
  show ?thesis
    using assms(2)
    unfolding parse_url_def scheme option.case prod.case lower_http cut Let_def if_not_P [OF not_star]
    by (auto simp: slash parse_local_authority [OF assms(1)] set_path_def empty_url_def
        split: if_splits)
qed

lemma build_request_local:
  assumes "0 \<le> port" and "build_request E port m = Inr request"
  shows "gu_scheme (lr_url request) = ''http'' \<and> gu_host (lr_url request) = local_authority port
    \<and> gu_user (lr_url request) = None"
proof -
  from assms(2) obtain body path req where
    path: "ParseRequestURI (msg_path m) = Some path" "gu_scheme path = []" "gu_path path \<noteq> []"
      "hd (gu_path path) = CHR ''/''"
    and req: "new_request (msg_method m) (local_url port path) body = Some req"
    and url: "lr_url request = lr_url req"
    by (auto simp: build_request_def split: option.splits if_splits)
  obtain w where w: "RequestURI path = CHR ''/'' # w"
    using RequestURI_rooted [OF path] by (auto simp: prefix_def)
  have target: "local_url port path = (''http://'' @ local_authority port @ ''/'') @ w"
    by (simp add: local_url_def local_authority_def w)
  have "CHR ''#'' \<notin> set (''http://'' @ local_authority port @ ''/'')"
    using local_authority_not(4) [OF assms(1)] by simp
  from cut_at_prefix [OF this, of w] obtain w' fr found where
    cut: "cut_at CHR ''#'' (local_url port path) = (''http://'' @ local_authority port @ CHR ''/'' # w', fr, found)"
    unfolding target by (metis append.assoc append_Cons append_Nil prod.collapse)
  from req have "Parse_url (local_url port path) = Some (lr_url req)"
    by (auto simp: new_request_def Let_def split: if_splits)
  then obtain u frag rfrag where parsed: "parse_url False (''http://'' @ local_authority port @ CHR ''/'' # w') = Some u"
    and frag: "u\<lparr>gu_fragment := frag, gu_raw_fragment := rfrag\<rparr> = lr_url req"
    by (auto simp: Parse_url_def cut split: option.splits)
  show ?thesis
    unfolding url frag [symmetric] using parse_local [OF assms(1) parsed] by simp
qed

text \<open>C2: The gateway cannot make the agent talk to anything but the local server: whatever method,
  path and body a message has, a request that is sent is plain HTTP to 127.0.0.1 at the configured
  port, without user information, and only the filtered headers of the message go with it.\<close>

theorem requests_stay_local:
  assumes "0 \<le> port" and "build_request E port m = Inr request"
  shows "gu_scheme (lr_url request) = ''http''
    \<and> gu_host (lr_url request) = ''127.0.0.1:'' @ itoa port
    \<and> gu_user (lr_url request) = None
    \<and> lr_headers request = FilterHeaders E (elems (msg_headers m))
    \<and> length (lr_body request) \<le> MaxBodySize"
  using build_request_local [OF assms] assms(2)
  by (auto simp: local_authority_def build_request_def new_request_def Let_def
      split: option.splits if_splits)

definition sample_message :: message where
  "sample_message = empty_message\<lparr>msg_version := 1, msg_type := TypeRequest, msg_request_id := ''r1'',
     msg_method := ''POST'', msg_path := ''//evil.example.com@x/a%2Fb?q=1#f'',
     msg_headers := Some [(''Host'', Some [''evil'']), (''Connection'', Some [''close''])],
     msg_body_base64 := ''aGk=''\<rparr>"

lemma requests_stay_local_witness:
  "\<exists>request. build_request sample_ext 3000 sample_message = Inr request
    \<and> gu_host (lr_url request) = ''127.0.0.1:'' @ itoa 3000"
proof -
  let ?r = "build_request sample_ext 3000 sample_message"
  have "\<not> isl ?r" by code_simp
  then obtain request where r: "?r = Inr request" by (cases ?r) auto
  have port: "(0::int) \<le> 3000" by simp
  show ?thesis using requests_stay_local [OF port r] r by blast
qed

definition error_codes :: "string list" where
  "error_codes = [ErrorCodeInvalidRequest, ErrorCodeTimeout, ErrorCodeLocalUnreachable,
     ErrorCodeResponseTooLarge, ErrorCodeLocalResponseError]"

text \<open>C21: Every request is answered by exactly one message with its identifier: an error with one
  of the five protocol codes, or a response that carries the local server's status, its filtered
  headers and a base64 text that decodes to the whole body of at most 10 MiB.  A body over the
  limit, a body that fails, a timeout and an unreachable server each give their own code.\<close>

theorem answer_of_request:
  "let a = handleRequest E port client m in
     msg_version a = Version \<and> msg_request_id a = msg_request_id m
     \<and> (case build_request E port m of
          Inl code \<Rightarrow> a = respond_error m ErrorCodeInvalidRequest
        | Inr request \<Rightarrow> (case client request of
            Deadline_Exceeded \<Rightarrow> a = respond_error m ErrorCodeTimeout
          | Request_Failed \<Rightarrow> a = respond_error m ErrorCodeLocalUnreachable
          | Responded r \<Rightarrow>
              if 10485760 < length (fst (lp_body r)) then a = respond_error m ErrorCodeResponseTooLarge
              else if snd (lp_body r) then a = respond_error m ErrorCodeLocalResponseError
              else msg_type a = TypeResponse \<and> msg_status a = lp_status r
                \<and> msg_headers a = Some (FilterHeaders E (lp_headers r))
                \<and> b64_decode (msg_body_base64 a) = Some (fst (lp_body r))))"
proof (cases "build_request E port m")
  case (Inl code)
  then have "code = ErrorCodeInvalidRequest"
    by (auto simp: build_request_def split: option.splits if_splits)
  with Inl show ?thesis by (simp add: handleRequest_def respond_error_def Let_def)
next
  case (Inr request)
  show ?thesis
  proof (cases "client request")
    case (Responded r)
    obtain data failed where body: "lp_body r = (data, failed)" by fastforce
    consider (large) "MaxBodySize < length data" | (failed) "length data \<le> MaxBodySize" "failed"
      | (fine) "length data \<le> MaxBodySize" "\<not> failed" by linarith
    then show ?thesis
    proof cases
      case large
      then have "ReadBody (lp_body r) = Inl ReadTooLarge" by (simp add: body ReadBody_too_large)
      with large show ?thesis
        by (simp add: handleRequest_def Inr Responded build_response_def respond_error_def body
            MaxBodySize_def Let_def)
    next
      case failed
      then have "ReadBody (lp_body r) = Inl ReaderFailed"
        by (auto simp: body ReadBody_def read_limited_def)
      with failed show ?thesis
        by (simp add: handleRequest_def Inr Responded build_response_def respond_error_def body
            MaxBodySize_def Let_def)
    next
      case fine
      then have "ReadBody (lp_body r) = Inr data" by (simp add: body ReadBody_Inr)
      with fine show ?thesis
        by (simp add: handleRequest_def Inr Responded build_response_def body b64_roundtrip
            MaxBodySize_def Let_def)
    qed
  qed (simp_all add: handleRequest_def Inr build_response_def respond_error_def Let_def)
qed



end
