(* ===== verification/Uploader.thy ===== *)
theory Uploader
  imports Backoff Behaviors
begin

text \<open>
  \<^verbatim>\<open>internal/dependencycapture/uploader.go\<close>: the bounded queue of telemetry events with its
  throttled drop warning, the reconnecting session loop, and one capture connection, whose reader
  goroutine applies behaviour snapshots while the select loop writes events and pings.  The
  connection is a transition system in which the two goroutines and the producers interleave.
\<close>

subsection \<open>The queue\<close>

record uploader =
  up_capacity :: nat
  up_queue :: "dependency_interaction list"
  up_last_drop :: gotime

definition NewUploader :: "int \<Rightarrow> uploader" where
  "NewUploader queueSize = \<lparr>up_capacity = nat (if queueSize \<le> 0 then 100 else queueSize),
     up_queue = [], up_last_drop = 0\<rparr>"

text \<open>Whether the drop callback is called, at the time \<open>now\<close>; at most once in ten seconds.\<close>

definition dropped :: "gotime \<Rightarrow> uploader \<Rightarrow> bool \<times> uploader" where
  "dropped now u = (if now - up_last_drop u < 10 * second then (False, u)
     else (True, u\<lparr>up_last_drop := now\<rparr>))"

definition Enqueue :: "ext \<Rightarrow> gotime \<Rightarrow> dependency_interaction \<Rightarrow> uploader \<Rightarrow> bool \<times> uploader" where
  "Enqueue E now event u =
     (if Validate E (interaction_message event) \<noteq> None then (False, snd (dropped now u))
      else if length (up_queue u) < up_capacity u then (True, u\<lparr>up_queue := up_queue u @ [event]\<rparr>)
      else (False, snd (dropped now u)))"

lemma dropped_queue [simp]:
  "up_queue (snd (dropped now u)) = up_queue u" "up_capacity (snd (dropped now u)) = up_capacity u"
  by (simp_all add: dropped_def)

text \<open>The times at which a sequence of drops calls back.\<close>

fun warnings :: "gotime list \<Rightarrow> uploader \<Rightarrow> gotime list" where
  "warnings [] u = []"
| "warnings (t # ts) u = (case dropped t u of
     (warned, u') \<Rightarrow> (if warned then [t] else []) @ warnings ts u')"

definition spaced :: "int \<Rightarrow> int list \<Rightarrow> bool" where
  "spaced gap ts \<longleftrightarrow> (\<forall>i. Suc i < length ts \<longrightarrow> ts ! i + gap \<le> ts ! Suc i)"

lemma spaced_Cons: "spaced gap (t # ts) \<longleftrightarrow> (case ts of [] \<Rightarrow> True | s # _ \<Rightarrow> t + gap \<le> s) \<and> spaced gap ts"
proof (cases ts)
  case Nil
  then show ?thesis by (simp add: spaced_def)
next
  case (Cons s ss)
  have "spaced gap (t # s # ss) \<longleftrightarrow> t + gap \<le> s \<and> spaced gap (s # ss)"
    unfolding spaced_def
  proof (intro iffI conjI allI impI)
    assume *: "\<forall>i. Suc i < length (t # s # ss) \<longrightarrow> (t # s # ss) ! i + gap \<le> (t # s # ss) ! Suc i"
    from * [rule_format, of 0] show "t + gap \<le> s" by simp
    fix i assume "Suc i < length (s # ss)"
    with * [rule_format, of "Suc i"] show "(s # ss) ! i + gap \<le> (s # ss) ! Suc i" by simp
  next
    fix i assume *: "t + gap \<le> s \<and> (\<forall>i. Suc i < length (s # ss) \<longrightarrow> (s # ss) ! i + gap \<le> (s # ss) ! Suc i)"
      and i: "Suc i < length (t # s # ss)"
    then show "(t # s # ss) ! i + gap \<le> (t # s # ss) ! Suc i" by (cases i) auto
  qed
  with Cons show ?thesis by simp
qed

lemma warnings_spaced:
  "spaced (10 * second) (warnings ts u) \<and>
   (case warnings ts u of [] \<Rightarrow> True | s # _ \<Rightarrow> up_last_drop u + 10 * second \<le> s)"
proof (induction ts arbitrary: u)
  case Nil
  then show ?case by (simp add: spaced_def)
next
  case (Cons t ts)
  show ?case
  proof (cases "t - up_last_drop u < 10 * second")
    case True
    then show ?thesis using Cons.IH [of u] by (simp add: dropped_def)
  next
    case False
    then show ?thesis
      using Cons.IH [of "u\<lparr>up_last_drop := t\<rparr>"]
      by (auto simp: dropped_def spaced_Cons split: list.split)
  qed
qed

text \<open>The queue never grows past its capacity, an event is accepted exactly when it is valid and
  there is room, it then becomes the last one, a rejected event changes nothing in the queue; and
  however often events are dropped, consecutive warnings are at least ten seconds apart.\<close>

theorem Enqueue_bounded:
  assumes "length (up_queue u) \<le> up_capacity u"
  shows "(case Enqueue E now event u of (accepted, u') \<Rightarrow>
      accepted = (validateDependency event = None \<and> length (up_queue u) < up_capacity u)
      \<and> up_queue u' = (if accepted then up_queue u @ [event] else up_queue u)
      \<and> length (up_queue u') \<le> up_capacity u' \<and> up_capacity u' = up_capacity u)
    \<and> spaced (10 * second) (warnings ts u)"
proof -
  have "Validate E (interaction_message event) = None \<longleftrightarrow> validateDependency event = None"
    by (simp add: Validate_interaction_message interaction_message_def)
  then show ?thesis
    using assms warnings_spaced [of ts u] by (simp add: Enqueue_def split: prod.split)
qed

lemma Enqueue_bounded_witness:
  "fst (Enqueue sample_ext 0 sample_interaction (NewUploader 1))
   \<and> spaced (10 * second) (warnings [20 * second, 25 * second, 31 * second] (NewUploader 1))"
proof -
  have room: "length (up_queue (NewUploader 1)) \<le> up_capacity (NewUploader 1)"
    by (simp add: NewUploader_def)
  have "validateDependency sample_interaction = None" by code_simp
  moreover have "length (up_queue (NewUploader 1)) < up_capacity (NewUploader 1)"
    by (simp add: NewUploader_def)
  ultimately show ?thesis
    using Enqueue_bounded [OF room, where E = sample_ext and now = 0 and event = sample_interaction
        and ts = "[20 * second, 25 * second, 31 * second]"]
    by (simp add: case_prod_beta)
qed

subsection \<open>One capture connection\<close>

text \<open>
  The reader goroutine stops at its first error and leaves it in a channel of size one, where the
  select loop may or may not look at it next.  \<open>sv_handed\<close> is the history of the events that were
  accepted into the queue since the connection started with the queue \<open>sv_queue\<close>.
\<close>

record serve_state =
  sv_queue :: "dependency_interaction list"
  sv_reader_error :: bool
  sv_store :: behavior_store
  sv_written :: "message list"
  sv_lost :: "dependency_interaction list"
  sv_sent :: nat
  sv_finished :: bool
  sv_accepted :: "dependency_interaction list"
  sv_configs :: "dependency_snapshot list"

text \<open>What the reader does with a message: \<open>None\<close> when it reports an error.\<close>

definition read_message ::
  "ext \<Rightarrow> string \<Rightarrow> message \<Rightarrow> behavior_store \<Rightarrow> (behavior_store \<times> dependency_snapshot list) option" where
  "read_message E endpointID m store =
     (if Validate E m \<noteq> None then None
      else if msg_type m = TypeDependencyConfig then
        (case msg_dependency_config m of
           None \<Rightarrow> None
         | Some config \<Rightarrow>
             if ds_endpoint_id config \<noteq> endpointID then None
             else (case Replace E store config of
                 (Some e, store') \<Rightarrow> None
               | (None, store') \<Rightarrow> Some (store', [config])))
      else Some (store, []))"

definition capture_ping :: message where
  "capture_ping = empty_message\<lparr>msg_version := Version, msg_type := TypePing\<rparr>"

definition after_write :: "message \<Rightarrow> bool \<Rightarrow> serve_state \<Rightarrow> serve_state" where
  "after_write m ok s = (if ok then s\<lparr>sv_written := sv_written s @ [m],
       sv_sent := sv_sent s + (if msg_dependency m \<noteq> None then 1 else 0)\<rparr>
     else s\<lparr>sv_lost := sv_lost s @ (case msg_dependency m of None \<Rightarrow> [] | Some d \<Rightarrow> [d]),
       sv_finished := True\<rparr>)"

inductive serve_step :: "ext \<Rightarrow> string \<Rightarrow> nat \<Rightarrow> serve_state \<Rightarrow> serve_state \<Rightarrow> bool" for E endpointID capacity where
  produce: "length (sv_queue s) < capacity \<Longrightarrow> Validate E (interaction_message d) = None \<Longrightarrow>
    serve_step E endpointID capacity s (s\<lparr>sv_queue := sv_queue s @ [d], sv_accepted := sv_accepted s @ [d]\<rparr>)"
| read_fails: "\<not> sv_reader_error s \<Longrightarrow> serve_step E endpointID capacity s (s\<lparr>sv_reader_error := True\<rparr>)"
| read_rejects: "\<not> sv_reader_error s \<Longrightarrow> read_message E endpointID m (sv_store s) = None \<Longrightarrow>
    serve_step E endpointID capacity s (s\<lparr>sv_reader_error := True\<rparr>)"
| read_ok: "\<not> sv_reader_error s \<Longrightarrow> read_message E endpointID m (sv_store s) = Some (store', configs) \<Longrightarrow>
    serve_step E endpointID capacity s (s\<lparr>sv_store := store', sv_configs := sv_configs s @ configs\<rparr>)"
| cancelled: "\<not> sv_finished s \<Longrightarrow> serve_step E endpointID capacity s (s\<lparr>sv_finished := True\<rparr>)"
| reader_error: "\<not> sv_finished s \<Longrightarrow> sv_reader_error s \<Longrightarrow>
    serve_step E endpointID capacity s (s\<lparr>sv_finished := True\<rparr>)"
| send_event: "\<not> sv_finished s \<Longrightarrow> sv_queue s = d # ds \<Longrightarrow>
    serve_step E endpointID capacity s (after_write (interaction_message d) ok (s\<lparr>sv_queue := ds\<rparr>))"
| send_ping: "\<not> sv_finished s \<Longrightarrow>
    serve_step E endpointID capacity s (after_write capture_ping ok s)"

inductive_cases serve_stepE: "serve_step E endpointID capacity s s'"

definition serve_start :: "dependency_interaction list \<Rightarrow> behavior_store \<Rightarrow> serve_state" where
  "serve_start queue store = \<lparr>sv_queue = queue, sv_reader_error = False, sv_store = store,
     sv_written = [], sv_lost = [], sv_sent = 0, sv_finished = False, sv_accepted = [], sv_configs = []\<rparr>"

inductive serve_reachable ::
  "ext \<Rightarrow> string \<Rightarrow> nat \<Rightarrow> dependency_interaction list \<Rightarrow> behavior_store \<Rightarrow> serve_state \<Rightarrow> bool"
  for E endpointID capacity queue store where
  start: "serve_reachable E endpointID capacity queue store (serve_start queue store)"
| step: "serve_reachable E endpointID capacity queue store s \<Longrightarrow> serve_step E endpointID capacity s s' \<Longrightarrow>
    serve_reachable E endpointID capacity queue store s'"

definition written_events :: "serve_state \<Rightarrow> dependency_interaction list" where
  "written_events s = concat (map (\<lambda>m. case msg_dependency m of None \<Rightarrow> [] | Some d \<Rightarrow> [d]) (sv_written s))"

lemma written_events_after:
  "written_events (after_write m ok s) @ sv_lost (after_write m ok s)
     = written_events s @ (if ok then (case msg_dependency m of None \<Rightarrow> [] | Some d \<Rightarrow> [d]) @ sv_lost s
        else sv_lost s @ (case msg_dependency m of None \<Rightarrow> [] | Some d \<Rightarrow> [d]))"
  by (auto simp: after_write_def written_events_def split: option.split)

definition delivery_inv :: "dependency_interaction list \<Rightarrow> nat \<Rightarrow> serve_state \<Rightarrow> bool" where
  "delivery_inv queue capacity s \<longleftrightarrow>
     written_events s @ sv_lost s @ sv_queue s = queue @ sv_accepted s
     \<and> (sv_lost s \<noteq> [] \<longrightarrow> sv_finished s) \<and> length (sv_lost s) \<le> 1
     \<and> sv_sent s = length (written_events s)
     \<and> length (sv_queue s) \<le> capacity"

lemma interaction_message_dependency [simp]: "msg_dependency (interaction_message d) = Some d"
  by (simp add: interaction_message_def)

lemma capture_ping_dependency [simp]: "msg_dependency capture_ping = None"
  by (simp add: capture_ping_def empty_message_def)

lemma delivery_inv_step:
  "delivery_inv queue capacity s \<Longrightarrow> serve_step E endpointID capacity s s' \<Longrightarrow> delivery_inv queue capacity s'"
  by (erule serve_stepE)
    (auto simp: delivery_inv_def after_write_def written_events_def split: if_splits)

lemma delivery_inv_reachable:
  "serve_reachable E endpointID capacity queue store s \<Longrightarrow> length queue \<le> capacity \<Longrightarrow>
   delivery_inv queue capacity s"
proof (induction rule: serve_reachable.induct)
  case start
  then show ?case by (simp add: delivery_inv_def serve_start_def written_events_def)
next
  case (step s s')
  then show ?case by (blast intro: delivery_inv_step)
qed

text \<open>C9: Telemetry is delivered in order and nothing is duplicated: in every interleaving of a
  capture connection the events written to the socket, the at most one event lost by the write
  that ended the connection, and the events still queued are together exactly the events that
  were queued at the start and accepted since, in order; the queue keeps within its capacity and
  the sent counter is the number of events written.\<close>

theorem events_delivered_in_order:
  assumes "serve_reachable E endpointID capacity queue store s" and "length queue \<le> capacity"
  shows "written_events s @ sv_lost s @ sv_queue s = queue @ sv_accepted s
    \<and> length (sv_lost s) \<le> 1 \<and> (sv_lost s \<noteq> [] \<longrightarrow> sv_finished s)
    \<and> length (sv_queue s) \<le> capacity \<and> sv_sent s = length (written_events s)"
  using delivery_inv_reachable [OF assms] by (simp add: delivery_inv_def)

lemma events_delivered_in_order_witness:
  "\<exists>s. serve_reachable sample_ext ''e1'' 5 [sample_interaction] NewBehaviorStore s
    \<and> written_events s = [sample_interaction] \<and> sv_queue s = []"
proof -
  let ?s0 = "serve_start [sample_interaction] NewBehaviorStore"
  let ?s1 = "after_write (interaction_message sample_interaction) True (?s0\<lparr>sv_queue := []\<rparr>)"
  have "serve_step sample_ext ''e1'' 5 ?s0 ?s1"
    by (rule send_event) (simp_all add: serve_start_def)
  then have reach: "serve_reachable sample_ext ''e1'' 5 [sample_interaction] NewBehaviorStore ?s1"
    by (rule step [OF start])
  have len: "length [sample_interaction] \<le> 5" by simp
  have "sv_queue ?s1 = []" "sv_lost ?s1 = []" "sv_accepted ?s1 = []"
    by (simp_all add: after_write_def serve_start_def)
  with events_delivered_in_order [OF reach len] reach show ?thesis by auto
qed

subsection \<open>Which snapshots are applied\<close>

definition snapshot_of :: "string \<Rightarrow> ext \<Rightarrow> dependency_snapshot \<Rightarrow> bool" where
  "snapshot_of endpointID E c \<longleftrightarrow> ds_endpoint_id c = endpointID \<and> validateDependencyConfig E c = None"

definition config_inv :: "ext \<Rightarrow> string \<Rightarrow> behavior_store \<Rightarrow> serve_state \<Rightarrow> bool" where
  "config_inv E endpointID store s \<longleftrightarrow> list_all (snapshot_of endpointID E) (sv_configs s)
     \<and> sv_store s = fold (\<lambda>c t. snd (Replace E t c)) (sv_configs s) store"

lemma read_message_cases:
  assumes "read_message E endpointID m store = Some (store', configs)"
  shows "store' = store \<and> configs = []
    \<or> (\<exists>c. configs = [c] \<and> snapshot_of endpointID E c \<and> store' = snd (Replace E store c))"
proof -
  have "validateDependencyConfig E c = None" if "Replace E store c = (None, t)" for c t
    using behavior_store.accepts_iff [where E = E and s = store and sn = c] that by simp
  then show ?thesis
    using assms by (auto simp: read_message_def snapshot_of_def split: if_splits option.splits prod.splits)
qed

lemma config_inv_step:
  assumes "config_inv E endpointID store s" and "serve_step E endpointID capacity s s'"
  shows "config_inv E endpointID store s'"
  using assms(2,1)
proof (cases rule: serve_step.cases)
  case (read_ok m store' configs)
  from read_message_cases [OF read_ok(3)] assms(1) read_ok(1) show ?thesis
    by (auto simp: config_inv_def)
qed (auto simp: config_inv_def after_write_def)

lemma config_inv_reachable:
  "serve_reachable E endpointID capacity queue store s \<Longrightarrow> config_inv E endpointID store s"
proof (induction rule: serve_reachable.induct)
  case start
  then show ?case by (simp add: config_inv_def serve_start_def)
next
  case (step s s')
  then show ?case by (blast intro: config_inv_step)
qed

text \<open>C22: Only snapshots of the session's own endpoint take effect: in every interleaving the store is
  the result of applying, in order, the accepted snapshots the reader saw, each of which is valid
  and carries the endpoint the ticket was issued for; whatever else the gateway sends leaves the
  store untouched.\<close>

theorem snapshots_belong_to_endpoint:
  assumes "serve_reachable E endpointID capacity queue store s"
  shows "list_all (\<lambda>c. ds_endpoint_id c = endpointID \<and> validateDependencyConfig E c = None) (sv_configs s)
    \<and> sv_store s = (case rev (sv_configs s) of [] \<Rightarrow> store
        | c # _ \<Rightarrow> snd (Replace E NewBehaviorStore c))"
proof -
  have inv: "list_all (snapshot_of endpointID E) (sv_configs s)"
    "sv_store s = fold (\<lambda>c t. snd (Replace E t c)) (sv_configs s) store"
    using config_inv_reachable [OF assms] by (simp_all add: config_inv_def)
  have "sv_store s = (case rev (sv_configs s) of [] \<Rightarrow> store
        | c # _ \<Rightarrow> snd (Replace E NewBehaviorStore c))"
  proof (cases "sv_configs s" rule: rev_cases)
    case Nil
    then show ?thesis using inv(2) by simp
  next
    case (snoc cs c)
    then have "Validate E (config_message c) = None"
      using inv(1) by (simp add: snapshot_of_def Validate_config)
    then have "snd (Replace E t c) = snd (Replace E NewBehaviorStore c)" for t
      by (simp add: Replace_def)
    then show ?thesis using inv(2) snoc by simp
  qed
  with inv(1) show ?thesis by (simp add: snapshot_of_def list_all_iff)
qed

lemma snapshots_belong_to_endpoint_witness:
  "\<exists>s. serve_reachable sample_ext ''e1'' 5 [] NewBehaviorStore s \<and> sv_configs s = [sample_snapshot]
    \<and> sv_store s = snd (Replace sample_ext NewBehaviorStore sample_snapshot)"
proof -
  let ?s0 = "serve_start [] NewBehaviorStore"
  let ?store = "snd (Replace sample_ext NewBehaviorStore sample_snapshot)"
  let ?s1 = "?s0\<lparr>sv_store := ?store, sv_configs := [sample_snapshot]\<rparr>"
  have valid: "Validate sample_ext (config_message sample_snapshot) = None"
    using sample_snapshot_accepted by (auto simp: Replace_def split: option.splits)
  have "ds_endpoint_id sample_snapshot = ''e1''" by (simp add: sample_snapshot_def)
  with valid have "read_message sample_ext ''e1'' (config_message sample_snapshot) NewBehaviorStore
      = Some (?store, [sample_snapshot])"
    by (simp add: read_message_def config_message_def Replace_def)
  then have "serve_step sample_ext ''e1'' 5 ?s0 (?s0\<lparr>sv_store := ?store, sv_configs := sv_configs ?s0 @ [sample_snapshot]\<rparr>)"
    by (intro read_ok) (simp_all add: serve_start_def)
  then have "serve_step sample_ext ''e1'' 5 ?s0 ?s1" by (simp add: serve_start_def)
  then have reach: "serve_reachable sample_ext ''e1'' 5 [] NewBehaviorStore ?s1"
    by (rule step [OF start])
  have "sv_configs ?s1 = [sample_snapshot]" by (simp add: serve_start_def)
  with snapshots_belong_to_endpoint [OF reach] reach show ?thesis by auto
qed

end
