(* ===== verification/Uploader_Loop.thy ===== *)
theory Uploader_Loop
  imports Uploader
begin

text \<open>
  The session loop of \<^verbatim>\<open>internal/dependencycapture/uploader.go\<close>
  (\<^verbatim>\<open>Uploader.Run\<close>): it obtains a session, connects, serves the connection and starts
  again, with a growing delay after every failure.  As for the tunnel agent, one iteration is a
  function of the loop's variables and of what the world does during it.
\<close>

record capture_session =
  cs_endpoint_id :: string
  cs_endpoint_name :: string
  cs_session_id :: string
  cs_connect_url :: string
  cs_ticket :: string

record 'e uploader_config =
  uc_initial_session :: "capture_session option"
  uc_acquire_set :: bool
  uc_retryable :: "('e \<Rightarrow> bool) option"
  uc_initial_delay :: int
  uc_max_delay :: int
  uc_on_state :: bool

record 'e capture_round =
  cr_cancelled :: bool
  cr_acquire :: "'e + capture_session"
  cr_cancelled_acquire :: bool
  cr_dialled :: bool
  cr_status :: "int option"
  cr_cancelled_dial :: bool
  cr_cancelled_serve :: bool
  cr_wait_cancelled :: bool

datatype 'e capture_error = Capture_Provider_Required | Capture_Acquire_Error 'e | Capture_Rejected int

datatype capture_event = Cap_Acquired capture_session | Cap_Said string | Cap_Dialled string string
  | Cap_Served string | Cap_Waited int

record capture_state =
  cp_delay :: int
  cp_connected_once :: bool
  cp_next :: "capture_session option"

type_synonym 'e capture_verdict = "'e capture_error option + capture_state"

definition capture_initial :: "'e uploader_config \<Rightarrow> int" where
  "capture_initial c = initial_delay (uc_initial_delay c)"

definition capture_maximum :: "'e uploader_config \<Rightarrow> int" where
  "capture_maximum c = max_delay (uc_max_delay c) (capture_initial c)"

definition cap_say :: "'e uploader_config \<Rightarrow> string \<Rightarrow> capture_event list" where
  "cap_say c x = (if uc_on_state c then [Cap_Said x] else [])"

definition waitCaptureBackoff ::
  "'e uploader_config \<Rightarrow> 'e capture_round \<Rightarrow> capture_state \<Rightarrow> capture_event list \<times> 'e capture_verdict" where
  "waitCaptureBackoff c rd st = ([Cap_Waited (cp_delay st)],
     if cr_wait_cancelled rd then Inl None
     else Inr (st\<lparr>cp_delay := nextCaptureDelay (cp_delay st) (capture_maximum c)\<rparr>))"

definition cap_prepend :: "capture_event list \<Rightarrow> capture_event list \<times> 'v \<Rightarrow> capture_event list \<times> 'v" where
  "cap_prepend es r = (es @ fst r, snd r)"

definition capture_refused :: "int option \<Rightarrow> bool" where
  "capture_refused status = (case status of None \<Rightarrow> False
     | Some n \<Rightarrow> 400 \<le> n \<and> n < 500 \<and> n \<noteq> 401 \<and> n \<noteq> 409)"

definition capture_connect ::
  "'e uploader_config \<Rightarrow> 'e capture_round \<Rightarrow> capture_state \<Rightarrow> capture_session
    \<Rightarrow> capture_event list \<times> 'e capture_verdict" where
  "capture_connect c rd st session =
     cap_prepend [Cap_Dialled (cs_connect_url session) (cs_ticket session)]
      (if \<not> cr_dialled rd then
         (if cr_cancelled_dial rd then ([], Inl None)
          else if capture_refused (cr_status rd) then ([], Inl (Some (Capture_Rejected (the (cr_status rd)))))
          else waitCaptureBackoff c rd st)
       else cap_prepend
         (cap_say c (if cp_connected_once st then ''Dependency capture reconnected.''
            else ''Dependency capture connected.'') @ [Cap_Served (cs_endpoint_id session)])
         (let st = st\<lparr>cp_delay := capture_initial c, cp_connected_once := True\<rparr> in
          if cr_cancelled_serve rd then ([], Inl None)
          else cap_prepend
            (cap_say c ''Dependency capture connection lost. Proxy forwarding continues; reconnecting...'')
            (waitCaptureBackoff c rd st)))"

definition capture_round_step ::
  "'e uploader_config \<Rightarrow> 'e capture_round \<Rightarrow> capture_state \<Rightarrow> capture_event list \<times> 'e capture_verdict" where
  "capture_round_step c rd st =
     (if cr_cancelled rd then ([], Inl None)
      else case cp_next st of
        Some session \<Rightarrow> capture_connect c rd (st\<lparr>cp_next := None\<rparr>) session
      | None \<Rightarrow>
          (case cr_acquire rd of
             Inl err \<Rightarrow>
               if cr_cancelled_acquire rd then ([], Inl None)
               else if (case uc_retryable c of None \<Rightarrow> True | Some f \<Rightarrow> \<not> f err)
                 then ([], Inl (Some (Capture_Acquire_Error err)))
               else waitCaptureBackoff c rd st
           | Inr session \<Rightarrow> cap_prepend [Cap_Acquired session] (capture_connect c rd st session)))"

fun capture_rounds ::
  "'e uploader_config \<Rightarrow> capture_state \<Rightarrow> 'e capture_round list
    \<Rightarrow> capture_event list \<times> 'e capture_error option option" where
  "capture_rounds c st [] = ([], None)"
| "capture_rounds c st (rd # rds) =
     (case capture_round_step c rd st of
        (es, Inl result) \<Rightarrow> (es, Some result)
      | (es, Inr st') \<Rightarrow> cap_prepend es (capture_rounds c st' rds))"

definition Uploader_Run ::
  "'e uploader_config \<Rightarrow> 'e capture_round list
    \<Rightarrow> (capture_event list \<times> 'e capture_error option option) \<times> 'e uploader_config" where
  "Uploader_Run c rds =
     (if \<not> uc_acquire_set c then (([], Some (Some Capture_Provider_Required)), c)
      else (capture_rounds c \<lparr>cp_delay = capture_initial c, cp_connected_once = False,
              cp_next = uc_initial_session c\<rparr> rds,
            c\<lparr>uc_initial_session := map_option (\<lambda>s. s\<lparr>cs_ticket := []\<rparr>) (uc_initial_session c)\<rparr>))"

subsection \<open>What the loop emits\<close>

definition cap_presented :: "capture_event list \<Rightarrow> string list" where
  "cap_presented es = concat (map (\<lambda>e. case e of Cap_Dialled u t \<Rightarrow> [t] | _ \<Rightarrow> []) es)"

definition cap_obtained :: "capture_event list \<Rightarrow> string list" where
  "cap_obtained es = concat (map (\<lambda>e. case e of Cap_Acquired s \<Rightarrow> [cs_ticket s] | _ \<Rightarrow> []) es)"

fun cap_schedule :: "int \<Rightarrow> int \<Rightarrow> nat \<Rightarrow> capture_event list \<Rightarrow> bool" where
  "cap_schedule i m k [] = True"
| "cap_schedule i m k (Cap_Waited d # es) = (d = min (i * 2 ^ k) m \<and> cap_schedule i m (Suc k) es)"
| "cap_schedule i m k (Cap_Served s # es) = cap_schedule i m 0 es"
| "cap_schedule i m k (e # es) = cap_schedule i m k es"

fun cap_failures :: "nat \<Rightarrow> capture_event list \<Rightarrow> nat" where
  "cap_failures k [] = k"
| "cap_failures k (Cap_Waited d # es) = cap_failures (Suc k) es"
| "cap_failures k (Cap_Served s # es) = cap_failures 0 es"
| "cap_failures k (e # es) = cap_failures k es"

lemma cap_schedule_append [simp]:
  "cap_schedule i m k (a @ b) \<longleftrightarrow> cap_schedule i m k a \<and> cap_schedule i m (cap_failures k a) b"
  by (induction i m k a rule: cap_schedule.induct) auto

lemma cap_failures_append [simp]: "cap_failures k (a @ b) = cap_failures (cap_failures k a) b"
  by (induction k a rule: cap_failures.induct) auto

lemma cap_views [simp]:
  "cap_presented [] = []" "cap_presented (a @ b) = cap_presented a @ cap_presented b"
  "cap_presented (Cap_Dialled u t # es) = t # cap_presented es"
  "cap_presented (Cap_Acquired s # es) = cap_presented es" "cap_presented (Cap_Said x # es) = cap_presented es"
  "cap_presented (Cap_Served e # es) = cap_presented es" "cap_presented (Cap_Waited d # es) = cap_presented es"
  "cap_obtained [] = []" "cap_obtained (a @ b) = cap_obtained a @ cap_obtained b"
  "cap_obtained (Cap_Dialled u t # es) = cap_obtained es"
  "cap_obtained (Cap_Acquired s # es) = cs_ticket s # cap_obtained es" "cap_obtained (Cap_Said x # es) = cap_obtained es"
  "cap_obtained (Cap_Served e # es) = cap_obtained es" "cap_obtained (Cap_Waited d # es) = cap_obtained es"
  by (simp_all add: cap_presented_def cap_obtained_def)

lemma cap_say_views [simp]:
  "cap_presented (cap_say c x) = []" "cap_obtained (cap_say c x) = []"
  "cap_schedule i m k (cap_say c x)" "cap_failures k (cap_say c x) = k"
  by (simp_all add: cap_say_def)

lemma cap_prepend_eq: "cap_prepend es r = (es', v) \<longleftrightarrow> (\<exists>es''. r = (es'', v) \<and> es' = es @ es'')"
  by (cases r) (auto simp: cap_prepend_def)

definition capture_limits_ok :: "'e uploader_config \<Rightarrow> bool" where
  "capture_limits_ok c \<longleftrightarrow> capture_initial c \<le> capture_maximum c \<and> capture_maximum c < 2 ^ 62"

definition cap_delay_at :: "'e uploader_config \<Rightarrow> nat \<Rightarrow> int" where
  "cap_delay_at c k = min (capture_initial c * 2 ^ k) (capture_maximum c)"

lemma cap_delay_at_Suc:
  assumes "capture_limits_ok c"
  shows "nextCaptureDelay (cap_delay_at c k) (capture_maximum c) = cap_delay_at c (Suc k)"
  using capture_backoff.iterate [of "capture_initial c" "capture_maximum c" k]
    capture_backoff.iterate [of "capture_initial c" "capture_maximum c" "Suc k"] assms
    initial_delay_pos [of "uc_initial_delay c"]
  by (simp add: capture_limits_ok_def cap_delay_at_def capture_initial_def)

text \<open>\<open>well_behaved\<close>: a part of a run presents the pending and the issued tickets, follows the
  schedule from \<open>k\<close> failures on, and leaves no pending session.\<close>

definition cap_pending :: "capture_state \<Rightarrow> string list" where
  "cap_pending st = (case cp_next st of None \<Rightarrow> [] | Some s \<Rightarrow> [cs_ticket s])"

abbreviation cap_scheduled :: "'e uploader_config \<Rightarrow> nat \<Rightarrow> capture_event list \<Rightarrow> bool" where
  "cap_scheduled c k es \<equiv> cap_schedule (capture_initial c) (capture_maximum c) k es"

lemma capture_wait_ok:
  assumes "capture_limits_ok c" and "waitCaptureBackoff c rd st = (es, v)" and "cp_delay st = cap_delay_at c k"
  shows "cap_presented es = [] \<and> cap_obtained es = [] \<and> cap_scheduled c k es
    \<and> (\<forall>st'. v = Inr st' \<longrightarrow> cp_next st' = cp_next st \<and> cp_delay st' = cap_delay_at c (cap_failures k es))"
  using assms cap_delay_at_Suc [OF assms(1), of k]
  by (auto simp: waitCaptureBackoff_def cap_delay_at_def split: if_splits)

lemma capture_connect_ok:
  assumes ok: "capture_limits_ok c" and "capture_connect c rd st s = (es, v)" and k: "cp_delay st = cap_delay_at c k"
  shows "cap_presented es = [cs_ticket s] \<and> cap_obtained es = [] \<and> cap_scheduled c k es
    \<and> (\<forall>st'. v = Inr st' \<longrightarrow> cp_next st' = cp_next st \<and> cp_delay st' = cap_delay_at c (cap_failures k es))"
proof -
  have 0: "cp_delay (st\<lparr>cp_delay := capture_initial c, cp_connected_once := True\<rparr>) = cap_delay_at c 0"
    using ok by (simp add: cap_delay_at_def capture_limits_ok_def)
  show ?thesis
    using assms(2) capture_wait_ok [OF ok _ k] capture_wait_ok [OF ok _ 0]
    by (auto simp: capture_connect_def cap_prepend_eq Let_def split: if_splits)
qed

lemma capture_round_ok:
  assumes ok: "capture_limits_ok c" and step: "capture_round_step c rd st = (es, v)" and k: "cp_delay st = cap_delay_at c k"
  shows "(cap_presented es = cap_pending st @ cap_obtained es \<or> cap_presented es = [] \<and> cap_obtained es = [] \<and> (\<exists>r. v = Inl r))
    \<and> cap_scheduled c k es
    \<and> (\<forall>st'. v = Inr st' \<longrightarrow> cp_next st' = None \<and> cp_delay st' = cap_delay_at c (cap_failures k es))"
proof (cases "cr_cancelled rd")
  case True
  with step show ?thesis by (auto simp: capture_round_step_def)
next
  case False
  show ?thesis
  proof (cases "cp_next st")
    case (Some s)
    with False step have "capture_connect c rd (st\<lparr>cp_next := None\<rparr>) s = (es, v)"
      by (simp add: capture_round_step_def)
    from capture_connect_ok [OF ok this, of k] k Some show ?thesis by (simp add: cap_pending_def)
  next
    case None
    show ?thesis
    proof (cases "cr_acquire rd")
      case (Inl err)
      with False None step consider "es = []" "\<exists>r. v = Inl r" | "waitCaptureBackoff c rd st = (es, v)"
        by (auto simp: capture_round_step_def split: if_splits)
      then show ?thesis
        using capture_wait_ok [OF ok _ k] None by cases (auto simp: cap_pending_def)
    next
      case (Inr s)
      with False None step obtain es' where "capture_connect c rd st s = (es', v)" "es = Cap_Acquired s # es'"
        by (auto simp: capture_round_step_def cap_prepend_eq)
      with capture_connect_ok [OF ok this(1) k] None show ?thesis by (simp add: cap_pending_def)
    qed
  qed
qed

lemma capture_rounds_ok:
  assumes ok: "capture_limits_ok c"
  shows "capture_rounds c st rds = (es, r) \<Longrightarrow> cp_delay st = cap_delay_at c k \<Longrightarrow>
    (cap_presented es = cap_pending st @ cap_obtained es \<or> cap_presented es = [] \<and> cap_obtained es = [])
    \<and> cap_scheduled c k es"
proof (induction rds arbitrary: st es k)
  case Nil
  then show ?case by simp
next
  case (Cons rd rds)
  obtain es1 v where round: "capture_round_step c rd st = (es1, v)" by fastforce
  note first = capture_round_ok [OF ok round Cons.prems(2)]
  show ?case
  proof (cases v)
    case (Inl x)
    then show ?thesis using Cons.prems(1) first by (auto simp: round)
  next
    case (Inr st')
    obtain es2 where es2: "capture_rounds c st' rds = (es2, r)" "es = es1 @ es2"
      using Cons.prems(1) by (auto simp: round Inr cap_prepend_eq)
    have "cap_pending st' = []" "cp_delay st' = cap_delay_at c (cap_failures k es1)"
      using first Inr by (simp_all add: cap_pending_def)
    with Cons.IH [OF es2(1)] first Inr es2(2) show ?thesis by auto
  qed
qed

text \<open>The capture loop uses every ticket once and keeps to the back-off schedule: the tickets it
  presents are the initial one followed by those the provider issues, one dial each (or none when
  it is cancelled before the first), and the wait after \<open>k\<close> consecutive failures is
  \<open>min (initial * 2 ^ k) maximum\<close>, reset by a connection.\<close>

theorem capture_loop_disciplined:
  assumes "Uploader_Run c rds = ((es, r), c')" and "uc_acquire_set c" and "capture_limits_ok c"
  shows "(cap_presented es = (case uc_initial_session c of None \<Rightarrow> [] | Some s \<Rightarrow> [cs_ticket s]) @ cap_obtained es
      \<or> cap_presented es = [] \<and> cap_obtained es = [])
    \<and> cap_schedule (capture_initial c) (capture_maximum c) 0 es
    \<and> (case uc_initial_session c' of None \<Rightarrow> True | Some s \<Rightarrow> cs_ticket s = [])"
proof -
  let ?st = "\<lparr>cp_delay = capture_initial c, cp_connected_once = False, cp_next = uc_initial_session c\<rparr>"
  have run: "capture_rounds c ?st rds = (es, r)"
    and c': "c' = c\<lparr>uc_initial_session := map_option (\<lambda>s. s\<lparr>cs_ticket := []\<rparr>) (uc_initial_session c)\<rparr>"
    using assms(1,2) by (auto simp: Uploader_Run_def)
  have "cp_delay ?st = cap_delay_at c 0"
    using assms(3) by (simp add: cap_delay_at_def capture_limits_ok_def)
  from capture_rounds_ok [OF assms(3) run this] c' show ?thesis
    by (auto simp: cap_pending_def split: option.split)
qed

definition sample_capture_session :: "string \<Rightarrow> capture_session" where
  "sample_capture_session t = \<lparr>cs_endpoint_id = ''e1'', cs_endpoint_name = ''demo'', cs_session_id = ''s1'',
     cs_connect_url = ''wss://g/v1/dependency-capture/connect'', cs_ticket = t\<rparr>"

definition sample_uploader :: "string uploader_config" where
  "sample_uploader = \<lparr>uc_initial_session = None, uc_acquire_set = True, uc_retryable = Some (\<lambda>e. True),
     uc_initial_delay = second, uc_max_delay = 4 * second, uc_on_state = False\<rparr>"

definition sample_capture_round :: "string + string \<Rightarrow> bool \<Rightarrow> string capture_round" where
  "sample_capture_round a dialled = \<lparr>cr_cancelled = False,
     cr_acquire = (case a of Inl e \<Rightarrow> Inl e | Inr t \<Rightarrow> Inr (sample_capture_session t)),
     cr_cancelled_acquire = False, cr_dialled = dialled, cr_status = Some 503,
     cr_cancelled_dial = False, cr_cancelled_serve = False, cr_wait_cancelled = False\<rparr>"

definition sample_capture_rounds :: "string capture_round list" where
  "sample_capture_rounds = [sample_capture_round (Inl ''down'') False, sample_capture_round (Inr ''t1'') False,
     sample_capture_round (Inr ''t2'') True, sample_capture_round (Inr ''t3'') False]"

lemma capture_loop_disciplined_witness:
  "cap_presented (fst (fst (Uploader_Run sample_uploader sample_capture_rounds))) = [''t1'', ''t2'', ''t3'']
   \<and> cap_schedule second (4 * second) 0 (fst (fst (Uploader_Run sample_uploader sample_capture_rounds)))"
proof -
  let ?r = "Uploader_Run sample_uploader sample_capture_rounds"
  have run: "?r = ((fst (fst ?r), snd (fst ?r)), snd ?r)" by simp
  have set: "uc_acquire_set sample_uploader" by (simp add: sample_uploader_def)
  have ok: "capture_limits_ok sample_uploader" by code_simp
  have limits: "capture_initial sample_uploader = second" "capture_maximum sample_uploader = 4 * second"
    by code_simp+
  have "cap_presented (fst (fst ?r)) = [''t1'', ''t2'', ''t3'']" by code_simp
  then show ?thesis using capture_loop_disciplined [OF run set ok] unfolding limits by blast
qed

end
