(* ===== verification/Credentials.thy ===== *)
theory Credentials
  imports Go_Strings
begin

text \<open>
  \<^verbatim>\<open>internal/oauth/credentials.go\<close>: the credential stores.  The \<^verbatim>\<open>go-keyring\<close>
  package and the file system are states with the operations the code uses; a stored JSON text is
  the record it decodes to, or nothing when it does not decode.  The locale \<open>credential_store\<close> is
  the interface \<^verbatim>\<open>CredentialStore\<close> with the laws its clients rely on.
\<close>

record oauth_credentials =
  oc_access_token :: string
  oc_refresh_token :: string
  oc_token_type :: string
  oc_scope :: "string list"
  oc_expires_at :: int
  oc_user_id :: string

datatype store_error = Not_Found | Store_Failed string

text \<open>The operations of a store over a state; an error result of \<^verbatim>\<open>Set\<close> and
  \<^verbatim>\<open>Delete\<close> is an option.\<close>

record 's store_ops =
  st_get :: "'s \<Rightarrow> string \<Rightarrow> store_error + oauth_credentials"
  st_set :: "'s \<Rightarrow> string \<Rightarrow> oauth_credentials \<Rightarrow> store_error option \<times> 's"
  st_delete :: "'s \<Rightarrow> string \<Rightarrow> store_error option \<times> 's"

definition Account :: "string \<Rightarrow> string \<Rightarrow> string" where
  "Account issuer clientID = ''oauth:'' @ trim_right issuer ''/'' @ '':'' @ clientID"

definition complete_credentials :: "ext \<Rightarrow> oauth_credentials \<Rightarrow> bool" where
  "complete_credentials E c \<longleftrightarrow> oc_access_token c \<noteq> [] \<and> oc_refresh_token c \<noteq> []
     \<and> equal_fold E (oc_token_type c) ''Bearer'' \<and> oc_expires_at c \<noteq> 0"

definition decodeCredentials :: "ext \<Rightarrow> oauth_credentials option \<Rightarrow> store_error + oauth_credentials" where
  "decodeCredentials E stored = (case stored of
       None \<Rightarrow> Inl (Store_Failed ''decode OAuth credentials'')
     | Some c \<Rightarrow> if \<not> complete_credentials E c
         then Inl (Store_Failed ''stored OAuth credentials are incomplete'') else Inr c)"

subsection \<open>The keyring store\<close>

text \<open>
  The keyring of the operating system: it may be unreachable, and it refuses data over a size limit
  (\<^verbatim>\<open>ErrSetDataTooBig\<close>); \<open>kr_size\<close> is the size of the encoded credentials.
\<close>

record keyring =
  kr_entries :: "(string, oauth_credentials option) gomap"
  kr_down :: bool
  kr_limit :: nat
  kr_size :: "oauth_credentials \<Rightarrow> nat"

definition keyring_Get :: "ext \<Rightarrow> keyring \<Rightarrow> string \<Rightarrow> store_error + oauth_credentials" where
  "keyring_Get E k account =
     (if kr_down k then Inl (Store_Failed ''read operating-system credential store'')
      else case map_of (kr_entries k) account of
          None \<Rightarrow> Inl Not_Found
        | Some stored \<Rightarrow> decodeCredentials E stored)"

definition keyring_Set :: "keyring \<Rightarrow> string \<Rightarrow> oauth_credentials \<Rightarrow> store_error option \<times> keyring" where
  "keyring_Set k account c =
     (if kr_down k \<or> kr_limit k < kr_size k c
      then (Some (Store_Failed ''write operating-system credential store''), k)
      else (None, k\<lparr>kr_entries := gomap_set account (Some c) (kr_entries k)\<rparr>))"

definition keyring_Delete :: "keyring \<Rightarrow> string \<Rightarrow> store_error option \<times> keyring" where
  "keyring_Delete k account =
     (if kr_down k then (Some (Store_Failed ''delete operating-system credential''), k)
      else (None, k\<lparr>kr_entries := gomap_del account (kr_entries k)\<rparr>))"

definition KeyringStore :: "ext \<Rightarrow> keyring store_ops" where
  "KeyringStore E = \<lparr>st_get = keyring_Get E, st_set = keyring_Set, st_delete = keyring_Delete\<rparr>"

subsection \<open>The file store\<close>

text \<open>
  The files of the store's directory by name; a file is its decoded content and its mode.
  \<open>fs_digest\<close> is the hexadecimal SHA-256 digest.  The flags say which system calls fail:
  reading, creating and filling the temporary file, the replacement, the last change of mode, the
  removal.
\<close>

record file_system =
  fs_files :: "(string, oauth_credentials option \<times> nat) gomap"
  fs_digest :: "string \<Rightarrow> string"
  fs_read_fails :: bool
  fs_prepare_fails :: bool
  fs_replace_fails :: bool
  fs_chmod_fails :: bool
  fs_remove_fails :: bool

definition file_path :: "file_system \<Rightarrow> string \<Rightarrow> string" where
  "file_path f account = ''oauth-'' @ fs_digest f account @ ''.json''"

definition owner_only :: nat where
  "owner_only = 384"

definition file_Get :: "ext \<Rightarrow> file_system \<Rightarrow> string \<Rightarrow> store_error + oauth_credentials" where
  "file_Get E f account = (case map_of (fs_files f) (file_path f account) of
       None \<Rightarrow> Inl Not_Found
     | Some (stored, mode) \<Rightarrow> if fs_read_fails f then Inl (Store_Failed ''read fallback credential file'')
         else decodeCredentials E stored)"

text \<open>The file is created with mode \<^verbatim>\<open>0600\<close> and renamed over the old one, so that it is
  never readable by others and never half written.\<close>

definition file_Set :: "file_system \<Rightarrow> string \<Rightarrow> oauth_credentials \<Rightarrow> store_error option \<times> file_system" where
  "file_Set f account c =
     (if fs_prepare_fails f then (Some (Store_Failed ''create fallback credential file''), f)
      else if fs_replace_fails f then (Some (Store_Failed ''replace fallback credential file''), f)
      else (if fs_chmod_fails f then Some (Store_Failed ''chmod'') else None,
        f\<lparr>fs_files := gomap_set (file_path f account) (Some c, owner_only) (fs_files f)\<rparr>))"

definition file_Delete :: "file_system \<Rightarrow> string \<Rightarrow> store_error option \<times> file_system" where
  "file_Delete f account =
     (if map_of (fs_files f) (file_path f account) = None then (None, f)
      else if fs_remove_fails f then (Some (Store_Failed ''remove''), f)
      else (None, f\<lparr>fs_files := gomap_del (file_path f account) (fs_files f)\<rparr>))"

definition FileStore :: "ext \<Rightarrow> file_system store_ops" where
  "FileStore E = \<lparr>st_get = file_Get E, st_set = file_Set, st_delete = file_Delete\<rparr>"

subsection \<open>The fallback store\<close>

definition fallback_Get ::
  "bool \<Rightarrow> 'p store_ops \<Rightarrow> 'f store_ops \<Rightarrow> 'p \<times> 'f \<Rightarrow> string \<Rightarrow> store_error + oauth_credentials" where
  "fallback_Get allowFile P F s account = (case st_get P (fst s) account of
       Inr c \<Rightarrow> Inr c
     | Inl Not_Found \<Rightarrow> if allowFile then st_get F (snd s) account else Inl Not_Found
     | Inl e \<Rightarrow> if \<not> allowFile then Inl e else st_get F (snd s) account)"

definition fallback_Set ::
  "bool \<Rightarrow> 'p store_ops \<Rightarrow> 'f store_ops \<Rightarrow> 'p \<times> 'f \<Rightarrow> string \<Rightarrow> oauth_credentials
    \<Rightarrow> store_error option \<times> 'p \<times> 'f" where
  "fallback_Set allowFile P F s account c = (case st_set P (fst s) account c of
       (None, p) \<Rightarrow> (None, p, snd (st_delete F (snd s) account))
     | (Some e, p) \<Rightarrow> if \<not> allowFile then (Some e, p, snd s)
         else (case st_set F (snd s) account c of (r, f) \<Rightarrow> (r, p, f)))"

definition fallback_Delete ::
  "bool \<Rightarrow> 'p store_ops \<Rightarrow> 'f store_ops \<Rightarrow> 'p \<times> 'f \<Rightarrow> string \<Rightarrow> store_error option \<times> 'p \<times> 'f" where
  "fallback_Delete allowFile P F s account =
     (let (primaryErr, p) = st_delete P (fst s) account; (fileErr, f) = st_delete F (snd s) account
      in (if primaryErr \<noteq> None \<and> \<not> allowFile then primaryErr else fileErr, p, f))"

definition FallbackStore :: "bool \<Rightarrow> 'p store_ops \<Rightarrow> 'f store_ops \<Rightarrow> ('p \<times> 'f) store_ops" where
  "FallbackStore allowFile P F = \<lparr>st_get = fallback_Get allowFile P F,
     st_set = fallback_Set allowFile P F, st_delete = fallback_Delete allowFile P F\<rparr>"

subsection \<open>The interface\<close>

locale credential_store =
  fixes ops :: "'s store_ops"
    and complete :: "oauth_credentials \<Rightarrow> bool"
    and ok :: "'s \<Rightarrow> bool"
  assumes get_set: "ok s \<Longrightarrow> complete c \<Longrightarrow> st_set ops s a c = (None, s') \<Longrightarrow> st_get ops s' a = Inr c"
    and get_set_other: "ok s \<Longrightarrow> b \<noteq> a \<Longrightarrow> st_set ops s a c = (r, s') \<Longrightarrow> st_get ops s' b = st_get ops s b"
    and get_deleted: "ok s \<Longrightarrow> st_delete ops s a = (None, s') \<Longrightarrow> st_get ops s' a = Inl Not_Found"
    and get_delete_other: "ok s \<Longrightarrow> b \<noteq> a \<Longrightarrow> st_delete ops s a = (r, s') \<Longrightarrow> st_get ops s' b = st_get ops s b"
    and failed_set: "ok s \<Longrightarrow> st_set ops s a c = (Some e, s') \<Longrightarrow> st_get ops s' a = st_get ops s a"
    and ok_set: "ok s \<Longrightarrow> ok (snd (st_set ops s a c))"
    and ok_delete: "ok s \<Longrightarrow> ok (snd (st_delete ops s a))"
begin

lemma set_then_delete:
  "ok s \<Longrightarrow> st_set ops s a c = (None, s') \<Longrightarrow> st_delete ops s' a = (None, s'') \<Longrightarrow> st_get ops s'' a = Inl Not_Found"
  using ok_set [of s a c] get_deleted [of s' a s''] by simp

lemma last_set_wins:
  assumes "ok s" and "st_set ops s a c = (None, s')" and "complete c'" and "st_set ops s' a c' = (None, s'')"
  shows "st_get ops s'' a = Inr c'"
  using assms ok_set [of s a c] get_set [of s' c' a s''] by simp

end

text \<open>A keyring behaves as a store whenever it is reachable; the file store whenever reading and
  changing modes work and the digest separates the accounts.\<close>

lemma decode_complete [simp]: "complete_credentials E c \<Longrightarrow> decodeCredentials E (Some c) = Inr c"
  by (simp add: decodeCredentials_def)

interpretation keyring_store: credential_store "KeyringStore E" "complete_credentials E" "\<lambda>k. \<not> kr_down k" for E
  by unfold_locales
    (auto simp: KeyringStore_def keyring_Set_def keyring_Get_def keyring_Delete_def split: if_splits)

definition file_ok :: "file_system \<Rightarrow> bool" where
  "file_ok f \<longleftrightarrow> \<not> fs_read_fails f \<and> \<not> fs_chmod_fails f \<and> inj (fs_digest f)"

lemma file_path_inj: "file_ok f \<Longrightarrow> file_path f a = file_path f b \<longleftrightarrow> a = b"
  by (simp add: file_path_def file_ok_def inj_eq)

lemma file_path_update [simp]: "file_path (f\<lparr>fs_files := m\<rparr>) a = file_path f a"
  by (simp add: file_path_def)

lemma file_ok_update [simp]: "file_ok (f\<lparr>fs_files := m\<rparr>) = file_ok f"
  by (simp add: file_ok_def)

lemma file_Get_ok:
  "file_ok f \<Longrightarrow> file_Get E f a = (case map_of (fs_files f) (file_path f a) of
     None \<Rightarrow> Inl Not_Found | Some p \<Rightarrow> decodeCredentials E (fst p))"
  by (auto simp: file_Get_def file_ok_def split: option.split)

lemma file_Set_ok:
  "file_ok f \<Longrightarrow> file_Set f a c = (r, f') \<Longrightarrow>
   f' = f \<and> r \<noteq> None \<or> r = None \<and> f' = f\<lparr>fs_files := gomap_set (file_path f a) (Some c, owner_only) (fs_files f)\<rparr>"
  by (auto simp: file_Set_def file_ok_def split: if_splits)

lemma file_Delete_ok:
  "file_Delete f a = (r, f') \<Longrightarrow> f' = f \<and> (r \<noteq> None \<or> map_of (fs_files f) (file_path f a) = None)
   \<or> r = None \<and> f' = f\<lparr>fs_files := gomap_del (file_path f a) (fs_files f)\<rparr>"
  by (auto simp: file_Delete_def split: if_splits)

interpretation file_store: credential_store "FileStore E" "complete_credentials E" file_ok for E
proof unfold_locales
  show "st_get (FileStore E) s' a = Inr c"
    if "file_ok s" "complete_credentials E c" "st_set (FileStore E) s a c = (None, s')" for s c a s'
    using that file_Set_ok [of s a c None s'] by (auto simp: FileStore_def file_Get_ok)
  show "st_get (FileStore E) s' b = st_get (FileStore E) s b"
    if "file_ok s" "b \<noteq> a" "st_set (FileStore E) s a c = (r, s')" for s b a c r s'
    using that file_path_inj [of s b a] file_Set_ok [of s a c r s'] by (auto simp: FileStore_def file_Get_ok)
  show "st_get (FileStore E) s' a = Inl Not_Found"
    if "file_ok s" "st_delete (FileStore E) s a = (None, s')" for s a s'
    using that file_Delete_ok [of s a None s'] by (auto simp: FileStore_def file_Get_ok)
  show "st_get (FileStore E) s' b = st_get (FileStore E) s b"
    if "file_ok s" "b \<noteq> a" "st_delete (FileStore E) s a = (r, s')" for s b a r s'
    using that file_path_inj [of s b a] file_Delete_ok [of s a r s'] by (auto simp: FileStore_def file_Get_ok)
  show "st_get (FileStore E) s' a = st_get (FileStore E) s a"
    if "file_ok s" "st_set (FileStore E) s a c = (Some e, s')" for s a c e s'
    using that file_Set_ok [of s a c "Some e" s'] by (auto simp: FileStore_def)
  show "file_ok (snd (st_set (FileStore E) s a c))" if "file_ok s" for s a c
    using that by (simp add: FileStore_def file_Set_def)
  show "file_ok (snd (st_delete (FileStore E) s a))" if "file_ok s" for s a
    using that by (simp add: FileStore_def file_Delete_def)
qed

text \<open>
  The fallback store is a store when its primary keeps its answer: either it is reachable and takes
  everything, or it is down for all operations and the file store is allowed.
\<close>

definition keyring_takes_all :: "keyring \<Rightarrow> bool" where
  "keyring_takes_all k \<longleftrightarrow> (\<forall>c. kr_size k c \<le> kr_limit k)"

definition fallback_ok :: "bool \<Rightarrow> keyring \<times> file_system \<Rightarrow> bool" where
  "fallback_ok allowFile s \<longleftrightarrow> file_ok (snd s) \<and> \<not> fs_remove_fails (snd s)
     \<and> keyring_takes_all (fst s) \<and> (kr_down (fst s) \<longrightarrow> allowFile)"

abbreviation fallback_store :: "bool \<Rightarrow> ext \<Rightarrow> (keyring \<times> file_system) store_ops" where
  "fallback_store allowFile E \<equiv> FallbackStore allowFile (KeyringStore E) (FileStore E)"

lemma file_Delete_removes:
  "file_ok f \<Longrightarrow> \<not> fs_remove_fails f \<Longrightarrow> file_Delete f a = (r, f') \<Longrightarrow>
   r = None \<and> file_Get E f' a = Inl Not_Found \<and> (\<forall>b. b \<noteq> a \<longrightarrow> file_Get E f' b = file_Get E f b)
   \<and> file_ok f' \<and> \<not> fs_remove_fails f'"
  by (auto simp: file_Delete_def file_Get_ok file_path_inj split: if_splits)

lemma fallback_up:
  assumes "\<not> kr_down k"
  shows "keyring_takes_all k \<Longrightarrow> fallback_Set allowFile (KeyringStore E) (FileStore E) (k, f) a c
      = (None, k\<lparr>kr_entries := gomap_set a (Some c) (kr_entries k)\<rparr>, snd (file_Delete f a))"
    "fallback_Delete allowFile (KeyringStore E) (FileStore E) (k, f) a
      = (fst (file_Delete f a), k\<lparr>kr_entries := gomap_del a (kr_entries k)\<rparr>, snd (file_Delete f a))"
    "fallback_Get allowFile (KeyringStore E) (FileStore E) (k, f) a
      = (case map_of (kr_entries k) a of
           None \<Rightarrow> if allowFile then file_Get E f a else Inl Not_Found
         | Some stored \<Rightarrow> (case decodeCredentials E stored of
             Inr c \<Rightarrow> Inr c | Inl Not_Found \<Rightarrow> if allowFile then file_Get E f a else Inl Not_Found
           | Inl e \<Rightarrow> if \<not> allowFile then Inl e else file_Get E f a))"
proof -
  show "fallback_Set allowFile (KeyringStore E) (FileStore E) (k, f) a c
      = (None, k\<lparr>kr_entries := gomap_set a (Some c) (kr_entries k)\<rparr>, snd (file_Delete f a))"
    if "keyring_takes_all k"
  proof -
    from that have "\<not> kr_limit k < kr_size k c" by (simp add: keyring_takes_all_def not_less)
    with assms show ?thesis
      by (simp add: fallback_Set_def KeyringStore_def FileStore_def keyring_Set_def)
  qed
  show "fallback_Delete allowFile (KeyringStore E) (FileStore E) (k, f) a
      = (fst (file_Delete f a), k\<lparr>kr_entries := gomap_del a (kr_entries k)\<rparr>, snd (file_Delete f a))"
    using assms by (simp add: fallback_Delete_def KeyringStore_def FileStore_def keyring_Delete_def Let_def
        split: prod.split)
  show "fallback_Get allowFile (KeyringStore E) (FileStore E) (k, f) a
      = (case map_of (kr_entries k) a of
           None \<Rightarrow> if allowFile then file_Get E f a else Inl Not_Found
         | Some stored \<Rightarrow> (case decodeCredentials E stored of
             Inr c \<Rightarrow> Inr c | Inl Not_Found \<Rightarrow> if allowFile then file_Get E f a else Inl Not_Found
           | Inl e \<Rightarrow> if \<not> allowFile then Inl e else file_Get E f a))"
    using assms by (auto simp: fallback_Get_def KeyringStore_def FileStore_def keyring_Get_def
        split: option.split sum.split store_error.split)
qed

lemma file_Set_keeps:
  "file_ok (snd (file_Set f a c)) = file_ok f" "fs_remove_fails (snd (file_Set f a c)) = fs_remove_fails f"
  by (simp_all add: file_Set_def)

lemma fallback_down:
  assumes "kr_down k"
  shows "fallback_Set True (KeyringStore E) (FileStore E) (k, f) a c
      = (fst (file_Set f a c), k, snd (file_Set f a c))"
    "fallback_Delete True (KeyringStore E) (FileStore E) (k, f) a = (fst (file_Delete f a), k, snd (file_Delete f a))"
    "fallback_Get True (KeyringStore E) (FileStore E) (k, f) a = file_Get E f a"
  using assms
  by (simp_all add: fallback_Set_def fallback_Delete_def fallback_Get_def KeyringStore_def FileStore_def
      keyring_Set_def keyring_Delete_def keyring_Get_def Let_def split: prod.split)

lemma fallback_set_cases:
  assumes "fallback_ok allowFile (k, f)"
  shows "\<not> kr_down k \<and> st_set (fallback_store allowFile E) (k, f) a c
      = (None, k\<lparr>kr_entries := gomap_set a (Some c) (kr_entries k)\<rparr>, snd (file_Delete f a))
    \<or> kr_down k \<and> allowFile \<and> st_set (fallback_store allowFile E) (k, f) a c
      = (fst (file_Set f a c), k, snd (file_Set f a c))"
  using assms fallback_up(1) [of k allowFile E f a c] fallback_down(1) [of k E f a c]
  by (cases "kr_down k") (auto simp: fallback_ok_def FallbackStore_def)

interpretation fallback_store: credential_store "fallback_store allowFile E" "complete_credentials E"
  "fallback_ok allowFile" for allowFile E
proof unfold_locales
  fix s :: "keyring \<times> file_system" and a c
  assume ok: "fallback_ok allowFile s"
  obtain k f where s: "s = (k, f)" by (cases s)
  have f: "file_ok f" "\<not> fs_remove_fails f" and down: "kr_down k \<Longrightarrow> allowFile"
    using ok by (auto simp: fallback_ok_def s)
  obtain dr df where del: "file_Delete f a = (dr, df)" by fastforce
  note removed = file_Delete_removes [OF f del, of E]
  have df_other: "file_Get E df b = file_Get E f b" if "b \<noteq> a" for b
    using removed that by blast
  have set_other: "file_Get E (snd (file_Set f a c)) b = file_Get E f b" if "b \<noteq> a" for b
    using file_store.get_set_other [of f b a E c "fst (file_Set f a c)" "snd (file_Set f a c)"] f that
    by (simp add: FileStore_def)
  show "fallback_ok allowFile (snd (st_set (fallback_store allowFile E) s a c))"
    using fallback_set_cases [of allowFile k f E a c] ok removed del
    by (auto simp: s fallback_ok_def keyring_takes_all_def file_Set_keeps)
  show "fallback_ok allowFile (snd (st_delete (fallback_store allowFile E) s a))"
    using ok removed del
    by (cases "kr_down k") (auto simp: s fallback_ok_def keyring_takes_all_def FallbackStore_def
        fallback_up fallback_down)
  show "st_get (fallback_store allowFile E) s' a = Inr c"
    if "complete_credentials E c" "st_set (fallback_store allowFile E) s a c = (None, s')" for s'
    using fallback_set_cases [of allowFile k f E a c] ok that f
    by (auto simp: s FallbackStore_def fallback_up(3) fallback_down(3) file_Set_def file_Get_ok split: if_splits)
  show "st_get (fallback_store allowFile E) s' b = st_get (fallback_store allowFile E) s b"
    if "b \<noteq> a" "st_set (fallback_store allowFile E) s a c = (r, s')" for b r s'
    using fallback_set_cases [of allowFile k f E a c] ok that df_other [OF that(1)] set_other [OF that(1)]
    by (auto simp: s FallbackStore_def fallback_up(3) fallback_down(3) del
        split: option.split sum.split store_error.split)
  show "st_get (fallback_store allowFile E) s' a = Inl Not_Found"
    if "st_delete (fallback_store allowFile E) s a = (None, s')" for s'
    using that removed del down
    by (cases "kr_down k") (auto simp: s FallbackStore_def fallback_up fallback_down)
  show "st_get (fallback_store allowFile E) s' b = st_get (fallback_store allowFile E) s b"
    if "b \<noteq> a" "st_delete (fallback_store allowFile E) s a = (r, s')" for b r s'
    using that removed del down
    by (cases "kr_down k") (auto simp: s FallbackStore_def fallback_up fallback_down
        split: option.split sum.split store_error.split)
  show "st_get (fallback_store allowFile E) s' a = st_get (fallback_store allowFile E) s a"
    if "st_set (fallback_store allowFile E) s a c = (Some e, s')" for e s'
    using fallback_set_cases [of allowFile k f E a c] ok that f(1) f(1) [unfolded file_ok_def]
    by (auto simp: s FallbackStore_def fallback_down(3) file_Set_def split: if_splits)
qed

subsection \<open>What the stores promise\<close>


definition sample_credentials :: "string \<Rightarrow> oauth_credentials" where
  "sample_credentials token = \<lparr>oc_access_token = token, oc_refresh_token = ''r'', oc_token_type = ''bearer'',
     oc_scope = [''openid''], oc_expires_at = 100, oc_user_id = ''u1''\<rparr>"

definition sample_keyring :: keyring where
  "sample_keyring = \<lparr>kr_entries = [], kr_down = True, kr_limit = 10, kr_size = (\<lambda>c. 4)\<rparr>"

definition sample_files :: file_system where
  "sample_files = \<lparr>fs_files = [], fs_digest = (\<lambda>s. s), fs_read_fails = False, fs_prepare_fails = False,
     fs_replace_fails = False, fs_chmod_fails = False, fs_remove_fails = False\<rparr>"


text \<open>The combination breaks that promise when the primary store can be read but not written, which
  the size limit of a keyring makes an ordinary case: saving credentials that are too large for the
  keyring reports success, because they went to the file, but every later read returns the old
  credentials that are still in the keyring.\<close>

theorem fallback_returns_stale_credentials:
  assumes "\<not> kr_down k" and "map_of (kr_entries k) a = Some (Some old)" and "complete_credentials E old"
    and "kr_limit k < kr_size k new" and "\<not> fs_prepare_fails f" "\<not> fs_replace_fails f" "\<not> fs_chmod_fails f"
  shows "\<exists>s'. fallback_Set True (KeyringStore E) (FileStore E) (k, f) a new = (None, s')
    \<and> fallback_Get True (KeyringStore E) (FileStore E) s' a = Inr old"
  using assms
  by (auto simp: fallback_Set_def fallback_Get_def KeyringStore_def FileStore_def keyring_Set_def
      keyring_Get_def file_Set_def)

definition small_keyring :: keyring where
  "small_keyring = \<lparr>kr_entries = [(''acc'', Some (sample_credentials ''old''))], kr_down = False,
     kr_limit = 3, kr_size = (\<lambda>c. length (oc_access_token c))\<rparr>"

lemma fallback_returns_stale_credentials_witness:
  "\<exists>s'. fallback_Set True (KeyringStore sample_ext) (FileStore sample_ext) (small_keyring, sample_files)
        ''acc'' (sample_credentials ''newer'') = (None, s')
    \<and> fallback_Get True (KeyringStore sample_ext) (FileStore sample_ext) s' ''acc''
        = Inr (sample_credentials ''old'')"
proof -
  have complete: "complete_credentials sample_ext (sample_credentials ''old'')" by code_simp
  have k: "\<not> kr_down small_keyring"
    "map_of (kr_entries small_keyring) ''acc'' = Some (Some (sample_credentials ''old''))"
    "kr_limit small_keyring < kr_size small_keyring (sample_credentials ''newer'')"
    by (simp_all add: small_keyring_def sample_credentials_def)
  have f: "\<not> fs_prepare_fails sample_files" "\<not> fs_replace_fails sample_files" "\<not> fs_chmod_fails sample_files"
    by (simp_all add: sample_files_def)
  show ?thesis by (rule fallback_returns_stale_credentials [OF k(1,2) complete k(3) f])
qed

end
