(* ===== verification/Oauth.thy ===== *)
theory Oauth
  imports Credentials Go_Query Go_Base64
begin

text \<open>
  \<^verbatim>\<open>internal/oauth/oauth.go\<close>: discovery of the authorization server, the PKCE values, the
  redirect and authorization URLs, and token requests.  Decoded JSON bodies, SHA-256 and random bytes
  are arguments; a JSON body that does not decode is \<open>None\<close>.
\<close>

subsection \<open>Discovery\<close>

record metadata =
  md_issuer :: string
  md_authorization_endpoint :: string
  md_token_endpoint :: string
  md_userinfo_endpoint :: string
  md_revocation_endpoint :: string
  md_grant_types :: "string list"
  md_challenge_methods :: "string list"
  md_auth_methods :: "string list"
  md_scopes :: "string list"

definition isLoopbackHost :: "string \<Rightarrow> bool" where
  "isLoopbackHost host = (case parse_ip host of None \<Rightarrow> False | Some ip \<Rightarrow> is_loopback ip)"

definition validateSecureURL :: "string \<Rightarrow> bool \<Rightarrow> string + go_url" where
  "validateSecureURL raw allowLocalHTTP = (case Parse_url raw of
       None \<Rightarrow> Inl ''must be an absolute URL without credentials or fragment''
     | Some parsed \<Rightarrow>
         if gu_scheme parsed = [] \<or> gu_host parsed = [] \<or> gu_user parsed \<noteq> None \<or> gu_fragment parsed \<noteq> []
           then Inl ''must be an absolute URL without credentials or fragment''
         else if gu_scheme parsed \<noteq> ''https''
             \<and> (gu_scheme parsed \<noteq> ''http'' \<or> \<not> allowLocalHTTP \<or> \<not> isLoopbackHost (Hostname parsed))
           then Inl ''must use HTTPS (HTTP is allowed only for loopback test servers)''
         else Inr parsed)"

text \<open>The first endpoint, in the map's iteration order, that is not secure.\<close>

definition invalid_endpoint :: "bool \<Rightarrow> (string, string) gomap \<Rightarrow> string option" where
  "invalid_endpoint allowLocalHTTP endpoints =
     map_option (\<lambda>p. ''invalid '' @ fst p @ '': '' @ (case validateSecureURL (snd p) allowLocalHTTP of
         Inl e \<Rightarrow> e | Inr u \<Rightarrow> []))
       (find (\<lambda>p. isl (validateSecureURL (snd p) allowLocalHTTP)) endpoints)"

definition required_endpoints :: "metadata \<Rightarrow> (string, string) gomap" where
  "required_endpoints m = [(''authorization endpoint'', md_authorization_endpoint m),
     (''token endpoint'', md_token_endpoint m)]"

definition optional_endpoints :: "metadata \<Rightarrow> (string, string) gomap" where
  "optional_endpoints m = filter (\<lambda>p. snd p \<noteq> []) [(''userinfo endpoint'', md_userinfo_endpoint m),
     (''revocation endpoint'', md_revocation_endpoint m)]"

definition ValidateMetadata :: "metadata \<Rightarrow> string \<Rightarrow> string option" where
  "ValidateMetadata m requestedIssuer =
     (case validateSecureURL (trim_right requestedIssuer ''/'') True of
        Inl e \<Rightarrow> Some (''invalid OAuth issuer: '' @ e)
      | Inr issuer \<Rightarrow>
          (case validateSecureURL (trim_right (md_issuer m) ''/'') True of
             Inl e \<Rightarrow> Some ''authorization server metadata issuer does not match configured issuer''
           | Inr actualIssuer \<Rightarrow>
               if url_string actualIssuer \<noteq> url_string issuer
                 then Some ''authorization server metadata issuer does not match configured issuer''
               else
                 let allow = isLoopbackHost (Hostname issuer) in
                 case invalid_endpoint allow (required_endpoints m) of
                   Some e \<Rightarrow> Some e
                 | None \<Rightarrow> (case invalid_endpoint allow (optional_endpoints m) of
                     Some e \<Rightarrow> Some e
                   | None \<Rightarrow>
                       if ''authorization_code'' \<notin> set (md_grant_types m)
                         then Some ''authorization server does not advertise the authorization_code grant''
                       else if ''refresh_token'' \<notin> set (md_grant_types m)
                         then Some ''authorization server does not advertise the refresh_token grant''
                       else if ''S256'' \<notin> set (md_challenge_methods m)
                         then Some ''authorization server does not support PKCE S256''
                       else if ''none'' \<notin> set (md_auth_methods m)
                         then Some ''authorization server does not support public clients''
                       else None)))"

text \<open>
  \<^verbatim>\<open>Discover\<close> with the package's cache; \<open>fetch\<close> gives the status and the decoded body of the
  response to a GET of a URL, or nothing when the request fails.
\<close>

type_synonym metadata_cache = "(string, metadata) gomap"

definition well_known :: string where
  "well_known = ''/.well-known/oauth-authorization-server''"

definition Discover ::
  "(string \<Rightarrow> (int \<times> metadata option) option) \<Rightarrow> metadata_cache \<Rightarrow> string
    \<Rightarrow> (string + metadata) \<times> metadata_cache" where
  "Discover fetch cache rawIssuer =
     (let issuer = trim_right (trim_space rawIssuer) ''/'' in
      case map_of cache issuer of
        Some m \<Rightarrow> (Inr m, cache)
      | None \<Rightarrow>
          (case validateSecureURL issuer True of
             Inl e \<Rightarrow> (Inl (''invalid OAuth issuer: '' @ e), cache)
           | Inr u \<Rightarrow>
               (case Parse_url (issuer @ well_known) of
                  None \<Rightarrow> (Inl ''parse'', cache)
                | Some target \<Rightarrow>
                    (case fetch (issuer @ well_known) of
                       None \<Rightarrow> (Inl ''load OAuth discovery metadata'', cache)
                     | Some (status, body) \<Rightarrow>
                         if status \<noteq> 200 then (Inl (''load OAuth discovery metadata: server returned HTTP '' @ itoa status), cache)
                         else (case body of
                             None \<Rightarrow> (Inl ''decode OAuth discovery metadata'', cache)
                           | Some m \<Rightarrow> (case ValidateMetadata m issuer of
                               Some e \<Rightarrow> (Inl e, cache)
                             | None \<Rightarrow> (Inr m, gomap_set issuer m cache)))))))"

subsection \<open>PKCE and the authorization request\<close>

text \<open>\<^verbatim>\<open>base64.RawURLEncoding\<close>: the URL-safe alphabet, without padding.\<close>

definition b64_rawurl :: "string \<Rightarrow> string" where
  "b64_rawurl s = map (\<lambda>c. if c = CHR ''+'' then CHR ''-'' else if c = CHR ''/'' then CHR ''_'' else c)
     (filter (\<lambda>c. c \<noteq> CHR ''='') (b64_encode s))"

text \<open>\<^verbatim>\<open>randomBase64URL\<close> on the bytes the random source delivers.\<close>

definition randomBase64URL :: "(nat \<Rightarrow> string option) \<Rightarrow> nat \<Rightarrow> string option" where
  "randomBase64URL random byteCount = map_option b64_rawurl (random byteCount)"

definition GenerateVerifier :: "(nat \<Rightarrow> string option) \<Rightarrow> string option" where
  "GenerateVerifier random = randomBase64URL random 64"
definition GenerateState :: "(nat \<Rightarrow> string option) \<Rightarrow> string option" where
  "GenerateState random = randomBase64URL random 32"
definition GenerateNonce :: "(nat \<Rightarrow> string option) \<Rightarrow> string option" where
  "GenerateNonce random = randomBase64URL random 32"

definition Challenge :: "(string \<Rightarrow> string) \<Rightarrow> string \<Rightarrow> string" where
  "Challenge sha256 verifier = b64_rawurl (sha256 verifier)"

definition RedirectURI :: "string \<Rightarrow> int \<Rightarrow> string \<Rightarrow> string + string" where
  "RedirectURI host port path =
     (if (case parse_ip host of None \<Rightarrow> True | Some ip \<Rightarrow> \<not> is_loopback ip \<or> host \<noteq> ip_string ip)
        then Inl ''callback host must be a loopback IP literal''
      else if port < 0 \<or> 65535 < port then Inl ''callback port must be between 0 and 65535''
      else if \<not> prefix ''/'' path \<or> contains_any path ''?#''
        then Inl ''callback path must be an absolute URL path without query or fragment''
      else Inr (url_string (empty_url\<lparr>gu_scheme := ''http'',
          gu_host := join_host_port host (itoa port), gu_path := path\<rparr>)))"

record authorization_request =
  ar_endpoint :: string
  ar_client_id :: string
  ar_redirect_uri :: string
  ar_state :: string
  ar_challenge :: string
  ar_nonce :: string
  ar_scopes :: "string list"

definition authorization_values :: "authorization_request \<Rightarrow> url_values \<Rightarrow> url_values" where
  "authorization_values r m =
     (let m = values_set ''client_id'' (ar_client_id r) m;
          m = values_set ''response_type'' ''code'' m;
          m = values_set ''redirect_uri'' (ar_redirect_uri r) m;
          m = values_set ''scope'' (join_with '' '' (ar_scopes r)) m;
          m = values_set ''state'' (ar_state r) m;
          m = values_set ''code_challenge'' (ar_challenge r) m;
          m = values_set ''code_challenge_method'' ''S256'' m
      in if ar_nonce r \<noteq> [] then values_set ''nonce'' (ar_nonce r) m else m)"

definition AuthorizationURL :: "authorization_request \<Rightarrow> string option" where
  "AuthorizationURL r = (case Parse_url (ar_endpoint r) of
       None \<Rightarrow> None
     | Some endpoint \<Rightarrow>
         if gu_scheme endpoint = [] then None
         else Some (url_string (endpoint\<lparr>gu_raw_query :=
             values_encode (authorization_values r (parse_query (gu_raw_query endpoint)))\<rparr>)))"

subsection \<open>Token requests\<close>

record token_response =
  tr_access_token :: string
  tr_refresh_token :: string
  tr_token_type :: string
  tr_scope :: "string list"
  tr_expires_at :: int
  tr_id_token :: string

text \<open>The raw JSON of the scope: absent or null, a string, a list of strings, or something else.\<close>

datatype raw_scope = Scope_Absent | Scope_Text string | Scope_List "string list" | Scope_Other

record raw_token_response =
  rw_access_token :: string
  rw_refresh_token :: string
  rw_token_type :: string
  rw_scope :: raw_scope
  rw_expires_in :: string
  rw_id_token :: string
  rw_error :: string
  rw_description :: string

datatype token_error = Token_Rejected int string string | Token_Failed string

definition IsInvalidGrant :: "token_error \<Rightarrow> bool" where
  "IsInvalidGrant err = (case err of Token_Rejected status code description \<Rightarrow> code = ''invalid_grant''
     | Token_Failed m \<Rightarrow> False)"

definition parseScope :: "raw_scope \<Rightarrow> string list option" where
  "parseScope raw = (case raw of Scope_Absent \<Rightarrow> Some [] | Scope_Text text \<Rightarrow> Some (split_fields text)
     | Scope_List list \<Rightarrow> Some list | Scope_Other \<Rightarrow> None)"

definition granted_scopes :: "string list \<Rightarrow> string list \<Rightarrow> string + string list" where
  "granted_scopes scopes requestedScopes =
     (if scopes = [] then Inr requestedScopes
      else case find (\<lambda>r. r \<notin> set scopes) requestedScopes of
          Some r \<Rightarrow> Inl (''token response did not grant requested scope '' @ r)
        | None \<Rightarrow> Inr scopes)"

text \<open>The expiry: a 64-bit number of nanoseconds is added to the present.\<close>

definition expiry :: "int \<Rightarrow> int \<Rightarrow> int" where
  "expiry now seconds = now + wrap64 (seconds * 1000000000)"

definition ParseTokenResponse ::
  "ext \<Rightarrow> raw_token_response option \<Rightarrow> int \<Rightarrow> string list \<Rightarrow> bool \<Rightarrow> string + token_response" where
  "ParseTokenResponse E body now requestedScopes requireRefresh = (case body of
       None \<Rightarrow> Inl ''decode token response''
     | Some raw \<Rightarrow>
         if rw_error raw \<noteq> [] then Inl (''authorization server rejected token request: ''
           @ (if rw_description raw \<noteq> [] then rw_description raw else rw_error raw))
         else if rw_access_token raw = [] then Inl ''token response is missing access_token''
         else if \<not> equal_fold E (rw_token_type raw) ''Bearer''
           then Inl ''token response has unsupported token_type''
         else case atoi (rw_expires_in raw) of
           None \<Rightarrow> Inl ''token response has invalid expires_in''
         | Some seconds \<Rightarrow>
             if seconds \<le> 0 then Inl ''token response has invalid expires_in''
             else if requireRefresh \<and> rw_refresh_token raw = []
               then Inl ''token response is missing refresh_token required for offline access''
             else case parseScope (rw_scope raw) of
               None \<Rightarrow> Inl ''invalid token response: scope must be a string or string array''
             | Some scopes \<Rightarrow> (case granted_scopes scopes requestedScopes of
                 Inl e \<Rightarrow> Inl e
               | Inr scopes \<Rightarrow> Inr \<lparr>tr_access_token = rw_access_token raw,
                   tr_refresh_token = rw_refresh_token raw, tr_token_type = ''Bearer'', tr_scope = scopes,
                   tr_expires_at = expiry now seconds, tr_id_token = rw_id_token raw\<rparr>))"

text \<open>
  \<^verbatim>\<open>TokenRequest\<close>: \<open>post\<close> gives the status of the response to a form posted to a URL and what
  its body decodes to; of a rejection the fields decoded before an error are used too.
\<close>

type_synonym token_post = "string \<Rightarrow> string \<Rightarrow> (int \<times> raw_token_response option) option"

definition TokenRequest ::
  "ext \<Rightarrow> token_post \<Rightarrow> string \<Rightarrow> url_values \<Rightarrow> int \<Rightarrow> string list \<Rightarrow> bool \<Rightarrow> token_error + token_response" where
  "TokenRequest E post endpoint values now requestedScopes requireRefresh = (case Parse_url endpoint of
       None \<Rightarrow> Inl (Token_Failed ''parse'')
     | Some u \<Rightarrow>
         (case post endpoint (values_encode values) of
            None \<Rightarrow> Inl (Token_Failed ''token request failed; the authorization code may already have been consumed'')
          | Some (status, body) \<Rightarrow>
              if status < 200 \<or> 300 \<le> status then
                (let code = (case body of None \<Rightarrow> [] | Some raw \<Rightarrow> rw_error raw);
                     description = (case body of None \<Rightarrow> [] | Some raw \<Rightarrow> rw_description raw);
                     message = (if description \<noteq> [] then description
                       else if code \<noteq> [] then code else ''HTTP '' @ itoa status)
                 in Inl (Token_Rejected status code message))
              else (case ParseTokenResponse E body now requestedScopes requireRefresh of
                  Inl m \<Rightarrow> Inl (Token_Failed m) | Inr t \<Rightarrow> Inr t)))"

definition ExchangeCode ::
  "ext \<Rightarrow> token_post \<Rightarrow> int \<Rightarrow> metadata \<Rightarrow> string \<Rightarrow> string \<Rightarrow> string \<Rightarrow> string \<Rightarrow> string list
    \<Rightarrow> token_error + token_response" where
  "ExchangeCode E post now m clientID code verifier redirectURI scopes =
     TokenRequest E post (md_token_endpoint m)
       [(''grant_type'', [''authorization_code'']), (''client_id'', [clientID]), (''code'', [code]),
        (''code_verifier'', [verifier]), (''redirect_uri'', [redirectURI])]
       now scopes (''offline_access'' \<in> set scopes)"

definition Refresh ::
  "ext \<Rightarrow> token_post \<Rightarrow> int \<Rightarrow> metadata \<Rightarrow> string \<Rightarrow> string \<Rightarrow> string list
    \<Rightarrow> token_error + token_response" where
  "Refresh E post now m clientID refreshToken scopes =
     TokenRequest E post (md_token_endpoint m)
       [(''grant_type'', [''refresh_token'']), (''client_id'', [clientID]),
        (''refresh_token'', [refreshToken])] now scopes False"

subsection \<open>Secure endpoints\<close>

lemma validateSecureURL_Inr:
  "validateSecureURL raw allow = Inr u \<longleftrightarrow> Parse_url raw = Some u \<and> gu_scheme u \<noteq> [] \<and> gu_host u \<noteq> []
     \<and> gu_user u = None \<and> gu_fragment u = []
     \<and> (gu_scheme u = ''https'' \<or> gu_scheme u = ''http'' \<and> allow \<and> isLoopbackHost (Hostname u))"
  by (auto simp: validateSecureURL_def split: option.splits)

lemma invalid_endpoint_None:
  "invalid_endpoint allow ps = None \<longleftrightarrow> list_all (\<lambda>p. \<exists>u. validateSecureURL (snd p) allow = Inr u) ps"
proof -
  have "\<not> isl x \<longleftrightarrow> (\<exists>u. x = Inr u)" for x :: "string + go_url" by (cases x) auto
  then show ?thesis by (auto simp: invalid_endpoint_def find_None_iff list_all_iff)
qed

lemma ValidateMetadata_None:
  assumes "ValidateMetadata m requested = None"
  obtains issuer actual where "validateSecureURL (trim_right requested ''/'') True = Inr issuer"
    and "validateSecureURL (trim_right (md_issuer m) ''/'') True = Inr actual"
    and "url_string actual = url_string issuer"
    and "list_all (\<lambda>p. \<exists>u. validateSecureURL (snd p) (isLoopbackHost (Hostname issuer)) = Inr u) (required_endpoints m)"
    and "list_all (\<lambda>p. \<exists>u. validateSecureURL (snd p) (isLoopbackHost (Hostname issuer)) = Inr u) (optional_endpoints m)"
    and "set [''authorization_code'', ''refresh_token''] \<subseteq> set (md_grant_types m)"
    and "''S256'' \<in> set (md_challenge_methods m)" and "''none'' \<in> set (md_auth_methods m)"
  using assms
  by (auto simp: ValidateMetadata_def Let_def invalid_endpoint_None split: sum.splits if_splits option.splits)

text \<open>The calls of one process, which share the cache.\<close>

fun discover_all ::
  "metadata_cache \<Rightarrow> ((string \<Rightarrow> (int \<times> metadata option) option) \<times> string) list
    \<Rightarrow> (string \<times> (string + metadata)) list" where
  "discover_all cache [] = []"
| "discover_all cache ((fetch, issuer) # calls) = (case Discover fetch cache issuer of
     (result, cache') \<Rightarrow> (issuer, result) # discover_all cache' calls)"

definition cache_ok :: "metadata_cache \<Rightarrow> bool" where
  "cache_ok cache \<longleftrightarrow> list_all (\<lambda>p. ValidateMetadata (snd p) (fst p) = None) cache"

lemma cache_ok_set: "cache_ok cache \<Longrightarrow> ValidateMetadata m i = None \<Longrightarrow> cache_ok (gomap_set i m cache)"
  by (induction cache) (auto simp: cache_ok_def)

lemma cache_ok_lookup: "cache_ok cache \<Longrightarrow> map_of cache i = Some m \<Longrightarrow> ValidateMetadata m i = None"
  by (fastforce simp: cache_ok_def list_all_iff dest: map_of_SomeD)

lemma Discover_ok:
  assumes "cache_ok cache" and "Discover fetch cache issuer = (result, cache')"
  shows "cache_ok cache' \<and> (\<forall>m. result = Inr m \<longrightarrow> ValidateMetadata m (trim_right (trim_space issuer) ''/'') = None)"
  using assms cache_ok_lookup [OF assms(1)]
  by (auto simp: Discover_def Let_def intro: cache_ok_set split: option.splits sum.splits if_splits)

lemma discover_all_ok:
  "cache_ok cache \<Longrightarrow> (issuer, Inr m) \<in> set (discover_all cache calls) \<Longrightarrow>
   ValidateMetadata m (trim_right (trim_space issuer) ''/'') = None"
proof (induction cache calls rule: discover_all.induct)
  case (2 cache fetch i calls)
  obtain result cache' where d: "Discover fetch cache i = (result, cache')" by fastforce
  with 2 Discover_ok [OF 2(2) d] show ?case by auto
qed simp

text \<open>C23: Authorization codes and tokens are only ever sent to secure endpoints: whatever sequence of
  issuers a process discovers, with whatever answers and through the shared cache, each endpoint
  of a metadata document it gets is an absolute HTTPS URL without credentials and fragment, or
  plain HTTP at a loopback address when the issuer itself is at one; and the server takes part in
  PKCE with S256.\<close>

theorem discovered_endpoints_secure:
  assumes "(issuer, Inr m) \<in> set (discover_all [] calls)"
    and "raw \<in> {md_authorization_endpoint m, md_token_endpoint m}
      \<or> raw \<in> {md_userinfo_endpoint m, md_revocation_endpoint m} - {[]}"
  shows "''S256'' \<in> set (md_challenge_methods m)
    \<and> (\<exists>u i. Parse_url raw = Some u \<and> Parse_url (trim_right (trim_space issuer) ''/'') = Some i
      \<and> gu_host u \<noteq> [] \<and> gu_user u = None \<and> gu_fragment u = []
      \<and> (gu_scheme u = ''https'' \<or> gu_scheme u = ''http'' \<and> isLoopbackHost (Hostname u)
          \<and> isLoopbackHost (Hostname i)))"
proof -
  have "cache_ok []" by (simp add: cache_ok_def)
  from discover_all_ok [OF this assms(1)] show ?thesis
  proof (rule ValidateMetadata_None)
    fix i actual
    assume i: "validateSecureURL (trim_right (trim_right (trim_space issuer) ''/'') ''/'') True = Inr i"
      and req: "list_all (\<lambda>p. \<exists>u. validateSecureURL (snd p) (isLoopbackHost (Hostname i)) = Inr u) (required_endpoints m)"
      and opt: "list_all (\<lambda>p. \<exists>u. validateSecureURL (snd p) (isLoopbackHost (Hostname i)) = Inr u) (optional_endpoints m)"
      and s256: "''S256'' \<in> set (md_challenge_methods m)"
    have "\<exists>u. validateSecureURL raw (isLoopbackHost (Hostname i)) = Inr u"
      using assms(2) req opt by (auto simp: required_endpoints_def optional_endpoints_def split: if_splits)
    with i s256 show ?thesis unfolding validateSecureURL_Inr trim_right_idem by blast
  qed
qed

definition sample_metadata :: metadata where
  "sample_metadata = \<lparr>md_issuer = ''https://clerk.example/'', md_authorization_endpoint = ''https://clerk.example/a?x=1'',
     md_token_endpoint = ''https://clerk.example/t'', md_userinfo_endpoint = [], md_revocation_endpoint = [],
     md_grant_types = [''refresh_token'', ''authorization_code''], md_challenge_methods = [''S256''],
     md_auth_methods = [''none''], md_scopes = []\<rparr>"

definition sample_fetch :: "string \<Rightarrow> (int \<times> metadata option) option" where
  "sample_fetch url = (if url = ''https://clerk.example/.well-known/oauth-authorization-server''
     then Some (200, Some sample_metadata) else None)"

lemma sample_discovery:
  "discover_all [] [(sample_fetch, '' https://clerk.example/''), (\<lambda>url. None, ''https://clerk.example'')]
     = [('' https://clerk.example/'', Inr sample_metadata), (''https://clerk.example'', Inr sample_metadata)]"
  by code_simp

lemma discovered_endpoints_secure_witness:
  "\<exists>u. Parse_url ''https://clerk.example/t'' = Some u \<and> (gu_scheme u = ''https'' \<or> gu_scheme u = ''http'')"
proof -
  have "(''https://clerk.example'', Inr sample_metadata) \<in> set (discover_all []
      [(sample_fetch, '' https://clerk.example/''), (\<lambda>url. None, ''https://clerk.example'')])"
    unfolding sample_discovery by simp
  from discovered_endpoints_secure [OF this, of "''https://clerk.example/t''"] show ?thesis
    by (auto simp: sample_metadata_def)
qed

end
