(* ===== verification/Api_Client.thy ===== *)
theory Api_Client
  imports Oauth
begin

text \<open>
  \<^verbatim>\<open>internal/apiclient/client.go\<close>: access tokens and authenticated requests.  The
  client works on any credential store; its lemmas are proved in the locale of that interface and
  used for the store the program configures.  What other goroutines do to the store while a call
  waits for the account's lock is a function of the environment.
\<close>

subsection \<open>Access tokens\<close>

datatype refresh_error = Invalid_Grant | Refresh_Failed

datatype client_error = Not_Signed_In | Signed_Out | Store_Error store_error | Refresh_Error
  | Save_Error store_error | Transport_Error

record api_client =
  cl_issuer :: string
  cl_client_id :: string
  cl_expiry_skew :: int

definition minute :: int where
  "minute = 60 * 1000000000"

text \<open>\<^verbatim>\<open>defaults\<close>: a zero skew means a minute.\<close>

definition client_skew :: "api_client \<Rightarrow> int" where
  "client_skew cl = (if cl_expiry_skew cl = 0 then minute else cl_expiry_skew cl)"

definition client_account :: "api_client \<Rightarrow> string" where
  "client_account cl = Account (cl_issuer cl) (cl_client_id cl)"

record 's client_env =
  en_now :: "nat \<Rightarrow> int"
  en_others :: "'s \<Rightarrow> 's"
  en_refresh :: "string \<Rightarrow> string list \<Rightarrow> refresh_error + token_response"

definition get_error :: "store_error \<Rightarrow> client_error" where
  "get_error e = (case e of Not_Found \<Rightarrow> Not_Signed_In | Store_Failed m \<Rightarrow> Store_Error e)"

definition refreshed_credentials :: "oauth_credentials \<Rightarrow> token_response \<Rightarrow> oauth_credentials" where
  "refreshed_credentials latest t = latest\<lparr>oc_access_token := tr_access_token t,
     oc_token_type := tr_token_type t, oc_expires_at := tr_expires_at t,
     oc_scope := (if tr_scope t \<noteq> [] then tr_scope t else oc_scope latest),
     oc_refresh_token := (if tr_refresh_token t \<noteq> [] then tr_refresh_token t else oc_refresh_token latest)\<rparr>"

text \<open>The refresh under the account's lock: the result, the store and the refresh tokens used.\<close>

definition refresh_locked ::
  "'s store_ops \<Rightarrow> 's client_env \<Rightarrow> string \<Rightarrow> oauth_credentials \<Rightarrow> 's
    \<Rightarrow> (client_error + oauth_credentials) \<times> 's \<times> string list" where
  "refresh_locked ops V account latest s =
     (let used = [oc_refresh_token latest] in
      case en_refresh V (oc_refresh_token latest) (oc_scope latest) of
        Inl Invalid_Grant \<Rightarrow> (Inl Signed_Out, snd (st_delete ops s account), used)
      | Inl Refresh_Failed \<Rightarrow> (Inl Refresh_Error, s, used)
      | Inr t \<Rightarrow> (case st_set ops s account (refreshed_credentials latest t) of
            (Some e, s') \<Rightarrow> (Inl (Save_Error e), s', used)
          | (None, s') \<Rightarrow> (Inr (refreshed_credentials latest t), s', used)))"

definition credentials ::
  "'s store_ops \<Rightarrow> api_client \<Rightarrow> 's client_env \<Rightarrow> bool \<Rightarrow> 's
    \<Rightarrow> (client_error + oauth_credentials) \<times> 's \<times> string list" where
  "credentials ops cl V forceRefresh s =
     (let account = client_account cl; skew = client_skew cl in
      case st_get ops s account of
        Inl e \<Rightarrow> (Inl (get_error e), s, [])
      | Inr c \<Rightarrow>
          if \<not> forceRefresh \<and> en_now V 0 + skew < oc_expires_at c then (Inr c, s, [])
          else
            let s = en_others V s in
            case st_get ops s account of
              Inl e \<Rightarrow> (Inl (get_error e), s, [])
            | Inr latest \<Rightarrow>
                if \<not> forceRefresh \<and> en_now V 1 + skew < oc_expires_at latest then (Inr latest, s, [])
                else if forceRefresh \<and> oc_access_token latest \<noteq> oc_access_token c
                    \<and> en_now V 1 + skew < oc_expires_at latest then (Inr latest, s, [])
                else refresh_locked ops V account latest s)"

subsection \<open>Authenticated requests\<close>

text \<open>
  \<^verbatim>\<open>do\<close> and \<^verbatim>\<open>doWithHeaders\<close>: at most two attempts, the second with forced new
  credentials after a 401.  \<open>send\<close> gives the status of the response to the \<open>i\<close>-th request with a
  token, or a transport error; the result carries the tokens sent.
\<close>

fun attempts ::
  "nat \<Rightarrow> nat \<Rightarrow> 's store_ops \<Rightarrow> api_client \<Rightarrow> 's client_env \<Rightarrow> (nat \<Rightarrow> string \<Rightarrow> int option)
    \<Rightarrow> oauth_credentials \<Rightarrow> 's \<Rightarrow> string list \<Rightarrow> (client_error + int) \<times> 's \<times> string list" where
  "attempts 0 i ops cl V send c s sent = (Inl Transport_Error, s, sent)"
| "attempts (Suc n) i ops cl V send c s sent =
     (let sent = sent @ [oc_access_token c] in
      case send i (oc_access_token c) of
        None \<Rightarrow> (Inl Transport_Error, s, sent)
      | Some status \<Rightarrow>
          if status \<noteq> 401 \<or> i = 1 then (Inr status, s, sent)
          else (case credentials ops cl V True s of
              (Inl e, s', used) \<Rightarrow> (Inl e, s', sent)
            | (Inr c', s', used) \<Rightarrow> attempts n (Suc i) ops cl V send c' s' sent))"

definition do_request ::
  "'s store_ops \<Rightarrow> api_client \<Rightarrow> 's client_env \<Rightarrow> (nat \<Rightarrow> string \<Rightarrow> int option) \<Rightarrow> 's
    \<Rightarrow> (client_error + int) \<times> 's \<times> string list" where
  "do_request ops cl V send s = (case credentials ops cl V False s of
       (Inl e, s', used) \<Rightarrow> (Inl e, s', [])
     | (Inr c, s', used) \<Rightarrow> attempts 2 0 ops cl V send c s' [])"

record identity =
  me_user_id :: string
  me_authentication_method :: string

text \<open>\<^verbatim>\<open>Me\<close> and \<^verbatim>\<open>VerifyLogin\<close> on a response's status and the identity its JSON
  body decodes to.\<close>

definition accept_identity :: "int \<Rightarrow> identity option \<Rightarrow> identity option" where
  "accept_identity status body =
     (if status \<noteq> 200 then None
      else case body of None \<Rightarrow> None
        | Some me \<Rightarrow> if me_user_id me = [] \<or> me_authentication_method me \<noteq> ''clerk_oauth''
            then None else Some me)"

subsection \<open>Facts for every store\<close>

lemma refresh_locked_used:
  "refresh_locked ops V account latest s = (result, s', used) \<Longrightarrow> used = [oc_refresh_token latest]"
  by (auto simp: refresh_locked_def Let_def split: sum.splits refresh_error.splits prod.splits option.splits)

context credential_store begin

lemma refresh_locked_saves:
  assumes "ok s" and "refresh_locked ops V account latest s = (Inr c, s', used)" and "complete c"
  shows "st_get ops s' account = Inr c"
  using assms get_set [of s c account s']
  by (auto simp: refresh_locked_def Let_def split: sum.splits refresh_error.splits prod.splits option.splits)

lemma refresh_locked_signed_out:
  assumes "ok s" and "refresh_locked ops V account latest s = (Inl Signed_Out, s', used)"
    and "fst (st_delete ops s account) = None"
  shows "st_get ops s' account = Inl Not_Found"
  using assms get_deleted [of s account "snd (st_delete ops s account)"]
  by (auto simp: refresh_locked_def Let_def prod_eq_iff split: sum.splits refresh_error.splits prod.splits option.splits)

text \<open>The four ways a call for credentials can succeed or sign out.\<close>

lemma credentials_result:
  assumes "credentials ops cl V force s = (result, s', used)" and "ok (en_others V s)"
  shows "length used \<le> 1
    \<and> (case result of
         Inr c \<Rightarrow> used = [] \<and> (\<exists>n. en_now V n + client_skew cl < oc_expires_at c)
           \<or> (\<exists>latest t. st_get ops (en_others V s) (client_account cl) = Inr latest
               \<and> used = [oc_refresh_token latest]
               \<and> en_refresh V (oc_refresh_token latest) (oc_scope latest) = Inr t
               \<and> c = refreshed_credentials latest t
               \<and> (complete c \<longrightarrow> st_get ops s' (client_account cl) = Inr c))
       | Inl e \<Rightarrow> e = Signed_Out \<longrightarrow> fst (st_delete ops (en_others V s) (client_account cl)) = None
           \<longrightarrow> st_get ops s' (client_account cl) = Inl Not_Found)"
proof -
  let ?a = "client_account cl" and ?s = "en_others V s"
  have get_error: "get_error e \<noteq> Signed_Out" for e
    by (simp add: get_error_def split: store_error.split)
  have locked: "?thesis" if latest: "st_get ops ?s ?a = Inr latest"
    and locked: "refresh_locked ops V ?a latest ?s = (result, s', used)" for latest
  proof (cases result)
    case (Inl e)
    then show ?thesis
      using refresh_locked_used [OF locked] refresh_locked_signed_out [OF assms(2), of V ?a latest s' used] locked
      by auto
  next
    case (Inr c)
    then obtain t where "en_refresh V (oc_refresh_token latest) (oc_scope latest) = Inr t"
      "c = refreshed_credentials latest t"
      using locked
      by (auto simp: refresh_locked_def Let_def split: sum.splits refresh_error.splits prod.splits option.splits)
    then show ?thesis
      using Inr latest refresh_locked_used [OF locked] refresh_locked_saves [OF assms(2), of V ?a latest c s' used] locked
      by auto
  qed
  show ?thesis
  proof (cases "st_get ops s ?a")
    case (Inl e)
    then show ?thesis using assms(1) get_error [of e] by (auto simp: credentials_def Let_def)
  next
    case (Inr c)
    show ?thesis
    proof (cases "\<not> force \<and> en_now V 0 + client_skew cl < oc_expires_at c")
      case True
      then show ?thesis using assms(1) Inr by (auto simp: credentials_def Let_def)
    next
      case False
      show ?thesis
      proof (cases "st_get ops ?s ?a")
        case (Inl e)
        then show ?thesis using assms(1) Inr False get_error [of e] by (auto simp: credentials_def Let_def)
      next
        case latest: (Inr latest)
        show ?thesis
        proof (cases "(\<not> force \<or> oc_access_token latest \<noteq> oc_access_token c)
            \<and> en_now V 1 + client_skew cl < oc_expires_at latest")
          case True
          then show ?thesis using assms(1) Inr False latest
            by (auto simp: credentials_def Let_def split: if_splits)
        next
          case old: False
          then have "refresh_locked ops V ?a latest ?s = (result, s', used)"
            using assms(1) Inr False latest by (auto simp: credentials_def Let_def split: if_splits)
          with latest show ?thesis by (rule locked)
        qed
      qed
    qed
  qed
qed

end

subsection \<open>What the client promises\<close>

abbreviation app_store :: "bool \<Rightarrow> ext \<Rightarrow> (keyring \<times> file_system) store_ops" where
  "app_store allowFile E \<equiv> FallbackStore allowFile (KeyringStore E) (FileStore E)"


definition sample_client :: api_client where
  "sample_client = \<lparr>cl_issuer = ''https://issuer/'', cl_client_id = ''cli'', cl_expiry_skew = 10\<rparr>"

definition sample_client_env :: "(keyring \<times> file_system) client_env" where
  "sample_client_env = \<lparr>en_now = (\<lambda>n. 95), en_others = (\<lambda>s. s),
     en_refresh = (\<lambda>token scope. Inr \<lparr>tr_access_token = ''t2'', tr_refresh_token = ''r2'',
       tr_token_type = ''Bearer'', tr_scope = [], tr_expires_at = 500, tr_id_token = []\<rparr>)\<rparr>"

definition signed_in :: "keyring \<times> file_system" where
  "signed_in = (sample_keyring\<lparr>kr_down := False, kr_entries :=
     [(''oauth:https://issuer:cli'', Some (sample_credentials ''t1''))]\<rparr>, sample_files)"


text \<open>An authenticated request is sent at most twice: a second time only when the first answer was
  401 and new credentials could be obtained, and a 401 is given to the caller only after that
  second attempt.\<close>

theorem request_retried_once:
  assumes "do_request ops cl V send s = (result, s', sent)"
  shows "length sent \<le> 2
    \<and> (length sent = 2 \<longrightarrow> send 0 (sent ! 0) = Some 401)
    \<and> (case result of Inl e \<Rightarrow> True | Inr status \<Rightarrow>
         status \<noteq> 401 \<and> length sent = 1 \<and> send 0 (sent ! 0) = Some status
         \<or> length sent = 2 \<and> send 1 (sent ! 1) = Some status)"
proof -
  have two: "(2::nat) = Suc (Suc 0)" by simp
  show ?thesis
    using assms unfolding do_request_def two
    by (auto simp: Let_def split: prod.splits sum.splits option.splits if_splits)
qed

definition early :: "(keyring \<times> file_system) client_env" where
  "early = sample_client_env\<lparr>en_now := (\<lambda>n. 0)\<rparr>"

lemma early_credentials:
  "credentials (app_store False sample_ext) sample_client early False signed_in
     = (Inr (sample_credentials ''t1''), signed_in, [])"
  "\<exists>s' used. credentials (app_store False sample_ext) sample_client early True signed_in
     = (Inr (refreshed_credentials (sample_credentials ''t1'') \<lparr>tr_access_token = ''t2'',
          tr_refresh_token = ''r2'', tr_token_type = ''Bearer'', tr_scope = [], tr_expires_at = 500, tr_id_token = []\<rparr>), s', used)"
proof -
  have account: "client_account sample_client = ''oauth:https://issuer:cli''" by code_simp
  have old: "complete_credentials sample_ext (sample_credentials ''t1'')" by code_simp
  have get: "fallback_Get False (KeyringStore sample_ext) (FileStore sample_ext) signed_in (client_account sample_client)
      = Inr (sample_credentials ''t1'')"
    using old by (simp add: signed_in_def fallback_up(3) sample_keyring_def account)
  show "credentials (app_store False sample_ext) sample_client early False signed_in
     = (Inr (sample_credentials ''t1''), signed_in, [])"
    using get by (simp add: credentials_def FallbackStore_def early_def Let_def client_skew_def
        sample_client_def sample_credentials_def)
  show "\<exists>s' used. credentials (app_store False sample_ext) sample_client early True signed_in
     = (Inr (refreshed_credentials (sample_credentials ''t1'') \<lparr>tr_access_token = ''t2'',
          tr_refresh_token = ''r2'', tr_token_type = ''Bearer'', tr_scope = [], tr_expires_at = 500, tr_id_token = []\<rparr>), s', used)"
    using get by (simp add: credentials_def FallbackStore_def early_def sample_client_env_def Let_def
        refresh_locked_def signed_in_def fallback_up(1) sample_keyring_def keyring_takes_all_def)
qed

definition expired_once :: "nat \<Rightarrow> string \<Rightarrow> int option" where
  "expired_once i token = Some (if i = 0 then 401 else 200)"

lemma request_retried_once_witness:
  "\<exists>s'. do_request (app_store False sample_ext) sample_client early expired_once signed_in
      = (Inr 200, s', [''t1'', ''t2'']) \<and> expired_once 1 ''t2'' = Some 200"
proof -
  have two: "(2::nat) = Suc (Suc 0)" by simp
  have "\<exists>s'. do_request (app_store False sample_ext) sample_client early expired_once signed_in
      = (Inr 200, s', [''t1'', ''t2''])"
    using early_credentials(2)
    by (auto simp: do_request_def early_credentials(1) two sample_credentials_def
        refreshed_credentials_def expired_once_def)
  then obtain s' where r: "do_request (app_store False sample_ext) sample_client early expired_once signed_in
      = (Inr 200, s', [''t1'', ''t2''])" by blast
  from request_retried_once [OF r] have "expired_once 1 ''t2'' = Some 200" by simp
  with r show ?thesis by blast
qed

end
