(* ===== verification/Api_Sessions.thy ===== *)
theory Api_Sessions
  imports Go_Url Tunnel_Protocol
begin

text \<open>
  \<^verbatim>\<open>internal/apiclient/tunnel_session.go\<close> and
  \<^verbatim>\<open>dependency_capture_session.go\<close>: what the agent accepts from the control plane
  before it presents a ticket to the address it was given, and the classification of API errors.
  JSON decoding and the HTTP exchange itself are not part of this theory.
\<close>

subsection \<open>Requests, responses and errors\<close>

record tunnel_session_request =
  tq_endpoint_name :: string
  tq_protocol :: string
  tq_local_port :: int
  tq_protocol_version :: int

record endpoint_response =
  ep_id :: string
  ep_name :: string
  ep_hostname :: string
  ep_public_url :: string

record tunnel_response =
  tn_session_id :: string
  tn_connect_url :: string
  tn_ticket :: string
  tn_expires_at :: int
  tn_protocol_version :: int

record session_validation =
  sv_gateway_hosts :: "string list"
  sv_allow_insecure_local :: bool
  sv_now :: int

record problem =
  pb_status :: int
  pb_code :: string
  pb_message :: string
  pb_request_id :: string

datatype api_error = Api_Error problem | Network_Error | Other_Error

definition TunnelProtocolVersion :: int where
  "TunnelProtocolVersion = 1"

definition IsTemporarySessionConflict :: "api_error \<Rightarrow> bool" where
  "IsTemporarySessionConflict err = (case err of
       Api_Error p \<Rightarrow> pb_status p = 409
         \<and> (pb_code p = ''endpoint_already_connected'' \<or> pb_code p = ''tunnel_session_pending'')
     | _ \<Rightarrow> False)"

definition IsRetryable :: "api_error \<Rightarrow> bool" where
  "IsRetryable err =
     (if IsTemporarySessionConflict err then True
      else case err of
        Api_Error p \<Rightarrow> pb_status p = 429 \<or> pb_status p = 502 \<or> pb_status p = 503 \<or> pb_status p = 504
      | Network_Error \<Rightarrow> True
      | Other_Error \<Rightarrow> False)"

subsection \<open>Error texts\<close>

definition sanitizeErrorText :: "string \<Rightarrow> string" where
  "sanitizeErrorText value =
     (let value = join_with '' '' (split_fields value); rs = runes value
      in if 512 < length rs then concat (map encode_rune (take 512 rs)) else value)"

definition request_id_rune :: "nat \<Rightarrow> nat \<Rightarrow> bool" where
  "request_id_rune index r \<longleftrightarrow> 97 \<le> r \<and> r \<le> 122 \<or> 65 \<le> r \<and> r \<le> 90 \<or> 48 \<le> r \<and> r \<le> 57
     \<or> 0 < index \<and> r \<in> {46, 95, 58, 45}"

text \<open>The loop over the runes; only the first has index zero.\<close>

definition safeRequestID :: "string \<Rightarrow> bool" where
  "safeRequestID value \<longleftrightarrow> \<not> (length value < 1 \<or> 64 < length value)
     \<and> (case runes value of [] \<Rightarrow> True
        | r # rs \<Rightarrow> request_id_rune 0 r \<and> list_all (request_id_rune 1) rs)"

definition api_error_text :: "problem \<Rightarrow> string" where
  "api_error_text p =
     (let message = sanitizeErrorText (pb_message p);
          message = (if message = [] then ''Mockingo API rejected the tunnel session request'' else message)
      in if safeRequestID (pb_request_id p)
         then message @ '' (request ID: '' @ pb_request_id p @ '')'' else message)"

text \<open>The problem of a response: the body's fields, the response's own status, and the request ID of
  the header where that is safe.\<close>

definition response_problem :: "int \<Rightarrow> string \<Rightarrow> problem option \<Rightarrow> problem" where
  "response_problem status headerRequestID body =
     (let p = (case body of None \<Rightarrow> \<lparr>pb_status = status, pb_code = [], pb_message = [], pb_request_id = []\<rparr>
               | Some b \<Rightarrow> b\<lparr>pb_status := status\<rparr>)
      in if safeRequestID headerRequestID then p\<lparr>pb_request_id := headerRequestID\<rparr> else p)"

subsection \<open>Validation of sessions\<close>

definition hostname_rune :: "nat \<Rightarrow> bool" where
  "hostname_rune r \<longleftrightarrow> 97 \<le> r \<and> r \<le> 122 \<or> 65 \<le> r \<and> r \<le> 90 \<or> 48 \<le> r \<and> r \<le> 57 \<or> r = 45"

definition validHostname :: "string \<Rightarrow> bool" where
  "validHostname value =
     (if length value = 0 \<or> 253 < length value \<or> prefix ''.'' value \<or> suffix ''.'' value
         \<or> parse_ip value \<noteq> None then False
      else list_all (\<lambda>label. \<not> (length label = 0 \<or> 63 < length label \<or> hd label = CHR ''-''
             \<or> last label = CHR ''-'') \<and> list_all hostname_rune (runes label))
           (split_on CHR ''.'' value))"

definition local_host :: "string \<Rightarrow> bool" where
  "local_host host \<longleftrightarrow> host = ''localhost'' \<or> host = ''127.0.0.1'' \<or> host = ''::1''"

datatype gateway_verdict = Gateway_Invalid | Gateway_Untrusted | Gateway_Insecure | Gateway_IP | Gateway_OK

text \<open>The checks of a gateway URL, which both validations make with their own path.\<close>

definition gateway_check :: "ext \<Rightarrow> session_validation \<Rightarrow> string \<Rightarrow> string \<Rightarrow> gateway_verdict" where
  "gateway_check E v path rawURL = (case ParseRequestURI rawURL of
       None \<Rightarrow> Gateway_Invalid
     | Some connectURL \<Rightarrow>
         if gu_host connectURL = [] \<or> gu_user connectURL \<noteq> None \<or> gu_fragment connectURL \<noteq> []
            \<or> gu_raw_query connectURL \<noteq> [] \<or> gu_path connectURL \<noteq> path then Gateway_Invalid
         else
           let host = to_lower E (Hostname connectURL) in
           if \<not> list_ex (\<lambda>allowed. equal_fold E (trim_space allowed) host) (sv_gateway_hosts v)
             then Gateway_Untrusted
           else if gu_scheme connectURL \<noteq> ''wss''
              \<and> (\<not> sv_allow_insecure_local v \<or> \<not> local_host host \<or> gu_scheme connectURL \<noteq> ''ws'')
             then Gateway_Insecure
           else if parse_ip host \<noteq> None \<and> \<not> sv_allow_insecure_local v then Gateway_IP
           else Gateway_OK)"

definition gateway_text :: "string \<Rightarrow> gateway_verdict \<Rightarrow> string option" where
  "gateway_text subject verdict = (case verdict of
       Gateway_Invalid \<Rightarrow> Some (''gateway '' @ subject @ '' URL is invalid'')
     | Gateway_Untrusted \<Rightarrow> Some (''gateway '' @ subject @ '' URL host is not trusted'')
     | Gateway_Insecure \<Rightarrow> Some (''gateway '' @ subject @ '' URL must use wss'')
     | Gateway_IP \<Rightarrow> Some (''gateway '' @ subject @ '' URL must not use an IP address'')
     | Gateway_OK \<Rightarrow> None)"

text \<open>Whether the public URL is plain HTTPS at the endpoint's hostname.\<close>

definition public_url_ok :: "ext \<Rightarrow> string \<Rightarrow> string \<Rightarrow> bool" where
  "public_url_ok E rawURL hostname = (case ParseRequestURI rawURL of
       None \<Rightarrow> False
     | Some u \<Rightarrow> \<not> (gu_scheme u \<noteq> ''https'' \<or> gu_user u \<noteq> None \<or> Port u \<noteq> [] \<or> gu_raw_query u \<noteq> []
         \<or> gu_fragment u \<noteq> [] \<or> \<not> equal_fold E (Hostname u) hostname))"

definition ValidateTunnelSession ::
  "ext \<Rightarrow> tunnel_session_request \<Rightarrow> endpoint_response \<Rightarrow> tunnel_response \<Rightarrow> session_validation
    \<Rightarrow> string option" where
  "ValidateTunnelSession E request endpoint tunnel v =
     (if tq_protocol request \<noteq> ''http'' \<or> tq_local_port request < 1 \<or> 65535 < tq_local_port request
        then Some ''unsupported local tunnel target''
      else if ep_id endpoint = [] then Some ''endpoint ID is missing''
      else if ep_name endpoint \<noteq> tq_endpoint_name request
        then Some ''endpoint name does not match the request''
      else if \<not> validHostname (ep_hostname endpoint)
          \<or> \<not> equal_fold E (ep_hostname endpoint) (tq_endpoint_name request @ ''.mockingo.click'')
        then Some ''endpoint hostname is not a valid mockingo.click hostname''
      else if \<not> public_url_ok E (ep_public_url endpoint) (ep_hostname endpoint)
        then Some ''public URL must be HTTPS and match the endpoint hostname''
      else if tn_session_id tunnel = [] then Some ''session ID is missing''
      else if tn_ticket tunnel = [] then Some ''tunnel ticket is missing''
      else if \<not> sv_now v < tn_expires_at tunnel then Some ''tunnel ticket is expired''
      else if tq_protocol_version request \<noteq> TunnelProtocolVersion
          \<or> tn_protocol_version tunnel \<noteq> TunnelProtocolVersion
          \<or> tn_protocol_version tunnel \<noteq> tq_protocol_version request
        then Some ''unsupported tunnel protocol version''
      else gateway_text ''connect'' (gateway_check E v ''/v1/connect'' (tn_connect_url tunnel)))"

record capture_session_response =
  cv_endpoint_id :: string
  cv_endpoint_name :: string
  cv_session_id :: string
  cv_connect_url :: string
  cv_ticket :: string
  cv_expires_at :: int
  cv_protocol_version :: int

definition validateDependencyCaptureSession ::
  "ext \<Rightarrow> string \<Rightarrow> capture_session_response \<Rightarrow> session_validation \<Rightarrow> string option" where
  "validateDependencyCaptureSession E endpointName r v =
     (if \<not> uuid_ok E (cv_endpoint_id r) \<or> cv_endpoint_name r \<noteq> endpointName
          \<or> \<not> uuid_ok E (cv_session_id r) \<or> cv_ticket r = [] \<or> \<not> sv_now v < cv_expires_at r
          \<or> cv_protocol_version r \<noteq> 1
        then Some ''capture session identity is invalid''
      else gateway_text ''capture'' (gateway_check E v ''/v1/dependency-capture/connect'' (cv_connect_url r)))"

subsection \<open>Facts\<close>

lemma hostname_rune_byte: "hostname_rune (byte c) \<longleftrightarrow> label_char c"
  using label_rune_byte [of c] by (simp add: hostname_rune_def label_rune_def)

lemma validHostname_bytes [code]:
  "validHostname h \<longleftrightarrow> h \<noteq> [] \<and> length h \<le> 253 \<and> \<not> prefix ''.'' h \<and> \<not> suffix ''.'' h \<and> parse_ip h = None
     \<and> list_all valid_label (split_on CHR ''.'' h)"
proof -
  have "list_all hostname_rune (runes l) = list_all label_char l" for l
    by (subst runes_all_ascii) (simp_all add: hostname_rune_byte, simp add: hostname_rune_def)
  then show ?thesis by (auto simp: validHostname_def valid_label_iff list_all_iff)
qed

lemma validHostname_dependency: "validHostname h \<Longrightarrow> validDependencyHost h"
proof -
  assume h: "validHostname h"
  then have labels: "list_all valid_label (split_on CHR ''.'' h)" and h': "h \<noteq> []" "length h \<le> 253"
    by (auto simp: validHostname_bytes)
  have "host_char c" if "c \<in> set h" for c
    using labels that set_split_on [of h "CHR ''.''"]
    by (fastforce simp: list_all_iff valid_label_iff host_char_def)
  moreover have "\<not> host_char c" if "c \<in> set host_specials" for c
    using that by (auto simp: host_specials_def blanks_def host_char_def label_char_def
        is_lower_def is_upper_def is_digit_def)
  ultimately have "\<not> contains_any h host_specials" by (auto simp: contains_any_iff)
  with labels h' show ?thesis by (simp add: validDependencyHost_def)
qed

lemma gateway_OK:
  assumes "gateway_check E v path raw = Gateway_OK"
  obtains u where "ParseRequestURI raw = Some u" "gu_host u \<noteq> []" "gu_user u = None" "gu_raw_query u = []"
    "gu_path u = path"
    "\<exists>allowed \<in> set (sv_gateway_hosts v). equal_fold E (trim_space allowed) (to_lower E (Hostname u))"
    "gu_scheme u = ''wss'' \<or> sv_allow_insecure_local v \<and> gu_scheme u = ''ws'' \<and> local_host (to_lower E (Hostname u))"
    "sv_allow_insecure_local v \<or> parse_ip (to_lower E (Hostname u)) = None"
  using assms
  by (auto simp: gateway_check_def Let_def list_ex_iff split: option.splits if_splits)

lemma gateway_text_None: "gateway_text s x = None \<longleftrightarrow> x = Gateway_OK"
  by (cases x) (simp_all add: gateway_text_def)

text \<open>C11: A ticket only goes to a trusted gateway: when a tunnel session or a capture session is
  accepted, its ticket is present and not expired, and the address it will be sent to is a URL with
  the session's own path, without user information or query, whose host is one of the configured
  gateway hosts; unless insecure local gateways are allowed (and then only for loopback names) the
  scheme is wss and the host is not an IP address.\<close>

theorem tickets_go_to_trusted_gateways:
  assumes "ValidateTunnelSession E request endpoint tunnel v = None \<and> raw = tn_connect_url tunnel
       \<and> path = ''/v1/connect'' \<and> ticket = tn_ticket tunnel \<and> expires = tn_expires_at tunnel
    \<or> validateDependencyCaptureSession E name r v = None \<and> raw = cv_connect_url r
       \<and> path = ''/v1/dependency-capture/connect'' \<and> ticket = cv_ticket r \<and> expires = cv_expires_at r"
  shows "ticket \<noteq> [] \<and> sv_now v < expires \<and> (\<exists>u. ParseRequestURI raw = Some u \<and> gu_path u = path
      \<and> gu_host u \<noteq> [] \<and> gu_user u = None \<and> gu_raw_query u = []
      \<and> list_ex (\<lambda>allowed. equal_fold E (trim_space allowed) (to_lower E (Hostname u))) (sv_gateway_hosts v)
      \<and> (if sv_allow_insecure_local v
         then gu_scheme u = ''wss'' \<or> gu_scheme u = ''ws'' \<and> local_host (to_lower E (Hostname u))
         else gu_scheme u = ''wss'' \<and> parse_ip (to_lower E (Hostname u)) = None))"
proof -
  have "gateway_check E v path raw = Gateway_OK \<and> ticket \<noteq> [] \<and> sv_now v < expires"
    using assms by (auto simp: ValidateTunnelSession_def validateDependencyCaptureSession_def
        gateway_text_None split: if_splits)
  then show ?thesis by (auto elim!: gateway_OK simp: list_ex_iff)
qed

definition sample_validation :: session_validation where
  "sample_validation = \<lparr>sv_gateway_hosts = ['' Gateway.mockingo.click''], sv_allow_insecure_local = False, sv_now = 10\<rparr>"

definition sample_tunnel_request :: tunnel_session_request where
  "sample_tunnel_request = \<lparr>tq_endpoint_name = ''demo'', tq_protocol = ''http'', tq_local_port = 3000,
     tq_protocol_version = 1\<rparr>"

definition sample_endpoint :: endpoint_response where
  "sample_endpoint = \<lparr>ep_id = ''e'', ep_name = ''demo'', ep_hostname = ''Demo.mockingo.click'',
     ep_public_url = ''https://demo.mockingo.click/''\<rparr>"

definition sample_tunnel :: tunnel_response where
  "sample_tunnel = \<lparr>tn_session_id = ''s'', tn_connect_url = ''wss://gateway.mockingo.click:443/v1/connect'',
     tn_ticket = ''t'', tn_expires_at = 20, tn_protocol_version = 1\<rparr>"

lemma sample_tunnel_accepted:
  "ValidateTunnelSession sample_ext sample_tunnel_request sample_endpoint sample_tunnel sample_validation = None"
  by code_simp

lemma tickets_go_to_trusted_gateways_witness:
  "\<exists>u. ParseRequestURI (tn_connect_url sample_tunnel) = Some u \<and> gu_scheme u = ''wss''"
proof -
  have "ValidateTunnelSession sample_ext sample_tunnel_request sample_endpoint sample_tunnel sample_validation = None
      \<and> tn_connect_url sample_tunnel = tn_connect_url sample_tunnel
      \<and> ''/v1/connect'' = ''/v1/connect'' \<and> tn_ticket sample_tunnel = tn_ticket sample_tunnel
      \<and> tn_expires_at sample_tunnel = tn_expires_at sample_tunnel"
    using sample_tunnel_accepted by simp
  from tickets_go_to_trusted_gateways [OF disjI1, OF this] show ?thesis
    by (auto simp: sample_validation_def)
qed

text \<open>The public address of an accepted tunnel is the endpoint's own: the hostname is a valid
  host name that is no IP address and equals the requested name under mockingo.click up to case,
  and the public URL is plain HTTPS at that host.\<close>

theorem public_address_is_the_endpoints:
  assumes "ValidateTunnelSession E request endpoint tunnel v = None"
  shows "validDependencyHost (ep_hostname endpoint) \<and> parse_ip (ep_hostname endpoint) = None
    \<and> equal_fold E (ep_hostname endpoint) (tq_endpoint_name request @ ''.mockingo.click'')
    \<and> (\<exists>u. ParseRequestURI (ep_public_url endpoint) = Some u \<and> gu_scheme u = ''https''
        \<and> gu_user u = None \<and> Port u = [] \<and> gu_raw_query u = []
        \<and> equal_fold E (Hostname u) (tq_endpoint_name request @ ''.mockingo.click''))"
proof -
  have h: "validHostname (ep_hostname endpoint)"
    "equal_fold E (ep_hostname endpoint) (tq_endpoint_name request @ ''.mockingo.click'')"
    "public_url_ok E (ep_public_url endpoint) (ep_hostname endpoint)"
    using assms by (auto simp: ValidateTunnelSession_def split: if_splits)
  then show ?thesis
    using validHostname_dependency [OF h(1)] equal_fold_trans [OF _ h(2)]
    by (auto simp: validHostname_bytes public_url_ok_def split: option.splits)
qed

lemma public_address_is_the_endpoints_witness:
  "validDependencyHost (ep_hostname sample_endpoint) \<and> parse_ip (ep_hostname sample_endpoint) = None"
  using public_address_is_the_endpoints [OF sample_tunnel_accepted] by blast

text \<open>Text from the control plane that is shown to the user is bounded and harmless: a request ID is
  shown only if it has 1 to 64 characters, all letters, digits, dots, underscores, colons and
  hyphens, so that no control character or line break can come with it.\<close>

theorem safeRequestID_characters:
  "safeRequestID value \<longleftrightarrow> 1 \<le> length value \<and> length value \<le> 64
     \<and> list_all (\<lambda>c. is_lower c \<or> is_upper c \<or> is_digit c \<or> c \<in> set ''._:-'') value
     \<and> (is_lower (hd value) \<or> is_upper (hd value) \<or> is_digit (hd value))"
proof (cases "value")
  case Nil
  then show ?thesis by (simp add: safeRequestID_def)
next
  case (Cons c s)
  have later: "request_id_rune 1 (byte d) \<longleftrightarrow> is_lower d \<or> is_upper d \<or> is_digit d \<or> d \<in> set ''._:-''" for d
    using byte_eq_iff [of d "CHR ''.''"] byte_eq_iff [of d "CHR ''_''"] byte_eq_iff [of d "CHR '':''"]
      byte_eq_iff [of d "CHR ''-''"]
    by (auto simp: request_id_rune_def is_lower_def is_upper_def is_digit_def)
  have first: "request_id_rune 0 (byte d) \<longleftrightarrow> is_lower d \<or> is_upper d \<or> is_digit d" for d
    by (auto simp: request_id_rune_def is_lower_def is_upper_def is_digit_def)
  have rest: "list_all (request_id_rune 1) (runes s)
      = list_all (\<lambda>c. is_lower c \<or> is_upper c \<or> is_digit c \<or> c \<in> set ''._:-'') s"
    by (subst runes_all_ascii) (simp_all only: later, simp add: request_id_rune_def)
  show ?thesis
  proof (cases "is_ascii c")
    case True
    then have "runes value = byte c # runes s" by (simp add: Cons runes_ascii_Cons)
    then show ?thesis using rest first [of c] by (auto simp: safeRequestID_def Cons)
  next
    case False
    then have "\<not> (is_lower c \<or> is_upper c \<or> is_digit c)"
      by (auto simp: is_ascii_def is_lower_def is_upper_def is_digit_def)
    moreover obtain r rs where r: "runes value = r # rs" "128 \<le> r"
      using decode_rune_non_ascii [of c s] False by (auto simp: Cons runes.simps)
    moreover have "\<not> request_id_rune 0 r" using r(2) by (simp add: request_id_rune_def)
    ultimately show ?thesis by (simp add: safeRequestID_def Cons)
  qed
qed

end
