(* ===== verification/Oauth_Tokens.thy ===== *)
theory Oauth_Tokens
  imports Api_Client
begin

text \<open>
  What token requests send and what their answers are worth (\<^verbatim>\<open>ExchangeCode\<close>,
  \<^verbatim>\<open>Refresh\<close> and \<^verbatim>\<open>ParseTokenResponse\<close> of \<^verbatim>\<open>internal/oauth/oauth.go\<close>), and
  the composition with the API client that stores them.
\<close>

subsection \<open>What is sent\<close>

lemma TokenRequest_depends:
  assumes "post endpoint (values_encode vs) = post' endpoint (values_encode vs)"
  shows "TokenRequest E post endpoint vs now scopes requireRefresh = TokenRequest E post' endpoint vs now scopes requireRefresh"
  unfolding TokenRequest_def assms ..

lemma encode_single:
  assumes "wf_gomap vs" and "map_of vs k = Some [v]"
  shows "map_of (parse_query (values_encode vs)) k = Some [v]"
  using parse_encode [OF assms(1)] assms(2) by simp

definition exchange_form :: "string \<Rightarrow> string \<Rightarrow> string \<Rightarrow> string \<Rightarrow> url_values" where
  "exchange_form clientID code verifier redirectURI =
     [(''grant_type'', [''authorization_code'']), (''client_id'', [clientID]), (''code'', [code]),
      (''code_verifier'', [verifier]), (''redirect_uri'', [redirectURI])]"

definition refresh_form :: "string \<Rightarrow> string \<Rightarrow> url_values" where
  "refresh_form clientID refreshToken = [(''grant_type'', [''refresh_token'']), (''client_id'', [clientID]),
     (''refresh_token'', [refreshToken])]"

lemma exchange_form_values:
  "wf_gomap (exchange_form clientID code verifier redirectURI)"
  "map_of (exchange_form clientID code verifier redirectURI) ''code'' = Some [code]"
  "map_of (exchange_form clientID code verifier redirectURI) ''code_verifier'' = Some [verifier]"
  "map_of (exchange_form clientID code verifier redirectURI) ''redirect_uri'' = Some [redirectURI]"
  "map_of (exchange_form clientID code verifier redirectURI) ''grant_type'' = Some [''authorization_code'']"
  by (simp_all add: exchange_form_def wf_gomap_def)

lemma refresh_form_values:
  "wf_gomap (refresh_form clientID refreshToken)"
  "map_of (refresh_form clientID refreshToken) ''refresh_token'' = Some [refreshToken]"
  "map_of (refresh_form clientID refreshToken) ''grant_type'' = Some [''refresh_token'']"
  by (simp_all add: refresh_form_def wf_gomap_def)

text \<open>The secrets of a login go to the token endpoint and nowhere else: the outcome of a code exchange
  depends on a single request, a form posted to the discovered token endpoint from which the server
  reads the code, the PKCE verifier and the redirect URI unchanged.\<close>

theorem secrets_sent_to_token_endpoint:
  "\<exists>body. (\<forall>post post'. post (md_token_endpoint m) body = post' (md_token_endpoint m) body \<longrightarrow>
        ExchangeCode E post now m clientID code verifier redirectURI scopes
          = ExchangeCode E post' now m clientID code verifier redirectURI scopes)
     \<and> map_of (parse_query body) ''grant_type'' = Some [''authorization_code'']
     \<and> map_of (parse_query body) ''code'' = Some [code]
     \<and> map_of (parse_query body) ''code_verifier'' = Some [verifier]
     \<and> map_of (parse_query body) ''redirect_uri'' = Some [redirectURI]"
proof -
  note x = exchange_form_values [of clientID code verifier redirectURI]
  show ?thesis
    using encode_single [OF x(1,2)] encode_single [OF x(1,3)] encode_single [OF x(1,4)] encode_single [OF x(1,5)]
    unfolding ExchangeCode_def exchange_form_def [symmetric]
    by (intro exI [of _ "values_encode (exchange_form clientID code verifier redirectURI)"])
      (blast intro: TokenRequest_depends)
qed

lemma refresh_sends_only_its_token:
  "\<exists>body. (\<forall>post post'. post (md_token_endpoint m) body = post' (md_token_endpoint m) body \<longrightarrow>
        Refresh E post now m clientID refreshToken scopes = Refresh E post' now m clientID refreshToken scopes)
     \<and> map_of (parse_query body) ''grant_type'' = Some [''refresh_token'']
     \<and> map_of (parse_query body) ''refresh_token'' = Some [refreshToken]"
proof -
  note r = refresh_form_values [of clientID refreshToken]
  show ?thesis
    using encode_single [OF r(1,2)] encode_single [OF r(1,3)]
    unfolding Refresh_def refresh_form_def [symmetric]
    by (intro exI [of _ "values_encode (refresh_form clientID refreshToken)"]) (blast intro: TokenRequest_depends)
qed

definition sample_raw :: "string \<Rightarrow> raw_token_response" where
  "sample_raw lifetime = \<lparr>rw_access_token = ''at'', rw_refresh_token = ''rt'', rw_token_type = ''bearer'',
     rw_scope = Scope_Text ''openid profile'', rw_expires_in = lifetime, rw_id_token = [], rw_error = [],
     rw_description = []\<rparr>"

lemma secrets_sent_to_token_endpoint_witness:
  "\<exists>body. map_of (parse_query body) ''code'' = Some [''a&b=c''] \<and>
     ExchangeCode sample_ext (\<lambda>url b. if url = ''https://clerk.example/t'' \<and> b = body then Some (200, Some (sample_raw ''60'')) else None)
       0 sample_metadata ''cli'' ''a&b=c'' ''v'' ''r'' [''openid'']
     = ExchangeCode sample_ext (\<lambda>url b. Some (200, Some (sample_raw ''60'')))
       0 sample_metadata ''cli'' ''a&b=c'' ''v'' ''r'' [''openid'']"
proof -
  have t: "md_token_endpoint sample_metadata = ''https://clerk.example/t''" by (simp add: sample_metadata_def)
  obtain body where b: "\<And>post post'. post ''https://clerk.example/t'' body = post' ''https://clerk.example/t'' body \<Longrightarrow>
        ExchangeCode sample_ext post 0 sample_metadata ''cli'' ''a&b=c'' ''v'' ''r'' [''openid'']
          = ExchangeCode sample_ext post' 0 sample_metadata ''cli'' ''a&b=c'' ''v'' ''r'' [''openid'']"
    and code: "map_of (parse_query body) ''code'' = Some [''a&b=c'']"
    using secrets_sent_to_token_endpoint [of sample_metadata sample_ext 0 "''cli''" "''a&b=c''" "''v''" "''r''" "[''openid'']"]
    unfolding t by metis
  show ?thesis by (rule exI [of _ body], rule conjI, rule code, rule b) simp
qed

subsection \<open>What an answer is worth\<close>

lemma granted_scopes_Inr:
  "granted_scopes scopes requested = Inr given \<longleftrightarrow>
     (if scopes = [] then given = requested else given = scopes \<and> set requested \<subseteq> set scopes)"
  by (auto simp: granted_scopes_def find_None_iff find_Some_iff split: option.splits dest: subsetD [OF _ nth_mem])

lemma ParseTokenResponse_Inr:
  "ParseTokenResponse E body now requested requireRefresh = Inr t \<longleftrightarrow>
   (\<exists>raw seconds scopes given. body = Some raw \<and> rw_error raw = [] \<and> rw_access_token raw \<noteq> []
      \<and> equal_fold E (rw_token_type raw) ''Bearer'' \<and> atoi (rw_expires_in raw) = Some seconds \<and> 0 < seconds
      \<and> (requireRefresh \<longrightarrow> rw_refresh_token raw \<noteq> []) \<and> parseScope (rw_scope raw) = Some scopes
      \<and> granted_scopes scopes requested = Inr given
      \<and> t = \<lparr>tr_access_token = rw_access_token raw, tr_refresh_token = rw_refresh_token raw,
            tr_token_type = ''Bearer'', tr_scope = given, tr_expires_at = expiry now seconds,
            tr_id_token = rw_id_token raw\<rparr>)"
  by (auto simp: ParseTokenResponse_def split: option.splits sum.splits)

lemma expiry_exact:
  assumes "0 < seconds" and "seconds \<le> 9223372036"
  shows "expiry now seconds = now + seconds * 1000000000"
  using assms by (simp add: expiry_def wrap64_id)

text \<open>A granted token is what was asked for: when a token response is accepted, the access token is
  present, every requested scope is granted, a refresh token is present where offline access needs
  it, and the token expires exactly its announced lifetime from now as long as that is at most
  9223372036 seconds.\<close>

theorem accepted_token_grants_request:
  assumes "ParseTokenResponse E (Some raw) now requested requireRefresh = Inr t"
    and "atoi (rw_expires_in raw) = Some seconds" and "seconds \<le> 9223372036"
  shows "tr_access_token t = rw_access_token raw \<and> tr_access_token t \<noteq> [] \<and> tr_token_type t = ''Bearer''
    \<and> set requested \<subseteq> set (tr_scope t) \<and> (requireRefresh \<longrightarrow> tr_refresh_token t \<noteq> [])
    \<and> tr_expires_at t = now + seconds * 1000000000 \<and> now < tr_expires_at t"
  using assms by (auto simp: ParseTokenResponse_Inr granted_scopes_Inr expiry_exact split: if_splits)

lemma accepted_token_grants_request_witness:
  "\<exists>t. ParseTokenResponse sample_ext (Some (sample_raw ''3600'')) 5 [''profile''] True = Inr t
     \<and> tr_expires_at t = 3600000000005 \<and> tr_scope t = [''openid'', ''profile'']"
proof -
  have "map_sum (\<lambda>e. ()) (\<lambda>t. tr_scope t)
      (ParseTokenResponse sample_ext (Some (sample_raw ''3600'')) 5 [''profile''] True) = Inr [''openid'', ''profile'']"
    by code_simp
  then obtain t where t: "ParseTokenResponse sample_ext (Some (sample_raw ''3600'')) 5 [''profile''] True = Inr t"
    "tr_scope t = [''openid'', ''profile'']"
    by (cases "ParseTokenResponse sample_ext (Some (sample_raw ''3600'')) 5 [''profile''] True") auto
  have "atoi (rw_expires_in (sample_raw ''3600'')) = Some 3600" by code_simp
  from accepted_token_grants_request [OF t(1) this] t show ?thesis by auto
qed

text \<open>Beyond that bound the lifetime is misread: the seconds are multiplied as a 64-bit duration
  without a check, so a response that announces 9223372037 seconds is accepted as a token that had
  expired 292 years before it was issued.\<close>

theorem long_lifetime_expired_on_arrival:
  "\<exists>t. ParseTokenResponse sample_ext (Some (sample_raw ''9223372037'')) 0 [] False = Inr t
     \<and> tr_expires_at t = - 9223372036709551616"
proof -
  have "map_sum (\<lambda>e. ()) (\<lambda>t. tr_expires_at t)
      (ParseTokenResponse sample_ext (Some (sample_raw ''9223372037'')) 0 [] False) = Inr (- 9223372036709551616)"
    by code_simp
  then show ?thesis
    by (cases "ParseTokenResponse sample_ext (Some (sample_raw ''9223372037'')) 0 [] False") auto
qed

subsection \<open>Composition with the API client\<close>

text \<open>The refresh of the client's environment, made of a token request.\<close>

definition oauth_refresh ::
  "ext \<Rightarrow> token_post \<Rightarrow> int \<Rightarrow> metadata \<Rightarrow> string \<Rightarrow> string \<Rightarrow> string list \<Rightarrow> refresh_error + token_response" where
  "oauth_refresh E post now m clientID token scopes = (case Refresh E post now m clientID token scopes of
       Inl e \<Rightarrow> Inl (if IsInvalidGrant e then Invalid_Grant else Refresh_Failed) | Inr t \<Rightarrow> Inr t)"

definition short_lifetimes :: "token_post \<Rightarrow> bool" where
  "short_lifetimes post \<longleftrightarrow> (\<forall>url body status raw n.
     post url body = Some (status, Some raw) \<longrightarrow> atoi (rw_expires_in raw) = Some n \<longrightarrow> n \<le> 9223372036)"

lemma oauth_refresh_token:
  assumes "oauth_refresh E post now m clientID token scopes = Inr t" and "short_lifetimes post"
  shows "tr_access_token t \<noteq> [] \<and> tr_token_type t = ''Bearer'' \<and> set scopes \<subseteq> set (tr_scope t)
    \<and> now < tr_expires_at t"
proof -
  from assms(1) have "Refresh E post now m clientID token scopes = Inr t"
    by (auto simp: oauth_refresh_def split: sum.splits)
  then obtain url body status raw where posted: "post url body = Some (status, Some raw)"
    and parsed: "ParseTokenResponse E (Some raw) now scopes False = Inr t"
    by (auto simp: Refresh_def TokenRequest_def ParseTokenResponse_Inr Let_def
        split: option.splits prod.splits if_splits sum.splits)
  then obtain n where n: "atoi (rw_expires_in raw) = Some n" by (auto simp: ParseTokenResponse_Inr)
  with posted assms(2) have "n \<le> 9223372036" by (auto simp: short_lifetimes_def)
  with parsed n show ?thesis
    by (auto simp: ParseTokenResponse_Inr granted_scopes_Inr expiry_exact split: if_splits)
qed

lemma refreshed_complete:
  assumes "complete_credentials E latest" and "tr_access_token t \<noteq> []" and "tr_token_type t = ''Bearer''"
    and "tr_expires_at t \<noteq> 0"
  shows "complete_credentials E (refreshed_credentials latest t)"
  using assms by (simp add: complete_credentials_def refreshed_credentials_def equal_fold_refl)

lemma decode_Inr: "decodeCredentials E stored = Inr c \<longleftrightarrow> stored = Some c \<and> complete_credentials E c"
  by (auto simp: decodeCredentials_def split: option.splits)

lemma fallback_Get_complete:
  "fallback_Get allowFile (KeyringStore E) (FileStore E) s a = Inr c \<Longrightarrow> complete_credentials E c"
  by (auto simp: fallback_Get_def KeyringStore_def FileStore_def keyring_Get_def file_Get_def decode_Inr
      split: sum.splits store_error.splits if_splits option.splits)


definition sample_post :: token_post where
  "sample_post url body = Some (200, Some (sample_raw ''60'' \<lparr>rw_scope := Scope_Absent\<rparr>))"

definition refreshing_env :: "(keyring \<times> file_system) client_env" where
  "refreshing_env = sample_client_env\<lparr>en_refresh := oauth_refresh sample_ext sample_post 95 sample_metadata (cl_client_id sample_client)\<rparr>"


end
