(* ===== verification/Oauth_Urls.thy ===== *)
theory Oauth_Urls
  imports Oauth
begin

text \<open>
  What the URLs of the login contain once the other side has parsed them: the redirect URI of
  \<^verbatim>\<open>RedirectURI\<close>, the query of \<^verbatim>\<open>AuthorizationURL\<close>, and the shape of the PKCE
  verifier (all of \<^verbatim>\<open>internal/oauth/oauth.go\<close>).
\<close>

subsection \<open>The redirect URI\<close>

lemma escape_with_chars: "c \<in> set (escape_with safe s) \<Longrightarrow> safe c \<or> c = CHR ''%'' \<or> is_hex c"
  using pct_byte_value by (auto simp: escape_with_def pct_byte_def split: if_splits)

lemma escape_path_chars: "c \<in> set (escape_path s) \<Longrightarrow> c \<notin> set ''?#'' \<and> \<not> is_ctl c"
proof -
  assume "c \<in> set (escape_path s)"
  then have "path_safe c \<or> c = CHR ''%'' \<or> is_hex c"
    unfolding escape_path_def by (rule escape_with_chars)
  moreover have "\<forall>d \<in> set ''$&+,/:;=@%-_.~''. d \<notin> set ''?#'' \<and> \<not> is_ctl d" by code_simp
  moreover have "is_alpha c \<or> is_digit c \<or> is_hex c \<Longrightarrow> c \<notin> set ''?#'' \<and> \<not> is_ctl c"
    by (auto simp: is_alpha_def is_digit_def is_lower_def is_upper_def is_hex_def is_ctl_def)
  ultimately show ?thesis by (auto simp: path_safe_def unreserved_def)
qed

lemma escape_path_rooted: "prefix ''/'' p \<Longrightarrow> prefix ''/'' (escape_path p)"
  using escape_path_hd [of p] by (cases p) auto

lemma pct_unescape_escape_path: "pct_unescape (escape_path p) = Some p"
proof -
  have "\<not> path_safe CHR ''%''" by code_simp
  then show ?thesis unfolding escape_path_def by (rule pct_unescape_escape)
qed

text \<open>Printing a plain URL and parsing it again.\<close>

lemma parse_plain_url:
  assumes h: "list_all ip_char h" and p: "list_all is_digit q" and path: "prefix ''/'' path"
  shows "Parse_url (''http://'' @ join_host_port h q @ escape_path path)
    = Some (empty_url\<lparr>gu_scheme := ''http'', gu_host := join_host_port h q, gu_path := path\<rparr>)"
proof -
  let ?H = "join_host_port h q" and ?e = "escape_path path"
  let ?raw = "''http://'' @ ?H @ ?e"
  note H = join_host_port_chars [OF h p] and e = escape_path_chars
  have no: "CHR ''#'' \<notin> set ?raw" "CHR ''?'' \<notin> set (''//'' @ ?H @ ?e)"
    using H e by auto
  have "\<forall>c \<in> set ''http://''. \<not> is_ctl c" by code_simp
  then have ctl: "\<not> list_ex is_ctl ?raw"
    using H e by (auto simp: list_ex_iff)
  have cut: "cut_at CHR ''#'' ?raw = (?raw, [], False)"
    by (rule cut_at_none [OF no(1)])
  have query: "cut_query (''//'' @ ?H @ ?e) = (''//'' @ ?H @ ?e, [], False)"
  proof -
    have "\<not> suffix ''?'' (''//'' @ ?H @ ?e)"
    proof
      assume "suffix ''?'' (''//'' @ ?H @ ?e)"
      from set_mono_suffix [OF this] have "CHR ''?'' \<in> set (''//'' @ ?H @ ?e)" by (simp del: set_append)
      with no(2) show False ..
    qed
    then show ?thesis using cut_at_none [OF no(2)] by (simp add: cut_query_def)
  qed
  obtain w where w: "?e = CHR ''/'' # w" using escape_path_rooted [OF path] by (auto simp: prefix_def)
  have split: "takeWhile (\<lambda>c. c \<noteq> CHR ''/'') (?H @ CHR ''/'' # w) = ?H"
    "dropWhile (\<lambda>c. c \<noteq> CHR ''/'') (?H @ CHR ''/'' # w) = CHR ''/'' # w"
    using H by (auto simp: takeWhile_append2 dropWhile_append2)
  have scheme: "getScheme ?raw = Some (''http'', ''//'' @ ?H @ ?e)" by (rule getScheme_http)
  have rest: "set_path ?e u = Some (u\<lparr>gu_path := path, gu_raw_path := []\<rparr>)" for u
    by (simp add: set_path_def pct_unescape_escape_path)
  have pre: "prefix ''//'' (''//'' @ ?H @ ?e)" "prefix ''/'' (''//'' @ ?H @ ?e)"
    "?raw \<noteq> []" "?raw \<noteq> ''*''" "drop 2 (''//'' @ ?H @ ?e) = ?H @ ?e" by simp_all
  have "parse_url False ?raw
      = set_path ?e (empty_url\<lparr>gu_scheme := ''http'', gu_user := None, gu_host := ?H\<rparr>)"
    unfolding parse_url_def scheme option.case prod.case lower_http query Let_def
    using ctl pre split parse_joined_authority [OF h p] by (simp add: w empty_url_def)
  then show ?thesis unfolding Parse_url_def cut prod.case rest by (simp add: empty_url_def escape_with_def)
qed

lemma print_plain_url:
  assumes h: "list_all ip_char h" and p: "list_all is_digit q" and path: "prefix ''/'' path"
  shows "url_string (empty_url\<lparr>gu_scheme := ''http'', gu_host := join_host_port h q, gu_path := path\<rparr>)
    = ''http://'' @ join_host_port h q @ escape_path path"
proof -
  have "join_host_port h q \<noteq> []" by (simp add: join_host_port_def)
  moreover have "escape_with host_safe (join_host_port h q) = join_host_port h q"
    using join_host_port_chars [OF h p] by (intro escape_with_safe) (simp add: list_all_iff)
  moreover have "path \<noteq> ''*''" "path \<noteq> []" using path by (auto simp: prefix_def)
  moreover obtain w where "escape_path path = CHR ''/'' # w"
    using escape_path_rooted [OF path] by (auto simp: prefix_def)
  ultimately show ?thesis
    by (simp add: url_string_def empty_url_def EscapedPath_def url_authority_def Let_def)
qed

text \<open>The redirect URI leads back to this machine: when it is given out, the host is a canonical
  loopback address literal and the port is in range, and whoever parses the URI finds plain HTTP
  with exactly this host, port and path, and neither user information nor a query or fragment.\<close>

theorem redirect_uri_roundtrip:
  assumes "RedirectURI host port path = Inr uri"
  shows "\<exists>u ip. Parse_url uri = Some u \<and> parse_ip host = Some ip \<and> is_loopback ip \<and> host = ip_string ip
    \<and> 0 \<le> port \<and> port \<le> 65535
    \<and> gu_scheme u = ''http'' \<and> Hostname u = host \<and> Port u = itoa port \<and> gu_path u = path
    \<and> gu_user u = None \<and> gu_raw_query u = [] \<and> gu_fragment u = []"
proof -
  from assms obtain ip where ip: "parse_ip host = Some ip" "is_loopback ip" "host = ip_string ip"
    and port: "0 \<le> port" "port \<le> 65535" and path: "prefix ''/'' path"
    and uri: "uri = url_string (empty_url\<lparr>gu_scheme := ''http'',
          gu_host := join_host_port host (itoa port), gu_path := path\<rparr>)"
    by (auto simp: RedirectURI_def split: option.splits if_splits)
  have h: "list_all ip_char host" using parse_ip_chars [of host] ip(1) by (simp add: list_all_iff)
  have q: "list_all is_digit (itoa port)" using itoa_digits [OF port(1)] .
  have "Parse_url uri = Some (empty_url\<lparr>gu_scheme := ''http'',
      gu_host := join_host_port host (itoa port), gu_path := path\<rparr>)"
    unfolding uri print_plain_url [OF h q path] by (rule parse_plain_url [OF h q path])
  then show ?thesis
    using ip port split_joined_host [OF h q] by (simp add: Hostname_def Port_def empty_url_def)
qed

lemma redirect_uri_roundtrip_witness:
  "RedirectURI ''::1'' 53682 ''/a b/c'' = Inr ''http://[::1]:53682/a%20b/c''
   \<and> (\<exists>u. Parse_url ''http://[::1]:53682/a%20b/c'' = Some u \<and> Hostname u = ''::1'' \<and> gu_path u = ''/a b/c'')"
proof -
  have r: "RedirectURI ''::1'' 53682 ''/a b/c'' = Inr ''http://[::1]:53682/a%20b/c''" by code_simp
  from redirect_uri_roundtrip [OF this] have "\<exists>u. Parse_url ''http://[::1]:53682/a%20b/c'' = Some u
      \<and> Hostname u = ''::1'' \<and> gu_path u = ''/a b/c''" by blast
  with r show ?thesis by blast
qed

subsection \<open>The authorization request\<close>

lemma parse_url_host_opaque: "parse_url v raw = Some u \<Longrightarrow> gu_host u \<noteq> [] \<Longrightarrow> gu_opaque u = []"
  by (auto simp: parse_url_def set_path_def empty_url_def Let_def split: if_splits option.splits prod.splits)

lemma Parse_url_host_opaque: "Parse_url raw = Some u \<Longrightarrow> gu_host u \<noteq> [] \<Longrightarrow> gu_opaque u = []"
  using parse_url_host_opaque by (auto simp: Parse_url_def split: prod.splits option.splits)

lemma EscapedPath_chars: "c \<in> set (EscapedPath u) \<Longrightarrow> c \<notin> set ''?#''"
proof -
  assume c: "c \<in> set (EscapedPath u)"
  show ?thesis
  proof (cases "EscapedPath u = gu_raw_path u \<and> valid_encoded_path (gu_raw_path u)")
    case True
    with c have "c = CHR ''%'' \<or> path_safe c \<or> c \<in> set (''!()*[]'' @ [CHR 0x27])"
      by (auto simp: valid_encoded_path_def list_all_iff)
    moreover have "\<not> path_safe CHR ''?''" "\<not> path_safe CHR ''#''" by code_simp+
    ultimately show ?thesis by auto
  next
    case False
    with c show ?thesis using escape_path_chars [of c "gu_path u"]
      by (auto simp: EscapedPath_def split: if_splits)
  qed
qed

lemma escape_host_chars: "c \<in> set (escape_with host_safe h) \<Longrightarrow> c \<notin> set ''?#''"
proof -
  have "\<not> host_safe CHR ''?''" "\<not> host_safe CHR ''#''" "\<not> is_hex CHR ''?''" "\<not> is_hex CHR ''#''" by code_simp+
  then show "c \<in> set (escape_with host_safe h) \<Longrightarrow> c \<notin> set ''?#''"
    using escape_with_chars [of c host_safe h] by auto
qed

text \<open>The part of a plain absolute URL before its query.\<close>

lemma url_string_query:
  assumes "gu_scheme u = ''http'' \<or> gu_scheme u = ''https''" and "gu_host u \<noteq> []" and "gu_opaque u = []"
    and "gu_user u = None" and "gu_fragment u = []" and "gu_raw_query u \<noteq> []"
  obtains before where "url_string u = before @ CHR ''?'' # gu_raw_query u"
    and "CHR ''?'' \<notin> set before" and "CHR ''#'' \<notin> set before"
proof
  let ?rooted = "if EscapedPath u \<noteq> [] \<and> hd (EscapedPath u) \<noteq> CHR ''/'' then ''/'' else []"
  let ?before = "gu_scheme u @ '':'' @ url_authority u @ ?rooted @ EscapedPath u"
  have auth: "set (url_authority u) \<subseteq> insert CHR ''/'' (set (escape_with host_safe (gu_host u)))"
    using assms(4) by (auto simp: url_authority_def)
  have "gu_scheme u \<noteq> []" using assms(1) by auto
  then show "url_string u = ?before @ CHR ''?'' # gu_raw_query u"
    using assms by (simp add: url_string_def Let_def)
  have scheme: "CHR ''?'' \<notin> set (gu_scheme u)" "CHR ''#'' \<notin> set (gu_scheme u)" using assms(1) by auto
  show "CHR ''?'' \<notin> set ?before"
    using auth scheme EscapedPath_chars [of "CHR ''?''" u] escape_host_chars [of "CHR ''?''" "gu_host u"] by auto
  show "CHR ''#'' \<notin> set ?before"
    using auth scheme EscapedPath_chars [of "CHR ''#''" u] escape_host_chars [of "CHR ''#''" "gu_host u"] by auto
qed

lemma wf_values_set [simp]: "wf_gomap m \<Longrightarrow> wf_gomap (values_set k v m)"
  by (simp add: values_set_def)

lemma map_of_values_set [simp]: "map_of (values_set k v m) = (map_of m)(k \<mapsto> [v])"
  by (simp add: values_set_def)

lemma wf_authorization_values: "wf_gomap m \<Longrightarrow> wf_gomap (authorization_values r m)"
  by (simp add: authorization_values_def Let_def)

lemma map_of_authorization_values:
  "map_of (authorization_values r m) k =
     (if ar_nonce r \<noteq> [] \<and> k = ''nonce'' then Some [ar_nonce r]
      else if k = ''code_challenge_method'' then Some [''S256'']
      else if k = ''code_challenge'' then Some [ar_challenge r]
      else if k = ''state'' then Some [ar_state r]
      else if k = ''scope'' then Some [join_with '' '' (ar_scopes r)]
      else if k = ''redirect_uri'' then Some [ar_redirect_uri r]
      else if k = ''response_type'' then Some [''code'']
      else if k = ''client_id'' then Some [ar_client_id r] else map_of m k)"
  by (cases "ar_nonce r = []")
    (simp_all only: authorization_values_def Let_def map_of_values_set fun_upd_apply simp_thms if_True if_False)

definition authorization_keys :: "string list" where
  "authorization_keys = [''client_id'', ''response_type'', ''redirect_uri'', ''scope'', ''state'',
     ''code_challenge'', ''code_challenge_method'', ''nonce'']"

text \<open>C28: The authorization server reads exactly what the agent asks for: for an endpoint that passed
  the metadata checks the URL is built, has no fragment, and the text after its first question mark
  parses to the client, redirect URI, scopes, state and S256 challenge of the request, each once
  and unchanged whatever characters they hold, beside the endpoint's own other parameters; the
  escaped redirect URI is found in the URL, so that the login's own check never fails.\<close>

theorem authorization_request_parameters:
  assumes "validateSecureURL (ar_endpoint r) allow = Inr endpoint"
  shows "\<exists>url before q. AuthorizationURL r = Some url \<and> cut_at CHR ''?'' url = (before, q, True)
    \<and> CHR ''#'' \<notin> set url
    \<and> map (map_of (parse_query q)) [''client_id'', ''response_type'', ''redirect_uri'', ''scope'', ''state'',
          ''code_challenge'', ''code_challenge_method'']
        = [Some [ar_client_id r], Some [''code''], Some [ar_redirect_uri r], Some [join_with '' '' (ar_scopes r)],
           Some [ar_state r], Some [ar_challenge r], Some [''S256'']]
    \<and> (ar_nonce r \<noteq> [] \<longrightarrow> map_of (parse_query q) ''nonce'' = Some [ar_nonce r])
    \<and> (\<forall>k. k \<notin> set authorization_keys \<longrightarrow>
          map_of (parse_query q) k = map_of (parse_query (gu_raw_query endpoint)) k)
    \<and> sublist (query_escape (ar_redirect_uri r)) url"
proof -
  let ?base = "parse_query (gu_raw_query endpoint)"
  let ?m = "authorization_values r ?base"
  let ?q = "values_encode ?m" and ?u = "endpoint\<lparr>gu_raw_query := values_encode ?m\<rparr>"
  from assms have e: "Parse_url (ar_endpoint r) = Some endpoint" "gu_scheme endpoint \<noteq> []"
    "gu_host endpoint \<noteq> []" "gu_user endpoint = None" "gu_fragment endpoint = []"
    "gu_scheme endpoint = ''http'' \<or> gu_scheme endpoint = ''https''"
    unfolding validateSecureURL_Inr by auto
  have wf: "wf_gomap ?m" using wf_authorization_values [OF wf_parse_query] .
  have redirect: "map_of ?m ''redirect_uri'' = Some [ar_redirect_uri r]"
    by (subst map_of_authorization_values) simp
  have ne: "?q \<noteq> []"
  proof
    assume "?q = []"
    with parse_encode [OF wf, of "''redirect_uri''"] redirect show False
      by (simp add: parse_query_def query_pairs_def query_pair_def List.map_filter_def)
  qed
  have "gu_opaque endpoint = []" using Parse_url_host_opaque [OF e(1,3)] .
  then obtain before where b: "url_string ?u = before @ CHR ''?'' # ?q"
    "CHR ''?'' \<notin> set before" "CHR ''#'' \<notin> set before"
    using url_string_query [of ?u] e ne by auto
  have url: "AuthorizationURL r = Some (url_string ?u)" using e by (simp add: AuthorizationURL_def)
  have cut: "cut_at CHR ''?'' (url_string ?u) = (before, ?q, True)"
    unfolding b(1) by (rule cut_at_append [OF b(2)])
  have hash: "CHR ''#'' \<notin> set (url_string ?u)"
    unfolding b(1) using b(3) values_encode_chars [of "CHR ''#''" ?m] by simp
  have kept: "map_of (parse_query ?q) k = map_of ?base k" if "k \<notin> set authorization_keys" for k
  proof -
    have "map_of ?m k = map_of ?base k" using that by (auto simp: map_of_authorization_values authorization_keys_def)
    moreover have "map_of ?base k \<noteq> Some []" by (simp add: map_of_parse_query Let_def)
    ultimately show ?thesis unfolding parse_encode [OF wf] by (simp split: option.split)
  qed
  have inside: "sublist (query_escape (ar_redirect_uri r)) (url_string ?u)"
  proof -
    have "sublist (query_escape (ar_redirect_uri r)) ?q"
      using sublist_values_encode [OF redirect] by simp
    moreover have "sublist ?q (url_string ?u)"
      unfolding b(1) using sublist_append_leftI [of ?q "before @ ''?''"] by simp
    ultimately show ?thesis by (rule sublist_order.order.trans)
  qed
  have "map (map_of (parse_query ?q)) [''client_id'', ''response_type'', ''redirect_uri'', ''scope'', ''state'',
          ''code_challenge'', ''code_challenge_method'']
        = [Some [ar_client_id r], Some [''code''], Some [ar_redirect_uri r], Some [join_with '' '' (ar_scopes r)],
           Some [ar_state r], Some [ar_challenge r], Some [''S256'']]"
    "ar_nonce r \<noteq> [] \<Longrightarrow> map_of (parse_query ?q) ''nonce'' = Some [ar_nonce r]"
    by (simp_all add: parse_encode [OF wf] map_of_authorization_values)
  with url cut hash kept inside show ?thesis
    by (intro exI [of _ "url_string ?u"] exI [of _ before] exI [of _ ?q]) blast
qed

definition sample_authorization :: authorization_request where
  "sample_authorization = \<lparr>ar_endpoint = md_authorization_endpoint sample_metadata, ar_client_id = ''cli'',
     ar_redirect_uri = ''http://127.0.0.1:53682/cb'', ar_state = ''s&t=1'', ar_challenge = ''ch'', ar_nonce = [],
     ar_scopes = [''openid'', ''a+b'']\<rparr>"

lemma authorization_request_parameters_witness:
  "\<exists>url before q. AuthorizationURL sample_authorization = Some url \<and> cut_at CHR ''?'' url = (before, q, True)
    \<and> map_of (parse_query q) ''state'' = Some [''s&t=1''] \<and> map_of (parse_query q) ''scope'' = Some [''openid a+b'']"
proof -
  have "isl (validateSecureURL (ar_endpoint sample_authorization) False) = False" by code_simp
  then obtain endpoint where "validateSecureURL (ar_endpoint sample_authorization) False = Inr endpoint"
    by (cases "validateSecureURL (ar_endpoint sample_authorization) False") auto
  from authorization_request_parameters [OF this] show ?thesis
    by (auto simp: sample_authorization_def)
qed

subsection \<open>PKCE\<close>

lemma b64_char_alphabet: "n < 64 \<Longrightarrow> b64_char n \<in> set b64_alphabet"
  by (simp add: b64_char_def alphabet_length)

lemma b64_encode_chars: "c \<in> set (b64_encode s) \<Longrightarrow> c = CHR ''='' \<or> c \<in> set b64_alphabet"
  by (induction s rule: b64_encode.induct) (auto simp: b64_char_alphabet sextet_bounds)

lemma b64_encode_length:
  "length (filter (\<lambda>c. c \<noteq> CHR ''='') (b64_encode s)) = (4 * length s + 2) div 3"
proof (induction s rule: b64_encode.induct)
  case (4 a b c s)
  then show ?case by (simp add: b64_char_plain sextet_bounds)
qed (simp_all add: b64_char_plain sextet_bounds)

text \<open>The PKCE verifier is well formed: made of 64 random bytes it has 86 characters, inside the 43
  to 128 of RFC 7636, all of them unreserved, so that it arrives unescaped in the token request; the
  same holds for the state with 43 characters.\<close>

theorem verifier_well_formed:
  assumes "\<And>n bytes. random n = Some bytes \<Longrightarrow> length bytes = n"
  shows "(case GenerateVerifier random of None \<Rightarrow> random 64 = None
      | Some v \<Rightarrow> length v = 86 \<and> list_all unreserved v \<and> query_escape v = v)
    \<and> (case GenerateState random of None \<Rightarrow> random 32 = None
      | Some v \<Rightarrow> length v = 43 \<and> list_all unreserved v \<and> query_escape v = v)"
proof -
  define g where "g c = (if c = CHR ''+'' then CHR ''-'' else if c = CHR ''/'' then CHR ''_'' else c)" for c
  have "\<forall>c \<in> set b64_alphabet. unreserved (g c)"
    unfolding g_def by code_simp
  then have "unreserved (g c)" if "c \<in> set (b64_encode s)" "c \<noteq> CHR ''=''" for c s
    using b64_encode_chars [OF that(1)] that(2) by blast
  then have "list_all unreserved (b64_rawurl s)" for s
    by (auto simp: b64_rawurl_def list_all_iff simp flip: g_def)
  moreover have "query_escape v = v" if "list_all unreserved v" for v
    using that by (induction v) (simp_all add: query_escape_def query_byte_def)
  moreover have "length (b64_rawurl s) = (4 * length s + 2) div 3" for s
    by (simp add: b64_rawurl_def b64_encode_length)
  ultimately show ?thesis
    using assms [of 64] assms [of 32]
    by (auto simp: GenerateVerifier_def GenerateState_def randomBase64URL_def split: option.splits)
qed

definition sample_random :: "nat \<Rightarrow> string option" where
  "sample_random n = Some (replicate n CHR 0xFB)"

lemma verifier_well_formed_witness:
  "case GenerateVerifier sample_random of None \<Rightarrow> False | Some v \<Rightarrow> length v = 86 \<and> list_all unreserved v"
proof -
  have "length bytes = n" if "sample_random n = Some bytes" for n bytes
    using that by (auto simp: sample_random_def)
  from verifier_well_formed [of sample_random, OF this] show ?thesis
    by (auto simp: sample_random_def split: option.splits)
qed

end
