(* ===== verification/Oauth_Callback.thy ===== *)
theory Oauth_Callback
  imports Oauth_Urls
begin

text \<open>
  \<^verbatim>\<open>internal/oauth/callback.go\<close>: the loopback server that waits for the authorization
  response.  The handler is a function of the request; the server is a state machine in which
  requests arrive in any order and number, and whose result channel is filled once.  Which requests
  the \<^verbatim>\<open>ServeMux\<close> routes to the handler, and whether it accepts the path as a pattern, are
  arguments.
\<close>

record callback_result =
  cr_code :: string
  cr_error :: string
  cr_description :: string

type_synonym callback_outcome = "string + callback_result"

record callback_request =
  cq_method :: string
  cq_request_uri :: string
  cq_raw_query :: string

definition empty_result :: callback_result where
  "empty_result = \<lparr>cr_code = [], cr_error = [], cr_description = []\<rparr>"

definition line_breaks :: string where
  "line_breaks = [CHR 0x0D, CHR 0x0A]"

text \<open>The status of the answer, and what the handler completes the login with, if it does.\<close>

definition callback_handler :: "string \<Rightarrow> callback_request \<Rightarrow> int \<times> callback_outcome option" where
  "callback_handler expectedState r =
     (if cq_method r \<noteq> ''GET'' then (405, None)
      else if 8192 < length (cq_request_uri r) then (414, Some (Inl ''OAuth callback URL is too large''))
      else
        let query = parse_query (cq_raw_query r); state = values_get query ''state'' in
        if state = [] \<or> state \<noteq> expectedState
          then (400, Some (Inl ''OAuth callback state is missing or invalid''))
        else if values_get query ''error'' \<noteq> []
          then (400, Some (Inr (empty_result\<lparr>cr_error := values_get query ''error'',
            cr_description := values_get query ''error_description''\<rparr>)))
        else if values_get query ''code'' = [] \<or> contains_any (values_get query ''code'') line_breaks
          then (400, Some (Inl ''OAuth callback is missing an authorization code''))
        else (200, Some (Inr (empty_result\<lparr>cr_code := values_get query ''code''\<rparr>))))"

subsection \<open>The server\<close>

text \<open>\<open>cb_result\<close> is the result channel, of capacity one, and \<open>cb_once\<close> the \<^verbatim>\<open>sync.Once\<close>.\<close>

record callback_server =
  cb_once :: bool
  cb_result :: "callback_outcome list"

definition complete :: "callback_outcome \<Rightarrow> callback_server \<Rightarrow> callback_server" where
  "complete outcome c = (if cb_once c then c
     else c\<lparr>cb_once := True, cb_result := cb_result c @ [outcome]\<rparr>)"

datatype callback_event = Requested callback_request | Listener_Failed

definition callback_step :: "string \<Rightarrow> callback_event \<Rightarrow> callback_server \<Rightarrow> callback_server" where
  "callback_step expectedState e c = (case e of
       Requested r \<Rightarrow> (case snd (callback_handler expectedState r) of None \<Rightarrow> c | Some x \<Rightarrow> complete x c)
     | Listener_Failed \<Rightarrow> complete (Inl ''OAuth callback listener failed'') c)"

definition callback_start :: callback_server where
  "callback_start = \<lparr>cb_once = False, cb_result = []\<rparr>"

definition callback_run :: "string \<Rightarrow> callback_event list \<Rightarrow> callback_server" where
  "callback_run expectedState es = fold (callback_step expectedState) es callback_start"

text \<open>
  \<^verbatim>\<open>StartCallback\<close>: \<open>listen\<close> gives the port a listener on a network and address gets, or
  nothing.  The result is the redirect URI, or the error, or nothing for a panic of the router.
\<close>

definition StartCallback ::
  "(string \<Rightarrow> string \<Rightarrow> int option) \<Rightarrow> (string \<Rightarrow> bool) \<Rightarrow> string \<Rightarrow> int \<Rightarrow> string \<Rightarrow> string
    \<Rightarrow> (string + string) option" where
  "StartCallback listen pattern_ok host port path expectedState =
     (if expectedState = [] then Some (Inl ''callback state must not be empty'')
      else case RedirectURI host port path of
        Inl e \<Rightarrow> Some (Inl e)
      | Inr redirect \<Rightarrow>
          let network = (if (case parse_ip host of None \<Rightarrow> False | Some ip \<Rightarrow> ip_to4 ip \<noteq> None)
              then ''tcp4'' else ''tcp6'') in
          case listen network (join_host_port host (itoa port)) of
            None \<Rightarrow> Some (Inl (''callback port '' @ itoa port @ '' is unavailable''))
          | Some actualPort \<Rightarrow> (case RedirectURI host actualPort path of
              Inl e \<Rightarrow> Some (Inl e)
            | Inr redirect \<Rightarrow> if pattern_ok path then Some (Inr redirect) else None))"

text \<open>\<^verbatim>\<open>Wait\<close>: when the outcome is there and the context is done, either may be returned.\<close>

inductive wait_returns :: "callback_server \<Rightarrow> bool \<Rightarrow> callback_outcome \<Rightarrow> bool" for c where
  outcome: "cb_result c = x # xs \<Longrightarrow> wait_returns c cancelled x"
| cancelled: "wait_returns c True (Inl ''context'')"

inductive_cases wait_returnsE: "wait_returns c cancelled x"

subsection \<open>The first completion wins\<close>

definition event_outcome :: "string \<Rightarrow> callback_event \<Rightarrow> callback_outcome option" where
  "event_outcome expectedState e = (case e of Requested r \<Rightarrow> snd (callback_handler expectedState r)
     | Listener_Failed \<Rightarrow> Some (Inl ''OAuth callback listener failed''))"

lemma callback_step_outcome:
  "callback_step expectedState e c = (case event_outcome expectedState e of None \<Rightarrow> c | Some x \<Rightarrow> complete x c)"
  by (simp add: callback_step_def event_outcome_def split: callback_event.split)

lemma completed_stays: "cb_once c \<Longrightarrow> fold (callback_step s) es c = c"
  by (induction es) (simp_all add: callback_step_outcome complete_def split: option.split)

lemma callback_run_result:
  "cb_result (callback_run s es) = take 1 (List.map_filter (event_outcome s) es)"
proof -
  have "cb_result (fold (callback_step s) es c) = take 1 (List.map_filter (event_outcome s) es)"
    if "c = callback_start" for c
  proof (induction es)
    case Nil
    then show ?case using that by (simp add: callback_start_def List.map_filter_def)
  next
    case (Cons e es)
    show ?case
    proof (cases "event_outcome s e")
      case None
      then show ?thesis using Cons by (simp add: callback_step_outcome [of s e] List.map_filter_def)
    next
      case (Some x)
      have "cb_once (complete x c)" using that by (simp add: complete_def callback_start_def)
      with Some that show ?thesis
        by (simp add: callback_step_outcome [of s e] completed_stays List.map_filter_def)
          (simp add: complete_def callback_start_def)
    qed
  qed
  then show ?thesis by (simp add: callback_run_def)
qed

lemma callback_handler_code:
  assumes "snd (callback_handler expected r) = Some (Inr result)" and "cr_code result \<noteq> []"
  shows "cq_method r = ''GET'' \<and> length (cq_request_uri r) \<le> 8192 \<and> expected \<noteq> []
    \<and> values_get (parse_query (cq_raw_query r)) ''state'' = expected
    \<and> values_get (parse_query (cq_raw_query r)) ''error'' = []
    \<and> values_get (parse_query (cq_raw_query r)) ''code'' = cr_code result
    \<and> set (cr_code result) \<inter> set line_breaks = {} \<and> fst (callback_handler expected r) = 200"
  using assms
  by (auto simp: callback_handler_def Let_def empty_result_def contains_any_iff split: if_splits)

text \<open>C17: The login only accepts an authorization code that belongs to it: whatever requests reach the
  callback in whatever order, when the wait returns a code there was a GET request, the first one
  that completed the login, which carried exactly the expected state and no error; the code is the one
  that request carried and has no line break; and after it nothing changes the result.\<close>

theorem callback_code_authentic:
  assumes "wait_returns (callback_run expected (es @ later)) cancelled (Inr result)" and "cr_code result \<noteq> []"
    and "List.map_filter (event_outcome expected) es \<noteq> []"
  shows "expected \<noteq> [] \<and> cb_result (callback_run expected (es @ later)) = cb_result (callback_run expected es)
    \<and> (\<exists>before r after. es = before @ Requested r # after \<and> List.map_filter (event_outcome expected) before = []
      \<and> cq_method r = ''GET'' \<and> values_get (parse_query (cq_raw_query r)) ''state'' = expected
      \<and> values_get (parse_query (cq_raw_query r)) ''error'' = []
      \<and> values_get (parse_query (cq_raw_query r)) ''code'' = cr_code result
      \<and> set (cr_code result) \<inter> set line_breaks = {})"
proof -
  let ?f = "List.map_filter (event_outcome expected)"
  have app: "?f (xs @ ys) = ?f xs @ ?f ys" for xs ys by (simp add: List.map_filter_def)
  have result: "cb_result (callback_run expected (es @ later)) = take 1 (?f es)"
    unfolding callback_run_result app using assms(3) by (cases "?f es") simp_all
  from assms(1) obtain xs where "cb_result (callback_run expected (es @ later)) = Inr result # xs"
    by (cases rule: wait_returns.cases) auto
  with result obtain rest where hd: "?f es = Inr result # rest" by (cases "?f es") simp_all
  have "\<exists>before e after. es = before @ e # after \<and> ?f before = [] \<and> event_outcome expected e = Some (Inr result)"
    using hd
  proof (induction es)
    case (Cons e es)
    show ?case
    proof (cases "event_outcome expected e")
      case None
      with Cons obtain before e' after where "es = before @ e' # after" "?f before = []"
        "event_outcome expected e' = Some (Inr result)" by (auto simp: List.map_filter_def)
      with None show ?thesis
        by (intro exI [of _ "e # before"] exI [of _ e'] exI [of _ after]) (simp add: List.map_filter_def)
    next
      case (Some x)
      with Cons.prems show ?thesis by (intro exI [of _ "[]"] exI [of _ e] exI [of _ es]) (simp add: List.map_filter_def)
    qed
  qed (simp add: List.map_filter_def)
  then obtain before e after where split: "es = before @ e # after" "?f before = []"
    and e: "event_outcome expected e = Some (Inr result)" by blast
  then obtain r where r: "e = Requested r" "snd (callback_handler expected r) = Some (Inr result)"
    by (cases e) (auto simp: event_outcome_def)
  from callback_handler_code [OF r(2) assms(2)] split r(1) result show ?thesis
    unfolding callback_run_result [of expected es] by blast
qed

definition sample_callback :: "string \<Rightarrow> callback_event" where
  "sample_callback q = Requested \<lparr>cq_method = ''GET'', cq_request_uri = ''/cb?'' @ q, cq_raw_query = q\<rparr>"

lemma callback_code_authentic_witness:
  "\<exists>result. wait_returns (callback_run ''s 1'' ([Requested \<lparr>cq_method = ''POST'', cq_request_uri = [], cq_raw_query = []\<rparr>,
      sample_callback ''state=s+1&code=abc''] @ [sample_callback ''state=x''])) True (Inr result)
    \<and> cr_code result = ''abc'' \<and> set (cr_code result) \<inter> set line_breaks = {}"
proof -
  let ?es = "[Requested \<lparr>cq_method = ''POST'', cq_request_uri = [], cq_raw_query = []\<rparr>,
      sample_callback ''state=s+1&code=abc'']"
  let ?later = "[sample_callback ''state=x'']"
  have some: "List.map_filter (event_outcome ''s 1'') ?es \<noteq> []" by code_simp
  have "cb_result (callback_run ''s 1'' (?es @ ?later)) = [Inr (empty_result\<lparr>cr_code := ''abc''\<rparr>)]"
    by code_simp
  then have w: "wait_returns (callback_run ''s 1'' (?es @ ?later)) True (Inr (empty_result\<lparr>cr_code := ''abc''\<rparr>))"
    by (rule wait_returns.outcome)
  have code: "cr_code (empty_result\<lparr>cr_code := ''abc''\<rparr>) = ''abc''" by simp
  then have "cr_code (empty_result\<lparr>cr_code := ''abc''\<rparr>) \<noteq> []" by simp
  from callback_code_authentic [OF w this some]
  have "set (cr_code (empty_result\<lparr>cr_code := ''abc''\<rparr>)) \<inter> set line_breaks = {}" by blast
  with w code show ?thesis by blast
qed

end
