(* ===== verification/Go_Flag.thy ===== *)
theory Go_Flag
  imports Go_Net
begin

text \<open>
  Command-line values as the standard library reads them: \<^verbatim>\<open>strconv.ParseBool\<close>,
  \<^verbatim>\<open>strconv.ParseInt\<close> with base 0, \<^verbatim>\<open>time.ParseDuration\<close>, and the argument loop of
  package \<^verbatim>\<open>flag\<close> with \<^verbatim>\<open>ContinueOnError\<close>.
\<close>

subsection \<open>Booleans and integers\<close>

definition parse_bool :: "string \<Rightarrow> bool option" where
  "parse_bool s =
     (if s \<in> set [''1'', ''t'', ''T'', ''TRUE'', ''true'', ''True''] then Some True
      else if s \<in> set [''0'', ''f'', ''F'', ''FALSE'', ''false'', ''False''] then Some False else None)"

text \<open>The value of a digit in any base up to 36, and the digits of a number with underscores.\<close>

definition digit_value :: "char \<Rightarrow> nat option" where
  "digit_value c = (if is_digit c then Some (byte c - 48)
     else if is_lower c then Some (byte c - 87)
     else if is_upper c then Some (byte c - 55) else None)"

fun based_value :: "nat \<Rightarrow> nat \<Rightarrow> string \<Rightarrow> nat option" where
  "based_value base n [] = Some n"
| "based_value base n (c # s) =
     (if c = CHR ''_'' then based_value base n s
      else case digit_value c of
        None \<Rightarrow> None
      | Some d \<Rightarrow> if base \<le> d then None else based_value base (n * base + d) s)"

text \<open>The base of a number and what follows its prefix.\<close>

definition number_base :: "string \<Rightarrow> nat \<times> string" where
  "number_base s = (case s of
       [] \<Rightarrow> (10, s)
     | c # t \<Rightarrow> if c \<noteq> CHR ''0'' then (10, s)
         else if 3 \<le> length s \<and> t ! 0 \<in> set ''bB'' then (2, drop 2 s)
         else if 3 \<le> length s \<and> t ! 0 \<in> set ''oO'' then (8, drop 2 s)
         else if 3 \<le> length s \<and> t ! 0 \<in> set ''xX'' then (16, drop 2 s)
         else (8, t))"

text \<open>\<^verbatim>\<open>underscoreOK\<close>: underscores only between digits or after the prefix.\<close>

fun underscores_from :: "bool \<Rightarrow> char \<Rightarrow> string \<Rightarrow> bool" where
  "underscores_from hex i [] = (i \<noteq> CHR ''_'')"
| "underscores_from hex i (c # s) =
     (if is_digit c \<or> hex \<and> is_hex c then underscores_from hex CHR ''0'' s
      else if c = CHR ''_'' then i = CHR ''0'' \<and> underscores_from hex CHR ''_'' s
      else i \<noteq> CHR ''_'' \<and> underscores_from hex CHR ''!'' s)"

definition underscores_ok :: "string \<Rightarrow> bool" where
  "underscores_ok s =
     (if 2 \<le> length s \<and> s ! 0 = CHR ''0'' \<and> s ! 1 \<in> set ''bBoOxX''
      then underscores_from (s ! 1 \<in> set ''xX'') CHR ''0'' (drop 2 s)
      else underscores_from False CHR ''^'' s)"

definition parse_int :: "string \<Rightarrow> int option" where
  "parse_int s =
     (let neg = (s \<noteq> [] \<and> hd s = CHR ''-'');
          t = (if s \<noteq> [] \<and> (hd s = CHR ''-'' \<or> hd s = CHR ''+'') then tl s else s);
          (base, ds) = number_base t
      in if t = [] \<or> CHR ''_'' \<in> set ds \<and> \<not> underscores_ok t then None
         else case based_value base 0 ds of
           None \<Rightarrow> None
         | Some n \<Rightarrow> if neg then (if n \<le> 2 ^ 63 then Some (- int n) else None)
             else (if n < 2 ^ 63 then Some (int n) else None))"

subsection \<open>Durations\<close>

text \<open>The units, with the two spellings of the micro sign.\<close>

definition duration_units :: "(string \<times> nat) list" where
  "duration_units = [(''ns'', 1), (''us'', 1000), ([CHR 0xC2, CHR 0xB5, CHR ''s''], 1000),
     ([CHR 0xCE, CHR 0xBC, CHR ''s''], 1000), (''ms'', 1000000), (''s'', 1000000000),
     (''m'', 60 * 1000000000), (''h'', 3600 * 1000000000)]"

text \<open>\<^verbatim>\<open>leadingFraction\<close>: the digits that are kept, as a number and a power of ten.\<close>

fun leading_fraction :: "nat \<Rightarrow> nat \<Rightarrow> string \<Rightarrow> nat \<times> nat" where
  "leading_fraction x scale [] = (x, scale)"
| "leading_fraction x scale (c # s) =
     (if (2 ^ 63 - 1) div 10 < x \<or> 2 ^ 63 < x * 10 + (byte c - 48) then (x, scale)
      else leading_fraction (x * 10 + (byte c - 48)) (scale * 10) s)"

definition unit_char :: "char \<Rightarrow> bool" where
  "unit_char c \<longleftrightarrow> c \<noteq> CHR ''.'' \<and> \<not> is_digit c"

text \<open>
  One number with its unit: the nanoseconds and the rest.  \<open>frac f unit scale\<close> is what the code
  computes in floating point, about \<open>f * unit / scale\<close>.
\<close>

definition duration_part :: "(nat \<Rightarrow> nat \<Rightarrow> nat \<Rightarrow> nat) \<Rightarrow> string \<Rightarrow> (nat \<times> string) option" where
  "duration_part frac s =
     (let whole = takeWhile is_digit s; s1 = dropWhile is_digit s; v = digits_value whole;
          dot = (s1 \<noteq> [] \<and> hd s1 = CHR ''.'');
          fdigits = (if dot then takeWhile is_digit (tl s1) else []);
          s2 = (if dot then dropWhile is_digit (tl s1) else s1);
          (f, scale) = leading_fraction 0 1 fdigits;
          u = takeWhile unit_char s2; rest = dropWhile unit_char s2
      in if 2 ^ 63 < v \<or> whole = [] \<and> fdigits = [] then None
         else case map_of duration_units u of
           None \<Rightarrow> None
         | Some unit \<Rightarrow>
             if 2 ^ 63 div unit < v then None
             else
               let v = v * unit + (if 0 < f then frac f unit scale else 0) in
               if 2 ^ 63 < v then None else Some (v, rest))"

lemma duration_part_shorter:
  assumes "duration_part frac s = Some (v, rest)"
  shows "length rest < length s"
proof -
  define s1 where "s1 = dropWhile is_digit s"
  define s2 where "s2 = (if s1 \<noteq> [] \<and> hd s1 = CHR ''.'' then dropWhile is_digit (tl s1) else s1)"
  have le: "length (dropWhile P t) \<le> length t" for P and t :: string by (rule length_dropWhile_le)
  have "length s2 \<le> length s"
    using le [of is_digit s] le [of is_digit "tl s1"] by (auto simp: s2_def s1_def)
  moreover have "map_of duration_units (takeWhile unit_char s2) \<noteq> None" "rest = dropWhile unit_char s2"
    using assms by (auto simp: duration_part_def Let_def s1_def s2_def split: option.splits if_splits prod.splits)
  moreover have "map_of duration_units [] = None" by code_simp
  ultimately show ?thesis
    by (cases s2) (auto simp: le_less_trans [OF le] less_le_trans Suc_le_eq split: if_splits)
qed

function duration_sum :: "(nat \<Rightarrow> nat \<Rightarrow> nat \<Rightarrow> nat) \<Rightarrow> nat \<Rightarrow> string \<Rightarrow> nat option" where
  "duration_sum frac d s =
     (if s = [] then Some d
      else case duration_part frac s of
        None \<Rightarrow> None
      | Some (v, rest) \<Rightarrow>
          if 2 ^ 63 < (d + v) mod 2 ^ 64 then None else duration_sum frac ((d + v) mod 2 ^ 64) rest)"
  by pat_completeness auto
termination
  by (relation "measure (\<lambda>(frac, d, s). length s)") (auto simp: duration_part_shorter)

definition parse_duration :: "(nat \<Rightarrow> nat \<Rightarrow> nat \<Rightarrow> nat) \<Rightarrow> string \<Rightarrow> int option" where
  "parse_duration frac s =
     (let neg = (s \<noteq> [] \<and> hd s = CHR ''-'');
          t = (if s \<noteq> [] \<and> (hd s = CHR ''-'' \<or> hd s = CHR ''+'') then tl s else s)
      in if t = ''0'' then Some 0
         else if t = [] then None
         else case duration_sum frac 0 t of
           None \<Rightarrow> None
         | Some d \<Rightarrow> if neg then Some (- int d) else if 2 ^ 63 \<le> d then None else Some (int d))"

subsection \<open>The argument loop\<close>

datatype flag_error = Flag_Help | Flag_Error

text \<open>A flag argument: its name and the value after an equals sign that is not its first character.\<close>

definition flag_name :: "string \<Rightarrow> string \<times> string option" where
  "flag_name s = (case s of [] \<Rightarrow> ([], None)
     | c # t \<Rightarrow> (case cut_at CHR ''='' t of (n, v, found) \<Rightarrow> (c # n, if found then Some v else None)))"

text \<open>
  \<open>kind\<close> says of a defined flag whether it is boolean, and \<open>set_flag\<close> is its \<^verbatim>\<open>Set\<close> on the
  options.  The result is the options and the remaining arguments.
\<close>

fun parse_flags ::
  "(string \<Rightarrow> bool option) \<Rightarrow> (string \<Rightarrow> string \<Rightarrow> 'o \<Rightarrow> 'o option) \<Rightarrow> string list \<Rightarrow> 'o
    \<Rightarrow> flag_error + 'o \<times> string list" where
  "parse_flags kind set_flag [] opts = Inr (opts, [])"
| "parse_flags kind set_flag (s # args) opts =
     (if length s < 2 \<or> hd s \<noteq> CHR ''-'' then Inr (opts, s # args)
      else if s = ''--'' then Inr (opts, args)
      else
        let raw = (if s ! 1 = CHR ''-'' then drop 2 s else drop 1 s) in
        if raw = [] \<or> hd raw = CHR ''-'' \<or> hd raw = CHR ''='' then Inl Flag_Error
        else case flag_name raw of (name, val) \<Rightarrow>
          (case kind name of
             None \<Rightarrow> Inl (if name = ''help'' \<or> name = ''h'' then Flag_Help else Flag_Error)
           | Some boolean \<Rightarrow>
               if boolean then
                 (case set_flag name (case val of None \<Rightarrow> ''true'' | Some v \<Rightarrow> v) opts of
                    None \<Rightarrow> Inl Flag_Error | Some opts' \<Rightarrow> parse_flags kind set_flag args opts')
               else (case (val, args) of
                   (Some v, _) \<Rightarrow> (case set_flag name v opts of
                      None \<Rightarrow> Inl Flag_Error | Some opts' \<Rightarrow> parse_flags kind set_flag args opts')
                 | (None, []) \<Rightarrow> Inl Flag_Error
                 | (None, v # rest) \<Rightarrow> (case set_flag name v opts of
                      None \<Rightarrow> Inl Flag_Error | Some opts' \<Rightarrow> parse_flags kind set_flag rest opts'))))"

text \<open>Options that parse alone parse the same way before \<^verbatim>\<open>--\<close>, and all that follows it is left
  over.\<close>

lemma parse_flags_dashdash:
  "parse_flags kind set_flag pre opts = Inr (opts', []) \<Longrightarrow> ''--'' \<notin> set pre \<Longrightarrow>
   parse_flags kind set_flag (pre @ ''--'' # rest) opts = Inr (opts', rest)"
proof (induction kind set_flag pre opts rule: parse_flags.induct)
  case (1 kind set_flag opts)
  then show ?case by simp
next
  case (2 kind set_flag s args opts)
  let ?raw = "if s ! 1 = CHR ''-'' then drop 2 s else drop 1 s"
  obtain name val where n: "flag_name ?raw = (name, val)" by fastforce
  from 2(5) have s: "\<not> (length s < 2 \<or> hd s \<noteq> CHR ''-'')" "s \<noteq> ''--''" "''--'' \<notin> set args"
    "\<not> (?raw = [] \<or> hd ?raw = CHR ''-'' \<or> hd ?raw = CHR ''='')"
    using 2(4) by (auto simp: Let_def split: if_splits)
  obtain boolean where k: "kind name = Some boolean"
    using 2(4) s n by (cases "kind name") (simp_all add: Let_def)
  note IH = 2(1-3) [OF s(1,2) refl s(4) n [symmetric] k]
  show ?case
  proof (cases boolean)
    case True
    then show ?thesis using 2(4) s n k IH(1) by (auto simp: Let_def split: option.splits)
  next
    case False
    show ?thesis
    proof (cases val)
      case None
      then obtain v more where args: "args = v # more"
        using 2(4) s n k False by (cases args) (simp_all add: Let_def)
      show ?thesis using 2(4) s n k False None args IH(2) [OF False refl None args] by (auto simp: Let_def split: option.splits)
    next
      case (Some v)
      then show ?thesis using 2(4) s n k False IH(3) [OF False refl Some] by (auto simp: Let_def split: option.splits)
    qed
  qed
qed

end
