(* ===== verification/Config.thy ===== *)
theory Config
  imports Go_Url
begin

text \<open>
  \<^verbatim>\<open>internal/config/config.go\<close>: the settings file.  The file is a state with the operations
  the code uses, each of which may fail; a stored JSON text is the record it decodes to, or nothing
  when it does not decode.
\<close>

record config =
  cf_api_url :: string
  cf_issuer :: string
  cf_client_id :: string
  cf_scopes :: string
  cf_user_id :: string
  cf_expires_at :: "int option"

definition empty_config :: config where
  "empty_config = \<lparr>cf_api_url = [], cf_issuer = [], cf_client_id = [], cf_scopes = [], cf_user_id = [],
     cf_expires_at = None\<rparr>"

datatype config_error = Not_Configured | Config_Invalid string | Config_Failed string

definition validHTTPURL :: "string \<Rightarrow> bool" where
  "validHTTPURL raw = (case ParseRequestURI raw of
       None \<Rightarrow> False
     | Some u \<Rightarrow> gu_host u \<noteq> [] \<and> gu_user u = None \<and> gu_raw_query u = [] \<and> gu_fragment u = []
         \<and> (gu_scheme u = ''http'' \<or> gu_scheme u = ''https''))"

definition config_Validate :: "config \<Rightarrow> config_error option" where
  "config_Validate c =
     (if cf_api_url c \<noteq> [] \<and> \<not> validHTTPURL (cf_api_url c)
        then Some (Config_Invalid ''API URL must be an http or https URL without credentials, query, or fragment'')
      else if cf_issuer c \<noteq> [] \<and> \<not> validHTTPURL (cf_issuer c)
        then Some (Config_Invalid ''OAuth issuer must be an http or https URL without credentials, query, or fragment'')
      else if cf_issuer c \<noteq> [] \<and> trim_space (cf_client_id c) = []
        then Some (Config_Invalid ''OAuth client ID is required with an OAuth issuer'')
      else if cf_client_id c \<noteq> [] \<and> trim_space (cf_issuer c) = []
        then Some (Config_Invalid ''OAuth issuer is required with an OAuth client ID'')
      else None)"

subsection \<open>The file\<close>

text \<open>
  The content of the file with its mode, and which operations fail: reading, making the directory
  and writing the temporary file, renaming it, changing the mode, removing.
\<close>

record config_disk =
  cd_file :: "(config option \<times> nat) option"
  cd_read_fails :: bool
  cd_prepare_fails :: bool
  cd_replace_fails :: bool
  cd_chmod_fails :: bool
  cd_remove_fails :: bool

definition private_mode :: nat where
  "private_mode = 384"

definition Save :: "config \<Rightarrow> config_disk \<Rightarrow> config_error option \<times> config_disk" where
  "Save c d = (case config_Validate c of
       Some e \<Rightarrow> (Some e, d)
     | None \<Rightarrow>
         if cd_prepare_fails d then (Some (Config_Failed ''create temporary configuration''), d)
         else if cd_replace_fails d then (Some (Config_Failed ''replace configuration''), d)
         else (if cd_chmod_fails d then Some (Config_Failed ''secure configuration file'') else None,
           d\<lparr>cd_file := Some (Some c, private_mode)\<rparr>))"

definition Load :: "config_disk \<Rightarrow> config_error + config" where
  "Load d = (case cd_file d of
       None \<Rightarrow> Inl Not_Configured
     | Some (stored, mode) \<Rightarrow>
         if cd_read_fails d then Inl (Config_Failed ''read configuration'')
         else (case stored of
             None \<Rightarrow> Inl (Config_Failed ''decode configuration'')
           | Some c \<Rightarrow> (case config_Validate c of Some e \<Rightarrow> Inl e | None \<Rightarrow> Inr c)))"

definition LoadOptional :: "config_disk \<Rightarrow> config_error + config" where
  "LoadOptional d = (case Load d of Inl Not_Configured \<Rightarrow> Inr empty_config | r \<Rightarrow> r)"

text \<open>\<^verbatim>\<open>os.Remove\<close>, where a missing file is no error for the callers.\<close>

definition remove_config :: "config_disk \<Rightarrow> bool \<times> config_disk" where
  "remove_config d = (if cd_file d = None then (True, d)
     else if cd_remove_fails d then (False, d) else (True, d\<lparr>cd_file := None\<rparr>))"

subsection \<open>Signing in and out\<close>

definition SetOAuth :: "string \<Rightarrow> string \<Rightarrow> string \<Rightarrow> string list \<Rightarrow> string \<Rightarrow> int \<Rightarrow> config \<Rightarrow> config" where
  "SetOAuth apiURL issuer clientID scopes userID expiresAt c = c\<lparr>cf_api_url := trim_right apiURL ''/'',
     cf_issuer := trim_right issuer ''/'', cf_client_id := clientID, cf_scopes := join_with '' '' scopes,
     cf_user_id := userID, cf_expires_at := Some expiresAt\<rparr>"

definition ClearOAuth :: "config \<Rightarrow> config" where
  "ClearOAuth c = c\<lparr>cf_issuer := [], cf_client_id := [], cf_scopes := [], cf_user_id := [],
     cf_expires_at := None\<rparr>"

definition config_Empty :: "config \<Rightarrow> bool" where
  "config_Empty c \<longleftrightarrow> cf_api_url c = [] \<and> cf_issuer c = [] \<and> cf_client_id c = [] \<and> cf_scopes c = []
     \<and> cf_user_id c = [] \<and> cf_expires_at c = None"

subsection \<open>Facts\<close>

lemma config_Empty_iff: "config_Empty c \<longleftrightarrow> c = empty_config"
  by (cases c) (auto simp: config_Empty_def empty_config_def)

lemma Load_Inr: "Load d = Inr c \<longleftrightarrow> (\<exists>mode. cd_file d = Some (Some c, mode)) \<and> \<not> cd_read_fails d \<and> config_Validate c = None"
  by (auto simp: Load_def split: option.splits if_splits)

lemma Validate_configured: "config_Validate c \<noteq> Some Not_Configured"
  by (simp add: config_Validate_def)

lemma LoadOptional_Inr:
  "LoadOptional d = Inr c \<longleftrightarrow> (cd_file d = None \<and> c = empty_config \<or> Load d = Inr c)"
  by (auto simp: LoadOptional_def Load_def Validate_configured split: option.splits if_splits config_error.splits sum.splits)

lemma Save_cases:
  obtains (kept) e where "Save c d = (Some e, d)"
  | (written) "config_Validate c = None" "\<not> cd_prepare_fails d" "\<not> cd_replace_fails d"
      "Save c d = (if cd_chmod_fails d then Some (Config_Failed ''secure configuration file'') else None,
         d\<lparr>cd_file := Some (Some c, private_mode)\<rparr>)"
proof (cases "config_Validate c = None \<and> \<not> cd_prepare_fails d \<and> \<not> cd_replace_fails d")
  case True
  then show thesis by (intro written) (simp_all add: Save_def)
next
  case False
  then have "\<exists>e. Save c d = (Some e, d)" by (auto simp: Save_def split: option.split)
  then show thesis using kept by blast
qed

lemma Save_Load: "Save c d = (None, d') \<Longrightarrow> \<not> cd_read_fails d \<Longrightarrow> Load d' = Inr c"
  by (auto simp: Save_def Load_Inr split: option.splits if_splits)

lemma Save_failed_Load: "Save c d = (Some x, d') \<Longrightarrow> Load d' = Load d \<or> cd_chmod_fails d"
  by (auto simp: Save_def split: option.splits if_splits)

lemma ClearOAuth_valid: "config_Validate c = None \<Longrightarrow> config_Validate (ClearOAuth c) = None"
  by (auto simp: config_Validate_def ClearOAuth_def split: if_splits)

lemma empty_config_valid: "config_Validate empty_config = None"
  by (simp add: config_Validate_def empty_config_def)

text \<open>Settings survive a restart: what \<^verbatim>\<open>Save\<close> reports as saved is what the next
  \<^verbatim>\<open>Load\<close> returns, in a file only the owner can read; and a save that fails leaves the
  previous settings loadable, unless only the final change of mode failed, when the new ones are
  there.  Only valid settings are ever written.\<close>

theorem saved_settings_load:
  assumes "Save c d = (result, d')" and "\<not> cd_read_fails d"
  shows "(result = None \<longrightarrow> Load d' = Inr c \<and> cd_file d' = Some (Some c, private_mode))
    \<and> (result \<noteq> None \<longrightarrow> Load d' = Load d \<or> cd_chmod_fails d \<and> Load d' = Inr c)
    \<and> (cd_file d' \<noteq> cd_file d \<longrightarrow> config_Validate c = None)"
  using assms by (cases c d rule: Save_cases) (auto simp: Load_Inr split: if_splits)

definition sample_disk :: config_disk where
  "sample_disk = \<lparr>cd_file = None, cd_read_fails = False, cd_prepare_fails = False, cd_replace_fails = False,
     cd_chmod_fails = False, cd_remove_fails = False\<rparr>"

definition sample_config :: config where
  "sample_config = SetOAuth ''https://api.mockingo.com/'' ''https://clerk.example/'' ''cli'' [''openid''] ''u1'' 5 empty_config"

lemma sample_config_valid: "config_Validate sample_config = None"
  by code_simp

lemma saved_settings_load_witness:
  "\<exists>d'. Save sample_config sample_disk = (None, d') \<and> Load d' = Inr sample_config"
proof -
  have s: "Save sample_config sample_disk = (None, sample_disk\<lparr>cd_file := Some (Some sample_config, private_mode)\<rparr>)"
    by (simp add: Save_def sample_config_valid) (simp add: sample_disk_def)
  have "\<not> cd_read_fails sample_disk" by (simp add: sample_disk_def)
  from saved_settings_load [OF s this] s show ?thesis by blast
qed

end
