(* ===== verification/Cli_Args.thy ===== *)
theory Cli_Args
  imports Go_Flag Config Go_Query
begin

text \<open>
  \<^verbatim>\<open>internal/cli/args.go\<close> and the option parsing of \<^verbatim>\<open>auth_commands.go\<close>: what the
  command line and the environment variables turn into, and which combinations are refused.  The
  environment is a function from names to values, empty where unset; \<open>frac\<close> is the floating-point
  part of \<^verbatim>\<open>time.ParseDuration\<close>.
\<close>

type_synonym getenv = "string \<Rightarrow> string"
type_synonym fraction = "nat \<Rightarrow> nat \<Rightarrow> nat \<Rightarrow> nat"

datatype args_error = Args_Help | Args_Error string

subsection \<open>Environment variables\<close>

definition envString :: "getenv \<Rightarrow> string \<Rightarrow> string \<Rightarrow> string" where
  "envString env name fallback = (let val = trim_space (env name) in if val \<noteq> [] then val else fallback)"

definition envInt :: "getenv \<Rightarrow> string \<Rightarrow> int \<Rightarrow> string + int" where
  "envInt env name fallback =
     (let val = trim_space (env name) in
      if val = [] then Inr fallback
      else case atoi val of None \<Rightarrow> Inl (name @ '' must be an integer'') | Some i \<Rightarrow> Inr i)"

definition envBool :: "getenv \<Rightarrow> string \<Rightarrow> bool \<Rightarrow> string + bool" where
  "envBool env name fallback =
     (let val = trim_space (envString env name []) in
      if val = [] then Inr fallback
      else case parse_bool val of None \<Rightarrow> Inl (name @ '' must be true or false'') | Some b \<Rightarrow> Inr b)"

definition envDuration :: "fraction \<Rightarrow> getenv \<Rightarrow> string \<Rightarrow> int \<Rightarrow> string + int" where
  "envDuration frac env name fallback =
     (let val = trim_space (env name) in
      if val = [] then Inr fallback
      else case parse_duration frac val of
          None \<Rightarrow> Inl (name @ '' must be a positive duration'')
        | Some d \<Rightarrow> if d \<le> 0 then Inl (name @ '' must be a positive duration'') else Inr d)"

subsection \<open>Hosts and the child's environment\<close>

definition proxy_host_specials :: string where
  "proxy_host_specials = ''/'' @ [CHR 0x5C] @ '':@ '' @ [CHR 0x09, CHR 0x0D, CHR 0x0A]"

definition proxy_label_rune :: "nat \<Rightarrow> bool" where
  "proxy_label_rune r \<longleftrightarrow> 97 \<le> r \<and> r \<le> 122 \<or> 48 \<le> r \<and> r \<le> 57 \<or> r = 45"

definition validProxyHost :: "string \<Rightarrow> bool" where
  "validProxyHost host \<longleftrightarrow> \<not> (host = [] \<or> 253 < length host \<or> contains_any host proxy_host_specials)
     \<and> list_all (\<lambda>label. \<not> (label = [] \<or> 63 < length label \<or> hd label = CHR ''-'' \<or> last label = CHR ''-'')
         \<and> list_all proxy_label_rune (runes label)) (split_on CHR ''.'' host)"

definition passthrough_host :: "ext \<Rightarrow> string \<Rightarrow> string" where
  "passthrough_host E host = to_lower E (trim_suffix host ''.'')"

definition normalizePassthroughHosts :: "ext \<Rightarrow> string list \<Rightarrow> string + string list" where
  "normalizePassthroughHosts E values =
     (let hosts = map (passthrough_host E) values in
      case find (\<lambda>h. parse_ip h = None \<and> \<not> validProxyHost h) hosts of
        Some h \<Rightarrow> Inl (''invalid --passthrough-host '' @ h)
      | None \<Rightarrow> Inr (sort (remdups hosts)))"

text \<open>One \<^verbatim>\<open>KEY=VALUE\<close>; the later of two with the same key wins.\<close>

fun environment_from :: "(string, string) gomap \<Rightarrow> string list \<Rightarrow> string + (string, string) gomap" where
  "environment_from result [] = Inr result"
| "environment_from result (val # values) = (case cut_at CHR ''='' val of (key, v, found) \<Rightarrow>
     if \<not> found \<or> key = [] \<or> CHR 0x00 \<in> set key \<or> CHR ''='' \<in> set key
       then Inl (''invalid environment value '' @ val @ ''; expected KEY=VALUE'')
     else environment_from (gomap_set key v result) values)"

definition ParseEnvironment :: "string list \<Rightarrow> string + (string, string) gomap" where
  "ParseEnvironment values = environment_from [] values"

definition normalizeProxyBind :: "string \<Rightarrow> string + string" where
  "normalizeProxyBind val = (let v = trim_space val in
     case parse_ip v of None \<Rightarrow> Inl (''invalid --proxy-bind address '' @ v) | Some ip \<Rightarrow> Inr (ip_string ip))"

subsection \<open>The options of run\<close>

record run_options =
  ro_name :: string
  ro_http_port :: int
  ro_dependency_proxy :: bool
  ro_proxy_bind :: string
  ro_proxy_port :: int
  ro_passthrough :: "string list"
  ro_cwd :: string
  ro_environment :: "(string, string) gomap"
  ro_startup_timeout :: int
  ro_request_timeout :: int
  ro_verbose :: bool
  ro_command :: "string list"
  ro_api_url :: string
  ro_gateway_host :: string
  ro_protocol_version :: int
  ro_reconnect :: bool
  ro_initial_delay :: int
  ro_max_delay :: int
  ro_allow_insecure :: bool
  ro_allow_file :: bool

text \<open>The options under construction, with the values of the repeatable flags.\<close>

record run_flags =
  rf_options :: run_options
  rf_env :: "string list"
  rf_passthrough :: "string list"

definition second_ns :: int where
  "second_ns = 1000000000"

definition run_flag_kind :: "string \<Rightarrow> bool option" where
  "run_flag_kind name =
     (if name \<in> set [''dependency-proxy'', ''verbose'', ''reconnect'', ''allow-insecure-gateway'',
          ''allow-insecure-storage''] then Some True
      else if name \<in> set [''name'', ''http'', ''proxy-bind'', ''proxy-port'', ''passthrough-host'', ''cwd'',
          ''env'', ''startup-timeout'', ''request-timeout'', ''api-url'', ''expected-gateway-host'',
          ''tunnel-protocol-version'', ''reconnect-initial-delay'', ''reconnect-max-delay''] then Some False
      else None)"

definition update_options :: "(run_options \<Rightarrow> run_options) \<Rightarrow> run_flags \<Rightarrow> run_flags" where
  "update_options f r = r\<lparr>rf_options := f (rf_options r)\<rparr>"

definition set_run_flag :: "fraction \<Rightarrow> string \<Rightarrow> string \<Rightarrow> run_flags \<Rightarrow> run_flags option" where
  "set_run_flag frac name v r =
     (let str = (\<lambda>f. Some (update_options (f v) r));
          num = (\<lambda>f. map_option (\<lambda>i. update_options (f i) r) (parse_int v));
          bool = (\<lambda>f. map_option (\<lambda>b. update_options (f b) r) (parse_bool v));
          dur = (\<lambda>f. map_option (\<lambda>d. update_options (f d) r) (parse_duration frac v))
      in if name = ''name'' then str (\<lambda>v o'. o'\<lparr>ro_name := v\<rparr>)
         else if name = ''http'' then num (\<lambda>i o'. o'\<lparr>ro_http_port := i\<rparr>)
         else if name = ''dependency-proxy'' then bool (\<lambda>b o'. o'\<lparr>ro_dependency_proxy := b\<rparr>)
         else if name = ''proxy-bind'' then str (\<lambda>v o'. o'\<lparr>ro_proxy_bind := v\<rparr>)
         else if name = ''proxy-port'' then num (\<lambda>i o'. o'\<lparr>ro_proxy_port := i\<rparr>)
         else if name = ''passthrough-host'' then
           (let t = trim_space v in if t = [] then None else Some (r\<lparr>rf_passthrough := rf_passthrough r @ [t]\<rparr>))
         else if name = ''cwd'' then str (\<lambda>v o'. o'\<lparr>ro_cwd := v\<rparr>)
         else if name = ''env'' then Some (r\<lparr>rf_env := rf_env r @ [v]\<rparr>)
         else if name = ''startup-timeout'' then dur (\<lambda>d o'. o'\<lparr>ro_startup_timeout := d\<rparr>)
         else if name = ''request-timeout'' then dur (\<lambda>d o'. o'\<lparr>ro_request_timeout := d\<rparr>)
         else if name = ''verbose'' then bool (\<lambda>b o'. o'\<lparr>ro_verbose := b\<rparr>)
         else if name = ''api-url'' then str (\<lambda>v o'. o'\<lparr>ro_api_url := v\<rparr>)
         else if name = ''expected-gateway-host'' then str (\<lambda>v o'. o'\<lparr>ro_gateway_host := v\<rparr>)
         else if name = ''tunnel-protocol-version'' then num (\<lambda>i o'. o'\<lparr>ro_protocol_version := i\<rparr>)
         else if name = ''reconnect'' then bool (\<lambda>b o'. o'\<lparr>ro_reconnect := b\<rparr>)
         else if name = ''reconnect-initial-delay'' then dur (\<lambda>d o'. o'\<lparr>ro_initial_delay := d\<rparr>)
         else if name = ''reconnect-max-delay'' then dur (\<lambda>d o'. o'\<lparr>ro_max_delay := d\<rparr>)
         else if name = ''allow-insecure-gateway'' then bool (\<lambda>b o'. o'\<lparr>ro_allow_insecure := b\<rparr>)
         else if name = ''allow-insecure-storage'' then bool (\<lambda>b o'. o'\<lparr>ro_allow_file := b\<rparr>)
         else None)"

text \<open>The defaults, from the environment.\<close>

definition run_defaults :: "fraction \<Rightarrow> getenv \<Rightarrow> string + run_options" where
  "run_defaults frac env = (case envInt env ''MOCKINGO_TUNNEL_PROTOCOL_VERSION'' 1 of
       Inl e \<Rightarrow> Inl e
     | Inr version \<Rightarrow> (case envBool env ''MOCKINGO_RECONNECT_ENABLED'' True of
         Inl e \<Rightarrow> Inl e
       | Inr reconnect \<Rightarrow> (case envBool env ''MOCKINGO_DEPENDENCY_PROXY_ENABLED'' True of
           Inl e \<Rightarrow> Inl e
         | Inr dependencyProxy \<Rightarrow> (case envBool env ''MOCKINGO_ALLOW_INSECURE_GATEWAY'' False of
             Inl e \<Rightarrow> Inl e
           | Inr insecure \<Rightarrow> (case envBool env ''MOCKINGO_ALLOW_FILE_CREDENTIALS'' False of
               Inl e \<Rightarrow> Inl e
             | Inr allowFile \<Rightarrow> (case envDuration frac env ''MOCKINGO_RECONNECT_INITIAL_DELAY'' second_ns of
                 Inl e \<Rightarrow> Inl e
               | Inr initial \<Rightarrow> (case envDuration frac env ''MOCKINGO_RECONNECT_MAX_DELAY'' (30 * second_ns) of
                   Inl e \<Rightarrow> Inl e
                 | Inr maximum \<Rightarrow> Inr \<lparr>ro_name = [], ro_http_port = 0, ro_dependency_proxy = dependencyProxy,
                     ro_proxy_bind = ''127.0.0.1'', ro_proxy_port = 8899, ro_passthrough = [], ro_cwd = [],
                     ro_environment = [], ro_startup_timeout = 60 * second_ns,
                     ro_request_timeout = 60 * second_ns, ro_verbose = False, ro_command = [],
                     ro_api_url = envString env ''MOCKINGO_API_URL'' [],
                     ro_gateway_host = envString env ''MOCKINGO_EXPECTED_GATEWAY_HOST'' ''gateway.mockingo.com'',
                     ro_protocol_version = version, ro_reconnect = reconnect, ro_initial_delay = initial,
                     ro_max_delay = maximum, ro_allow_insecure = insecure, ro_allow_file = allowFile\<rparr>)))))))"

text \<open>The checks after the flags have been read.\<close>

definition check_run :: "ext \<Rightarrow> run_flags \<Rightarrow> string list \<Rightarrow> string + run_options" where
  "check_run E r command =
     (let o' = rf_options r in
      if ro_name o' = [] then Inl ''--name is required''
      else if ro_http_port o' < 1 \<or> 65535 < ro_http_port o' then Inl ''--http must be a port between 1 and 65535''
      else if ro_proxy_port o' < 1 \<or> 65535 < ro_proxy_port o' then Inl ''--proxy-port must be between 1 and 65535''
      else case normalizeProxyBind (ro_proxy_bind o') of
        Inl e \<Rightarrow> Inl e
      | Inr bind \<Rightarrow>
          if ro_dependency_proxy o' \<and> ro_proxy_port o' = ro_http_port o'
            then Inl ''--proxy-port must differ from --http when the dependency proxy is enabled''
          else if ro_startup_timeout o' \<le> 0 \<or> ro_request_timeout o' \<le> 0 then Inl ''timeouts must be greater than zero''
          else if ro_protocol_version o' \<noteq> 1 then Inl ''--tunnel-protocol-version must be 1''
          else if ro_initial_delay o' \<le> 0 \<or> ro_max_delay o' < ro_initial_delay o'
            then Inl ''reconnect delays must be positive and maximum must not be less than initial''
          else if trim_space (ro_gateway_host o') = [] then Inl ''--expected-gateway-host is required''
          else case ParseEnvironment (rf_env r) of
            Inl e \<Rightarrow> Inl e
          | Inr environment \<Rightarrow> (case normalizePassthroughHosts E (rf_passthrough r) of
              Inl e \<Rightarrow> Inl e
            | Inr hosts \<Rightarrow> Inr (o'\<lparr>ro_proxy_bind := bind, ro_environment := environment,
                ro_passthrough := hosts, ro_command := command\<rparr>)))"

definition ParseRun :: "ext \<Rightarrow> fraction \<Rightarrow> getenv \<Rightarrow> string list \<Rightarrow> args_error + run_options" where
  "ParseRun E frac env args = (case run_defaults frac env of
       Inl e \<Rightarrow> Inl (Args_Error e)
     | Inr defaults \<Rightarrow>
         (case parse_flags run_flag_kind (set_run_flag frac) args
             \<lparr>rf_options = defaults, rf_env = [], rf_passthrough = []\<rparr> of
            Inl Flag_Help \<Rightarrow> Inl Args_Help
          | Inl Flag_Error \<Rightarrow> Inl (Args_Error ''flag'')
          | Inr (r, command) \<Rightarrow> (case check_run E r command of Inl e \<Rightarrow> Inl (Args_Error e) | Inr o' \<Rightarrow> Inr o')))"

subsection \<open>The options of login, whoami and logout\<close>

record login_options =
  lo_api_url :: string
  lo_issuer :: string
  lo_client_id :: string
  lo_scopes :: string
  lo_callback_host :: string
  lo_callback_path :: string
  lo_callback_port :: int
  lo_timeout :: int
  lo_no_browser :: bool
  lo_force :: bool
  lo_allow_file :: bool
  lo_issuer_explicit :: bool
  lo_client_id_explicit :: bool
  lo_scopes_explicit :: bool

definition allow_file_default :: "ext \<Rightarrow> getenv \<Rightarrow> bool" where
  "allow_file_default E env = equal_fold E (env ''MOCKINGO_ALLOW_FILE_CREDENTIALS'') ''true''"

definition login_flag_kind :: "string \<Rightarrow> bool option" where
  "login_flag_kind name =
     (if name \<in> set [''no-browser'', ''force'', ''allow-insecure-storage''] then Some True
      else if name \<in> set [''api-url'', ''issuer'', ''client-id'', ''scopes'', ''callback-port''] then Some False
      else None)"

text \<open>A flag of login; those that \<^verbatim>\<open>Visit\<close> finds set are marked explicit at once.\<close>

definition set_login_flag :: "string \<Rightarrow> string \<Rightarrow> login_options \<Rightarrow> login_options option" where
  "set_login_flag name v o' =
     (if name = ''api-url'' then Some (o'\<lparr>lo_api_url := v\<rparr>)
      else if name = ''issuer'' then Some (o'\<lparr>lo_issuer := v, lo_issuer_explicit := True\<rparr>)
      else if name = ''client-id'' then Some (o'\<lparr>lo_client_id := v, lo_client_id_explicit := True\<rparr>)
      else if name = ''scopes'' then Some (o'\<lparr>lo_scopes := v, lo_scopes_explicit := True\<rparr>)
      else if name = ''callback-port'' then map_option (\<lambda>i. o'\<lparr>lo_callback_port := i\<rparr>) (parse_int v)
      else if name = ''no-browser'' then map_option (\<lambda>b. o'\<lparr>lo_no_browser := b\<rparr>) (parse_bool v)
      else if name = ''force'' then map_option (\<lambda>b. o'\<lparr>lo_force := b\<rparr>) (parse_bool v)
      else if name = ''allow-insecure-storage'' then map_option (\<lambda>b. o'\<lparr>lo_allow_file := b\<rparr>) (parse_bool v)
      else None)"

definition login_defaults :: "ext \<Rightarrow> getenv \<Rightarrow> config \<Rightarrow> int \<Rightarrow> int \<Rightarrow> login_options" where
  "login_defaults E env existing port timeout =
     (let apiDefault = (if cf_api_url existing = [] then ''https://api.mockingo.com'' else cf_api_url existing)
      in \<lparr>lo_api_url = envString env ''MOCKINGO_API_URL'' apiDefault,
          lo_issuer = envString env ''MOCKINGO_OAUTH_ISSUER'' (cf_issuer existing),
          lo_client_id = envString env ''MOCKINGO_OAUTH_CLIENT_ID'' (cf_client_id existing),
          lo_scopes = envString env ''MOCKINGO_OAUTH_SCOPES'' (cf_scopes existing),
          lo_callback_host = envString env ''MOCKINGO_OAUTH_CALLBACK_HOST'' ''127.0.0.1'',
          lo_callback_path = envString env ''MOCKINGO_OAUTH_CALLBACK_PATH'' ''/oauth/callback'',
          lo_callback_port = port, lo_timeout = timeout, lo_no_browser = False, lo_force = False,
          lo_allow_file = allow_file_default E env,
          lo_issuer_explicit = (trim_space (env ''MOCKINGO_OAUTH_ISSUER'') \<noteq> []),
          lo_client_id_explicit = (trim_space (env ''MOCKINGO_OAUTH_CLIENT_ID'') \<noteq> []),
          lo_scopes_explicit = (trim_space (env ''MOCKINGO_OAUTH_SCOPES'') \<noteq> [])\<rparr>)"

definition parseLoginOptions ::
  "ext \<Rightarrow> fraction \<Rightarrow> getenv \<Rightarrow> string list \<Rightarrow> config \<Rightarrow> args_error + login_options" where
  "parseLoginOptions E frac env args existing =
     (case envInt env ''MOCKINGO_OAUTH_CALLBACK_PORT'' 53682 of
        Inl e \<Rightarrow> Inl (Args_Error e)
      | Inr port \<Rightarrow> (case envDuration frac env ''MOCKINGO_LOGIN_TIMEOUT'' (5 * 60 * second_ns) of
          Inl e \<Rightarrow> Inl (Args_Error e)
        | Inr timeout \<Rightarrow>
            (case parse_flags login_flag_kind set_login_flag args (login_defaults E env existing port timeout) of
               Inl Flag_Help \<Rightarrow> Inl Args_Help
             | Inl Flag_Error \<Rightarrow> Inl (Args_Error ''invalid arguments'')
             | Inr (o', positional) \<Rightarrow>
                 if positional \<noteq> [] then Inl (Args_Error ''invalid arguments: login does not accept positional arguments'')
                 else Inr o')))"

definition validateAPIURL :: "string \<Rightarrow> string + string" where
  "validateAPIURL raw = (case ParseRequestURI raw of
       None \<Rightarrow> Inl ''API URL must be an http or https URL without credentials, query, or fragment''
     | Some u \<Rightarrow>
         if gu_host u = [] \<or> gu_user u \<noteq> None \<or> gu_raw_query u \<noteq> [] \<or> gu_fragment u \<noteq> []
             \<or> gu_scheme u \<noteq> ''http'' \<and> gu_scheme u \<noteq> ''https''
           then Inl ''API URL must be an http or https URL without credentials, query, or fragment''
         else Inr (trim_right raw ''/''))"

text \<open>whoami has two boolean flags and logout one; the result is \<^verbatim>\<open>--json\<close> and whether file
  storage is allowed.\<close>

definition store_flag_kind :: "bool \<Rightarrow> string \<Rightarrow> bool option" where
  "store_flag_kind json name = (if name = ''allow-insecure-storage'' \<or> json \<and> name = ''json'' then Some True else None)"

definition set_store_flag :: "string \<Rightarrow> string \<Rightarrow> bool \<times> bool \<Rightarrow> (bool \<times> bool) option" where
  "set_store_flag name v o' = (case parse_bool v of None \<Rightarrow> None
     | Some b \<Rightarrow> Some (if name = ''json'' then (b, snd o') else (fst o', b)))"

definition parse_store_flags :: "ext \<Rightarrow> getenv \<Rightarrow> bool \<Rightarrow> string list \<Rightarrow> args_error + bool \<times> bool" where
  "parse_store_flags E env json args =
     (case parse_flags (store_flag_kind json) set_store_flag args (False, allow_file_default E env) of
        Inl Flag_Help \<Rightarrow> Inl Args_Help
      | Inl Flag_Error \<Rightarrow> Inl (Args_Error ''flag'')
      | Inr (o', positional) \<Rightarrow> if positional \<noteq> [] then Inl (Args_Error ''invalid arguments'') else Inr o')"

subsection \<open>What accepted options satisfy\<close>

lemma normalizePassthroughHosts_Inr:
  "normalizePassthroughHosts E values = Inr hosts \<longleftrightarrow>
     hosts = sort (remdups (map (passthrough_host E) values))
     \<and> (\<forall>v \<in> set values. parse_ip (passthrough_host E v) \<noteq> None \<or> validProxyHost (passthrough_host E v))"
  by (auto simp: normalizePassthroughHosts_def Let_def find_None_iff find_Some_iff split: option.splits)

lemma environment_from_wf:
  "environment_from result vs = Inr m \<Longrightarrow> wf_gomap result \<Longrightarrow> [] \<notin> fst ` set result \<Longrightarrow>
   wf_gomap m \<and> [] \<notin> fst ` set m"
  by (induction result vs rule: environment_from.induct) (auto split: prod.splits if_splits)

lemma normalizeProxyBind_Inr:
  "normalizeProxyBind v = Inr bind \<Longrightarrow> \<exists>ip. parse_ip (trim_space v) = Some ip \<and> bind = ip_string ip"
  by (auto simp: normalizeProxyBind_def Let_def split: option.splits)

lemma check_run_Inr:
  assumes "check_run E r command = Inr o'"
  shows "ro_name o' \<noteq> []" "1 \<le> ro_http_port o'" "ro_http_port o' \<le> 65535"
    "1 \<le> ro_proxy_port o'" "ro_proxy_port o' \<le> 65535"
    "ro_dependency_proxy o' \<Longrightarrow> ro_proxy_port o' \<noteq> ro_http_port o'"
    "0 < ro_startup_timeout o'" "0 < ro_request_timeout o'" "ro_protocol_version o' = 1"
    "0 < ro_initial_delay o'" "ro_initial_delay o' \<le> ro_max_delay o'" "trim_space (ro_gateway_host o') \<noteq> []"
    "normalizeProxyBind (ro_proxy_bind (rf_options r)) = Inr (ro_proxy_bind o')"
    "ParseEnvironment (rf_env r) = Inr (ro_environment o')"
    "normalizePassthroughHosts E (rf_passthrough r) = Inr (ro_passthrough o')"
    "ro_command o' = command"
  using assms by (auto simp: check_run_def Let_def split: if_splits sum.splits)

lemma check_run_command:
  "check_run E r command = map_sum id (\<lambda>o'. o'\<lparr>ro_command := command\<rparr>) (check_run E r [])"
  unfolding check_run_def Let_def
  by (cases "normalizeProxyBind (ro_proxy_bind (rf_options r))"; cases "ParseEnvironment (rf_env r)";
      cases "normalizePassthroughHosts E (rf_passthrough r)") simp_all

lemma ParseRun_Inr:
  "ParseRun E frac env args = Inr o' \<longleftrightarrow> (\<exists>defaults r command. run_defaults frac env = Inr defaults
     \<and> parse_flags run_flag_kind (set_run_flag frac) args \<lparr>rf_options = defaults, rf_env = [], rf_passthrough = []\<rparr>
         = Inr (r, command)
     \<and> check_run E r command = Inr o')"
  by (auto simp: ParseRun_def split: sum.splits flag_error.splits)

text \<open>C26: Options that the command line accepts are usable: whatever the arguments and the
  environment, the name is there, both ports are in range and differ when the dependency proxy is on,
  the proxy binds to the canonical text of an IP address, timeouts and reconnect delays are positive
  and ordered, the protocol version is the supported one, the child's variables have distinct,
  non-empty names, and the passthrough hosts are sorted, without repetition, each an IP address or a
  host name.\<close>

theorem accepted_run_options:
  assumes "ParseRun E frac env args = Inr o'"
  shows "ro_name o' \<noteq> [] \<and> 1 \<le> ro_http_port o' \<and> ro_http_port o' \<le> 65535
    \<and> 1 \<le> ro_proxy_port o' \<and> ro_proxy_port o' \<le> 65535
    \<and> \<not> (ro_dependency_proxy o' \<and> ro_proxy_port o' = ro_http_port o')
    \<and> (\<exists>text ip. parse_ip text = Some ip \<and> ro_proxy_bind o' = ip_string ip)
    \<and> 0 < ro_startup_timeout o' \<and> 0 < ro_request_timeout o' \<and> ro_protocol_version o' = 1
    \<and> 0 < ro_initial_delay o' \<and> ro_initial_delay o' \<le> ro_max_delay o'
    \<and> trim_space (ro_gateway_host o') \<noteq> []
    \<and> wf_gomap (ro_environment o') \<and> [] \<notin> fst ` set (ro_environment o')
    \<and> sorted (ro_passthrough o') \<and> distinct (ro_passthrough o')
    \<and> list_all (\<lambda>h. parse_ip h \<noteq> None \<or> validProxyHost h) (ro_passthrough o')"
proof -
  from assms obtain r command where c: "check_run E r command = Inr o'" by (auto simp: ParseRun_Inr)
  note checked = check_run_Inr [OF c]
  have "list_all (\<lambda>h. parse_ip h \<noteq> None \<or> validProxyHost h) (ro_passthrough o')"
    and "sorted (ro_passthrough o')" and "distinct (ro_passthrough o')"
    using checked(15) by (auto simp: normalizePassthroughHosts_Inr list_all_iff)
  moreover have "wf_gomap (ro_environment o')" "[] \<notin> fst ` set (ro_environment o')"
    using checked(14) environment_from_wf [of "[]" "rf_env r"] by (auto simp: ParseEnvironment_def)
  ultimately show ?thesis using checked(1-12) normalizeProxyBind_Inr [OF checked(13)] by blast
qed

definition no_env :: getenv where
  "no_env name = []"

definition sample_frac :: fraction where
  "sample_frac f unit scale = f * unit div scale"

definition sample_run_args :: "string list" where
  "sample_run_args = [''--name'', ''shop'', ''-http=0x1F90'', ''--passthrough-host'', ''B.example.'',
     ''--passthrough-host=a.example'', ''--env'', ''A=b=c'', ''--reconnect-max-delay'', ''1m30s'', ''--verbose'']"

lemma sample_run_parsed:
  "map_sum (\<lambda>e. ()) (\<lambda>o'. (ro_name o', ro_http_port o', ro_passthrough o'))
      (ParseRun sample_ext sample_frac no_env sample_run_args)
    = Inr (''shop'', 8080, [''a.example'', ''b.example''])"
  "map_sum (\<lambda>e. ()) (\<lambda>o'. (ro_environment o', ro_max_delay o', ro_command o'))
      (ParseRun sample_ext sample_frac no_env sample_run_args)
    = Inr ([(''A'', ''b=c'')], 90000000000, [])"
  by code_simp+

lemma sample_run_options:
  obtains o' where "ParseRun sample_ext sample_frac no_env sample_run_args = Inr o'"
    and "ro_passthrough o' = [''a.example'', ''b.example'']" and "ro_command o' = []"
  using sample_run_parsed by (cases "ParseRun sample_ext sample_frac no_env sample_run_args") auto

lemma accepted_run_options_witness:
  "\<exists>o'. ParseRun sample_ext sample_frac no_env sample_run_args = Inr o' \<and> sorted [''a.example'', ''b.example'']
     \<and> 0 < ro_initial_delay o'"
proof -
  obtain o' where o': "ParseRun sample_ext sample_frac no_env sample_run_args = Inr o'"
    "ro_passthrough o' = [''a.example'', ''b.example'']" by (rule sample_run_options)
  from accepted_run_options [OF o'(1)] o' show ?thesis by auto
qed

text \<open>The command of the child is taken verbatim: arguments that are accepted on their own are
  accepted with the same options before \<^verbatim>\<open>--\<close>, and everything after it, flags and further
  \<^verbatim>\<open>--\<close> included, becomes the command, in order and unchanged.\<close>

theorem command_taken_verbatim:
  assumes "ParseRun E frac env args = Inr o'" and "ro_command o' = []" and "''--'' \<notin> set args"
  shows "ParseRun E frac env (args @ ''--'' # command) = Inr (o'\<lparr>ro_command := command\<rparr>)"
proof -
  from assms(1) obtain defaults r rest where d: "run_defaults frac env = Inr defaults"
    and p: "parse_flags run_flag_kind (set_run_flag frac) args
      \<lparr>rf_options = defaults, rf_env = [], rf_passthrough = []\<rparr> = Inr (r, rest)"
    and c: "check_run E r rest = Inr o'" by (auto simp: ParseRun_Inr)
  have rest: "rest = []" using check_run_Inr(16) [OF c] assms(2) by simp
  with c have "check_run E r command = Inr (o'\<lparr>ro_command := command\<rparr>)"
    by (simp add: check_run_command [of E r command])
  then show ?thesis
    unfolding ParseRun_Inr using d parse_flags_dashdash [OF p [unfolded rest] assms(3)] by blast
qed

lemma command_taken_verbatim_witness:
  "\<exists>o'. ParseRun sample_ext sample_frac no_env (sample_run_args @ [''--'', ''--help'', ''--'', ''-x'']) = Inr o'
     \<and> ro_command o' = [''--help'', ''--'', ''-x'']"
proof -
  obtain o' where o': "ParseRun sample_ext sample_frac no_env sample_run_args = Inr o'" "ro_command o' = []"
    by (rule sample_run_options)
  have "''--'' \<notin> set sample_run_args" by code_simp
  from command_taken_verbatim [OF o' this, of "[''--help'', ''--'', ''-x'']"] show ?thesis by auto
qed

end
