(* ===== verification/Login_Configuration.thy ===== *)
theory Login_Configuration
  imports Go_Url
begin

text \<open>
  \<^verbatim>\<open>internal/apiclient/login_configuration.go\<close>: the public OAuth settings a control plane
  advertises.  \<open>fetch\<close> gives the status of the answer to a GET of a URL and what its body decodes to.
\<close>

record login_configuration =
  lc_issuer :: string
  lc_client_id :: string
  lc_scopes :: "string list"

definition loginConfigurationPath :: string where
  "loginConfigurationPath = ''/.well-known/mockingo-agent.json''"

text \<open>The scopes so far are also the ones that were seen.\<close>

fun collect_scopes :: "string list \<Rightarrow> string list \<Rightarrow> string list" where
  "collect_scopes scopes [] = scopes"
| "collect_scopes scopes (s # ss) = collect_scopes (if s \<in> set scopes then scopes else scopes @ [s]) ss"

definition normalizeScopes :: "string list \<Rightarrow> string list" where
  "normalizeScopes vs = fold (\<lambda>v scopes. collect_scopes scopes (split_fields v)) vs []"

definition DiscoverLoginConfiguration ::
  "(string \<Rightarrow> (int \<times> login_configuration option) option) \<Rightarrow> string \<Rightarrow> string + login_configuration" where
  "DiscoverLoginConfiguration fetch apiURL =
     (let target = trim_right apiURL ''/'' @ loginConfigurationPath in
      case Parse_url target of
        None \<Rightarrow> Inl ''parse''
      | Some u \<Rightarrow> (case fetch target of
          None \<Rightarrow> Inl ''request Mockingo login configuration''
        | Some (status, body) \<Rightarrow>
            if status \<noteq> 200 then Inl (''Mockingo API login configuration returned HTTP '' @ itoa status)
            else (case body of
                None \<Rightarrow> Inl ''decode Mockingo login configuration''
              | Some c \<Rightarrow>
                  let c = c\<lparr>lc_issuer := trim_right (trim_space (lc_issuer c)) ''/'',
                    lc_client_id := trim_space (lc_client_id c), lc_scopes := normalizeScopes (lc_scopes c)\<rparr>
                  in if lc_issuer c = [] \<or> lc_client_id c = []
                       then Inl ''Mockingo API returned incomplete login configuration''
                     else if lc_scopes c = [] then Inl ''Mockingo API returned no OAuth scopes''
                     else Inr c)))"

text \<open>\<^verbatim>\<open>normalizeScopes\<close> keeps the first occurrence of every scope, in order.\<close>

lemma collect_scopes_append: "collect_scopes scopes (xs @ ys) = collect_scopes (collect_scopes scopes xs) ys"
  by (induction xs arbitrary: scopes) simp_all

lemma collect_scopes_remdups: "collect_scopes (rev (remdups xs)) ys = rev (remdups (rev ys @ xs))"
proof (induction ys arbitrary: xs)
  case (Cons y ys)
  have "(if y \<in> set (rev (remdups xs)) then rev (remdups xs) else rev (remdups xs) @ [y]) = rev (remdups (y # xs))"
    by simp
  then show ?case using Cons [of "y # xs"] by simp
qed simp

lemma normalizeScopes_first: "normalizeScopes vs = rev (remdups (rev (concat (map split_fields vs))))"
proof -
  have "fold (\<lambda>v scopes. collect_scopes scopes (split_fields v)) vs scopes
      = collect_scopes scopes (concat (map split_fields vs))" for scopes
    by (induction vs arbitrary: scopes) (simp_all add: collect_scopes_append)
  then show ?thesis using collect_scopes_remdups [of "[]"] by (simp add: normalizeScopes_def)
qed

lemma DiscoverLoginConfiguration_Inr:
  "DiscoverLoginConfiguration fetch apiURL = Inr c \<Longrightarrow>
   lc_issuer c \<noteq> [] \<and> lc_client_id c \<noteq> [] \<and> lc_scopes c \<noteq> [] \<and> distinct (lc_scopes c)"
  by (auto simp: DiscoverLoginConfiguration_def Let_def normalizeScopes_first split: option.splits if_splits)

end
