(* ===== verification/Auth_Commands.thy ===== *)
theory Auth_Commands
  imports Oauth_Tokens Oauth_Callback Cli_Args Login_Configuration
begin

text \<open>
  The commands of \<^verbatim>\<open>internal/cli/auth_commands.go\<close>: login, whoami and logout, composed of the
  settings file, the credential store, discovery with its cache, the login callback and the token
  and API requests.  The state is the file, the store and the cache; the network, the clock, random
  bytes and the listener are the environment.
\<close>

subsection \<open>State and environment\<close>

record 's world =
  wd_disk :: config_disk
  wd_store :: 's
  wd_cache :: metadata_cache

text \<open>
  \<open>av_outcome\<close> is what \<^verbatim>\<open>Wait\<close> returns and \<open>av_deadline\<close> whether a context error is its deadline;
  \<open>av_me\<close> answers the identity request with a token, \<open>av_revoke\<close> a revocation.
\<close>

record auth_env =
  av_getenv :: getenv
  av_path_ok :: bool
  av_fetch :: "string \<Rightarrow> (int \<times> metadata option) option"
  av_configuration :: "string \<Rightarrow> (int \<times> login_configuration option) option"
  av_random :: "nat \<Rightarrow> nat \<Rightarrow> string option"
  av_sha256 :: "string \<Rightarrow> string"
  av_listen :: "string \<Rightarrow> string \<Rightarrow> int option"
  av_pattern_ok :: "string \<Rightarrow> bool"
  av_outcome :: callback_outcome
  av_deadline :: bool
  av_post :: token_post
  av_now :: "nat \<Rightarrow> int"
  av_me :: "string \<Rightarrow> string \<Rightarrow> (int \<times> identity option) option"

datatype command_error = Command_Help | Command_Failed string | Command_Panic

subsection \<open>login\<close>

text \<open>What is not explicit comes from the control plane.\<close>

definition login_settings :: "auth_env \<Rightarrow> string \<Rightarrow> login_options \<Rightarrow> command_error + login_options" where
  "login_settings V apiURL o' =
     (if \<not> lo_issuer_explicit o' \<or> \<not> lo_client_id_explicit o' \<or> \<not> lo_scopes_explicit o' then
        (case DiscoverLoginConfiguration (av_configuration V) apiURL of
           Inl e \<Rightarrow> Inl (Command_Failed (''discover OAuth configuration from '' @ apiURL @ '': '' @ e))
         | Inr c \<Rightarrow> Inr (o'\<lparr>
             lo_issuer := (if lo_issuer_explicit o' then lo_issuer o' else lc_issuer c),
             lo_client_id := (if lo_client_id_explicit o' then lo_client_id o' else lc_client_id c),
             lo_scopes := (if lo_scopes_explicit o' then lo_scopes o' else join_with '' '' (lc_scopes c))\<rparr>))
      else Inr o')"

record authorization =
  au_verifier :: string
  au_state :: string
  au_redirect :: string
  au_url :: string

text \<open>From the PKCE values to the URL the user opens, with the callback server running.\<close>

definition start_authorization ::
  "auth_env \<Rightarrow> metadata \<Rightarrow> login_options \<Rightarrow> string list \<Rightarrow> command_error + authorization" where
  "start_authorization V m o' scopes =
     (case GenerateVerifier (av_random V 0) of
        None \<Rightarrow> Inl (Command_Failed ''random'')
      | Some verifier \<Rightarrow> (case GenerateState (av_random V 1) of
          None \<Rightarrow> Inl (Command_Failed ''random'')
        | Some state \<Rightarrow>
            (case (if ''openid'' \<in> set scopes then GenerateNonce (av_random V 2) else Some []) of
               None \<Rightarrow> Inl (Command_Failed ''random'')
             | Some nonce \<Rightarrow>
                 (case StartCallback (av_listen V) (av_pattern_ok V) (lo_callback_host o') (lo_callback_port o')
                     (lo_callback_path o') state of
                    None \<Rightarrow> Inl Command_Panic
                  | Some (Inl e) \<Rightarrow> Inl (Command_Failed e)
                  | Some (Inr redirect) \<Rightarrow>
                      (case AuthorizationURL \<lparr>ar_endpoint = md_authorization_endpoint m,
                          ar_client_id = lo_client_id o', ar_redirect_uri = redirect, ar_state = state,
                          ar_challenge = Challenge (av_sha256 V) verifier, ar_nonce = nonce, ar_scopes = scopes\<rparr> of
                         None \<Rightarrow> Inl (Command_Failed ''invalid authorization endpoint'')
                       | Some url \<Rightarrow>
                           if \<not> sublist (query_escape redirect) url
                             then Inl (Command_Failed ''internal error: authorization URL does not contain the callback URI'')
                           else Inr \<lparr>au_verifier = verifier, au_state = state, au_redirect = redirect, au_url = url\<rparr>)))))"

definition VerifyLogin :: "auth_env \<Rightarrow> string \<Rightarrow> string \<Rightarrow> identity option" where
  "VerifyLogin V apiURL accessToken = (let target = trim_right apiURL ''/'' @ ''/api/v1/me'' in
     case Parse_url target of
       None \<Rightarrow> None
     | Some u \<Rightarrow> (case av_me V target accessToken of None \<Rightarrow> None | Some (status, body) \<Rightarrow> accept_identity status body))"

text \<open>What the callback brings: the code is exchanged and the new token verified before anything is
  kept.\<close>

definition finish_authorization ::
  "ext \<Rightarrow> auth_env \<Rightarrow> metadata \<Rightarrow> login_options \<Rightarrow> string \<Rightarrow> string list \<Rightarrow> authorization
    \<Rightarrow> command_error + token_response \<times> identity" where
  "finish_authorization E V m o' apiURL scopes a = (case av_outcome V of
       Inl e \<Rightarrow> Inl (Command_Failed (if e = ''context'' \<and> av_deadline V then ''login timed out'' else e))
     | Inr r \<Rightarrow>
         if cr_error r \<noteq> [] then Inl (Command_Failed (''authorization was denied: ''
           @ (if cr_description r \<noteq> [] then cr_description r else cr_error r)))
         else (case ExchangeCode E (av_post V) (av_now V 1) m (lo_client_id o') (cr_code r) (au_verifier a)
             (au_redirect a) scopes of
            Inl e \<Rightarrow> Inl (Command_Failed ''token'')
          | Inr t \<Rightarrow> (case VerifyLogin V apiURL (tr_access_token t) of
              None \<Rightarrow> Inl (Command_Failed ''verify login with Mockingo API'')
            | Some me \<Rightarrow> Inr (t, me))))"

definition new_credentials :: "token_response \<Rightarrow> identity \<Rightarrow> oauth_credentials" where
  "new_credentials t me = \<lparr>oc_access_token = tr_access_token t, oc_refresh_token = tr_refresh_token t,
     oc_token_type = tr_token_type t, oc_scope = tr_scope t, oc_expires_at = tr_expires_at t,
     oc_user_id = me_user_id me\<rparr>"

text \<open>The credentials are stored first and removed again when the settings cannot be saved.\<close>

definition save_login ::
  "'s store_ops \<Rightarrow> login_options \<Rightarrow> string \<Rightarrow> config \<Rightarrow> token_response \<Rightarrow> identity \<Rightarrow> 's world
    \<Rightarrow> (command_error + string) \<times> 's world" where
  "save_login ops o' apiURL existing t me w =
     (let account = Account (lo_issuer o') (lo_client_id o') in
      case st_set ops (wd_store w) account (new_credentials t me) of
        (Some e, s) \<Rightarrow> (Inl (Command_Failed ''save OAuth credentials''), w\<lparr>wd_store := s\<rparr>)
      | (None, s) \<Rightarrow>
          (case Save (SetOAuth apiURL (lo_issuer o') (lo_client_id o') (tr_scope t) (me_user_id me)
              (tr_expires_at t) existing) (wd_disk w) of
             (Some e, d) \<Rightarrow> (Inl (Command_Failed ''save OAuth configuration''),
               w\<lparr>wd_disk := d, wd_store := snd (st_delete ops s account)\<rparr>)
           | (None, d) \<Rightarrow> (Inr (me_user_id me), w\<lparr>wd_disk := d, wd_store := s\<rparr>)))"

definition args_failure :: "args_error \<Rightarrow> command_error" where
  "args_failure e = (case e of Args_Help \<Rightarrow> Command_Help | Args_Error m \<Rightarrow> Command_Failed m)"

text \<open>The settings of a login, before anything is done: the stored configuration, the completed options
  and the API's URL.\<close>

definition prepare_login ::
  "ext \<Rightarrow> fraction \<Rightarrow> auth_env \<Rightarrow> string list \<Rightarrow> config_disk \<Rightarrow> command_error + config \<times> login_options \<times> string" where
  "prepare_login E frac V args d =
     (if \<not> av_path_ok V then Inl (Command_Failed ''configuration error'')
      else case LoadOptional d of
        Inl e \<Rightarrow> Inl (Command_Failed ''configuration error'')
      | Inr existing \<Rightarrow> (case parseLoginOptions E frac (av_getenv V) args existing of
          Inl e \<Rightarrow> Inl (args_failure e)
        | Inr o' \<Rightarrow> (case validateAPIURL (lo_api_url o') of
            Inl e \<Rightarrow> Inl (Command_Failed (''configuration error: '' @ e))
          | Inr apiURL \<Rightarrow> (case login_settings V apiURL o' of
              Inl e \<Rightarrow> Inl e
            | Inr o' \<Rightarrow>
                if lo_issuer o' = [] \<or> lo_client_id o' = []
                  then Inl (Command_Failed ''configuration error: OAuth issuer and public client ID are required'')
                else if split_fields (lo_scopes o') = []
                  then Inl (Command_Failed ''configuration error: at least one OAuth scope is required'')
                else Inr (existing, o', apiURL)))))"

definition already_signed_in :: "'s store_ops \<Rightarrow> auth_env \<Rightarrow> login_options \<Rightarrow> 's \<Rightarrow> bool" where
  "already_signed_in ops V o' s \<longleftrightarrow> \<not> lo_force o' \<and>
     (case st_get ops s (Account (lo_issuer o') (lo_client_id o')) of
        Inl e \<Rightarrow> False | Inr current \<Rightarrow> av_now V 0 + minute < oc_expires_at current)"

text \<open>The result is the user who has signed in, or nothing when the stored token was still good.  The
  store depends on whether file storage is allowed.\<close>

definition login ::
  "ext \<Rightarrow> fraction \<Rightarrow> (bool \<Rightarrow> 's store_ops) \<Rightarrow> auth_env \<Rightarrow> string list \<Rightarrow> 's world
    \<Rightarrow> (command_error + string option) \<times> 's world" where
  "login E frac stores V args w = (case prepare_login E frac V args (wd_disk w) of
       Inl e \<Rightarrow> (Inl e, w)
     | Inr (existing, o', apiURL) \<Rightarrow>
         let ops = stores (lo_allow_file o'); scopes = split_fields (lo_scopes o') in
         if already_signed_in ops V o' (wd_store w) then (Inr None, w)
         else (case Discover (av_fetch V) (wd_cache w) (lo_issuer o') of
             (Inl e, cache) \<Rightarrow> (Inl (Command_Failed e), w\<lparr>wd_cache := cache\<rparr>)
           | (Inr m, cache) \<Rightarrow>
               let w = w\<lparr>wd_cache := cache\<rparr> in
               (case start_authorization V m o' scopes of
                  Inl e \<Rightarrow> (Inl e, w)
                | Inr a \<Rightarrow> (case finish_authorization E V m o' apiURL scopes a of
                    Inl e \<Rightarrow> (Inl e, w)
                  | Inr (t, me) \<Rightarrow> (case save_login ops o' apiURL existing t me w of
                      (r, w) \<Rightarrow> (map_sum id Some r, w))))))"

subsection \<open>whoami\<close>

definition loadOAuth ::
  "auth_env \<Rightarrow> 's world \<Rightarrow> (command_error + config \<times> metadata) \<times> 's world" where
  "loadOAuth V w = (case Load (wd_disk w) of
       Inl e \<Rightarrow> (Inl (Command_Failed ''configuration''), w)
     | Inr cfg \<Rightarrow>
         if cf_issuer cfg = [] \<or> cf_client_id cfg = [] \<or> cf_api_url cfg = []
           then (Inl (Command_Failed ''not signed in with OAuth''), w)
         else (case Discover (av_fetch V) (wd_cache w) (cf_issuer cfg) of
             (Inl e, cache) \<Rightarrow> (Inl (Command_Failed e), w\<lparr>wd_cache := cache\<rparr>)
           | (Inr m, cache) \<Rightarrow> (Inr (cfg, m), w\<lparr>wd_cache := cache\<rparr>)))"

text \<open>The client of the stored settings, with the default skew, and the environment of its calls.\<close>

definition command_client :: "config \<Rightarrow> api_client" where
  "command_client cfg = \<lparr>cl_issuer = cf_issuer cfg, cl_client_id = cf_client_id cfg, cl_expiry_skew = 0\<rparr>"

definition command_env :: "ext \<Rightarrow> auth_env \<Rightarrow> config \<Rightarrow> metadata \<Rightarrow> 's client_env" where
  "command_env E V cfg m = \<lparr>en_now = av_now V, en_others = (\<lambda>s. s),
     en_refresh = oauth_refresh E (av_post V) (av_now V 2) m (cf_client_id cfg)\<rparr>"

text \<open>\<^verbatim>\<open>Me\<close>: the identity request, whose body is read when its status is 200.\<close>

definition Me ::
  "'s store_ops \<Rightarrow> api_client \<Rightarrow> 's client_env \<Rightarrow> (nat \<Rightarrow> string \<Rightarrow> (int \<times> identity option) option) \<Rightarrow> 's
    \<Rightarrow> (client_error + identity) \<times> 's" where
  "Me ops cl V answer s = (case do_request ops cl V (\<lambda>i token. map_option fst (answer i token)) s of
       (Inl e, s', sent) \<Rightarrow> (Inl e, s')
     | (Inr status, s', sent) \<Rightarrow>
         (case accept_identity status (case answer (length sent - 1) (last sent) of None \<Rightarrow> None | Some (st, body) \<Rightarrow> body) of
            None \<Rightarrow> (Inl Transport_Error, s') | Some me \<Rightarrow> (Inr me, s')))"

definition whoami ::
  "ext \<Rightarrow> (bool \<Rightarrow> 's store_ops) \<Rightarrow> auth_env \<Rightarrow> string list \<Rightarrow> 's world
    \<Rightarrow> (command_error + bool \<times> identity \<times> string) \<times> 's world" where
  "whoami E stores V args w = (case parse_store_flags E (av_getenv V) True args of
       Inl e \<Rightarrow> (Inl (args_failure e), w)
     | Inr (asJSON, allowFile) \<Rightarrow>
         if \<not> av_path_ok V then (Inl (Command_Failed ''path''), w)
         else (case loadOAuth V w of
             (Inl e, w) \<Rightarrow> (Inl e, w)
           | (Inr (cfg, m), w) \<Rightarrow>
               let target = trim_right (cf_api_url cfg) ''/'' @ ''/api/v1/me'' in
               (case Me (stores allowFile) (command_client cfg) (command_env E V cfg m)
                   (\<lambda>i token. if Parse_url target = None then None else av_me V target token) (wd_store w) of
                  (Inl e, s) \<Rightarrow> (Inl (Command_Failed ''identity''), w\<lparr>wd_store := s\<rparr>)
                | (Inr me, s) \<Rightarrow> (Inr (asJSON, me, cf_api_url cfg), w\<lparr>wd_store := s\<rparr>))))"

subsection \<open>logout\<close>

definition store_config :: "config \<Rightarrow> config_disk \<Rightarrow> bool \<times> config_disk" where
  "store_config cfg d = (if config_Empty cfg then remove_config d
     else case Save cfg d of (e, d) \<Rightarrow> (e = None, d))"

definition revocation_form :: "string \<Rightarrow> string \<Rightarrow> url_values" where
  "revocation_form clientID token = [(''token'', [token]), (''token_type_hint'', [''refresh_token'']),
     (''client_id'', [clientID])]"

text \<open>The revocation that is sent for the credentials that were read, a URL with its form, if there is
  one.\<close>

definition revocation ::
  "auth_env \<Rightarrow> config \<Rightarrow> store_error + oauth_credentials \<Rightarrow> metadata_cache
    \<Rightarrow> (string \<times> string) option \<times> metadata_cache" where
  "revocation V cfg found cache = (case found of
       Inl e \<Rightarrow> (None, cache)
     | Inr c \<Rightarrow>
         if oc_refresh_token c = [] then (None, cache)
         else (case Discover (av_fetch V) cache (cf_issuer cfg) of
             (Inl e, cache) \<Rightarrow> (None, cache)
           | (Inr m, cache) \<Rightarrow>
               (if md_revocation_endpoint m = [] then None
                else Some (md_revocation_endpoint m,
                  values_encode (revocation_form (cf_client_id cfg) (oc_refresh_token c))), cache)))"

definition end_session ::
  "'s store_ops \<Rightarrow> auth_env \<Rightarrow> config \<Rightarrow> 's world \<Rightarrow> (command_error + (string \<times> string) option) \<times> 's world" where
  "end_session ops V cfg w =
     (let account = Account (cf_issuer cfg) (cf_client_id cfg); found = st_get ops (wd_store w) account in
      case st_delete ops (wd_store w) account of
        (Some e, s) \<Rightarrow> (Inl (Command_Failed ''remove local OAuth credentials''), w\<lparr>wd_store := s\<rparr>)
      | (None, s) \<Rightarrow>
          (case store_config (ClearOAuth cfg) (wd_disk w) of (ok, d) \<Rightarrow>
             if \<not> ok then (Inl (Command_Failed ''clear OAuth configuration''), w\<lparr>wd_disk := d, wd_store := s\<rparr>)
             else (case revocation V cfg found (wd_cache w) of (revoked, cache) \<Rightarrow>
               (Inr revoked, w\<lparr>wd_disk := d, wd_store := s, wd_cache := cache\<rparr>))))"

definition logout ::
  "ext \<Rightarrow> (bool \<Rightarrow> 's store_ops) \<Rightarrow> auth_env \<Rightarrow> string list \<Rightarrow> 's world
    \<Rightarrow> (command_error + (string \<times> string) option) \<times> 's world" where
  "logout E stores V args w = (case parse_store_flags E (av_getenv V) False args of
       Inl e \<Rightarrow> (Inl (args_failure e), w)
     | Inr (json, allowFile) \<Rightarrow>
         if \<not> av_path_ok V then (Inl (Command_Failed ''path''), w)
         else (case LoadOptional (wd_disk w) of
             Inl e \<Rightarrow> (Inl (Command_Failed ''configuration''), w)
           | Inr cfg \<Rightarrow>
               if cf_issuer cfg = [] \<or> cf_client_id cfg = [] then
                 (case store_config cfg (wd_disk w) of (ok, d) \<Rightarrow>
                    (if ok then Inr None else Inl (Command_Failed ''clean local configuration''), w\<lparr>wd_disk := d\<rparr>))
               else end_session (stores allowFile) V cfg w))"

subsection \<open>What a login does before it stores anything\<close>

text \<open>The facts of a run that has reached the exchange of the code and the verification of the token.\<close>

definition authorized ::
  "ext \<Rightarrow> auth_env \<Rightarrow> metadata_cache \<Rightarrow> metadata_cache \<Rightarrow> login_options \<Rightarrow> string \<Rightarrow> metadata \<Rightarrow> authorization
    \<Rightarrow> token_response \<Rightarrow> identity \<Rightarrow> bool" where
  "authorized E V cache cache' o' apiURL m a t me \<longleftrightarrow>
     lo_issuer o' \<noteq> [] \<and> lo_client_id o' \<noteq> [] \<and> split_fields (lo_scopes o') \<noteq> []
     \<and> validateAPIURL (lo_api_url o') = Inr apiURL
     \<and> Discover (av_fetch V) cache (lo_issuer o') = (Inr m, cache')
     \<and> start_authorization V m o' (split_fields (lo_scopes o')) = Inr a
     \<and> finish_authorization E V m o' apiURL (split_fields (lo_scopes o')) a = Inr (t, me)"

lemma prepare_login_Inr:
  assumes "prepare_login E frac V args d = Inr (existing, o', apiURL)"
  shows "LoadOptional d = Inr existing" "lo_issuer o' \<noteq> []" "lo_client_id o' \<noteq> []"
    "split_fields (lo_scopes o') \<noteq> []" "validateAPIURL (lo_api_url o') = Inr apiURL"
proof -
  have keeps: "lo_api_url o2 = lo_api_url o1" if "login_settings V url o1 = Inr o2" for url o1 o2
    using that by (auto simp: login_settings_def split: if_splits sum.splits)
  show "LoadOptional d = Inr existing" "lo_issuer o' \<noteq> []" "lo_client_id o' \<noteq> []"
    "split_fields (lo_scopes o') \<noteq> []" "validateAPIURL (lo_api_url o') = Inr apiURL"
    using assms keeps by (auto simp: prepare_login_def split: if_splits sum.splits)
qed

text \<open>A login ends before it changes the file or the store, or it is authorized and ends with saving.\<close>

lemma login_ends:
  assumes "login E frac stores V args w = (r, w')"
  shows "(\<exists>cache. w' = w\<lparr>wd_cache := cache\<rparr>) \<and> (\<forall>user. r \<noteq> Inr (Some user))
    \<or> (\<exists>existing o' apiURL m a t me cache r'. LoadOptional (wd_disk w) = Inr existing
        \<and> authorized E V (wd_cache w) cache o' apiURL m a t me
        \<and> save_login (stores (lo_allow_file o')) o' apiURL existing t me (w\<lparr>wd_cache := cache\<rparr>) = (r', w')
        \<and> r = map_sum id Some r')" (is "?early \<or> ?saved")
proof (rule disjCI)
  assume late: "\<not> ?saved"
  have same: "\<exists>cache. w = w\<lparr>wd_cache := cache\<rparr>" by (rule exI [of _ "wd_cache w"]) simp
  show ?early
  proof (cases "prepare_login E frac V args (wd_disk w)")
    case (Inl e)
    then show ?thesis using assms same by (auto simp: login_def)
  next
    case (Inr p)
    then obtain existing o' apiURL where p: "prepare_login E frac V args (wd_disk w) = Inr (existing, o', apiURL)"
      by (cases p) auto
    let ?signed_in = "already_signed_in (stores (lo_allow_file o')) V o' (wd_store w)"
    obtain found cache where d: "Discover (av_fetch V) (wd_cache w) (lo_issuer o') = (found, cache)" by fastforce
    show ?thesis
      using assms p prepare_login_Inr [OF p] same d late
      by (cases ?signed_in) (auto simp: login_def authorized_def Let_def split: sum.splits prod.splits)
  qed
qed

subsection \<open>Saving, for every store\<close>

context credential_store begin

lemma save_login_ok:
  assumes "ok (wd_store w)" and "save_login ops o' apiURL existing t me w = (Inr user, w')"
  shows "user = me_user_id me" "wd_cache w' = wd_cache w"
    "Save (SetOAuth apiURL (lo_issuer o') (lo_client_id o') (tr_scope t) (me_user_id me) (tr_expires_at t) existing)
      (wd_disk w) = (None, wd_disk w')"
    "complete (new_credentials t me) \<Longrightarrow>
      st_get ops (wd_store w') (Account (lo_issuer o') (lo_client_id o')) = Inr (new_credentials t me)"
    "b \<noteq> Account (lo_issuer o') (lo_client_id o') \<Longrightarrow> st_get ops (wd_store w') b = st_get ops (wd_store w) b"
  using assms(2) get_set [OF assms(1)] get_set_other [OF assms(1)]
  by (auto simp: save_login_def Let_def split: prod.splits option.splits)

lemma save_login_failed:
  assumes "ok (wd_store w)" and "save_login ops o' apiURL existing t me w = (Inl e, w')"
    and "\<And>s a. ok s \<Longrightarrow> fst (st_delete ops s a) = None"
  shows "wd_disk w' = wd_disk w \<or> (\<exists>cfg x. Save cfg (wd_disk w) = (Some x, wd_disk w'))"
    "st_get ops (wd_store w') b = st_get ops (wd_store w) b \<or> st_get ops (wd_store w') b = Inl Not_Found"
proof -
  let ?a = "Account (lo_issuer o') (lo_client_id o')"
  obtain x s where set: "st_set ops (wd_store w) ?a (new_credentials t me) = (x, s)" by fastforce
  have "(wd_disk w' = wd_disk w \<or> (\<exists>cfg x. Save cfg (wd_disk w) = (Some x, wd_disk w')))
    \<and> (st_get ops (wd_store w') b = st_get ops (wd_store w) b \<or> st_get ops (wd_store w') b = Inl Not_Found)"
  proof (cases x)
    case None
    have ok: "ok s" using ok_set [OF assms(1), of ?a "new_credentials t me"] set by simp
    from None set assms(2) have disk: "\<exists>cfg x. Save cfg (wd_disk w) = (Some x, wd_disk w')"
      and w': "wd_store w' = snd (st_delete ops s ?a)"
      by (auto simp: save_login_def Let_def split: prod.splits option.splits) blast
    have del: "st_delete ops s ?a = (None, wd_store w')" using assms(3) [OF ok, of ?a] w' by (simp add: prod_eq_iff)
    show ?thesis
      using disk get_deleted [OF ok del] get_delete_other [OF ok _ del, of b] get_set_other [OF assms(1) _ set, of b]
      by (cases "b = ?a") simp_all
  next
    case (Some y)
    with set assms(2) have "w' = w\<lparr>wd_store := s\<rparr>"
      by (auto simp: save_login_def Let_def)
    then show ?thesis
      using failed_set [OF assms(1) set [unfolded Some]] get_set_other [OF assms(1) _ set, of b]
      by (cases "b = ?a") simp_all
  qed
  then show "wd_disk w' = wd_disk w \<or> (\<exists>cfg x. Save cfg (wd_disk w) = (Some x, wd_disk w'))"
    "st_get ops (wd_store w') b = st_get ops (wd_store w) b \<or> st_get ops (wd_store w') b = Inl Not_Found" by blast+
qed

end

text \<open>While the keyring is reachable, saving and deleting do not depend on whether files are allowed, and
  deleting works.\<close>

lemma fallback_ok_any: "fallback_ok False s \<Longrightarrow> fallback_ok allow s"
  by (auto simp: fallback_ok_def)

lemma fallback_stores_alike:
  assumes "fallback_ok False s"
  shows "st_set (app_store allow E) s a c = st_set (app_store allow' E) s a c"
    "st_delete (app_store allow E) s a = st_delete (app_store allow' E) s a"
  using assms by (cases s; simp add: fallback_ok_def FallbackStore_def fallback_up)+

lemma fallback_delete_total:
  assumes "fallback_ok allow s"
  shows "fst (st_delete (app_store allow E) s a) = None"
proof (cases s)
  case (Pair k f)
  obtain r f' where "file_Delete f a = (r, f')" by fastforce
  with assms Pair show ?thesis
    by (cases "kr_down k") (auto simp: FallbackStore_def fallback_ok_def fallback_up fallback_down
        dest: file_Delete_removes [of f a r f'])
qed

lemma save_login_alike:
  assumes "fallback_ok False (wd_store w)"
  shows "save_login (app_store allow E) o' apiURL existing t me w = save_login (app_store allow' E) o' apiURL existing t me w"
proof -
  let ?a = "Account (lo_issuer o') (lo_client_id o')"
  have "fallback_ok False (snd (st_set (app_store allow' E) (wd_store w) ?a c))" for c
    using fallback_store.ok_set [OF assms, of E ?a c] fallback_stores_alike(1) [OF assms, of False E _ _ allow'] by simp
  then have "st_delete (app_store allow E) s ?a = st_delete (app_store allow' E) s ?a"
    if "st_set (app_store allow' E) (wd_store w) ?a (new_credentials t me) = (None, s)" for s
    using fallback_stores_alike(2) that by (metis snd_conv)
  then show ?thesis
    unfolding save_login_def Let_def fallback_stores_alike(1) [OF assms, of allow E _ _ allow']
    by (auto split: prod.split option.split)
qed

lemma map_sum_some: "Inr (Some user) = map_sum id Some r \<Longrightarrow> (r = Inr user \<Longrightarrow> P) \<Longrightarrow> P"
  by (cases r) simp_all

lemma account_of_settings:
  "client_account (command_client (SetOAuth apiURL issuer clientID scopes user expires c)) = Account issuer clientID"
  by (simp add: client_account_def command_client_def SetOAuth_def Account_def)

end
