(* ===== verification/Session_Requests.thy ===== *)
theory Session_Requests
  imports Api_Sessions Api_Client
begin

text \<open>
  \<^verbatim>\<open>CreateTunnelSession\<close> and \<^verbatim>\<open>CreateDependencyCaptureSession\<close> of
  \<^verbatim>\<open>internal/apiclient\<close>: the authenticated request, what its answers mean, and the validation
  before a session is returned.
\<close>

text \<open>An answer: its status, the request ID of its header, and what its body decodes to, as a problem and
  as a session.\<close>

datatype 'b session_body = Body_Unreadable | Body_Too_Large | Body_Undecodable | Session_Body 'b

record 'b session_answer =
  sa_status :: int
  sa_request_id :: string
  sa_problem :: "problem option"
  sa_body :: "'b session_body"

datatype session_error = Session_Client client_error | Session_Signed_Out | Session_Api problem
  | Session_Invalid string

text \<open>\<open>answer\<close> gives the answer to the \<open>i\<close>-th request with a token, if there is one.\<close>

definition request_session ::
  "'s store_ops \<Rightarrow> api_client \<Rightarrow> 's client_env \<Rightarrow> (nat \<Rightarrow> string \<Rightarrow> 'b session_answer option) \<Rightarrow> 's
    \<Rightarrow> (session_error + 'b) \<times> 's" where
  "request_session ops cl V answer s =
     (case do_request ops cl V (\<lambda>i token. map_option sa_status (answer i token)) s of
        (Inl e, s', sent) \<Rightarrow> (Inl (Session_Client e), s')
      | (Inr status, s', sent) \<Rightarrow> (case answer (length sent - 1) (last sent) of
          None \<Rightarrow> (Inl (Session_Client Transport_Error), s')
        | Some a \<Rightarrow>
            (if status \<noteq> 201 then Inl (if status = 401 then Session_Signed_Out
               else Session_Api (response_problem status (sa_request_id a) (sa_problem a)))
             else (case sa_body a of
                 Body_Unreadable \<Rightarrow> Inl (Session_Invalid ''read session response'')
               | Body_Too_Large \<Rightarrow> Inl (Session_Invalid ''session response is too large'')
               | Body_Undecodable \<Rightarrow> Inl (Session_Invalid ''decode session response'')
               | Session_Body b \<Rightarrow> Inr b), s')))"

text \<open>A request to a path of the API; it is not sent when the URL does not parse.\<close>

definition api_target :: "string \<Rightarrow> string \<Rightarrow> (string \<Rightarrow> nat \<Rightarrow> string \<Rightarrow> 'a option) \<Rightarrow> nat \<Rightarrow> string \<Rightarrow> 'a option" where
  "api_target apiURL path answers i token =
     (let target = trim_right apiURL ''/'' @ path in
      if Parse_url target = None then None else answers target i token)"

definition CreateTunnelSession ::
  "ext \<Rightarrow> 's store_ops \<Rightarrow> api_client \<Rightarrow> 's client_env \<Rightarrow> string
    \<Rightarrow> (string \<Rightarrow> nat \<Rightarrow> string \<Rightarrow> (endpoint_response \<times> tunnel_response) session_answer option)
    \<Rightarrow> tunnel_session_request \<Rightarrow> session_validation \<Rightarrow> 's
    \<Rightarrow> (session_error + endpoint_response \<times> tunnel_response) \<times> 's" where
  "CreateTunnelSession E ops cl V apiURL answers request v s =
     (case request_session ops cl V (api_target apiURL ''/api/v1/tunnel-sessions'' answers) s of
        (Inl e, s') \<Rightarrow> (Inl e, s')
      | (Inr (endpoint, tunnel), s') \<Rightarrow> (case ValidateTunnelSession E request endpoint tunnel v of
          Some e \<Rightarrow> (Inl (Session_Invalid e), s')
        | None \<Rightarrow> (Inr (endpoint, tunnel), s')))"

text \<open>\<^verbatim>\<open>url.PathEscape\<close> of an endpoint name.\<close>

definition segment_safe :: "char \<Rightarrow> bool" where
  "segment_safe c \<longleftrightarrow> is_lower c \<or> is_upper c \<or> is_digit c \<or> c \<in> set ''-_.~$&+:=@''"

definition CreateDependencyCaptureSession ::
  "ext \<Rightarrow> 's store_ops \<Rightarrow> api_client \<Rightarrow> 's client_env \<Rightarrow> string
    \<Rightarrow> (string \<Rightarrow> nat \<Rightarrow> string \<Rightarrow> capture_session_response session_answer option)
    \<Rightarrow> string \<Rightarrow> session_validation \<Rightarrow> 's \<Rightarrow> (session_error + capture_session_response) \<times> 's" where
  "CreateDependencyCaptureSession E ops cl V apiURL answers endpointName v s =
     (case request_session ops cl V (api_target apiURL (''/api/v1/endpoints/''
         @ escape_with segment_safe endpointName @ ''/dependency-capture-sessions'') answers) s of
        (Inl e, s') \<Rightarrow> (Inl e, s')
      | (Inr r, s') \<Rightarrow> (case validateDependencyCaptureSession E endpointName r v of
          Some e \<Rightarrow> (Inl (Session_Invalid e), s')
        | None \<Rightarrow> (Inr r, s')))"

lemma CreateTunnelSession_Inr:
  "CreateTunnelSession E ops cl V apiURL answers request v s = (Inr (endpoint, tunnel), s') \<Longrightarrow>
   ValidateTunnelSession E request endpoint tunnel v = None"
  by (auto simp: CreateTunnelSession_def split: prod.splits sum.splits option.splits)

lemma CreateDependencyCaptureSession_Inr:
  "CreateDependencyCaptureSession E ops cl V apiURL answers name v s = (Inr r, s') \<Longrightarrow>
   validateDependencyCaptureSession E name r v = None"
  by (auto simp: CreateDependencyCaptureSession_def split: prod.splits sum.splits option.splits)

end
