(* ===== verification/Child_Process.thy ===== *)
theory Child_Process
  imports Cli_Args "HOL-Library.Multiset"
begin

text \<open>
  \<^verbatim>\<open>internal/process/process.go\<close>: the command and the environment of the child, and how it
  is stopped.  The operating system's part, starting and signalling, is an argument or an action.
\<close>

subsection \<open>The command\<close>

text \<open>\<^verbatim>\<open>filepath.Ext\<close> on Windows: from the last dot of the last path element.\<close>

fun ext_back :: "string \<Rightarrow> string \<Rightarrow> string" where
  "ext_back [] acc = []"
| "ext_back (c # r) acc = (if c = CHR ''/'' \<or> c = CHR 0x5C then []
     else if c = CHR ''.'' then c # acc else ext_back r (c # acc))"

definition path_ext :: "string \<Rightarrow> string" where
  "path_ext path = ext_back (rev path) []"

text \<open>The program and the arguments that \<^verbatim>\<open>Start\<close> runs.\<close>

definition child_command :: "ext \<Rightarrow> bool \<Rightarrow> string list \<Rightarrow> (string \<times> string list) option" where
  "child_command E windows command = (case command of
       [] \<Rightarrow> None
     | name # args \<Rightarrow>
         if trim_space name = [] then None
         else if windows \<and> (to_lower E (path_ext name) = ''.bat'' \<or> to_lower E (path_ext name) = ''.cmd'')
           then Some (''cmd.exe'', [''/C'', name] @ args)
         else Some (name, args))"

subsection \<open>The environment\<close>

definition env_match :: "ext \<Rightarrow> bool \<Rightarrow> string \<Rightarrow> string \<Rightarrow> bool" where
  "env_match E windows key item =
     (if windows then equal_fold E (fst (cut_at CHR ''='' item)) key else prefix (key @ ''='') item)"

fun set_variable :: "(string \<Rightarrow> bool) \<Rightarrow> string \<Rightarrow> string list \<Rightarrow> string list" where
  "set_variable match new [] = [new]"
| "set_variable match new (item # items) =
     (if match item then new # items else item # set_variable match new items)"

definition mergeEnvironment :: "ext \<Rightarrow> bool \<Rightarrow> string list \<Rightarrow> (string, string) gomap \<Rightarrow> string list" where
  "mergeEnvironment E windows base overrides =
     fold (\<lambda>p. set_variable (env_match E windows (fst p)) (fst p @ ''='' @ snd p)) overrides base"

text \<open>What the child sees: of several values of one variable \<^verbatim>\<open>exec.Cmd\<close> keeps the last.\<close>

definition child_value :: "string list \<Rightarrow> string \<Rightarrow> string option" where
  "child_value items key =
     map_option (drop (length key + 1)) (find (prefix (key @ ''='')) (rev items))"

subsection \<open>Start and stop\<close>

record process_result =
  pr_code :: int
  pr_err :: "string option"

record process_options =
  po_command :: "string list"
  po_cwd :: string
  po_env :: "(string, string) gomap"

record started =
  sd_name :: string
  sd_args :: "string list"
  sd_dir :: string
  sd_env :: "string list"

definition Start ::
  "ext \<Rightarrow> bool \<Rightarrow> string list \<Rightarrow> (started \<Rightarrow> bool) \<Rightarrow> process_options \<Rightarrow> string + started" where
  "Start E windows base starts options = (case child_command E windows (po_command options) of
       None \<Rightarrow> Inl ''process command is required''
     | Some (name, args) \<Rightarrow>
         let cmd = \<lparr>sd_name = name, sd_args = args, sd_dir = po_cwd options,
               sd_env = mergeEnvironment E windows base (po_env options)\<rparr>
         in if starts cmd then Inr cmd else Inl ''start process'')"

text \<open>
  The goroutine of \<^verbatim>\<open>Start\<close>: the result of \<^verbatim>\<open>Wait\<close> with the exit code that the
  process state, when there is one, has.
\<close>

definition wait_result :: "string option \<Rightarrow> int option \<Rightarrow> process_result" where
  "wait_result err exitCode = \<lparr>pr_code = (case exitCode of None \<Rightarrow> 0 | Some c \<Rightarrow> c), pr_err = err\<rparr>"

datatype stop_action = Graceful_Stop | Force_Stop

text \<open>
  \<^verbatim>\<open>Stop\<close>: \<open>exits\<close> says whether the child ends before the context does.  The state is whether
  the \<^verbatim>\<open>sync.Once\<close> has run.
\<close>

definition Stop :: "bool \<Rightarrow> bool \<Rightarrow> stop_action list \<times> bool" where
  "Stop exits once = (if once then ([], True)
     else (if exits then [Graceful_Stop] else [Graceful_Stop, Force_Stop], True))"

fun stop_all :: "bool list \<Rightarrow> bool \<Rightarrow> stop_action list" where
  "stop_all [] once = []"
| "stop_all (exits # calls) once = (case Stop exits once of (acts, once') \<Rightarrow> acts @ stop_all calls once')"

subsection \<open>What the child sees\<close>

definition env_key :: "string \<Rightarrow> string" where
  "env_key item = fst (cut_at CHR ''='' item)"

text \<open>The variables of an environment, without items that are none.\<close>

definition env_keys :: "string list \<Rightarrow> string list" where
  "env_keys items = map env_key (filter (\<lambda>i. CHR ''='' \<in> set i) items)"

lemma env_key_assign: "CHR ''='' \<notin> set k \<Longrightarrow> env_key (k @ CHR ''='' # v) = k"
  by (simp add: env_key_def cut_at_append)

lemma prefix_assign:
  assumes "CHR ''='' \<notin> set k"
  shows "prefix (k @ ''='') item \<longleftrightarrow> CHR ''='' \<in> set item \<and> env_key item = k"
proof
  assume "prefix (k @ ''='') item"
  then show "CHR ''='' \<in> set item \<and> env_key item = k" using env_key_assign [OF assms] by (auto simp: prefix_def)
next
  assume r: "CHR ''='' \<in> set item \<and> env_key item = k"
  then obtain a b where s: "item = a @ CHR ''='' # b" "CHR ''='' \<notin> set a" by (auto dest: split_list_first)
  with r env_key_assign [OF s(2)] show "prefix (k @ ''='') item" by (auto simp: prefix_def)
qed

lemma in_env_keys: "i \<in> set items \<Longrightarrow> CHR ''='' \<in> set i \<Longrightarrow> env_key i \<in> set (env_keys items)"
  by (simp add: env_keys_def)

lemma env_keys_Cons [simp]:
  "env_keys (i # items) = (if CHR ''='' \<in> set i then env_key i # env_keys items else env_keys items)"
  by (simp add: env_keys_def)

lemma env_keys_append [simp]: "env_keys (xs @ ys) = env_keys xs @ env_keys ys"
  by (simp add: env_keys_def)

lemma env_keys_Nil [simp]: "env_keys [] = []"
  by (simp add: env_keys_def)

lemma child_value_Some:
  assumes "CHR ''='' \<notin> set k" and "distinct (env_keys items)"
  shows "child_value items k = Some v \<longleftrightarrow> k @ CHR ''='' # v \<in> set items"
  using assms(2)
proof (induction items rule: rev_induct)
  case Nil
  then show ?case by (simp add: child_value_def)
next
  case (snoc item items)
  have d: "distinct (env_keys items)" using snoc.prems by simp
  show ?case
  proof (cases "prefix (k @ ''='') item")
    case True
    then obtain w where w: "item = k @ CHR ''='' # w" by (auto simp: prefix_def)
    have "k @ CHR ''='' # v \<notin> set items"
      using snoc.prems in_env_keys [of "k @ CHR ''='' # v" items] unfolding w by (auto simp: env_key_assign [OF assms(1)])
    then show ?thesis by (auto simp: child_value_def w prefix_def)
  next
    case False
    then have "item \<noteq> k @ CHR ''='' # v" by auto
    with False snoc.IH [OF d] show ?thesis by (simp add: child_value_def)
  qed
qed

lemma set_variable_keys:
  assumes "CHR ''='' \<notin> set k"
  shows "env_keys (set_variable (prefix (k @ ''='')) (k @ CHR ''='' # v) items) =
    (if k \<in> set (env_keys items) then env_keys items else env_keys items @ [k])"
  by (induction items) (auto simp: prefix_assign [OF assms] env_key_assign [OF assms, of v])

lemma set_variable_items:
  assumes "CHR ''='' \<notin> set k" and "distinct (env_keys items)"
  shows "set (set_variable (prefix (k @ ''='')) (k @ CHR ''='' # v) items) =
    insert (k @ CHR ''='' # v) {i \<in> set items. \<not> prefix (k @ ''='') i}"
  using assms(2)
proof (induction items)
  case (Cons item items)
  show ?case
  proof (cases "prefix (k @ ''='') item")
    case True
    have "\<not> prefix (k @ ''='') i" if "i \<in> set items" for i
      using Cons.prems True that in_env_keys [of i items] by (auto simp: prefix_assign [OF assms(1)])
    with True show ?thesis by auto
  next
    case False
    have "distinct (env_keys items)" using Cons.prems by (simp split: if_splits)
    with False Cons.IH show ?thesis by auto
  qed
qed simp

lemma merge_items:
  assumes "distinct (env_keys base)" and "wf_gomap m" and "\<And>k. k \<in> fst ` set m \<Longrightarrow> CHR ''='' \<notin> set k"
  shows "distinct (env_keys (mergeEnvironment E False base m))
    \<and> set (mergeEnvironment E False base m) =
        {fst p @ CHR ''='' # snd p |p. p \<in> set m}
        \<union> {i \<in> set base. \<forall>k \<in> fst ` set m. \<not> prefix (k @ ''='') i}"
  using assms
proof (induction m arbitrary: base)
  case Nil
  then show ?case by (simp add: mergeEnvironment_def)
next
  case (Cons p m)
  obtain k v where p: "p = (k, v)" by fastforce
  have k: "CHR ''='' \<notin> set k" and fresh: "k \<notin> fst ` set m" using Cons.prems p by (auto simp: wf_gomap_def)
  let ?base = "set_variable (prefix (k @ ''='')) (k @ CHR ''='' # v) base"
  have merged: "mergeEnvironment E False base (p # m) = mergeEnvironment E False ?base m"
    by (simp add: mergeEnvironment_def p env_match_def [abs_def])
  have kept: "\<not> prefix (k' @ ''='') (k @ CHR ''='' # v)" if "k' \<in> fst ` set m" for k'
    using that fresh Cons.prems(3) by (auto simp: prefix_assign env_key_assign [OF k])
  have "distinct (env_keys ?base)" using Cons.prems(1) by (simp add: set_variable_keys [OF k])
  from Cons.IH [OF this] Cons.prems(2,3) p
  have IH: "distinct (env_keys (mergeEnvironment E False ?base m))"
    "set (mergeEnvironment E False ?base m) = {fst p @ CHR ''='' # snd p |p. p \<in> set m}
       \<union> {i \<in> set ?base. \<forall>k \<in> fst ` set m. \<not> prefix (k @ ''='') i}"
    by (simp_all add: wf_gomap_def)
  then show ?case
    unfolding merged set_variable_items [OF k Cons.prems(1)] using kept by (auto simp: p)
qed

lemma environment_from_keys:
  "environment_from result vs = Inr m \<Longrightarrow> \<forall>k \<in> fst ` set result. CHR ''='' \<notin> set k \<Longrightarrow>
   \<forall>k \<in> fst ` set m. CHR ''='' \<notin> set k"
  by (induction result vs rule: environment_from.induct) (auto split: prod.splits if_splits)

text \<open>The child sees exactly the variables it should: for arguments \<^verbatim>\<open>--env KEY=VALUE\<close> that
  are accepted, in whatever order the map of them is traversed, each of these variables has the
  value of its last argument in the child, and every other variable has the value it has in the
  agent's own environment, whose variables are distinct.\<close>

theorem child_environment:
  assumes "ParseEnvironment vs = Inr m" and "mset overrides = mset m"
    and "distinct (env_keys base)" and "CHR ''='' \<notin> set k"
  shows "child_value (mergeEnvironment E False base overrides) k =
    (case map_of m k of Some v \<Rightarrow> Some v | None \<Rightarrow> child_value base k)"
proof -
  have m: "wf_gomap m" "\<forall>k \<in> fst ` set m. CHR ''='' \<notin> set k"
    using assms(1) environment_from_wf [of "[]" vs m] environment_from_keys [of "[]" vs m]
    by (auto simp: ParseEnvironment_def)
  have set: "set overrides = set m" using assms(2) by (rule mset_eq_setD)
  have "distinct (map fst overrides)"
    using m(1) assms(2) by (metis wf_gomap_def mset_map mset_eq_imp_distinct_iff)
  then have "wf_gomap overrides" by (simp add: wf_gomap_def)
  from merge_items [OF assms(3) this] m(2) set
  have d: "distinct (env_keys (mergeEnvironment E False base overrides))"
    and items: "set (mergeEnvironment E False base overrides) = {fst p @ CHR ''='' # snd p |p. p \<in> set m}
       \<union> {i \<in> set base. \<forall>k \<in> fst ` set m. \<not> prefix (k @ ''='') i}" by simp_all
  have seen: "child_value (mergeEnvironment E False base overrides) k = Some v \<longleftrightarrow>
      (k, v) \<in> set m \<or> k \<notin> fst ` set m \<and> k @ CHR ''='' # v \<in> set base" for v
  proof -
    have same: "k' @ CHR ''='' # v' = k @ CHR ''='' # v \<longleftrightarrow> k' = k \<and> v' = v" if "k' \<in> fst ` set m" for k' v'
      using env_key_assign [of k' v'] env_key_assign [OF assms(4), of v] m(2) that by auto
    have other: "prefix (k' @ ''='') (k @ CHR ''='' # v) \<longleftrightarrow> k' = k" if "k' \<in> fst ` set m" for k'
      using m(2) that by (auto simp: prefix_assign env_key_assign [OF assms(4)])
    have here: "k @ CHR ''='' # v \<in> {fst p @ CHR ''='' # snd p |p. p \<in> set m} \<longleftrightarrow> (k, v) \<in> set m"
    proof
      assume "k @ CHR ''='' # v \<in> {fst p @ CHR ''='' # snd p |p. p \<in> set m}"
      then obtain p where p: "p \<in> set m" "fst p @ CHR ''='' # snd p = k @ CHR ''='' # v" by auto
      with same [of "fst p" "snd p"] have "p = (k, v)" by (simp add: prod_eq_iff)
      with p(1) show "(k, v) \<in> set m" by simp
    qed force
    have there: "k @ CHR ''='' # v \<in> {i \<in> set base. \<forall>k \<in> fst ` set m. \<not> prefix (k @ ''='') i}
        \<longleftrightarrow> k \<notin> fst ` set m \<and> k @ CHR ''='' # v \<in> set base"
      using other by auto
    show ?thesis unfolding child_value_Some [OF assms(4) d] items Un_iff here there ..
  qed
  have "child_value (mergeEnvironment E False base overrides) k = Some v \<longleftrightarrow>
      (case map_of m k of Some v \<Rightarrow> Some v | None \<Rightarrow> child_value base k) = Some v" for v
  proof (cases "map_of m k")
    case None
    then have "k \<notin> fst ` set m" by (simp add: map_of_eq_None_iff)
    moreover from None have "(k, v) \<notin> set m" using map_of_wf_iff [OF m(1), of k] by simp
    ultimately show ?thesis using seen None child_value_Some [OF assms(4,3)] by simp
  next
    case (Some w)
    then have "k \<in> fst ` set m" by (metis map_of_eq_None_iff option.distinct(1))
    moreover have "(k, v) \<in> set m \<longleftrightarrow> w = v" using map_of_wf_iff [OF m(1), of k v] Some by (metis option.inject)
    ultimately show ?thesis unfolding seen Some by simp
  qed
  then show ?thesis by (metis not_None_eq)
qed

lemma child_environment_witness:
  "child_value (mergeEnvironment sample_ext False [''HOME=/h'', ''A=0''] [(''B'', ''''), (''A'', ''2=3'')]) ''A'' = Some ''2=3''
   \<and> child_value (mergeEnvironment sample_ext False [''HOME=/h'', ''A=0''] [(''B'', ''''), (''A'', ''2=3'')]) ''HOME'' = Some ''/h''"
proof -
  have p: "ParseEnvironment [''A=1'', ''B='', ''A=2=3''] = Inr [(''A'', ''2=3''), (''B'', '''')]" by code_simp
  have s: "mset [(''B'', ''''), (''A'', ''2=3'')] = mset [(''A'', ''2=3''), (''B'', '''')]" by simp
  have d: "distinct (env_keys [''HOME=/h'', ''A=0''])" by code_simp
  have home: "child_value [''HOME=/h'', ''A=0''] ''HOME'' = Some ''/h''" by code_simp
  have k: "CHR ''='' \<notin> set ''A''" "CHR ''='' \<notin> set ''HOME''" by simp_all
  show ?thesis
    using child_environment [OF p s d k(1), of sample_ext] child_environment [OF p s d k(2), of sample_ext] home by simp
qed

end
