(* ===== verification/Cli_Run.thy ===== *)
theory Cli_Run
  imports Auth_Commands Session_Requests Child_Process Agent Naming
begin

text \<open>
  \<^verbatim>\<open>internal/cli/run.go\<close>: the command that runs an application behind a tunnel, and the exit
  status of the program.  The steps up to the child are one function; from then on the command waits
  in three \<^verbatim>\<open>select\<close> statements, which are a step function over the events they receive.
\<close>

subsection \<open>Results\<close>

text \<open>An exit code with the error that is printed; \<open>Help_Error\<close> is \<^verbatim>\<open>flag.ErrHelp\<close>.\<close>

datatype run_error = Help_Error | Usage_Error string | Run_Error string

type_synonym run_exit = "int \<times> run_error option"

definition exitCode :: "process_result \<Rightarrow> int" where
  "exitCode r = (if 0 < pr_code r then pr_code r else 1)"

text \<open>What was started and stopped, in order.\<close>

datatype run_action = Started_Dependencies | Started_Child started | Created_Session session | Started_Agent
  | Stopped_Child | Closed_Dependencies

subsection \<open>Sessions\<close>

definition session_request :: "run_options \<Rightarrow> tunnel_session_request" where
  "session_request o' = \<lparr>tq_endpoint_name = ro_name o', tq_protocol = ''http'', tq_local_port = ro_http_port o',
     tq_protocol_version = ro_protocol_version o'\<rparr>"

definition session_checks :: "run_options \<Rightarrow> int \<Rightarrow> session_validation" where
  "session_checks o' now = \<lparr>sv_gateway_hosts = split_on CHR '','' (ro_gateway_host o'),
     sv_allow_insecure_local = ro_allow_insecure o', sv_now = now\<rparr>"

datatype tunnel_error = Tunnel_Rejected string | Tunnel_Error session_error

definition mapTunnelSessionError :: "string \<Rightarrow> session_error \<Rightarrow> tunnel_error" where
  "mapTunnelSessionError name err = (case err of
       Session_Api p \<Rightarrow>
         if pb_code p = ''endpoint_name_unavailable'' then Tunnel_Rejected (''The endpoint name is unavailable: '' @ name)
         else if pb_code p = ''invalid_endpoint_name'' then Tunnel_Rejected (''invalid endpoint name '' @ name)
         else if pb_code p = ''endpoint_virtual'' then Tunnel_Rejected (''Endpoint is configured as Virtual: '' @ name)
         else Tunnel_Error err
     | _ \<Rightarrow> Tunnel_Error err)"

definition mapCaptureSessionError :: "string \<Rightarrow> session_error \<Rightarrow> tunnel_error" where
  "mapCaptureSessionError name err = (case err of
       Session_Api p \<Rightarrow>
         if pb_code p = ''endpoint_not_found'' then Tunnel_Rejected (''Endpoint was not found or is not accessible: '' @ name)
         else Tunnel_Error err
     | _ \<Rightarrow> Tunnel_Error err)"

type_synonym tunnel_answers =
  "string \<Rightarrow> nat \<Rightarrow> string \<Rightarrow> (endpoint_response \<times> tunnel_response) session_answer option"

text \<open>The session provider, which the agent calls again for every reconnect.\<close>

definition createSession ::
  "ext \<Rightarrow> 's store_ops \<Rightarrow> api_client \<Rightarrow> 's client_env \<Rightarrow> string \<Rightarrow> tunnel_answers \<Rightarrow> run_options \<Rightarrow> int \<Rightarrow> 's
    \<Rightarrow> (tunnel_error + session) \<times> 's" where
  "createSession E ops cl U apiURL answers o' now s =
     (case CreateTunnelSession E ops cl U apiURL answers (session_request o') (session_checks o' now) s of
        (Inl e, s') \<Rightarrow> (Inl (mapTunnelSessionError (ro_name o') e), s')
      | (Inr (ep, tn), s') \<Rightarrow> (Inr \<lparr>ss_endpoint_id = ep_id ep, ss_endpoint_name = ep_name ep,
          ss_session_id = tn_session_id tn, ss_connect_url = tn_connect_url tn, ss_ticket = tn_ticket tn,
          ss_public_url = ep_public_url ep\<rparr>, s'))"

text \<open>What \<^verbatim>\<open>errors.As\<close> finds in the provider's errors; \<open>net\<close> says of a client error whether it
  wraps a network error.\<close>

definition tunnel_api_error :: "(client_error \<Rightarrow> bool) \<Rightarrow> tunnel_error \<Rightarrow> api_error" where
  "tunnel_api_error net err = (case err of
       Tunnel_Rejected m \<Rightarrow> Other_Error
     | Tunnel_Error e \<Rightarrow> (case e of Session_Api p \<Rightarrow> Api_Error p
         | Session_Client c \<Rightarrow> if net c then Network_Error else Other_Error | _ \<Rightarrow> Other_Error))"

definition run_agent_config :: "(client_error \<Rightarrow> bool) \<Rightarrow> run_options \<Rightarrow> session \<Rightarrow> tunnel_error agent_config" where
  "run_agent_config net o' initial = \<lparr>ac_local_port = ro_http_port o', ac_on_state = True,
     ac_initial_session = Some initial, ac_acquire_set = True,
     ac_retryable = Some (\<lambda>e. IsRetryable (tunnel_api_error net e)),
     ac_conflict = Some (\<lambda>e. IsTemporarySessionConflict (tunnel_api_error net e)),
     ac_reconnect = ro_reconnect o', ac_initial_delay = ro_initial_delay o', ac_max_delay = ro_max_delay o'\<rparr>"

subsection \<open>Before the application\<close>

text \<open>
  \<open>rv_directory\<close> resolves a path to the absolute path of an existing directory, \<open>rv_dependencies\<close>
  says whether the dependency proxy starts, \<open>rv_environ\<close> is the agent's own environment.
\<close>

record run_env =
  rv_auth :: auth_env
  rv_directory :: "string \<Rightarrow> string option"
  rv_dependencies :: bool
  rv_environ :: "string list"
  rv_windows :: bool
  rv_starts :: "started \<Rightarrow> bool"
  rv_answers :: tunnel_answers
  rv_now :: int

definition run_help :: "string list \<Rightarrow> bool" where
  "run_help args = list_ex (\<lambda>a. a = ''--help'' \<or> a = ''-h'') (takeWhile (\<lambda>a. a \<noteq> ''--'') args)"

text \<open>The options with the resolved directory.\<close>

definition usage_exit :: "args_error \<Rightarrow> run_exit" where
  "usage_exit e = (2, Some (case e of Args_Help \<Rightarrow> Help_Error | Args_Error m \<Rightarrow> Usage_Error m))"

definition check_options :: "ext \<Rightarrow> fraction \<Rightarrow> run_env \<Rightarrow> string list \<Rightarrow> run_exit + run_options" where
  "check_options E frac R args = (case ParseRun E frac (av_getenv (rv_auth R)) args of
       Inl e \<Rightarrow> Inl (usage_exit e)
     | Inr o' \<Rightarrow> (case validate_name (ro_name o') of
         Some e \<Rightarrow> Inl (usage_exit (Args_Error ''name''))
       | None \<Rightarrow>
           if ro_cwd o' \<noteq> [] then (case rv_directory R (ro_cwd o') of
               None \<Rightarrow> Inl (usage_exit (Args_Error ''--cwd is not a directory''))
             | Some d \<Rightarrow> Inr (o'\<lparr>ro_cwd := d\<rparr>))
           else Inr o'))"

text \<open>The control-plane client of the stored settings: the settings, the metadata and the API's URL.\<close>

definition control_client :: "auth_env \<Rightarrow> run_options \<Rightarrow> 's world \<Rightarrow> (run_exit + config \<times> metadata \<times> string) \<times> 's world" where
  "control_client V o' w =
     (if \<not> av_path_ok V then (Inl (1, Some (Run_Error ''configuration error'')), w)
      else case Load (wd_disk w) of
        Inl e \<Rightarrow> (Inl (1, Some (Run_Error (if e = Not_Configured then ''not signed in'' else ''configuration error''))), w)
      | Inr cfg \<Rightarrow>
          if cf_issuer cfg = [] \<or> cf_client_id cfg = [] \<or> cf_api_url cfg = []
            then (Inl (1, Some (Run_Error ''not signed in'')), w)
          else (case Discover (av_fetch V) (wd_cache w) (cf_issuer cfg) of
              (Inl e, cache) \<Rightarrow> (Inl (1, Some (Run_Error e)), w\<lparr>wd_cache := cache\<rparr>)
            | (Inr m, cache) \<Rightarrow>
                (if ro_api_url o' = [] then Inr (cfg, m, cf_api_url cfg)
                 else (case validateAPIURL (ro_api_url o') of
                     Inl e \<Rightarrow> Inl (2, Some (Usage_Error e)) | Inr url \<Rightarrow> Inr (cfg, m, url)), w\<lparr>wd_cache := cache\<rparr>)))"

text \<open>The dependency proxy and the child; the actions so far are returned with an error, too.\<close>

definition start_parts :: "ext \<Rightarrow> run_env \<Rightarrow> run_options \<Rightarrow> run_action list \<times> run_exit option" where
  "start_parts E R o' =
     (if ro_dependency_proxy o' \<and> \<not> rv_dependencies R then ([], Some (1, Some (Run_Error ''dependency proxy'')))
      else
        let proxy = (if ro_dependency_proxy o' then [Started_Dependencies] else []) in
        if ro_command o' = [] then (proxy, None)
        else (case Start E (rv_windows R) (rv_environ R) (rv_starts R)
            \<lparr>po_command = ro_command o', po_cwd = ro_cwd o', po_env = ro_environment o'\<rparr> of
           Inl e \<Rightarrow> (proxy, Some (1, Some (Run_Error ''process startup failure'')))
         | Inr child \<Rightarrow> (proxy @ [Started_Child child], None)))"

subsection \<open>The three waits\<close>

datatype ready_error = Deadline_Exceeded | Context_Canceled bool | Ready_Failed

text \<open>
  What a wait receives: the result of the readiness probe, the child's result, the end of the
  dependency proxy (with whether the run was cancelled by then), cancellation, the agent's result, or the first
  connection.
\<close>

datatype run_event = Ready "ready_error option" | Child_Exited process_result | Dependency_Done bool
  | Interrupted | Agent_Done "string option" | Connected

datatype run_phase = Waiting_Ready | Waiting_Connected | Forwarding

datatype run_step = Ignored | Next_Phase | Exit run_exit

definition dependency_exit :: "bool \<Rightarrow> run_exit" where
  "dependency_exit cancelled = (if cancelled then (0, None) else (1, Some (Run_Error ''dependency proxy stopped'')))"

definition agent_exit :: "string option \<Rightarrow> run_exit" where
  "agent_exit err = (case err of None \<Rightarrow> (0, None) | Some e \<Rightarrow> (1, Some (Run_Error (''tunnel connection failure: '' @ e))))"

definition child_exit :: "process_result \<Rightarrow> run_exit" where
  "child_exit r = (case pr_err r of Some e \<Rightarrow> (exitCode r, Some (Run_Error (''process exited: '' @ e)))
     | None \<Rightarrow> (pr_code r, None))"

definition ready_exit :: "ready_error \<Rightarrow> run_exit" where
  "ready_exit err = (case err of
       Deadline_Exceeded \<Rightarrow> (1, Some (Run_Error ''startup timeout''))
     | Context_Canceled outer \<Rightarrow> if outer then (0, None)
         else (1, Some (Run_Error ''process startup failure: wait for local port''))
     | Ready_Failed \<Rightarrow> (1, Some (Run_Error ''process startup failure: wait for local port'')))"

text \<open>A wait has no case for the child without one, nor for the proxy when it is off.\<close>

fun select_run :: "bool \<Rightarrow> bool \<Rightarrow> run_phase \<Rightarrow> run_event \<Rightarrow> run_step" where
  "select_run child proxy phase Interrupted = Exit (0, None)"
| "select_run child proxy phase (Dependency_Done cancelled) =
     (if proxy then Exit (dependency_exit cancelled) else Ignored)"
| "select_run child proxy phase (Child_Exited r) =
     (if \<not> child then Ignored
      else if phase = Waiting_Ready
        then Exit (exitCode r, Some (Run_Error ''process startup failure: process exited before port became ready''))
      else Exit (child_exit r))"
| "select_run child proxy phase (Ready err) =
     (if phase \<noteq> Waiting_Ready then Ignored
      else case err of None \<Rightarrow> Next_Phase | Some e \<Rightarrow> Exit (ready_exit e))"
| "select_run child proxy phase (Agent_Done err) = (if phase = Waiting_Ready then Ignored else Exit (agent_exit err))"
| "select_run child proxy phase Connected = (if phase = Waiting_Connected then Next_Phase else Ignored)"

text \<open>
  The events of a run.  When the port is ready a session is created, \<open>create\<close>, and the agent
  started with it.  The result is nothing while the command still waits.
\<close>

fun run_events ::
  "bool \<Rightarrow> bool \<Rightarrow> (tunnel_error + session) \<Rightarrow> run_phase \<Rightarrow> run_event list \<Rightarrow> run_action list \<times> run_exit option" where
  "run_events child proxy create phase [] = ([], None)"
| "run_events child proxy create phase (e # es) = (case select_run child proxy phase e of
     Ignored \<Rightarrow> run_events child proxy create phase es
   | Exit x \<Rightarrow> ([], Some x)
   | Next_Phase \<Rightarrow>
       if phase = Waiting_Connected then run_events child proxy create Forwarding es
       else (case create of
           Inl err \<Rightarrow> ([], Some (1, Some (Run_Error ''tunnel session'')))
         | Inr session \<Rightarrow> (case run_events child proxy create Waiting_Connected es of
             (acts, x) \<Rightarrow> ([Created_Session session, Started_Agent] @ acts, x))))"

text \<open>The deferred calls, in reverse order.\<close>

definition is_child :: "run_action \<Rightarrow> bool" where
  "is_child a = (case a of Started_Child c \<Rightarrow> True | _ \<Rightarrow> False)"

definition deferred :: "run_action list \<Rightarrow> run_action list" where
  "deferred acts = (if list_ex is_child acts then [Stopped_Child] else [])
     @ (if Started_Dependencies \<in> set acts then [Closed_Dependencies] else [])"

definition leave :: "run_action list \<times> run_exit option \<Rightarrow> run_action list \<times> run_exit option" where
  "leave r = (case r of (acts, None) \<Rightarrow> (acts, None) | (acts, Some x) \<Rightarrow> (acts @ deferred acts, Some x))"

subsection \<open>The command\<close>

definition run_application ::
  "ext \<Rightarrow> 's store_ops \<Rightarrow> run_env \<Rightarrow> run_event list \<Rightarrow> run_options \<Rightarrow> config \<Rightarrow> metadata \<Rightarrow> string \<Rightarrow> 's
    \<Rightarrow> run_action list \<times> run_exit option" where
  "run_application E ops R events o' cfg m apiURL s = leave (case start_parts E R o' of
       (acts, Some x) \<Rightarrow> (acts, Some x)
     | (acts, None) \<Rightarrow>
         let create = fst (createSession E ops (command_client cfg) (command_env E (rv_auth R) cfg m) apiURL
               (rv_answers R) o' (rv_now R) s)
         in (case run_events (ro_command o' \<noteq> []) (ro_dependency_proxy o') create Waiting_Ready events of
               (later, x) \<Rightarrow> (acts @ later, x)))"

text \<open>The result is the actions and, when the command has ended, its exit.\<close>

definition run_command ::
  "ext \<Rightarrow> fraction \<Rightarrow> (bool \<Rightarrow> 's store_ops) \<Rightarrow> run_env \<Rightarrow> string list \<Rightarrow> run_event list \<Rightarrow> 's world
    \<Rightarrow> run_action list \<times> run_exit option" where
  "run_command E frac stores R args events w =
     (if run_help args then ([], Some (0, None))
      else case check_options E frac R args of
        Inl x \<Rightarrow> ([], Some x)
      | Inr o' \<Rightarrow> (case control_client (rv_auth R) o' w of
          (Inl x, w) \<Rightarrow> ([], Some x)
        | (Inr (cfg, m, apiURL), w) \<Rightarrow>
            let ops = stores (ro_allow_file o'); target = trim_right apiURL ''/'' @ ''/api/v1/me'' in
            (case Me ops (command_client cfg) (command_env E (rv_auth R) cfg m)
                (\<lambda>i token. if Parse_url target = None then None else av_me (rv_auth R) target token) (wd_store w) of
               (Inl e, s) \<Rightarrow> ([], Some (1, Some (Run_Error ''not signed in'')))
             | (Inr me, s) \<Rightarrow> run_application E ops R events o' cfg m apiURL s)))"

subsection \<open>The exit status\<close>

definition version_exit :: "string list \<Rightarrow> run_exit" where
  "version_exit args = (case parse_flags (\<lambda>name. None) (\<lambda>name v o'. None) args () of
       Inl Flag_Help \<Rightarrow> (0, None)
     | Inl Flag_Error \<Rightarrow> (2, Some (Usage_Error ''invalid arguments''))
     | Inr (u, positional) \<Rightarrow> if positional \<noteq> []
         then (2, Some (Usage_Error ''version does not accept positional arguments'')) else (0, None))"

definition command_exit :: "command_error + 'a \<Rightarrow> run_exit" where
  "command_exit r = (case r of
       Inl Command_Help \<Rightarrow> (0, Some Help_Error)
     | Inl (Command_Failed m) \<Rightarrow> (0, Some (Run_Error m))
     | Inl Command_Panic \<Rightarrow> (2, Some (Run_Error ''panic''))
     | Inr x \<Rightarrow> (0, None))"

text \<open>The end of \<^verbatim>\<open>App.Run\<close>: an error never leaves the status at zero, except the help.\<close>

definition exit_status :: "run_exit \<Rightarrow> int" where
  "exit_status x = (case x of
       (code, None) \<Rightarrow> code
     | (code, Some Help_Error) \<Rightarrow> 0
     | (code, Some e) \<Rightarrow> if code \<noteq> 0 then code else 1)"

text \<open>\<^verbatim>\<open>App.Run\<close>: the exit of the command that the first argument names.\<close>

definition app_run ::
  "(string list \<Rightarrow> run_exit option) \<Rightarrow> (string list \<Rightarrow> run_exit) \<Rightarrow> (string list \<Rightarrow> run_exit)
    \<Rightarrow> (string list \<Rightarrow> run_exit) \<Rightarrow> string list \<Rightarrow> int option" where
  "app_run run' login' whoami' logout' args = (case args of
       [] \<Rightarrow> Some 2
     | c # rest \<Rightarrow>
         if c = ''login'' then Some (exit_status (login' rest))
         else if c = ''whoami'' then Some (exit_status (whoami' rest))
         else if c = ''logout'' then Some (exit_status (logout' rest))
         else if c = ''run'' \<or> c = ''expose'' then map_option exit_status (run' rest)
         else if c = ''version'' then Some (exit_status (version_exit rest))
         else if c \<in> set [''help'', ''--help'', ''-h''] then Some 0
         else Some (exit_status (0, Some (Usage_Error ''unknown command''))))"

subsection \<open>What a run does\<close>

text \<open>The events that end a run well, and what \<^verbatim>\<open>os/exec\<close> says of a child without an error.\<close>

definition clean_end :: "run_event \<Rightarrow> bool" where
  "clean_end e \<longleftrightarrow> e = Interrupted \<or> e = Dependency_Done True \<or> e = Agent_Done None
     \<or> e = Ready (Some (Context_Canceled True)) \<or> (\<exists>r. e = Child_Exited r \<and> pr_err r = None)"

definition honest_children :: "run_event list \<Rightarrow> bool" where
  "honest_children es \<longleftrightarrow> (\<forall>r. Child_Exited r \<in> set es \<longrightarrow> pr_err r = None \<longrightarrow> pr_code r = 0)"

text \<open>How an exit of the waits comes about.\<close>

definition good_exit :: "run_event list \<Rightarrow> run_exit \<Rightarrow> bool" where
  "good_exit es x \<longleftrightarrow> (case snd x of
       None \<Rightarrow> fst x = 0 \<and> (\<exists>e \<in> set es. clean_end e)
     | Some err \<Rightarrow> 0 < fst x \<and> (\<exists>m. err = Run_Error m)
         \<and> (fst x = 1 \<or> (\<exists>r. Child_Exited r \<in> set es \<and> pr_code r = fst x)))"

lemma select_run_exit:
  assumes "select_run child proxy phase e = Exit x" and "honest_children [e]"
  shows "good_exit [e] x"
  using assms
  by (cases e) (auto simp: good_exit_def clean_end_def honest_children_def dependency_exit_def child_exit_def
      agent_exit_def ready_exit_def exitCode_def split: if_splits option.splits ready_error.splits)

lemma good_exit_mono: "good_exit es x \<Longrightarrow> set es \<subseteq> set es' \<Longrightarrow> good_exit es' x"
  by (auto simp: good_exit_def split: option.splits)

lemma run_events_exit:
  "run_events child proxy create phase es = (acts, Some x) \<Longrightarrow> honest_children es \<Longrightarrow> good_exit es x"
proof (induction child proxy create phase es arbitrary: acts rule: run_events.induct)
  case (2 child proxy create phase e es)
  have honest: "honest_children es" "honest_children [e]" using 2(5) by (auto simp: honest_children_def)
  have later: "good_exit (e # es) x" if "good_exit es x"
    using that by (rule good_exit_mono) auto
  show ?case
  proof (cases "select_run child proxy phase e")
    case Ignored
    then show ?thesis using 2 honest later by auto
  next
    case Next_Phase
    then show ?thesis
      using 2 honest later
      by (auto split: if_splits sum.splits prod.splits simp: good_exit_def)
  next
    case (Exit y)
    then have "good_exit [e] x" using 2(4) select_run_exit [OF _ honest(2)] by auto
    then show ?thesis by (rule good_exit_mono) auto
  qed
qed simp

lemma select_next:
  "select_run child proxy phase e = Next_Phase \<Longrightarrow>
   phase = Waiting_Ready \<and> e = Ready None \<or> phase = Waiting_Connected \<and> e = Connected"
  by (cases e) (auto split: if_splits option.splits)

text \<open>A session is created for a ready port only, and nothing is stopped by the waits.\<close>

lemma run_events_actions:
  "run_events child proxy create phase es = (acts, x) \<Longrightarrow> a \<in> set acts \<Longrightarrow>
   a = Started_Agent \<or> (\<exists>s. a = Created_Session s \<and> create = Inr s \<and> Ready None \<in> set es)"
proof (induction child proxy create phase es arbitrary: acts x rule: run_events.induct)
  case (2 child proxy create phase e es)
  show ?case
  proof (cases "select_run child proxy phase e")
    case Next_Phase
    with select_next [OF Next_Phase] 2 show ?thesis
      by (fastforce split: if_splits sum.splits prod.splits)
  qed (use 2 in \<open>auto split: prod.splits\<close>)
qed simp

lemma start_parts_actions:
  assumes "start_parts E R o' = (acts, x)"
  shows "acts \<in> {[], [Started_Dependencies]} \<union> {xs @ [Started_Child c] |xs c. xs \<in> {[], [Started_Dependencies]}}"
    "x = None \<or> (\<exists>m. x = Some (1, Some (Run_Error m)))"
  using assms by (auto simp: start_parts_def Let_def split: if_splits sum.splits)

text \<open>What happened before a run ends or while it goes on: the usage errors, the settings, and then the
  application.\<close>

lemma run_command_cases:
  fixes w :: "'s world"
  assumes "run_command E frac stores R args events w = (acts, x)"
  obtains (shown) "run_help args" "acts = []" "x = Some (0, None)"
  | (early) y where "acts = []" "x = Some y" "0 < fst y" "fst y \<le> 2" "snd y \<noteq> None"
  | (application) o' o'' and ops :: "'s store_ops" and cfg m apiURL s where "ParseRun E frac (av_getenv (rv_auth R)) args = Inr o'"
      "validate_name (ro_name o') = None" "o'' = o' \<or> (\<exists>d. o'' = o'\<lparr>ro_cwd := d\<rparr>)"
      "run_application E ops R events o'' cfg m apiURL s = (acts, x)"
proof (cases "run_help args")
  case True
  then show thesis using assms shown by (auto simp: run_command_def)
next
  case False
  show thesis
  proof (cases "check_options E frac R args")
    case (Inl y)
    then have "0 < fst y" "fst y \<le> 2" "snd y \<noteq> None"
      by (auto simp: check_options_def usage_exit_def split: sum.splits option.splits if_splits)
    with Inl False assms show thesis by (intro early [of y]) (auto simp: run_command_def)
  next
    case (Inr o'')
    then obtain o' where o': "ParseRun E frac (av_getenv (rv_auth R)) args = Inr o'"
      "validate_name (ro_name o') = None" "o'' = o' \<or> (\<exists>d. o'' = o'\<lparr>ro_cwd := d\<rparr>)"
      by (auto simp: check_options_def split: sum.splits option.splits if_splits)
    obtain r w1 where c: "control_client (rv_auth R) o'' w = (r, w1)" by fastforce
    show thesis
    proof (cases r)
      case (Inl y)
      then have "0 < fst y" "fst y \<le> 2" "snd y \<noteq> None"
        using c by (auto simp: control_client_def split: sum.splits option.splits if_splits prod.splits)
      with Inl c Inr False assms show thesis by (intro early [of y]) (auto simp: run_command_def)
    next
      case settings: (Inr p)
      obtain cfg m apiURL where p: "p = (cfg, m, apiURL)" by (cases p)
      let ?ops = "stores (ro_allow_file o'')" and ?target = "trim_right apiURL ''/'' @ ''/api/v1/me''"
      let ?me = "Me ?ops (command_client cfg) (command_env E (rv_auth R) cfg m)
        (\<lambda>i token. if Parse_url ?target = None then None else av_me (rv_auth R) ?target token) (wd_store w1)"
      have run: "run_command E frac stores R args events w = (case ?me of
          (Inl e, s) \<Rightarrow> ([], Some (1, Some (Run_Error ''not signed in'')))
        | (Inr me, s) \<Rightarrow> run_application E ?ops R events o'' cfg m apiURL s)"
        using False Inr c settings p by (simp add: run_command_def Let_def)
      obtain q s where q: "?me = (q, s)" by fastforce
      show thesis
        using assms run q early [of "(1, Some (Run_Error ''not signed in''))"] application [OF o']
        by (cases q) auto
    qed
  qed
qed

lemma run_application_body:
  assumes "run_application E ops R events o' cfg m apiURL s = (acts, x)"
  obtains parts later where
    "parts \<in> {[], [Started_Dependencies]} \<union> {xs @ [Started_Child c] |xs c. xs \<in> {[], [Started_Dependencies]}}"
    "\<And>a. a \<in> set later \<Longrightarrow> a = Started_Agent \<or> (\<exists>session. a = Created_Session session \<and> Ready None \<in> set events
       \<and> fst (createSession E ops (command_client cfg) (command_env E (rv_auth R) cfg m) apiURL (rv_answers R) o' (rv_now R) s)
           = Inr session)"
    "acts = (parts @ later) @ (if x = None then [] else deferred (parts @ later))"
    "x = None \<or> (\<exists>e. x = Some (1, Some (Run_Error e))) \<or> (\<exists>y. x = Some y \<and> (honest_children events \<longrightarrow> good_exit events y))"
proof -
  let ?create = "fst (createSession E ops (command_client cfg) (command_env E (rv_auth R) cfg m) apiURL (rv_answers R) o' (rv_now R) s)"
  obtain parts y where parts: "start_parts E R o' = (parts, y)" by fastforce
  note started = start_parts_actions [OF parts]
  show thesis
  proof (cases y)
    case (Some z)
    then have "acts = parts @ deferred parts" "x = Some z"
      using assms parts by (auto simp: run_application_def leave_def)
    with that [of parts "[]"] started Some show thesis by auto
  next
    case None
    obtain later z where run: "run_events (ro_command o' \<noteq> []) (ro_dependency_proxy o') ?create Waiting_Ready events = (later, z)"
      by fastforce
    have "acts = (parts @ later) @ (if z = None then [] else deferred (parts @ later))" "x = z"
      using assms parts None run by (auto simp: run_application_def leave_def split: option.splits)
    with that [of parts later] started(1) run_events_actions [OF run] run_events_exit [of _ _ _ _ _ later] run
    show thesis by (cases z) auto
  qed
qed

end
