(* ===== verification/Auth_Login.thy ===== *)
theory Auth_Login
  imports Auth_Commands
begin

text \<open>
  What \<^verbatim>\<open>mockingo login\<close> promises: what it has checked when it reports success, what it
  leaves behind then, and that a failure leaves nothing new.
\<close>

subsection \<open>What login promises\<close>

subsection \<open>A sample login\<close>

definition sample_auth_env :: auth_env where
  "sample_auth_env = \<lparr>av_getenv = (\<lambda>name. []), av_path_ok = True, av_fetch = sample_fetch,
     av_configuration = (\<lambda>url. Some (200, Some \<lparr>lc_issuer = ''https://clerk.example/'', lc_client_id = ''cli'',
       lc_scopes = [''openid profile'', ''openid'']\<rparr>)),
     av_random = (\<lambda>draw n. Some ''abc''), av_sha256 = (\<lambda>s. ''digest''),
     av_listen = (\<lambda>network address. Some 53682), av_pattern_ok = (\<lambda>path. True),
     av_outcome = Inr (empty_result\<lparr>cr_code := ''abc''\<rparr>), av_deadline = False,
     av_post = (\<lambda>url body. Some (200, Some (sample_raw ''3600''))), av_now = (\<lambda>n. 5),
     av_me = (\<lambda>url token. if url = ''https://api.mockingo.com/api/v1/me'' \<and> token = ''at''
       then Some (200, Some \<lparr>me_user_id = ''u1'', me_authentication_method = ''clerk_oauth''\<rparr>) else None)\<rparr>"

definition sample_world :: "(keyring \<times> file_system) world" where
  "sample_world = \<lparr>wd_disk = sample_disk, wd_store = (sample_keyring\<lparr>kr_down := False\<rparr>, sample_files), wd_cache = []\<rparr>"

lemma sample_login:
  "map_sum (\<lambda>e. ()) id (fst (login sample_ext sample_frac (\<lambda>allow. app_store allow sample_ext) sample_auth_env
      [''--no-browser''] sample_world)) = Inr (Some ''u1'')"
  by code_simp

definition unreachable_api :: auth_env where
  "unreachable_api = sample_auth_env\<lparr>av_path_ok := False\<rparr>"

lemma sample_world_ok: "fallback_ok False (wd_store sample_world)" "\<not> cd_read_fails (wd_disk sample_world)"
  by (simp_all add: sample_world_def fallback_ok_def sample_keyring_def sample_files_def sample_disk_def
      file_ok_def keyring_takes_all_def inj_def)

lemma sample_login_run:
  obtains w' where "login sample_ext sample_frac (\<lambda>allow. app_store allow sample_ext) sample_auth_env
      [''--no-browser''] sample_world = (Inr (Some ''u1''), w')"
  using sample_login
  by (cases "login sample_ext sample_frac (\<lambda>allow. app_store allow sample_ext) sample_auth_env [''--no-browser''] sample_world")
    (auto elim: map_sum_some simp: map_sum_def split: sum.splits)



text \<open>A login that fails leaves no new credentials behind: for every account the store answers as
  before or has nothing, and the settings load as before, unless only the last change of the
  file's mode failed.\<close>

theorem failed_login_leaves_nothing:
  assumes "login E frac (\<lambda>allow. app_store allow E) V args w = (Inl e, w')"
    and "fallback_ok False (wd_store w)"
  shows "(Load (wd_disk w') = Load (wd_disk w) \<or> cd_chmod_fails (wd_disk w))
    \<and> (fallback_Get allow (KeyringStore E) (FileStore E) (wd_store w') account
          = fallback_Get allow (KeyringStore E) (FileStore E) (wd_store w) account
        \<or> fallback_Get allow (KeyringStore E) (FileStore E) (wd_store w') account = Inl Not_Found)"
proof -
  have get: "st_get (app_store allow E) = fallback_Get allow (KeyringStore E) (FileStore E)"
    by (simp add: FallbackStore_def)
  from login_ends [OF assms(1)] show ?thesis
  proof (elim disjE exE conjE)
    fix existing o' apiURL m a t me cache r'
    assume save: "save_login (app_store (lo_allow_file o') E) o' apiURL existing t me (w\<lparr>wd_cache := cache\<rparr>) = (r', w')"
      and r': "Inl e = map_sum id Some r'"
    have ok: "fallback_ok False (wd_store (w\<lparr>wd_cache := cache\<rparr>))" using assms(2) by simp
    from r' have "r' = Inl e" by (cases r') simp_all
    with save save_login_alike [OF ok]
    have "save_login (app_store allow E) o' apiURL existing t me (w\<lparr>wd_cache := cache\<rparr>) = (Inl e, w')" by metis
    note failed = fallback_store.save_login_failed [OF fallback_ok_any [OF ok] this fallback_delete_total]
    show ?thesis using failed [unfolded get] by (auto dest: Save_failed_Load)
  qed auto
qed

lemma failed_login_leaves_nothing_witness:
  "\<exists>e w'. login sample_ext sample_frac (\<lambda>allow. app_store allow sample_ext) unreachable_api [] sample_world = (Inl e, w')
    \<and> (Load (wd_disk w') = Load (wd_disk sample_world) \<or> cd_chmod_fails (wd_disk sample_world))"
proof -
  have "login sample_ext sample_frac (\<lambda>allow. app_store allow sample_ext) unreachable_api [] sample_world
      = (Inl (Command_Failed ''configuration error''), sample_world)"
    by (simp add: login_def prepare_login_def unreachable_api_def)
  from failed_login_leaves_nothing [OF this sample_world_ok(1)] this show ?thesis by blast
qed

subsection \<open>What has happened before\<close>

lemma waited_outcome:
  assumes "wait_returns (callback_run state events) cancelled (Inr x)" and "cr_error x = []"
  shows "\<exists>r. Requested r \<in> set events \<and> snd (callback_handler state r) = Some (Inr x) \<and> cr_code x \<noteq> []"
proof -
  from assms(1) obtain xs where "cb_result (callback_run state events) = Inr x # xs"
    by (cases rule: wait_returns.cases) auto
  then have "Inr x \<in> set (List.map_filter (event_outcome state) events)"
    unfolding callback_run_result by (metis in_set_takeD list.set_intros(1))
  then obtain e where e: "e \<in> set events" "event_outcome state e = Some (Inr x)"
    by (auto simp: List.map_filter_def)
  obtain r where r: "e = Requested r" "snd (callback_handler state r) = Some (Inr x)"
    using e(2) by (cases e) (simp_all add: event_outcome_def)
  then have "cr_code x \<noteq> []"
    using assms(2) by (auto simp: callback_handler_def Let_def empty_result_def split: if_splits)
  with e r show ?thesis by blast
qed



subsection \<open>A login without a refresh token\<close>

lemma incomplete_unreadable:
  assumes "fallback_ok False s" and "\<not> complete_credentials E c" and "st_set (app_store allow E) s a c = (None, s')"
  shows "isl (st_get (app_store allow' E) s' a)"
proof -
  obtain k f where s: "s = (k, f)" by (cases s)
  have k: "\<not> kr_down k" "keyring_takes_all k" and f: "file_ok f" "\<not> fs_remove_fails f"
    using assms(1) by (auto simp: s fallback_ok_def)
  obtain r f' where del: "file_Delete f a = (r, f')" by fastforce
  have s': "s' = (k\<lparr>kr_entries := gomap_set a (Some c) (kr_entries k)\<rparr>, f')"
    using assms(3) k del by (simp add: s FallbackStore_def fallback_up)
  have "decodeCredentials E (Some c) = Inl (Store_Failed ''stored OAuth credentials are incomplete'')"
    using assms(2) by (simp add: decodeCredentials_def)
  then show ?thesis
    using k file_Delete_removes [OF f del, of E] by (simp add: s' FallbackStore_def fallback_up)
qed

lemma whoami_without_credentials:
  assumes "Load (wd_disk w) = Inr cfg" and "\<And>allow. isl (st_get (stores allow) (wd_store w) (client_account (command_client cfg)))"
  shows "isl (fst (whoami E stores V args w))"
proof -
  have "isl (fst (Me (stores allow) (command_client cfg) U answer (wd_store w)))" for allow U answer
  proof -
    obtain e where "st_get (stores allow) (wd_store w) (client_account (command_client cfg)) = Inl e"
      using assms(2) [of allow] by (auto simp: isl_def)
    then show ?thesis by (simp add: Me_def do_request_def credentials_def Let_def)
  qed
  note me = this
  show ?thesis
    using assms(1)
    by (auto simp: whoami_def loadOAuth_def Let_def split: sum.splits prod.splits) (metis fst_conv me sum.disc(2))+
qed

definition no_refresh_tokens :: "token_post \<Rightarrow> bool" where
  "no_refresh_tokens post \<longleftrightarrow> (\<forall>url body status raw. post url body = Some (status, Some raw) \<longrightarrow> rw_refresh_token raw = [])"

text \<open>A refresh token is only demanded when the scope \<^verbatim>\<open>offline_access\<close> is requested, but stored
  credentials without one never read back: when the server grants none, a login can report success
  and every whoami after it fails.\<close>

theorem login_without_refresh_token:
  assumes "login E frac (\<lambda>allow. app_store allow E) V args w = (Inr (Some user), w')"
    and "fallback_ok False (wd_store w)" and "\<not> cd_read_fails (wd_disk w)" and "no_refresh_tokens (av_post V)"
  shows "isl (fst (whoami E (\<lambda>allow. app_store allow E) V' args' w'))"
proof -
  obtain existing o' apiURL m a t me cache where auth: "authorized E V (wd_cache w) cache o' apiURL m a t me"
    and save: "save_login (app_store (lo_allow_file o') E) o' apiURL existing t me (w\<lparr>wd_cache := cache\<rparr>) = (Inr user, w')"
    using login_ends [OF assms(1)] by (fastforce elim: map_sum_some)
  let ?cfg = "SetOAuth apiURL (lo_issuer o') (lo_client_id o') (tr_scope t) (me_user_id me) (tr_expires_at t) existing"
  have "tr_refresh_token t = []"
    using auth assms(4)
    by (auto simp: authorized_def finish_authorization_def ExchangeCode_def TokenRequest_def ParseTokenResponse_Inr
        no_refresh_tokens_def Let_def split: sum.splits option.splits if_splits prod.splits)
  then have incomplete: "\<not> complete_credentials E (new_credentials t me)"
    by (simp add: complete_credentials_def new_credentials_def)
  have set: "st_set (app_store (lo_allow_file o') E) (wd_store w) (Account (lo_issuer o') (lo_client_id o')) (new_credentials t me)
      = (None, wd_store w')"
    and disk: "Save ?cfg (wd_disk w) = (None, wd_disk w')"
    using save by (auto simp: save_login_def Let_def split: prod.splits option.splits)
  show ?thesis
    using Save_Load [OF disk assms(3)] incomplete_unreadable [OF assms(2) incomplete set]
    by (intro whoami_without_credentials [of w' ?cfg]) (simp_all add: account_of_settings)
qed

definition short_session :: auth_env where
  "short_session = sample_auth_env\<lparr>av_post := (\<lambda>url body. Some (200, Some (sample_raw ''3600''\<lparr>rw_refresh_token := []\<rparr>)))\<rparr>"

lemma login_without_refresh_token_witness:
  "\<exists>w'. login sample_ext sample_frac (\<lambda>allow. app_store allow sample_ext) short_session [''--no-browser''] sample_world
      = (Inr (Some ''u1''), w')
    \<and> isl (fst (whoami sample_ext (\<lambda>allow. app_store allow sample_ext) short_session [] w'))"
proof -
  let ?run = "login sample_ext sample_frac (\<lambda>allow. app_store allow sample_ext) short_session [''--no-browser''] sample_world"
  have "map_sum (\<lambda>e. ()) id (fst ?run) = Inr (Some ''u1'')" by code_simp
  then obtain w' where run: "?run = (Inr (Some ''u1''), w')"
    by (cases ?run) (auto simp: map_sum_def split: sum.splits)
  have "no_refresh_tokens (av_post short_session)" by (simp add: no_refresh_tokens_def short_session_def sample_raw_def)
  from login_without_refresh_token [OF run sample_world_ok this] run show ?thesis by blast
qed

end
