(* ===== verification/Auth_Logout.thy ===== *)
theory Auth_Logout
  imports Auth_Login
begin

text \<open>
  What \<^verbatim>\<open>mockingo logout\<close> promises: that the session is gone from the store and the
  settings, and where the refresh token is sent to be revoked.
\<close>

subsection \<open>Forgetting the session\<close>

lemma LoadOptional_valid: "LoadOptional d = Inr cfg \<Longrightarrow> config_Validate cfg = None"
  by (auto simp: LoadOptional_Inr Load_Inr empty_config_valid)

lemma valid_issuer_client:
  "config_Validate cfg = None \<Longrightarrow> cf_issuer cfg = [] \<longleftrightarrow> cf_client_id cfg = []"
  by (auto simp: config_Validate_def trim_space_Nil split: if_splits)

lemma store_config_loads:
  assumes "store_config cfg d = (True, d')" and "\<not> cd_read_fails d" and "config_Validate cfg = None"
  shows "LoadOptional d' = Inr cfg"
proof (cases "config_Empty cfg")
  case True
  then show ?thesis
    using assms by (auto simp: store_config_def remove_config_def LoadOptional_Inr config_Empty_iff split: if_splits)
next
  case False
  then show ?thesis
    using assms by (auto simp: store_config_def LoadOptional_Inr intro: Save_Load split: prod.splits)
qed

text \<open>The two ways a logout succeeds: nobody was signed in, or the session is deleted first and the
  settings are cleared then.\<close>

lemma logout_ends:
  assumes "logout E stores V args w = (Inr revoked, w')" and "LoadOptional (wd_disk w) = Inr cfg"
  obtains (signed_out) "cf_issuer cfg = [] \<or> cf_client_id cfg = []" "revoked = None"
      "store_config cfg (wd_disk w) = (True, wd_disk w')" "wd_store w' = wd_store w"
  | (signed_in) allow where "cf_issuer cfg \<noteq> []" "cf_client_id cfg \<noteq> []"
      "st_delete (stores allow) (wd_store w) (client_account (command_client cfg)) = (None, wd_store w')"
      "store_config (ClearOAuth cfg) (wd_disk w) = (True, wd_disk w')"
      "\<And>url form. revoked = Some (url, form) \<Longrightarrow> \<exists>c m cache.
        st_get (stores allow) (wd_store w) (client_account (command_client cfg)) = Inr c
        \<and> Discover (av_fetch V) (wd_cache w) (cf_issuer cfg) = (Inr m, cache)
        \<and> md_revocation_endpoint m = url \<and> url \<noteq> [] \<and> oc_refresh_token c \<noteq> []
        \<and> form = values_encode (revocation_form (cf_client_id cfg) (oc_refresh_token c))"
proof (cases "cf_issuer cfg = [] \<or> cf_client_id cfg = []")
  case True
  then show thesis
    using assms by (intro signed_out) (auto simp: logout_def split: sum.splits if_splits prod.splits)
next
  case False
  have account: "Account (cf_issuer cfg) (cf_client_id cfg) = client_account (command_client cfg)"
    by (simp add: client_account_def command_client_def)
  from assms False obtain allow where run: "end_session (stores allow) V cfg w = (Inr revoked, w')"
    by (auto simp: logout_def split: sum.splits if_splits prod.splits)
  have revoked: "\<exists>c m cache'. found = Inr c \<and> Discover (av_fetch V) cache (cf_issuer cfg) = (Inr m, cache')
      \<and> md_revocation_endpoint m = url \<and> url \<noteq> [] \<and> oc_refresh_token c \<noteq> []
      \<and> form = values_encode (revocation_form (cf_client_id cfg) (oc_refresh_token c))"
    if "revocation V cfg found cache = (Some (url, form), cache'')" for found cache cache'' url form
    using that by (auto simp: revocation_def split: sum.splits if_splits prod.splits)
  show thesis
    using run False
    by (intro signed_in [of allow])
      (auto simp: end_session_def Let_def account split: prod.splits option.splits if_splits dest: revoked)
qed

definition leaving_env :: auth_env where
  "leaving_env = sample_auth_env\<lparr>av_fetch := (\<lambda>url. Some (200, Some (sample_metadata\<lparr>
     md_revocation_endpoint := ''https://clerk.example/revoke''\<rparr>)))\<rparr>"

definition leaving_world :: "(keyring \<times> file_system) world" where
  "leaving_world = \<lparr>wd_disk = sample_disk\<lparr>cd_file := Some (Some sample_config, private_mode)\<rparr>,
     wd_store = (sample_keyring\<lparr>kr_down := False, kr_entries :=
       [(''oauth:https://clerk.example:cli'', Some (sample_credentials ''t1''))]\<rparr>, sample_files), wd_cache = []\<rparr>"

lemma leaving_world_ok: "fallback_ok False (wd_store leaving_world)" "\<not> cd_read_fails (wd_disk leaving_world)"
  "LoadOptional (wd_disk leaving_world) = Inr sample_config" "cache_ok (wd_cache leaving_world)"
  by (simp_all add: leaving_world_def fallback_ok_def sample_keyring_def sample_files_def sample_disk_def
      file_ok_def keyring_takes_all_def inj_def LoadOptional_def Load_def sample_config_valid cache_ok_def)

lemma sample_logout:
  obtains w' where "logout sample_ext (\<lambda>allow. app_store allow sample_ext) leaving_env [] leaving_world
    = (Inr (Some (''https://clerk.example/revoke'', ''client_id=cli&token=r&token_type_hint=refresh_token'')), w')"
proof -
  let ?run = "logout sample_ext (\<lambda>allow. app_store allow sample_ext) leaving_env [] leaving_world"
  have "map_sum (\<lambda>e. ()) id (fst ?run)
      = Inr (Some (''https://clerk.example/revoke'', ''client_id=cli&token=r&token_type_hint=refresh_token''))"
    by code_simp
  then have "fst ?run = Inr (Some (''https://clerk.example/revoke'', ''client_id=cli&token=r&token_type_hint=refresh_token''))"
    by (auto simp: map_sum_def split: sum.splits)
  then show thesis using that [of "snd ?run"] by (simp add: prod_eq_iff)
qed



text \<open>At most the refresh token leaves at a logout, and only to a secure revocation endpoint: what is
  sent is the token stored for the account, as the server reads it from the form, to the endpoint
  that a validated discovery document of the configured issuer names, over HTTPS or to a loopback
  address.\<close>

theorem revocation_is_secure:
  assumes "logout E stores V args w = (Inr (Some (url, form)), w')" and "cache_ok (wd_cache w)"
  shows "\<exists>cfg allow c u. LoadOptional (wd_disk w) = Inr cfg
    \<and> st_get (stores allow) (wd_store w) (client_account (command_client cfg)) = Inr c
    \<and> map_of (parse_query form) ''token'' = Some [oc_refresh_token c]
    \<and> Parse_url url = Some u \<and> gu_host u \<noteq> [] \<and> gu_user u = None
    \<and> (gu_scheme u = ''https'' \<or> gu_scheme u = ''http'' \<and> isLoopbackHost (Hostname u))"
proof -
  from assms(1) obtain cfg where cfg: "LoadOptional (wd_disk w) = Inr cfg"
    by (auto simp: logout_def split: sum.splits if_splits)
  from assms(1) cfg show ?thesis
  proof (cases rule: logout_ends)
    case (signed_in allow)
    from signed_in(5) [OF refl] obtain c m cache where c: "st_get (stores allow) (wd_store w) (client_account (command_client cfg)) = Inr c"
      and d: "Discover (av_fetch V) (wd_cache w) (cf_issuer cfg) = (Inr m, cache)"
      and url: "md_revocation_endpoint m = url" "url \<noteq> []"
      and form: "form = values_encode (revocation_form (cf_client_id cfg) (oc_refresh_token c))" by blast
    have "map_of (parse_query form) ''token'' = Some [oc_refresh_token c]"
      unfolding form by (rule encode_single) (simp_all add: revocation_form_def wf_gomap_def)
    moreover have "\<exists>allowed u. validateSecureURL url allowed = Inr u"
    proof -
      have "ValidateMetadata m (trim_right (trim_space (cf_issuer cfg)) ''/'') = None"
        using Discover_ok [OF assms(2) d] by simp
      then show ?thesis
        by (rule ValidateMetadata_None) (use url in \<open>auto simp: optional_endpoints_def split: if_splits\<close>)
    qed
    ultimately show ?thesis using cfg c by (auto simp: validateSecureURL_Inr)
  qed simp
qed

lemma revocation_is_secure_witness:
  "\<exists>u. Parse_url ''https://clerk.example/revoke'' = Some u
    \<and> (gu_scheme u = ''https'' \<or> gu_scheme u = ''http'' \<and> isLoopbackHost (Hostname u))"
proof -
  obtain w' where run: "logout sample_ext (\<lambda>allow. app_store allow sample_ext) leaving_env [] leaving_world
    = (Inr (Some (''https://clerk.example/revoke'', ''client_id=cli&token=r&token_type_hint=refresh_token'')), w')"
    by (rule sample_logout)
  from revocation_is_secure [OF run leaving_world_ok(4)] show ?thesis by blast
qed

end
