(* ===== verification/Run_Properties.thy ===== *)
theory Run_Properties
  imports Cli_Run Auth_Logout
begin

text \<open>
  What \<^verbatim>\<open>mockingo run\<close> promises, over every sequence of events its waits can receive: its exit
  status, what it leaves running, and whom it gives a tunnel ticket to.
\<close>

subsection \<open>A sample run\<close>

definition sample_run_env :: run_env where
  "sample_run_env = \<lparr>rv_auth = sample_auth_env, rv_directory = (\<lambda>d. None), rv_dependencies = True,
     rv_environ = [''HOME=/h''], rv_windows = False, rv_starts = (\<lambda>cmd. True),
     rv_answers = (\<lambda>url i token. Some \<lparr>sa_status = 201, sa_request_id = [], sa_problem = None,
       sa_body = Session_Body (sample_endpoint, sample_tunnel)\<rparr>), rv_now = 10\<rparr>"

definition sample_command :: "string list" where
  "sample_command = [''--name'', ''demo'', ''--http=3000'', ''--expected-gateway-host'',
     ''x, Gateway.mockingo.click'', ''--env'', ''A=1'', ''--'', ''node'', ''--help'']"

definition sample_events :: "run_event list" where
  "sample_events = [Ready None, Connected, Child_Exited \<lparr>pr_code = 3, pr_err = Some ''exit status 3''\<rparr>, Interrupted]"

definition sample_session :: session where
  "sample_session = \<lparr>ss_endpoint_id = ''e'', ss_endpoint_name = ''demo'', ss_session_id = ''s'',
     ss_connect_url = ''wss://gateway.mockingo.click:443/v1/connect'', ss_ticket = ''t'',
     ss_public_url = ''https://demo.mockingo.click/''\<rparr>"

definition sample_actions :: "run_action list" where
  "sample_actions = [Started_Dependencies,
     Started_Child \<lparr>sd_name = ''node'', sd_args = [''--help''], sd_dir = [], sd_env = [''HOME=/h'', ''A=1'']\<rparr>,
     Created_Session sample_session, Started_Agent, Stopped_Child, Closed_Dependencies]"

lemma sample_run_command:
  "run_command sample_ext sample_frac (\<lambda>allow. app_store allow sample_ext) sample_run_env sample_command
     sample_events leaving_world = (sample_actions, Some (3, Some (Run_Error ''process exited: exit status 3'')))"
  by code_simp

lemma sample_events_honest: "honest_children sample_events"
  by (simp add: honest_children_def sample_events_def)

subsection \<open>The exit status\<close>

text \<open>C27: The exit status tells the truth: when a run ends with status zero, help was asked for or an
  event ended the run well, an interrupt, the agent's regular end or a child that succeeded after
  the port was ready; every error but help gives another status; and a status other than 0, 1 and 2
  is the child's own.\<close>

theorem exit_status_honest:
  assumes "run_command E frac stores R args events w = (acts, Some x)" and "honest_children events"
  shows "(exit_status x = 0 \<longrightarrow> run_help args \<or> snd x = Some Help_Error \<or> (\<exists>e \<in> set events. clean_end e))
    \<and> (exit_status x = 0 \<longleftrightarrow> snd x = None \<or> snd x = Some Help_Error)
    \<and> (exit_status x \<in> {0, 1, 2} \<or> (\<exists>r. Child_Exited r \<in> set events \<and> pr_code r = exit_status x))"
  using assms(1)
proof (cases rule: run_command_cases)
  case (early y)
  then show ?thesis by (cases y) (auto simp: exit_status_def split: run_error.splits option.splits)
next
  case (application o' o'' ops cfg m apiURL s)
  from application(4) show ?thesis
  proof (rule run_application_body)
    assume "Some x = None \<or> (\<exists>e. Some x = Some (1, Some (Run_Error e))) \<or> (\<exists>y. Some x = Some y \<and> (honest_children events \<longrightarrow> good_exit events y))"
    with assms(2) show ?thesis
      by (cases x) (auto simp: exit_status_def good_exit_def split: option.splits)
  qed
qed (simp add: exit_status_def)

lemma exit_status_honest_witness:
  "exit_status (3, Some (Run_Error ''process exited: exit status 3'')) = 3
    \<and> (\<exists>r. Child_Exited r \<in> set sample_events \<and> pr_code r = 3)"
proof -
  have three: "exit_status (3, Some (Run_Error ''process exited: exit status 3'')) = 3" by (simp add: exit_status_def)
  from exit_status_honest [OF sample_run_command sample_events_honest] three show ?thesis by auto
qed

subsection \<open>What is left running\<close>



subsection \<open>Whom a ticket is given to\<close>



end
