(* ===== verification/Readiness.thy ===== *)
theory Readiness
  imports Go_Prelude
begin

text \<open>
  \<^verbatim>\<open>internal/readiness/readiness.go\<close>: the loop that dials the local port until it accepts.
  Time is in milliseconds since the call; \<open>stop\<close> is when the context ends, at the startup timeout or
  an interrupt.  Only dialling takes time.
\<close>

text \<open>
  What the loop observes: whether the \<open>i\<close>-th dial, started at some time, is accepted and how long it
  takes, and which of two ready cases the \<open>i\<close>-th \<^verbatim>\<open>select\<close> picks.
\<close>

record probe_env =
  pb_dial :: "nat \<Rightarrow> nat \<Rightarrow> bool \<times> nat"
  pb_tick_first :: "nat \<Rightarrow> bool"

definition dial_timeout :: nat where
  "dial_timeout = 250"

definition period :: nat where
  "period = 100"

text \<open>\<^verbatim>\<open>DialContext\<close>: it ends at its timeout and with the context.\<close>

definition DialContext :: "probe_env \<Rightarrow> nat \<Rightarrow> nat \<Rightarrow> nat \<Rightarrow> bool \<times> nat" where
  "DialContext V stop i now =
     (if stop \<le> now then (False, now)
      else case pb_dial V i now of (ok, d) \<Rightarrow>
        let limit = min (now + dial_timeout) stop in
        if now + d \<le> limit then (ok, now + d) else (False, limit))"

text \<open>
  \<^verbatim>\<open>Wait\<close>: \<open>ticks\<close> is the number of the last tick that was received or dropped.  A tick that
  came during the dial is in the channel's buffer, later ones are dropped.  The result is whether the
  port accepted, how many dials there were and when it returned.
\<close>

lemma DialContext_time: "DialContext V stop i now = (ok, t) \<Longrightarrow> now \<le> t \<and> t \<le> max stop now"
  by (auto simp: DialContext_def Let_def dial_timeout_def split: if_splits prod.splits)

function Wait :: "probe_env \<Rightarrow> nat \<Rightarrow> nat \<Rightarrow> nat \<Rightarrow> nat \<Rightarrow> bool \<times> nat \<times> nat" where
  "Wait V stop i now ticks = (case DialContext V stop i now of (ok, t) \<Rightarrow>
     if ok then (True, Suc i, t)
     else if ticks < t div period \<and> (t < stop \<or> pb_tick_first V i) then Wait V stop (Suc i) t (t div period)
     else if stop \<le> t then (False, Suc i, t)
     else
       let tick = period * Suc ticks in
       if tick < stop \<or> tick = stop \<and> pb_tick_first V i then Wait V stop (Suc i) tick (Suc ticks)
       else (False, Suc i, stop))"
  by pat_completeness auto
termination
proof (relation "measure (\<lambda>(V, stop, i, now, ticks). Suc (max stop now div period) - ticks)")
  show "wf (measure (\<lambda>(V, stop, i, now, ticks). Suc (max stop now div period) - ticks))" by simp
next
  fix V stop i now ticks ok t
  assume r: "(ok, t) = DialContext V stop i now" and more: "ticks < t div period \<and> (t < stop \<or> pb_tick_first V i)"
  have "t \<le> max stop now" using DialContext_time [OF r [symmetric]] by simp
  then have "max stop t div period \<le> max stop now div period" "t div period \<le> max stop t div period"
    by (auto intro: div_le_mono)
  with more show "((V, stop, Suc i, t, t div period), V, stop, i, now, ticks)
      \<in> measure (\<lambda>(V, stop, i, now, ticks). Suc (max stop now div period) - ticks)"
    by (simp only: in_measure prod.case) linarith
next
  fix V stop i now ticks ok t tick
  assume tick: "tick = period * Suc ticks" "tick < stop \<or> tick = stop \<and> pb_tick_first V i"
  then have "Suc ticks * period \<le> stop" by (auto simp: mult.commute)
  then have "Suc ticks \<le> stop div period" by (simp add: period_def less_eq_div_iff_mult_less_eq)
  moreover have "max stop tick = stop" using tick by auto
  moreover have "stop div period \<le> max stop now div period" by (simp add: div_le_mono)
  ultimately show "((V, stop, Suc i, tick, Suc ticks), V, stop, i, now, ticks)
      \<in> measure (\<lambda>(V, stop, i, now, ticks). Suc (max stop now div period) - ticks)" by simp
qed

declare Wait.simps [simp del]

lemma Wait_bounds:
  "Wait V stop i now ticks = (ok, n, t) \<Longrightarrow> now \<le> stop \<Longrightarrow> ticks \<le> stop div period \<Longrightarrow>
   i < n \<and> n + ticks \<le> i + stop div period + 1 \<and> t \<le> stop
   \<and> (if ok then \<exists>s. DialContext V stop (n - 1) s = (True, t) else t = stop)"
proof (induction V stop i now ticks rule: Wait.induct)
  case (1 V stop i now ticks)
  obtain ok' t' where d: "DialContext V stop i now = (ok', t')" by fastforce
  note time = DialContext_time [OF d]
  consider (ready) "ok'"
    | (buffered) "\<not> ok'" "ticks < t' div period \<and> (t' < stop \<or> pb_tick_first V i)"
    | (over) "\<not> ok'" "\<not> (ticks < t' div period \<and> (t' < stop \<or> pb_tick_first V i))" "stop \<le> t'"
    | (tick) "\<not> ok'" "\<not> (ticks < t' div period \<and> (t' < stop \<or> pb_tick_first V i))" "\<not> stop \<le> t'"
    by blast
  then show ?case
  proof cases
    case ready
    then show ?thesis using 1 d time by (auto simp: Wait.simps [of V stop i])
  next
    case buffered
    have "t' \<le> stop" "t' div period \<le> stop div period" using time 1(4) by (auto intro: div_le_mono)
    moreover have "Wait V stop (Suc i) t' (t' div period) = (ok, n, t)"
      using 1(3) d buffered by (simp add: Wait.simps [of V stop i])
    ultimately show ?thesis using 1(1) [OF d [symmetric] buffered] buffered by linarith
  next
    case over
    then show ?thesis using 1 d time by (auto simp: Wait.simps [of V stop i])
  next
    case tick
    show ?thesis
    proof (cases "period * Suc ticks < stop \<or> period * Suc ticks = stop \<and> pb_tick_first V i")
      case True
      then have le: "period * Suc ticks \<le> stop" by auto
      then have "Suc ticks \<le> stop div period" by (simp add: period_def less_eq_div_iff_mult_less_eq)
      moreover have "Wait V stop (Suc i) (period * Suc ticks) (Suc ticks) = (ok, n, t)"
        using 1(3) d tick True by (simp add: Wait.simps [of V stop i])
      ultimately show ?thesis using 1(2) [OF d [symmetric] tick refl True] le by linarith
    next
      case False
      then show ?thesis using 1 d tick by (auto simp: Wait.simps [of V stop i])
    qed
  qed
qed

text \<open>C38: Waiting for the local port always ends: the loop returns at the latest when its context
  ends, after at most one dial per tenth of a second and one more; it reports success only when a
  dial was accepted, and never gives up before the context ends.\<close>

theorem readiness_wait_ends:
  "case Wait V stop 0 0 0 of (ok, n, t) \<Rightarrow>
     t \<le> stop \<and> 0 < n \<and> n \<le> stop div period + 1
     \<and> (if ok then \<exists>s d. pb_dial V (n - 1) s = (True, d) \<and> t = s + d \<and> d \<le> dial_timeout else t = stop)"
proof -
  obtain ok n t where w: "Wait V stop 0 0 0 = (ok, n, t)" by (metis prod_cases3)
  have accepted: "\<exists>d. pb_dial V i s = (True, d) \<and> t = s + d \<and> d \<le> dial_timeout"
    if "DialContext V stop i s = (True, t)" for i s
    using that by (auto simp: DialContext_def Let_def split: if_splits prod.splits)
  show ?thesis using Wait_bounds [OF w] accepted w by (auto split: if_splits) blast+
qed

lemma Wait_finds:
  assumes "\<And>i s. t0 \<le> s \<Longrightarrow> \<exists>d \<le> slow. pb_dial V i s = (True, d)" and "slow \<le> dial_timeout"
    and "t0 + dial_timeout + period + slow \<le> stop"
  shows "now < t0 + dial_timeout + period \<Longrightarrow> period * ticks \<le> now \<Longrightarrow>
    \<exists>n t. Wait V stop i now ticks = (True, n, t) \<and> t \<le> t0 + dial_timeout + period + slow"
  using assms
proof (induction V stop i now ticks rule: Wait.induct)
  case (1 V stop i now ticks)
  show ?case
  proof (cases "t0 \<le> now")
    case True
    then obtain d where d: "pb_dial V i now = (True, d)" "d \<le> slow" using 1(5) by blast
    then have "DialContext V stop i now = (True, now + d)"
      using 1(3,6,7) by (simp add: DialContext_def Let_def)
    then show ?thesis using d 1(3) by (simp add: Wait.simps [of V stop i])
  next
    case False
    obtain ok t where d: "DialContext V stop i now = (ok, t)" by fastforce
    have t: "now \<le> t" "t \<le> now + dial_timeout"
      using d by (auto simp: DialContext_def Let_def split: if_splits prod.splits)
    have before: "t < stop" using t False 1(7) by simp
    show ?thesis
    proof (cases ok)
      case True
      then show ?thesis using d t False by (simp add: Wait.simps [of V stop i])
    next
      case not_ok: False
      show ?thesis
      proof (cases "ticks < t div period")
        case True
        then have "\<exists>n t'. Wait V stop (Suc i) t (t div period) = (True, n, t') \<and> t' \<le> t0 + dial_timeout + period + slow"
          using 1(1) [OF d [symmetric] not_ok] before t False 1(5-7) by (simp add: period_def)
        then show ?thesis using d not_ok True before by (simp add: Wait.simps [of V stop i])
      next
        case no_tick: False
        have "period * ticks \<le> t" using 1(4) t(1) by simp
        then have le: "period * Suc ticks \<le> t + period" by simp
        then have tick: "period * Suc ticks < stop" using t False 1(7) by simp
        have "\<not> (ticks < t div period \<and> (t < stop \<or> pb_tick_first V i))" "\<not> stop \<le> t"
          using no_tick before by auto
        then have "\<exists>n t'. Wait V stop (Suc i) (period * Suc ticks) (Suc ticks) = (True, n, t') \<and> t' \<le> t0 + dial_timeout + period + slow"
          using 1(2) [OF d [symmetric] not_ok _ _ refl] tick le t False 1(5-7) by simp
        then show ?thesis using d not_ok no_tick before tick by (simp add: Wait.simps [of V stop i])
      qed
    qed
  qed
qed

text \<open>An application that becomes ready in time is found: when from some moment on every dial is
  accepted, within at most a quarter of a second, and the timeout is at least 350 milliseconds and
  one such dial later, the wait succeeds by then.\<close>

theorem ready_application_found:
  assumes "\<And>i s. t0 \<le> s \<Longrightarrow> \<exists>d \<le> slow. pb_dial V i s = (True, d)" and "slow \<le> dial_timeout"
    and "t0 + 350 + slow \<le> stop"
  shows "\<exists>n t. Wait V stop 0 0 0 = (True, n, t) \<and> t \<le> t0 + 350 + slow"
proof -
  have "dial_timeout + period = 350" by (simp add: dial_timeout_def period_def)
  then have e: "t0 + dial_timeout + period + slow = t0 + 350 + slow" by linarith
  show ?thesis
    using Wait_finds [where ?t0.0 = t0 and V = V and stop = stop and i = 0 and now = 0 and ticks = 0, OF assms(1,2)]
      assms(3) unfolding e by (simp add: dial_timeout_def)
qed

definition slow_start :: probe_env where
  "slow_start = \<lparr>pb_dial = (\<lambda>i s. (1000 \<le> s, 20)), pb_tick_first = (\<lambda>i. False)\<rparr>"

lemma ready_application_found_witness:
  "\<exists>n t. Wait slow_start 60000 0 0 0 = (True, n, t) \<and> t \<le> 1370"
proof -
  have "\<exists>d\<le>20. pb_dial slow_start i s = (True, d)" if "1000 \<le> s" for i s
    using that by (simp add: slow_start_def)
  from ready_application_found [of 1000 20 slow_start 60000, OF this] show ?thesis by (simp add: dial_timeout_def)
qed

end
