(* ===== verification/Certificate_Files.thy ===== *)
theory Certificate_Files
  imports Go_Prelude
begin

text \<open>
  \<^verbatim>\<open>internal/dependencycapture/ca.go\<close>, the first half: the inspection CA kept in the two files
  \<^verbatim>\<open>ca.crt\<close> and \<^verbatim>\<open>ca.key\<close>.  \<^verbatim>\<open>LoadOrCreateCA\<close> is a step function
  with one file-system call a turn, so that the same definition gives the run of one process and
  the interleavings of several.  PEM and X.509 are parameters.
\<close>

subsection \<open>Certificates and keys\<close>

record ca_certificate =
  cc_is_ca :: bool
  cc_modulus :: "nat option"
  cc_not_after :: int

datatype private_key = Rsa_Key nat bool | Other_Key

text \<open>
  \<open>xe_pem\<close> is \<^verbatim>\<open>pem.Decode\<close> with the block's type, its bytes and what follows it;
  \<open>cc_modulus\<close> is absent when the public key is not an RSA key, and the flag of \<open>Rsa_Key\<close> is the
  outcome of the key's own validation.
\<close>

record x509 =
  xe_pem :: "string \<Rightarrow> (string \<times> string \<times> string) option"
  xe_certificate :: "string \<Rightarrow> ca_certificate option"
  xe_key :: "string \<Rightarrow> private_key option"

type_synonym authority = "ca_certificate \<times> nat"

datatype ca_error = Ca_Failed string

abbreviation invalid_certificate :: "ca_error + authority" where
  "invalid_certificate \<equiv> Inl (Ca_Failed ''capture CA certificate is invalid'')"

abbreviation invalid_key :: "ca_error + authority" where
  "invalid_key \<equiv> Inl (Ca_Failed ''capture CA private key is invalid'')"

definition parse_ca_key :: "x509 \<Rightarrow> ca_certificate \<Rightarrow> string \<Rightarrow> ca_error + authority" where
  "parse_ca_key X certificate keyPEM = (case xe_pem X keyPEM of
       None \<Rightarrow> invalid_key
     | Some (kind, der, rest) \<Rightarrow>
         if rest \<noteq> [] then invalid_key
         else (case xe_key X der of
           None \<Rightarrow> invalid_key
         | Some (Rsa_Key n valid) \<Rightarrow>
             if valid \<and> cc_modulus certificate = Some n then Inr (certificate, n)
             else Inl (Ca_Failed ''capture CA certificate and private key do not match'')
         | Some Other_Key \<Rightarrow> Inl (Ca_Failed ''capture CA certificate and private key do not match'')))"

definition parse_ca :: "x509 \<Rightarrow> string \<Rightarrow> string \<Rightarrow> ca_error + authority" where
  "parse_ca X certPEM keyPEM = (case xe_pem X certPEM of
       None \<Rightarrow> invalid_certificate
     | Some (kind, der, rest) \<Rightarrow>
         if rest \<noteq> [] \<or> kind \<noteq> ''CERTIFICATE'' then invalid_certificate
         else (case xe_certificate X der of
           None \<Rightarrow> invalid_certificate
         | Some certificate \<Rightarrow>
             if \<not> cc_is_ca certificate then invalid_certificate
             else parse_ca_key X certificate keyPEM))"

subsection \<open>The steps\<close>

text \<open>A file is its content and its mode.\<close>

record ca_dir =
  ad_cert :: "(string \<times> nat) option"
  ad_key :: "(string \<times> nat) option"

text \<open>
  What the process does next.  The flag of the reading steps tells the first \<^verbatim>\<open>loadCA\<close>,
  after which a missing file leads to the creation of both, from the last one.
\<close>

datatype ca_pc = Ca_Begin | Ca_Read_Cert bool | Ca_Read_Key bool string | Ca_Chmod_Key string string
  | Ca_Stat_Cert | Ca_Stat_Key | Ca_Generate
  | Ca_Open_Key string string | Ca_Write_Key string string | Ca_Open_Cert string | Ca_Write_Cert string
  | Ca_Finished "ca_error + authority"

text \<open>
  What the operating system answers at a step: whether the call fails for another reason than
  that a file is missing or there already, and the pair that was generated.
\<close>

record ca_answer =
  an_ok :: bool
  an_pair :: "(string \<times> string) option"

definition ca_missing :: "bool \<Rightarrow> ca_pc" where
  "ca_missing first = (if first then Ca_Stat_Cert else Ca_Finished (Inl (Ca_Failed ''not found'')))"

fun ca_step :: "x509 \<Rightarrow> ca_answer \<Rightarrow> ca_pc \<Rightarrow> ca_dir \<Rightarrow> ca_pc \<times> ca_dir" where
  "ca_step X a Ca_Begin d =
     (if an_ok a then Ca_Read_Cert True else Ca_Finished (Inl (Ca_Failed ''create capture CA directory'')), d)"
| "ca_step X a (Ca_Read_Cert first) d = (case ad_cert d of
       None \<Rightarrow> ca_missing first
     | Some (certPEM, mode) \<Rightarrow>
         if an_ok a then Ca_Read_Key first certPEM else Ca_Finished (Inl (Ca_Failed ''read'')), d)"
| "ca_step X a (Ca_Read_Key first certPEM) d = (case ad_key d of
       None \<Rightarrow> ca_missing first
     | Some (keyPEM, mode) \<Rightarrow>
         if an_ok a then Ca_Chmod_Key certPEM keyPEM else Ca_Finished (Inl (Ca_Failed ''read'')), d)"
| "ca_step X a (Ca_Chmod_Key certPEM keyPEM) d = (Ca_Finished (parse_ca X certPEM keyPEM),
     (if an_ok a then d\<lparr>ad_key := map_option (\<lambda>f. (fst f, 384)) (ad_key d)\<rparr> else d))"
| "ca_step X a Ca_Stat_Cert d = (if ad_cert d \<noteq> None \<and> an_ok a
       then Ca_Finished (Inl (Ca_Failed ''capture CA private key is missing''))
     else Ca_Stat_Key, d)"
| "ca_step X a Ca_Stat_Key d = (if ad_key d \<noteq> None \<and> an_ok a
       then Ca_Finished (Inl (Ca_Failed ''capture CA certificate is missing''))
     else Ca_Generate, d)"
| "ca_step X a Ca_Generate d = (case an_pair a of
       None \<Rightarrow> Ca_Finished (Inl (Ca_Failed ''generate capture CA''))
     | Some (certPEM, keyPEM) \<Rightarrow> Ca_Open_Key certPEM keyPEM, d)"
| "ca_step X a (Ca_Open_Key certPEM keyPEM) d = (case ad_key d of
       Some f \<Rightarrow> (Ca_Open_Cert certPEM, d)
     | None \<Rightarrow>
         if an_ok a then (Ca_Write_Key certPEM keyPEM, d\<lparr>ad_key := Some ([], 384)\<rparr>)
         else (Ca_Finished (Inl (Ca_Failed ''write capture CA private key'')), d))"
| "ca_step X a (Ca_Write_Key certPEM keyPEM) d =
     (if an_ok a then (Ca_Open_Cert certPEM, d\<lparr>ad_key := map_option (\<lambda>f. (keyPEM, snd f)) (ad_key d)\<rparr>)
      else (Ca_Finished (Inl (Ca_Failed ''write capture CA private key'')), d\<lparr>ad_key := None\<rparr>))"
| "ca_step X a (Ca_Open_Cert certPEM) d = (case ad_cert d of
       Some f \<Rightarrow> (Ca_Read_Cert False, d)
     | None \<Rightarrow>
         if an_ok a then (Ca_Write_Cert certPEM, d\<lparr>ad_cert := Some ([], 420)\<rparr>)
         else (Ca_Finished (Inl (Ca_Failed ''write capture CA certificate'')), d))"
| "ca_step X a (Ca_Write_Cert certPEM) d =
     (if an_ok a then (Ca_Read_Cert False, d\<lparr>ad_cert := map_option (\<lambda>f. (certPEM, snd f)) (ad_cert d)\<rparr>)
      else (Ca_Finished (Inl (Ca_Failed ''write capture CA certificate'')), d\<lparr>ad_cert := None\<rparr>))"
| "ca_step X a (Ca_Finished r) d = (Ca_Finished r, d)"

subsection \<open>One process\<close>

fun ca_rank :: "ca_pc \<Rightarrow> nat" where
  "ca_rank Ca_Begin = 13"
| "ca_rank (Ca_Read_Cert first) = (if first then 12 else 3)"
| "ca_rank (Ca_Read_Key first certPEM) = (if first then 11 else 2)"
| "ca_rank (Ca_Chmod_Key certPEM keyPEM) = 1"
| "ca_rank Ca_Stat_Cert = 10"
| "ca_rank Ca_Stat_Key = 9"
| "ca_rank Ca_Generate = 8"
| "ca_rank (Ca_Open_Key certPEM keyPEM) = 7"
| "ca_rank (Ca_Write_Key certPEM keyPEM) = 6"
| "ca_rank (Ca_Open_Cert certPEM) = 5"
| "ca_rank (Ca_Write_Cert certPEM) = 4"
| "ca_rank (Ca_Finished r) = 0"

lemma ca_step_rank: "0 < ca_rank p \<Longrightarrow> ca_rank (fst (ca_step X a p d)) < ca_rank p"
  by (cases p) (auto simp: ca_missing_def split: option.splits)

lemma ca_rank_0 [simp]: "ca_rank p = 0 \<longleftrightarrow> (\<exists>r. p = Ca_Finished r)"
  by (cases p) auto

text \<open>The answers of the operating system are indexed by the rank of the step, which occurs once.\<close>

function ca_run :: "x509 \<Rightarrow> (nat \<Rightarrow> ca_answer) \<Rightarrow> ca_pc \<Rightarrow> ca_dir \<Rightarrow> ca_pc \<times> ca_dir" where
  "ca_run X answers p d =
     (if ca_rank p = 0 then (p, d)
      else let next = ca_step X (answers (ca_rank p)) p d in ca_run X answers (fst next) (snd next))"
  by pat_completeness auto
termination
proof (relation "measure (\<lambda>(X, answers, p, d). ca_rank p)", goal_cases)
  case 1
  then show ?case by simp
next
  case (2 X answers p d)
  then show ?case using ca_step_rank [of p] by (simp del: ca_rank_0 add: case_prod_beta)
qed

declare ca_run.simps [simp del]

lemma ca_run_steps:
  shows "ca_run X answers (Ca_Finished r) d = (Ca_Finished r, d)"
    and "0 < ca_rank p \<Longrightarrow> ca_run X answers p d = ca_run X answers
     (fst (ca_step X (answers (ca_rank p)) p d)) (snd (ca_step X (answers (ca_rank p)) p d))"
  unfolding ca_run.simps [of X answers "Ca_Finished r"] ca_run.simps [of X answers p] Let_def
  by (auto simp del: ca_rank_0)

lemmas ca_run_from = ca_run_steps(1) ca_run_steps(2) [of Ca_Begin] ca_run_steps(2) [of "Ca_Read_Cert first" for first]
  ca_run_steps(2) [of "Ca_Read_Key first certPEM" for first certPEM]
  ca_run_steps(2) [of "Ca_Chmod_Key certPEM keyPEM" for certPEM keyPEM]
  ca_run_steps(2) [of Ca_Stat_Cert] ca_run_steps(2) [of Ca_Stat_Key] ca_run_steps(2) [of Ca_Generate]
  ca_run_steps(2) [of "Ca_Open_Key certPEM keyPEM" for certPEM keyPEM]
  ca_run_steps(2) [of "Ca_Write_Key certPEM keyPEM" for certPEM keyPEM]
  ca_run_steps(2) [of "Ca_Open_Cert certPEM" for certPEM] ca_run_steps(2) [of "Ca_Write_Cert certPEM" for certPEM]

definition LoadOrCreateCA :: "x509 \<Rightarrow> (nat \<Rightarrow> ca_answer) \<Rightarrow> ca_dir \<Rightarrow> ca_pc \<times> ca_dir" where
  "LoadOrCreateCA X answers d = ca_run X answers Ca_Begin d"

subsection \<open>Several processes\<close>

record ca_system =
  cs_dir :: ca_dir
  cs_pcs :: "nat \<Rightarrow> ca_pc"

inductive ca_interleave :: "x509 \<Rightarrow> ca_system \<Rightarrow> ca_system \<Rightarrow> bool" for X where
  move: "ca_step X a (cs_pcs s i) (cs_dir s) = (p, d)
    \<Longrightarrow> ca_interleave X s \<lparr>cs_dir = d, cs_pcs = (cs_pcs s)(i := p)\<rparr>"

definition ca_start :: "ca_dir \<Rightarrow> ca_system" where
  "ca_start d = \<lparr>cs_dir = d, cs_pcs = (\<lambda>_. Ca_Begin)\<rparr>"

text \<open>
  A file that a process creates is empty until that process has written it; everything else that a
  process has read is still there, because no file is ever overwritten.
\<close>

fun writes_key :: "ca_pc \<Rightarrow> bool" where
  "writes_key (Ca_Write_Key c k) = True"
| "writes_key _ = False"

fun writes_cert :: "ca_pc \<Rightarrow> bool" where
  "writes_cert (Ca_Write_Cert c) = True"
| "writes_cert _ = False"

fun cert_read :: "ca_pc \<Rightarrow> string option" where
  "cert_read (Ca_Read_Key first c) = Some c"
| "cert_read (Ca_Chmod_Key c k) = Some c"
| "cert_read _ = None"

fun key_read :: "ca_pc \<Rightarrow> string option" where
  "key_read (Ca_Chmod_Key c k) = Some k"
| "key_read _ = None"

definition content :: "(string \<times> nat) option \<Rightarrow> string option" where
  "content f = map_option fst f"

lemma content_simps [simp]:
  "content None = None" "content (Some g) = Some (fst g)"
  "content (map_option (\<lambda>g. (fst g, m)) f) = content f"
  "content f = None \<longleftrightarrow> f = None"
  by (auto simp: content_def option.map_comp comp_def)

definition single_writer :: "('p \<Rightarrow> bool) \<Rightarrow> (nat \<Rightarrow> 'p) \<Rightarrow> (string \<times> nat) option \<Rightarrow> bool" where
  "single_writer writes pcs f \<longleftrightarrow>
     (\<forall>i. writes (pcs i) \<longrightarrow> content f = Some [] \<and> (\<forall>j. writes (pcs j) \<longrightarrow> j = i))"

definition ca_inv :: "x509 \<Rightarrow> ca_system \<Rightarrow> bool" where
  "ca_inv X s \<longleftrightarrow> single_writer writes_key (cs_pcs s) (ad_key (cs_dir s))
     \<and> single_writer writes_cert (cs_pcs s) (ad_cert (cs_dir s))
     \<and> (\<forall>i c. cert_read (cs_pcs s i) = Some c \<longrightarrow> c = [] \<or> content (ad_cert (cs_dir s)) = Some c)
     \<and> (\<forall>i k. key_read (cs_pcs s i) = Some k \<longrightarrow> k = [] \<or> content (ad_key (cs_dir s)) = Some k)
     \<and> (\<forall>i ca. cs_pcs s i = Ca_Finished (Inr ca) \<longrightarrow> (\<exists>c k. parse_ca X c k = Inr ca
          \<and> content (ad_cert (cs_dir s)) = Some c \<and> content (ad_key (cs_dir s)) = Some k))"

lemma ca_inv_start: "ca_inv X (ca_start d)"
  by (simp add: ca_inv_def ca_start_def single_writer_def)

lemma parse_ca_complete:
  assumes "parse_ca X c k = Inr ca" and "xe_pem X [] = None"
  shows "c \<noteq> []" "k \<noteq> []"
  using assms by (auto simp: parse_ca_def parse_ca_key_def split: option.splits prod.splits if_splits)

lemma ca_step_key:
  assumes "ca_step X a p d = (p', d')"
  shows "writes_key p' \<Longrightarrow> ad_key d = None \<and> content (ad_key d') = Some []"
    and "\<not> writes_key p \<Longrightarrow> ad_key d \<noteq> None \<Longrightarrow> content (ad_key d') = content (ad_key d)"
    and "key_read p' = Some k \<Longrightarrow> content (ad_key d) = Some k"
  using assms by (cases p; auto simp: ca_missing_def split: option.splits if_splits)+

lemma ca_step_cert:
  assumes "ca_step X a p d = (p', d')"
  shows "writes_cert p' \<Longrightarrow> ad_cert d = None \<and> content (ad_cert d') = Some []"
    and "\<not> writes_cert p \<Longrightarrow> ad_cert d \<noteq> None \<Longrightarrow> content (ad_cert d') = content (ad_cert d)"
    and "cert_read p' = Some c \<Longrightarrow> cert_read p = Some c \<or> content (ad_cert d) = Some c"
    and "p' = Ca_Finished (Inr ca) \<Longrightarrow> p = p'
      \<or> (\<exists>c k. cert_read p = Some c \<and> key_read p = Some k \<and> parse_ca X c k = Inr ca)"
  using assms by (cases p; auto simp: ca_missing_def split: option.splits if_splits)+

lemma single_writer_step:
  assumes "single_writer writes pcs f" and "writes p \<Longrightarrow> f = None \<and> content f' = Some []"
    and "\<not> writes (pcs i) \<Longrightarrow> f \<noteq> None \<Longrightarrow> content f' = content f"
  shows "single_writer writes (pcs(i := p)) f'"
proof (cases "writes (pcs i)")
  case True
  then have "\<not> writes p" and "\<And>j. writes (pcs j) \<Longrightarrow> j = i"
    using assms(1,2) by (auto simp: single_writer_def)
  then show ?thesis by (auto simp: single_writer_def)
next
  case False
  show ?thesis
  proof (cases "writes p")
    case True
    then have "f = None" "content f' = Some []" using assms(2) by auto
    then show ?thesis using assms(1) False by (auto simp: single_writer_def)
  next
    case nowrite: False
    have others: "writes ((pcs(i := p)) j) \<longleftrightarrow> writes (pcs j)" for j using False nowrite by simp
    show ?thesis
      unfolding single_writer_def others
    proof (intro allI impI)
      fix j
      assume "writes (pcs j)"
      then have "content f = Some []" and single: "\<forall>k. writes (pcs k) \<longrightarrow> k = j"
        using assms(1) by (auto simp: single_writer_def)
      then have "content f' = Some []" using assms(3) False by (cases f) auto
      then show "content f' = Some [] \<and> (\<forall>k. writes (pcs k) \<longrightarrow> k = j)" using single by blast
    qed
  qed
qed

text \<open>What somebody has read completely, nobody writes.\<close>

lemma content_stays:
  assumes "single_writer writes pcs f" and "content f = Some c" and "c \<noteq> []"
    and "\<not> writes (pcs i) \<Longrightarrow> f \<noteq> None \<Longrightarrow> content f' = content f"
  shows "content f' = Some c"
  using assms unfolding single_writer_def by (cases f) auto

lemma ca_inv_step:
  assumes "ca_interleave X s t" and "ca_inv X s" and "xe_pem X [] = None"
  shows "ca_inv X t"
  using assms(1)
proof cases
  case (move a i p d)
  let ?c = "ad_cert (cs_dir s)" and ?k = "ad_key (cs_dir s)"
  note writers = assms(2) [unfolded ca_inv_def]
  note key = ca_step_key [OF move(2)] and cert = ca_step_cert [OF move(2)]
  have cert_stays: "content (ad_cert d) = Some c" if "content ?c = Some c" "c \<noteq> []" for c
    using content_stays [OF _ that cert(2)] writers by blast
  have key_stays: "content (ad_key d) = Some k" if "content ?k = Some k" "k \<noteq> []" for k
    using content_stays [OF _ that key(2)] writers by blast
  have finished: "\<exists>c k. parse_ca X c k = Inr ca \<and> content ?c = Some c \<and> content ?k = Some k"
    if "cs_pcs t j = Ca_Finished (Inr ca)" for j ca
  proof (cases "cs_pcs s j = Ca_Finished (Inr ca)")
    case True
    then show ?thesis using writers by blast
  next
    case False
    then have "p = Ca_Finished (Inr ca)" and "cs_pcs s i \<noteq> p" using that move(1) by (auto split: if_splits)
    then obtain c k where "cert_read (cs_pcs s i) = Some c" "key_read (cs_pcs s i) = Some k" "parse_ca X c k = Inr ca"
      using cert(4) by blast
    then show ?thesis using writers parse_ca_complete [OF _ assms(3)] by metis
  qed
  show ?thesis
    unfolding ca_inv_def
  proof (intro conjI allI impI)
    show "single_writer writes_key (cs_pcs t) (ad_key (cs_dir t))"
      using single_writer_step [where pcs = "cs_pcs s" and i = i, OF _ key(1,2)] writers move(1) by simp
    show "single_writer writes_cert (cs_pcs t) (ad_cert (cs_dir t))"
      using single_writer_step [where pcs = "cs_pcs s" and i = i, OF _ cert(1,2)] writers move(1) by simp
  next
    fix j c
    assume "cert_read (cs_pcs t j) = Some c"
    then have "cert_read (cs_pcs s j) = Some c \<or> content ?c = Some c"
      using move(1) cert(3) by (auto split: if_splits)
    then have "c = [] \<or> content ?c = Some c" using writers by blast
    then show "c = [] \<or> content (ad_cert (cs_dir t)) = Some c" using cert_stays move(1) by auto
  next
    fix j k
    assume "key_read (cs_pcs t j) = Some k"
    then have "key_read (cs_pcs s j) = Some k \<or> content ?k = Some k"
      using move(1) key(3) by (auto split: if_splits)
    then have "k = [] \<or> content ?k = Some k" using writers by blast
    then show "k = [] \<or> content (ad_key (cs_dir t)) = Some k" using key_stays move(1) by auto
  next
    fix j ca
    assume "cs_pcs t j = Ca_Finished (Inr ca)"
    then show "\<exists>c k. parse_ca X c k = Inr ca \<and> content (ad_cert (cs_dir t)) = Some c
        \<and> content (ad_key (cs_dir t)) = Some k"
      using finished parse_ca_complete [OF _ assms(3)] cert_stays key_stays move(1)
      by (metis ca_system.select_convs(1))
  qed
qed

lemma ca_inv_reachable:
  assumes "(ca_interleave X)\<^sup>*\<^sup>* (ca_start d) s" and "xe_pem X [] = None"
  shows "ca_inv X s"
  using assms(1) by (induction rule: rtranclp_induct) (auto intro: ca_inv_start ca_inv_step [OF _ _ assms(2)])

text \<open>A file that is there is never written.\<close>

lemma existing_kept:
  assumes "(ca_interleave X)\<^sup>*\<^sup>* (ca_start d) s"
  shows "ad_key d \<noteq> None \<Longrightarrow> (\<forall>i. \<not> writes_key (cs_pcs s i)) \<and> content (ad_key (cs_dir s)) = content (ad_key d)"
    and "ad_cert d \<noteq> None \<Longrightarrow> (\<forall>i. \<not> writes_cert (cs_pcs s i)) \<and> content (ad_cert (cs_dir s)) = content (ad_cert d)"
  using assms
proof (induction rule: rtranclp_induct)
  case base
  show "ad_key d \<noteq> None \<Longrightarrow> (\<forall>i. \<not> writes_key (cs_pcs (ca_start d) i))
      \<and> content (ad_key (cs_dir (ca_start d))) = content (ad_key d)"
    and "ad_cert d \<noteq> None \<Longrightarrow> (\<forall>i. \<not> writes_cert (cs_pcs (ca_start d) i))
      \<and> content (ad_cert (cs_dir (ca_start d))) = content (ad_cert d)"
    by (simp_all add: ca_start_def)
next
  case (step s t)
  from step.hyps(2) obtain a i p d' where move: "ca_step X a (cs_pcs s i) (cs_dir s) = (p, d')"
    and t: "t = \<lparr>cs_dir = d', cs_pcs = (cs_pcs s)(i := p)\<rparr>" by cases
  note key = ca_step_key [OF move] and cert = ca_step_cert [OF move]
  show "(\<forall>i. \<not> writes_key (cs_pcs t i)) \<and> content (ad_key (cs_dir t)) = content (ad_key d)" if "ad_key d \<noteq> None"
    using step.IH(1) [OF that] key(1,2) that t by (metis content_simps(4) ca_system.select_convs fun_upd_apply)
  show "(\<forall>i. \<not> writes_cert (cs_pcs t i)) \<and> content (ad_cert (cs_dir t)) = content (ad_cert d)" if "ad_cert d \<noteq> None"
    using step.IH(2) [OF that] cert(1,2) that t by (metis content_simps(4) ca_system.select_convs fun_upd_apply)
qed

lemma load_existing:
  assumes "content (ad_cert d) = Some c" and "content (ad_key d) = Some k" and "\<And>n. an_ok (answers n)"
  shows "fst (LoadOrCreateCA X answers d) = Ca_Finished (parse_ca X c k)"
  using assms by (auto simp: LoadOrCreateCA_def content_def ca_run_from)

lemma load_mismatched:
  assumes "content (ad_cert d) = Some c" and "content (ad_key d) = Some k" and "parse_ca X c k = Inl e"
  shows "\<exists>e'. fst (LoadOrCreateCA X answers d) = Ca_Finished (Inl e')"
    and "content (ad_cert (snd (LoadOrCreateCA X answers d))) = Some c"
    and "content (ad_key (snd (LoadOrCreateCA X answers d))) = Some k"
  using assms by (auto simp: LoadOrCreateCA_def content_def ca_run_from)


subsection \<open>Two first starts at once\<close>

fun ca_move :: "x509 \<Rightarrow> ca_system \<Rightarrow> nat \<times> ca_answer \<Rightarrow> ca_system" where
  "ca_move X s (i, a) = (case ca_step X a (cs_pcs s i) (cs_dir s) of
     (p, d) \<Rightarrow> \<lparr>cs_dir = d, cs_pcs = (cs_pcs s)(i := p)\<rparr>)"

definition ca_schedule :: "x509 \<Rightarrow> ca_system \<Rightarrow> (nat \<times> ca_answer) list \<Rightarrow> ca_system" where
  "ca_schedule X s moves = foldl (ca_move X) s moves"

lemma ca_schedule_reachable: "(ca_interleave X)\<^sup>*\<^sup>* s (ca_schedule X s moves)"
  unfolding ca_schedule_def
proof (induction moves arbitrary: s)
  case (Cons move moves)
  obtain i a where [simp]: "move = (i, a)" by (cases move)
  have "ca_interleave X s (ca_move X s move)"
    by (cases "ca_step X a (cs_pcs s i) (cs_dir s)") (simp add: ca_interleave.move)
  then show ?case using Cons.IH by (simp del: ca_move.simps) (metis converse_rtranclp_into_rtranclp)
qed simp

definition no_ca :: ca_dir where
  "no_ca = \<lparr>ad_cert = None, ad_key = None\<rparr>"

abbreviation fine :: "(string \<times> string) option \<Rightarrow> ca_answer" where
  "fine pair \<equiv> \<lparr>an_ok = True, an_pair = pair\<rparr>"

text \<open>Process 0 writes its key, process 1 skips the key and writes its certificate.\<close>

definition ca_race :: "string \<times> string \<Rightarrow> string \<times> string \<Rightarrow> (nat \<times> ca_answer) list" where
  "ca_race pair pair' =
     map (\<lambda>i. (i, fine None)) [0, 0, 0, 0, 1, 1, 1, 1] @ [(0, fine (Some pair)), (1, fine (Some pair'))]
     @ map (\<lambda>i. (i, fine None)) [0, 0, 1, 1, 1, 0, 0, 0, 0, 1, 1, 1]"

definition sample_authority :: "nat \<Rightarrow> ca_certificate" where
  "sample_authority n = \<lparr>cc_is_ca = True, cc_modulus = Some n, cc_not_after = 1000\<rparr>"

definition sample_x509 :: x509 where
  "sample_x509 = \<lparr>xe_pem = (\<lambda>text. if text = [] then None
       else Some (if hd text = CHR ''C'' then ''CERTIFICATE'' else ''PRIVATE KEY'', tl text, [])),
     xe_certificate = (\<lambda>der. Some (sample_authority (length der))),
     xe_key = (\<lambda>der. Some (Rsa_Key (length der) True))\<rparr>"

text \<open>Process 0 creates the CA, process 1 then loads it.\<close>

definition sample_starts :: "(nat \<times> ca_answer) list" where
  "sample_starts = replicate 4 (0, fine None) @ [(0, fine (Some (''C1'', ''K1'')))]
     @ replicate 7 (0, fine None) @ replicate 4 (1, fine None)"


text \<open>Two first starts at the same moment can break the CA for good: one start alone creates it, but with
  two there is an interleaving after which the key of one lies beside the certificate of the other;
  both starts fail, and so does every later one, which leaves the two files as they are.\<close>

theorem concurrent_start_breaks_ca:
  assumes "parse_ca X c k = Inr ca" and "parse_ca X c' k' = Inr ca'" and "parse_ca X c' k = Inl e"
  shows "(\<forall>answers. (\<forall>n. an_ok (answers n)) \<longrightarrow> an_pair (answers 8) = Some (c, k) \<longrightarrow>
        fst (LoadOrCreateCA X answers no_ca) = Ca_Finished (Inr ca))
    \<and> (\<exists>s. (ca_interleave X)\<^sup>*\<^sup>* (ca_start no_ca) s
      \<and> cs_pcs s 0 = Ca_Finished (Inl e) \<and> cs_pcs s 1 = Ca_Finished (Inl e)
      \<and> (\<forall>answers. (\<exists>e'. fst (LoadOrCreateCA X answers (cs_dir s)) = Ca_Finished (Inl e'))
          \<and> content (ad_cert (snd (LoadOrCreateCA X answers (cs_dir s)))) = Some c'
          \<and> content (ad_key (snd (LoadOrCreateCA X answers (cs_dir s)))) = Some k))"
proof (intro conjI exI)
  let ?s = "ca_schedule X (ca_start no_ca) (ca_race (c, k) (c', k'))"
  show "\<forall>answers. (\<forall>n. an_ok (answers n)) \<longrightarrow> an_pair (answers 8) = Some (c, k) \<longrightarrow>
        fst (LoadOrCreateCA X answers no_ca) = Ca_Finished (Inr ca)"
    using assms(1) by (auto simp: LoadOrCreateCA_def no_ca_def ca_run_from ca_missing_def)
  show "(ca_interleave X)\<^sup>*\<^sup>* (ca_start no_ca) ?s" by (rule ca_schedule_reachable)
  have dir: "content (ad_cert (cs_dir ?s)) = Some c'" "content (ad_key (cs_dir ?s)) = Some k"
    by (simp_all add: ca_schedule_def ca_race_def ca_start_def no_ca_def ca_missing_def)
  show "cs_pcs ?s 0 = Ca_Finished (Inl e)" "cs_pcs ?s 1 = Ca_Finished (Inl e)"
    using assms(3) by (simp_all add: ca_schedule_def ca_race_def ca_start_def no_ca_def ca_missing_def)
  show "\<forall>answers. (\<exists>e'. fst (LoadOrCreateCA X answers (cs_dir ?s)) = Ca_Finished (Inl e'))
      \<and> content (ad_cert (snd (LoadOrCreateCA X answers (cs_dir ?s)))) = Some c'
      \<and> content (ad_key (snd (LoadOrCreateCA X answers (cs_dir ?s)))) = Some k"
    using load_mismatched [OF dir assms(3)] by blast
qed

theorem concurrent_start_breaks_ca_witness:
  "\<exists>s :: ca_system. (ca_interleave sample_x509)\<^sup>*\<^sup>* (ca_start no_ca) s
     \<and> (\<forall>answers. \<exists>e'. fst (LoadOrCreateCA sample_x509 answers (cs_dir s)) = Ca_Finished (Inl e'))"
  using concurrent_start_breaks_ca [of sample_x509 "''C1''" "''K1''" "(sample_authority 1, 1)"
    "''C22''" "''K22''" "(sample_authority 2, 2)" "Ca_Failed ''capture CA certificate and private key do not match''"]
  by (auto simp: sample_x509_def sample_authority_def parse_ca_def parse_ca_key_def)

end
