(* ===== verification/Go_Time.thy ===== *)
theory Go_Time
  imports Go_Strings
begin

text \<open>
  The calendar of Go's package \<^verbatim>\<open>time\<close> in UTC.  A time is the number of nanoseconds since the
  zero time, January 1 of year 1; a date is its year, its month from 1 to 12 and its day from 1.
\<close>

definition leap_year :: "int \<Rightarrow> bool" where
  "leap_year y \<longleftrightarrow> y mod 4 = 0 \<and> (y mod 100 \<noteq> 0 \<or> y mod 400 = 0)"

definition days_before_year :: "int \<Rightarrow> int" where
  "days_before_year y = 365 * (y - 1) + (y - 1) div 4 - (y - 1) div 100 + (y - 1) div 400"

definition days_before_month :: "int \<Rightarrow> int \<Rightarrow> int" where
  "days_before_month y m = [0, 31, 59, 90, 120, 151, 181, 212, 243, 273, 304, 334, 365] ! nat (m - 1)
     + (if 2 < m \<and> leap_year y then 1 else 0)"

definition month_length :: "int \<Rightarrow> int \<Rightarrow> int" where
  "month_length y m = days_before_month y (m + 1) - days_before_month y m"

text \<open>The day number of a date, 0 for January 1 of year 1; months and days out of range carry over.\<close>

definition day_number :: "int \<Rightarrow> int \<Rightarrow> int \<Rightarrow> int" where
  "day_number y m d =
     (let y' = y + (m - 1) div 12; m' = (m - 1) mod 12 + 1 in days_before_year y' + days_before_month y' m' + d - 1)"

definition year_of :: "int \<Rightarrow> int" where
  "year_of day =
     (let n400 = day div 146097; r = day mod 146097; n100 = min 3 (r div 36524); r = r - 36524 * n100;
          n4 = r div 1461; r = r mod 1461
      in 400 * n400 + 100 * n100 + 4 * n4 + min 3 (r div 365) + 1)"

definition month_of :: "int \<Rightarrow> int \<Rightarrow> int" where
  "month_of y yday = (case find (\<lambda>m. yday < days_before_month y (m + 1)) [1..11] of
     Some m \<Rightarrow> m | None \<Rightarrow> 12)"

definition civil :: "int \<Rightarrow> int \<times> int \<times> int" where
  "civil day = (let y = year_of day; yday = day - days_before_year y; m = month_of y yday in
     (y, m, yday - days_before_month y m + 1))"

definition day_nanoseconds :: int where
  "day_nanoseconds = 86400000000000"

definition add_date :: "int \<Rightarrow> int \<Rightarrow> int \<Rightarrow> int \<Rightarrow> int" where
  "add_date t years months days = (case civil (t div day_nanoseconds) of (y, m, d) \<Rightarrow>
     day_number (y + years) (m + months) (d + days) * day_nanoseconds + t mod day_nanoseconds)"

subsection \<open>The calendar is consistent\<close>

lemma quotient: "0 \<le> r \<Longrightarrow> r < k \<Longrightarrow> (k * q + r) div k = q" for k :: int
  by simp

lemma quotient_next:
  fixes k :: int
  assumes "0 < k"
  shows "y div k = (y - 1) div k + (if y mod k = 0 then 1 else 0)"
proof -
  define q where "q = (y - 1) div k"
  define r where "r = (y - 1) mod k"
  have y: "y = k * q + (r + 1)" and r: "0 \<le> r" "r < k" using assms by (auto simp: q_def r_def)
  show ?thesis
  proof (cases "r + 1 = k")
    case True
    then have "y = k * (q + 1)" using y by (simp add: algebra_simps)
    then have "y div k = q + 1" "y mod k = 0" using assms by simp_all
    then show ?thesis by (simp add: q_def)
  next
    case False
    then have "y div k = q" "y mod k = r + 1" unfolding y using r by simp_all
    then show ?thesis using r by (simp add: q_def [symmetric])
  qed
qed

lemma days_before_year_Suc: "days_before_year (y + 1) = days_before_year y + (if leap_year y then 366 else 365)"
proof -
  have mods: "y mod 400 = 0 \<Longrightarrow> y mod 100 = 0" "y mod 100 = 0 \<Longrightarrow> y mod 4 = 0"
    using mod_mod_cancel [of 100 400 y] mod_mod_cancel [of 4 100 y] by auto
  have "days_before_year (y + 1) = 365 * y + y div 4 - y div 100 + y div 400" by (simp add: days_before_year_def)
  also have "\<dots> = days_before_year y + 365 + (if y mod 4 = 0 then 1 else 0)
      - (if y mod 100 = 0 then 1 else 0) + (if y mod 400 = 0 then 1 else 0)"
    unfolding days_before_year_def
    by (subst quotient_next [of 4 y], simp, subst quotient_next [of 100 y], simp, subst quotient_next [of 400 y], simp, simp)
  finally show ?thesis
    unfolding leap_year_def using mods
    by (cases "y mod 4 = 0"; cases "y mod 100 = 0"; cases "y mod 400 = 0") simp_all
qed

lemma days_before_year_split:
  assumes "0 \<le> b" "b \<le> 3" "0 \<le> c" "c \<le> 24" "0 \<le> e" "e \<le> 3"
  shows "days_before_year (400 * a + 100 * b + 4 * c + e + 1) = 146097 * a + 36524 * b + 1461 * c + 365 * e"
proof -
  let ?y = "400 * a + 100 * b + 4 * c + e"
  have "?y div 4 = 100 * a + 25 * b + c"
    using quotient [of e 4 "100 * a + 25 * b + c"] assms by (simp add: algebra_simps)
  moreover have "?y div 100 = 4 * a + b"
    using quotient [of "4 * c + e" 100 "4 * a + b"] assms by (simp add: algebra_simps)
  moreover have "?y div 400 = a"
    using quotient [of "100 * b + 4 * c + e" 400 a] assms by (simp add: algebra_simps)
  ultimately show ?thesis by (simp add: days_before_year_def)
qed

lemma year_of_bounds: "days_before_year (year_of day) \<le> day \<and> day < days_before_year (year_of day + 1)"
proof -
  define a where "a = day div 146097"
  define r1 where "r1 = day mod 146097"
  define b where "b = min 3 (r1 div 36524)"
  define r2 where "r2 = r1 - 36524 * b"
  define c where "c = r2 div 1461"
  define r3 where "r3 = r2 mod 1461"
  define e where "e = min 3 (r3 div 365)"
  have day: "day = 146097 * a + r1" "0 \<le> r1" "r1 < 146097" by (simp_all add: a_def r1_def)
  define q1 where "q1 = r1 div 36524"
  define s1 where "s1 = r1 mod 36524"
  have r1: "r1 = 36524 * q1 + s1" "0 \<le> s1" "s1 < 36524" "b = min 3 q1"
    by (simp_all add: q1_def s1_def b_def)
  then have b: "0 \<le> b" "b \<le> 3" "0 \<le> r2" "r2 \<le> 36524" "b < 3 \<Longrightarrow> r2 < 36524"
    using day(2,3) unfolding r2_def min_def by (auto split: if_splits)
  have c: "r2 = 1461 * c + r3" "0 \<le> r3" "r3 < 1461" by (simp_all add: c_def r3_def)
  then have c': "0 \<le> c" "c \<le> 24" using b(3,4) by auto
  define q3 where "q3 = r3 div 365"
  define s3 where "s3 = r3 mod 365"
  have r3: "r3 = 365 * q3 + s3" "0 \<le> s3" "s3 < 365" "e = min 3 q3"
    by (simp_all add: q3_def s3_def e_def)
  have q3: "0 \<le> q3" "q3 \<le> 4" using r3(1-3) c(2,3) by linarith+
  have e: "0 \<le> e" "e \<le> 3" "365 * e \<le> r3" "r3 < 365 * e + 366" "e < 3 \<Longrightarrow> r3 < 365 * e + 365"
  proof -
    consider "q3 < 3" "e = q3" | "3 \<le> q3" "e = 3" using r3(4) by linarith
    then show "0 \<le> e" "e \<le> 3" "365 * e \<le> r3" "r3 < 365 * e + 366" "e < 3 \<Longrightarrow> r3 < 365 * e + 365"
      using r3(1-3) c(3) q3 by (cases; linarith)+
  qed
  have year: "year_of day = 400 * a + 100 * b + 4 * c + e + 1"
    unfolding e_def r3_def c_def r2_def b_def r1_def a_def year_of_def Let_def by (rule refl)
  have start: "days_before_year (year_of day) = 146097 * a + 36524 * b + 1461 * c + 365 * e"
    unfolding year by (rule days_before_year_split [OF b(1,2) c' e(1,2)])
  have leap: "leap_year (year_of day)" if late: "365 * e + 365 \<le> r3"
  proof -
    have "e = 3" using e late by linarith
    moreover have "c = 24 \<Longrightarrow> b = 3" using b c late \<open>e = 3\<close> by linarith
    ultimately have y: "year_of day = 4 * (100 * a + 25 * b + c + 1)" using year by simp
    show ?thesis
    proof (cases "c < 24")
      case True
      have "year_of day = 100 * (4 * a + b) + (4 * c + 4)" using year \<open>e = 3\<close> by simp
      then have "year_of day mod 100 = (4 * c + 4) mod 100" by (metis mod_mult_self4)
      moreover have "\<dots> = 4 * c + 4" using True c'(1) by (intro mod_pos_pos_trivial) auto
      moreover have "year_of day mod 4 = 0" using y by simp
      ultimately show ?thesis using c'(1) unfolding leap_year_def by simp
    next
      case False
      then have "year_of day = 400 * (a + 1)" using year \<open>e = 3\<close> \<open>c = 24 \<Longrightarrow> b = 3\<close> c'(2) by simp
      then have "year_of day mod 400 = 0" by simp
      moreover have "year_of day mod 4 = 0" using y by simp
      ultimately show ?thesis unfolding leap_year_def by simp
    qed
  qed
  have whole: "day = 146097 * a + 36524 * b + 1461 * c + r3" using day(1) c(1) by (simp add: r2_def)
  have "r3 < 365 * e + 365 \<or> leap_year (year_of day)" using leap by fastforce
  then show ?thesis
    using whole e(3,4) unfolding days_before_year_Suc start by auto
qed

lemma month_length: "1 \<le> m \<Longrightarrow> m \<le> 12 \<Longrightarrow> 28 \<le> month_length y m \<and> month_length y m \<le> 31"
proof -
  assume "1 \<le> m" "m \<le> 12"
  then have "m \<in> set [1..12]" by simp
  then show ?thesis by (auto simp: month_length_def days_before_month_def upto.simps eval_nat_numeral)
qed

lemma month_of_bounds:
  assumes "0 \<le> yday" and "yday < (if leap_year y then 366 else 365)"
  shows "1 \<le> month_of y yday \<and> month_of y yday \<le> 12 \<and> days_before_month y (month_of y yday) \<le> yday
    \<and> yday < days_before_month y (month_of y yday + 1)"
proof (cases "find (\<lambda>m. yday < days_before_month y (m + 1)) [1..11]")
  case None
  then have "\<And>m. m \<in> set [1..11] \<Longrightarrow> \<not> yday < days_before_month y (m + 1)"
    by (auto simp: find_None_iff)
  from this [of 11] have "\<not> yday < days_before_month y 12" by simp
  moreover have "days_before_month y 13 = (if leap_year y then 366 else 365)"
    by (simp add: days_before_month_def)
  ultimately show ?thesis using assms None by (simp add: month_of_def)
next
  case (Some m)
  then obtain i where i: "i < 11" "m = 1 + int i" "yday < days_before_month y (m + 1)"
    and before: "\<And>j. j < i \<Longrightarrow> days_before_month y (2 + int j) \<le> yday"
    by (fastforce simp: find_Some_iff nth_upto)
  have "days_before_month y m \<le> yday"
  proof (cases i)
    case 0
    then show ?thesis using assms(1) i(2) by (simp add: days_before_month_def)
  next
    case (Suc j)
    then show ?thesis using before [of j] i(2) by simp
  qed
  then show ?thesis using i Some by (simp add: month_of_def)
qed

text \<open>Each day is exactly one date.\<close>

lemma civil_day:
  assumes "civil day = (y, m, d)"
  shows "1 \<le> m" "m \<le> 12" "1 \<le> d" "d \<le> month_length y m" "day_number y m d = day"
proof -
  let ?y = "year_of day" let ?yday = "day - days_before_year ?y"
  have eq: "y = ?y" "m = month_of ?y ?yday" "d = ?yday - days_before_month ?y m + 1"
    using assms by (auto simp: civil_def Let_def)
  have "0 \<le> ?yday" "?yday < (if leap_year ?y then 366 else 365)"
    using year_of_bounds [of day] days_before_year_Suc [of ?y] by auto
  note bounds = month_of_bounds [OF this]
  then show m: "1 \<le> m" "m \<le> 12" using eq by auto
  show "1 \<le> d" "d \<le> month_length y m" using bounds eq by (auto simp: month_length_def)
  have "(m - 1) div 12 = 0" "(m - 1) mod 12 = m - 1" using m by auto
  then show "day_number y m d = day" using eq by (simp add: day_number_def)
qed

text \<open>One month later is 28 to 31 days later, at the same time of day.\<close>

lemma add_month:
  obtains n where "28 \<le> n" "n \<le> 31" "add_date t 0 1 0 = t + n * day_nanoseconds"
proof -
  obtain y m d where c: "civil (t div day_nanoseconds) = (y, m, d)" by (cases "civil (t div day_nanoseconds)")
  note date = civil_day [OF c]
  have "day_number y (m + 1) d = day_number y m d + month_length y m"
  proof (cases "m = 12")
    case True
    then show ?thesis
      by (simp add: day_number_def month_length_def days_before_year_Suc days_before_month_def)
  next
    case False
    then have "(m - 1) div 12 = 0" "(m - 1) mod 12 = m - 1" "m div 12 = 0" "m mod 12 = m" using date(1,2) by auto
    then show ?thesis by (simp add: day_number_def month_length_def)
  qed
  then have "add_date t 0 1 0 = t + month_length y m * day_nanoseconds"
    using date(5) by (simp add: add_date_def c algebra_simps)
  then show ?thesis using that month_length [OF date(1,2)] by blast
qed

text \<open>Leap days: a month after January 31, 2024, and the last day of the year 2000.\<close>

lemma calendar_samples:
  "civil (day_number 2024 2 31) = (2024, 3, 2)" "civil (day_number 2023 2 31) = (2023, 3, 3)"
  "civil (day_number 2000 12 31) = (2000, 12, 31)" "civil 0 = (1, 1, 1)"
  "day_number 1970 1 1 = 719162"
  by code_simp+

end
