(* ===== verification/Certificates.thy ===== *)
theory Certificates
  imports Certificate_Files Go_Time Go_Net
begin

text \<open>
  \<^verbatim>\<open>internal/dependencycapture/ca.go\<close>, the second half: the leaf certificates that
  \<^verbatim>\<open>CertificateFor\<close> makes for the hosts of intercepted connections, and their cache.
  A certificate is the template it is made from, with the CA that signs it and its key; the calls
  are serialised by the mutex of the cache.
\<close>

record leaf =
  lf_issuer :: authority
  lf_subject :: string
  lf_dns :: "string list"
  lf_ips :: "nat list list"
  lf_serial :: nat
  lf_key :: string
  lf_not_before :: int
  lf_not_after :: int

record certificate_authority =
  ca_pair :: authority
  ca_cache :: "(string, leaf) gomap"

definition new_authority :: "authority \<Rightarrow> certificate_authority" where
  "new_authority pair = \<lparr>ca_pair = pair, ca_cache = []\<rparr>"

text \<open>The clock, the random generator and the outcomes of the cryptographic library during a call.\<close>

record leaf_env =
  le_key :: "string option"
  le_serial :: "nat option"
  le_now :: int
  le_created :: bool
  le_encoded :: bool
  le_paired :: bool

definition leaf_host :: "ext \<Rightarrow> string \<Rightarrow> string" where
  "leaf_host E host = to_lower E (trim_suffix host ''.'')"

definition hour_nanoseconds :: int where
  "hour_nanoseconds = 3600000000000"

definition new_leaf :: "authority \<Rightarrow> string \<Rightarrow> string \<Rightarrow> nat \<Rightarrow> int \<Rightarrow> leaf" where
  "new_leaf ca host key serial now =
     (let notAfter = add_date now 0 1 0 in
      \<lparr>lf_issuer = ca, lf_subject = host,
       lf_dns = (case parse_ip host of Some ip \<Rightarrow> [] | None \<Rightarrow> [host]),
       lf_ips = (case parse_ip host of Some ip \<Rightarrow> [ip] | None \<Rightarrow> []),
       lf_serial = serial, lf_key = key, lf_not_before = now - hour_nanoseconds,
       lf_not_after = (if cc_not_after (fst ca) < notAfter then cc_not_after (fst ca) else notAfter)\<rparr>)"

definition CertificateFor ::
  "ext \<Rightarrow> leaf_env \<Rightarrow> string \<Rightarrow> certificate_authority \<Rightarrow> (string + leaf) \<times> certificate_authority" where
  "CertificateFor E V host ca =
     (let host' = leaf_host E host in
      case map_of (ca_cache ca) host' of
        Some certificate \<Rightarrow> (Inr certificate, ca)
      | None \<Rightarrow> (case le_key V of
          None \<Rightarrow> (Inl ''generate leaf key'', ca)
        | Some key \<Rightarrow> (case le_serial V of
            None \<Rightarrow> (Inl ''generate certificate serial'', ca)
          | Some serial \<Rightarrow>
              if \<not> le_created V then (Inl ''create leaf certificate'', ca)
              else if \<not> le_encoded V then (Inl ''encode leaf key'', ca)
              else if \<not> le_paired V then (Inl ''key pair'', ca)
              else let certificate = new_leaf (ca_pair ca) host' key serial (le_now V) in
                (Inr certificate, ca\<lparr>ca_cache := gomap_set host' certificate (ca_cache ca)\<rparr>))))"

fun certificates_for :: "ext \<Rightarrow> certificate_authority \<Rightarrow> (string \<times> leaf_env) list
    \<Rightarrow> (string + leaf) list \<times> certificate_authority" where
  "certificates_for E ca [] = ([], ca)"
| "certificates_for E ca ((host, V) # calls) = (case CertificateFor E V host ca of
     (result, ca') \<Rightarrow> (case certificates_for E ca' calls of (results, ca'') \<Rightarrow> (result # results, ca'')))"

lemma new_leaf_fields [simp]:
  "lf_issuer (new_leaf ca host key serial now) = ca"
  "lf_dns (new_leaf ca host key serial now) = (case parse_ip host of Some ip \<Rightarrow> [] | None \<Rightarrow> [host])"
  "lf_ips (new_leaf ca host key serial now) = (case parse_ip host of Some ip \<Rightarrow> [ip] | None \<Rightarrow> [])"
  "lf_not_before (new_leaf ca host key serial now) = now - hour_nanoseconds"
  "lf_not_after (new_leaf ca host key serial now) = min (cc_not_after (fst ca)) (add_date now 0 1 0)"
  by (simp_all add: new_leaf_def Let_def min_def)

lemma leaf_lifetime:
  "lf_not_after (new_leaf ca host key serial now) \<le> now + 31 * day_nanoseconds"
  "lf_not_after (new_leaf ca host key serial now) < cc_not_after (fst ca)
    \<Longrightarrow> now + 28 * day_nanoseconds \<le> lf_not_after (new_leaf ca host key serial now)"
proof -
  obtain n where "28 \<le> n" "n \<le> 31" "add_date now 0 1 0 = now + n * day_nanoseconds"
    by (rule add_month)
  then show "lf_not_after (new_leaf ca host key serial now) \<le> now + 31 * day_nanoseconds"
    and "lf_not_after (new_leaf ca host key serial now) < cc_not_after (fst ca)
      \<Longrightarrow> now + 28 * day_nanoseconds \<le> lf_not_after (new_leaf ca host key serial now)"
    by (auto simp: day_nanoseconds_def)
qed

subsection \<open>The cache\<close>

lemma CertificateFor_cached:
  assumes "map_of (ca_cache ca) (leaf_host E host) = Some leaf"
  shows "CertificateFor E V host ca = (Inr leaf, ca)"
  using assms by (simp add: CertificateFor_def)

lemma CertificateFor_cases:
  assumes "CertificateFor E V host ca = (result, ca')"
  obtains (failed) e where "result = Inl e" "ca' = ca"
  | (cached) leaf where "result = Inr leaf" "ca' = ca" "map_of (ca_cache ca) (leaf_host E host) = Some leaf"
  | (fresh) key serial where "result = Inr (new_leaf (ca_pair ca) (leaf_host E host) key serial (le_now V))"
      "map_of (ca_cache ca) (leaf_host E host) = None"
      "ca' = ca\<lparr>ca_cache := gomap_set (leaf_host E host)
         (new_leaf (ca_pair ca) (leaf_host E host) key serial (le_now V)) (ca_cache ca)\<rparr>"
proof (cases "map_of (ca_cache ca) (leaf_host E host)")
  case (Some leaf)
  then show ?thesis using assms cached by (auto simp: CertificateFor_def)
next
  case None
  show ?thesis
  proof (cases "\<exists>key serial. le_key V = Some key \<and> le_serial V = Some serial
      \<and> le_created V \<and> le_encoded V \<and> le_paired V")
    case True
    then show ?thesis using assms None fresh by (auto simp: CertificateFor_def Let_def)
  next
    case False
    then have "\<exists>e. result = Inl e \<and> ca' = ca"
      using assms None
      by (cases "le_key V"; cases "le_serial V") (auto simp: CertificateFor_def Let_def split: if_splits)
    then show ?thesis using failed by blast
  qed
qed

lemma certificates_for_append:
  "certificates_for E ca (calls @ calls') =
     (fst (certificates_for E ca calls) @ fst (certificates_for E (snd (certificates_for E ca calls)) calls'),
      snd (certificates_for E (snd (certificates_for E ca calls)) calls'))"
  by (induction E ca calls rule: certificates_for.induct) (auto split: prod.splits)

lemma certificates_for_length: "length (fst (certificates_for E ca calls)) = length calls"
  by (induction E ca calls rule: certificates_for.induct) (auto split: prod.splits)

lemma cache_stays:
  assumes "map_of (ca_cache ca) h = Some leaf"
  shows "map_of (ca_cache (snd (certificates_for E ca calls))) h = Some leaf"
  using assms
proof (induction E ca calls rule: certificates_for.induct)
  case (2 E ca host V calls)
  obtain result ca' where call: "CertificateFor E V host ca = (result, ca')" by fastforce
  have "map_of (ca_cache ca') h = Some leaf"
    using call 2(2) by (cases rule: CertificateFor_cases) auto
  then show ?case using 2(1) [OF call [symmetric]] call by (auto split: prod.splits)
qed simp

text \<open>What is in the cache was made for its host by one of the calls.\<close>

definition issued :: "ext \<Rightarrow> authority \<Rightarrow> (string \<times> leaf_env) list \<Rightarrow> string \<Rightarrow> leaf \<Rightarrow> bool" where
  "issued E pair calls h leaf \<longleftrightarrow> (\<exists>host V key serial. (host, V) \<in> set calls \<and> leaf_host E host = h
     \<and> leaf = new_leaf pair h key serial (le_now V))"

lemma cache_issued:
  "ca_pair (snd (certificates_for E (new_authority pair) calls)) = pair
   \<and> (map_of (ca_cache (snd (certificates_for E (new_authority pair) calls))) h = Some leaf
       \<longrightarrow> issued E pair calls h leaf)"
proof (induction calls arbitrary: h leaf rule: rev_induct)
  case Nil
  then show ?case by (simp add: new_authority_def)
next
  case (snoc call calls)
  obtain host V where [simp]: "call = (host, V)" by (cases call)
  let ?ca = "snd (certificates_for E (new_authority pair) calls)"
  obtain result ca' where call: "CertificateFor E V host ?ca = (result, ca')" by fastforce
  have after: "snd (certificates_for E (new_authority pair) (calls @ [call])) = ca'"
    using call by (simp add: certificates_for_append)
  have mono: "issued E pair calls h leaf \<Longrightarrow> issued E pair (calls @ [call]) h leaf" for h leaf
    unfolding issued_def by auto
  show ?case
    unfolding after using call
  proof (cases rule: CertificateFor_cases)
    case (fresh key serial)
    then show "ca_pair ca' = pair \<and> (map_of (ca_cache ca') h = Some leaf \<longrightarrow> issued E pair (calls @ [call]) h leaf)"
      using snoc.IH mono by (auto simp: issued_def)
  qed (use snoc.IH mono in auto)
qed

lemma certificates_for_nth:
  assumes "certificates_for E ca calls = (results, ca')" and "i < length calls" and "calls ! i = (host, V)"
  shows "results ! i = fst (CertificateFor E V host (snd (certificates_for E ca (take i calls))))"
    and "snd (CertificateFor E V host (snd (certificates_for E ca (take i calls))))
      = snd (certificates_for E ca (take (Suc i) calls))"
proof -
  have calls: "calls = take i calls @ (host, V) # drop (Suc i) calls"
    using assms(2,3) by (metis id_take_nth_drop)
  have "results = fst (certificates_for E ca (take i calls @ (host, V) # drop (Suc i) calls))"
    using assms(1) calls by simp
  then show "results ! i = fst (CertificateFor E V host (snd (certificates_for E ca (take i calls))))"
    using assms(2) by (simp add: certificates_for_append nth_append certificates_for_length split: prod.splits)
  have "take (Suc i) calls = take i calls @ [(host, V)]"
    using assms(2,3) by (simp add: take_Suc_conv_app_nth)
  then show "snd (CertificateFor E V host (snd (certificates_for E ca (take i calls))))
      = snd (certificates_for E ca (take (Suc i) calls))"
    by (simp add: certificates_for_append split: prod.splits)
qed

lemma served_leaf:
  assumes "certificates_for E (new_authority pair) calls = (results, ca')"
    and "i < length calls" and "calls ! i = (host, V)" and "results ! i = Inr leaf"
  shows "issued E pair (take (Suc i) calls) (leaf_host E host) leaf"
    and "\<And>k V' host'. i \<le> k \<Longrightarrow> k < length calls \<Longrightarrow> calls ! k = (host', V') \<Longrightarrow>
      leaf_host E host' = leaf_host E host \<Longrightarrow> results ! k = Inr leaf"
proof -
  let ?after = "\<lambda>n. snd (certificates_for E (new_authority pair) (take n calls))"
  note ith = certificates_for_nth [OF assms(1-3)]
  have "CertificateFor E V host (?after i) = (Inr leaf, ?after (Suc i))"
    using ith assms(4) by (metis prod.collapse)
  then have stored: "map_of (ca_cache (?after (Suc i))) (leaf_host E host) = Some leaf"
    by (cases rule: CertificateFor_cases) auto
  then show "issued E pair (take (Suc i) calls) (leaf_host E host) leaf"
    using cache_issued by blast
  fix k V' host'
  assume k: "i \<le> k" "k < length calls" "calls ! k = (host', V')" "leaf_host E host' = leaf_host E host"
  show "results ! k = Inr leaf"
  proof (cases "k = i")
    case True
    then show ?thesis using assms(4) by simp
  next
    case False
    then have "take k calls = take (Suc i) calls @ take (k - Suc i) (drop (Suc i) calls)"
      using k(1) take_add [of "Suc i" "k - Suc i" calls] by simp
    then have "map_of (ca_cache (?after k)) (leaf_host E host) = Some leaf"
      using stored cache_stays by (simp add: certificates_for_append)
    then show ?thesis
      using certificates_for_nth(1) [OF assms(1) k(2,3)] CertificateFor_cached [of "?after k" E host' leaf V'] k(4)
      by simp
  qed
qed

text \<open>C31: An inspected connection is shown the right certificate: in every sequence of calls on a CA that was
  just loaded, the certificate returned for a host is signed by that CA, names exactly this host in
  lower case without a final dot, as an address when it is one, was valid an hour before one of the
  calls for this host and at most 31 days after it, and does not outlive the CA.\<close>

theorem inspection_certificates:
  assumes "certificates_for E (new_authority pair) calls = (results, ca')"
    and "i < length calls" and "calls ! i = (host, V)" and "results ! i = Inr leaf"
  shows "lf_issuer leaf = pair
    \<and> (case parse_ip (leaf_host E host) of
         Some ip \<Rightarrow> lf_ips leaf = [ip] \<and> lf_dns leaf = []
       | None \<Rightarrow> lf_ips leaf = [] \<and> lf_dns leaf = [leaf_host E host])
    \<and> lf_not_after leaf \<le> cc_not_after (fst pair)
    \<and> (\<exists>host' V'. (host', V') \<in> set (take (Suc i) calls) \<and> leaf_host E host' = leaf_host E host
        \<and> lf_not_before leaf = le_now V' - hour_nanoseconds
        \<and> lf_not_after leaf \<le> le_now V' + 31 * day_nanoseconds
        \<and> (lf_not_after leaf < cc_not_after (fst pair) \<longrightarrow> le_now V' + 28 * day_nanoseconds \<le> lf_not_after leaf))"
proof -
  obtain host' V' key serial where call: "(host', V') \<in> set (take (Suc i) calls)"
    "leaf_host E host' = leaf_host E host" "leaf = new_leaf pair (leaf_host E host) key serial (le_now V')"
    using served_leaf(1) [OF assms] unfolding issued_def by blast
  show ?thesis
    using call leaf_lifetime [of pair "leaf_host E host" key serial "le_now V'"] by (auto split: option.split)
qed

text \<open>A certificate is never renewed: once a host has one, every later call for this host returns it, also
  when it has expired, which it has 31 days after the last call before at the latest.\<close>

theorem expired_certificate_served:
  assumes "certificates_for E (new_authority pair) calls = (results, ca')"
    and "i \<le> k" and "k < length calls" and "calls ! i = (host, V)" and "results ! i = Inr leaf"
    and "calls ! k = (host', V')" and "leaf_host E host' = leaf_host E host"
    and "\<And>c. c \<in> set (take (Suc i) calls) \<Longrightarrow> le_now (snd c) + 31 * day_nanoseconds < le_now V'"
  shows "results ! k = Inr leaf \<and> lf_not_after leaf < le_now V'"
proof -
  have i: "i < length calls" using assms(2,3) by simp
  obtain host'' V'' key serial where "(host'', V'') \<in> set (take (Suc i) calls)"
    "leaf = new_leaf pair (leaf_host E host) key serial (le_now V'')"
    using served_leaf(1) [OF assms(1) i assms(4,5)] unfolding issued_def by blast
  then have "lf_not_after leaf < le_now V'" using assms(8) leaf_lifetime(1) by (metis order.strict_trans1 snd_conv)
  moreover have "results ! k = Inr leaf"
    using served_leaf(2) [OF assms(1) i assms(4,5)] assms(2,3,6,7) by blast
  ultimately show ?thesis by simp
qed

subsection \<open>Concrete runs\<close>

definition sample_pair :: authority where
  "sample_pair = (\<lparr>cc_is_ca = True, cc_modulus = Some 1, cc_not_after = 1000 * day_nanoseconds\<rparr>, 1)"

definition leaf_at :: "int \<Rightarrow> leaf_env" where
  "leaf_at day = \<lparr>le_key = Some ''k'', le_serial = Some 7, le_now = day * day_nanoseconds,
     le_created = True, le_encoded = True, le_paired = True\<rparr>"

definition sample_calls :: "(string \<times> leaf_env) list" where
  "sample_calls = [(''Example.com.'', leaf_at 10), (''127.0.0.1'', leaf_at 10), (''example.COM'', leaf_at 50)]"

lemma sample_certificates:
  "map (map_sum id lf_not_after) (fst (certificates_for sample_ext (new_authority sample_pair) sample_calls))
    = [Inr (41 * day_nanoseconds), Inr (41 * day_nanoseconds), Inr (41 * day_nanoseconds)]"
  by code_simp

lemma sample_calls_nth [simp]:
  "length sample_calls = 3" "sample_calls ! 0 = (''Example.com.'', leaf_at 10)"
  "sample_calls ! 1 = (''127.0.0.1'', leaf_at 10)" "sample_calls ! 2 = (''example.COM'', leaf_at 50)"
  by (simp_all add: sample_calls_def)

lemma sample_served:
  assumes "i < 3"
  obtains leaf where "fst (certificates_for sample_ext (new_authority sample_pair) sample_calls) ! i = Inr leaf"
proof -
  let ?results = "fst (certificates_for sample_ext (new_authority sample_pair) sample_calls)"
  have "map_sum id lf_not_after (?results ! i) = [Inr (41 * day_nanoseconds), Inr (41 * day_nanoseconds),
      Inr (41 * day_nanoseconds)] ! i"
    using assms sample_certificates certificates_for_length [of sample_ext "new_authority sample_pair" sample_calls]
    by (metis nth_map sample_calls_nth(1))
  moreover have "i \<in> {0, 1, 2}" using assms by auto
  ultimately show ?thesis using that by (cases "?results ! i") auto
qed

lemma sample_hosts: "leaf_host sample_ext ''example.COM'' = leaf_host sample_ext ''Example.com.''"
  by code_simp

theorem inspection_certificates_witness:
  "\<exists>leaf. fst (certificates_for sample_ext (new_authority sample_pair) sample_calls) ! 1 = Inr leaf
     \<and> lf_ips leaf = [[0, 0, 0, 0, 0, 0, 0, 0, 0, 0, 255, 255, 127, 0, 0, 1]] \<and> lf_dns leaf = []"
proof -
  let ?run = "certificates_for sample_ext (new_authority sample_pair) sample_calls"
  obtain leaf where leaf: "fst ?run ! 1 = Inr leaf" by (rule sample_served [of 1]) simp
  have "parse_ip (leaf_host sample_ext ''127.0.0.1'') = Some [0, 0, 0, 0, 0, 0, 0, 0, 0, 0, 255, 255, 127, 0, 0, 1]"
    by code_simp
  then show ?thesis
    using inspection_certificates [of sample_ext sample_pair sample_calls "fst ?run" "snd ?run" 1,
        OF _ _ sample_calls_nth(3) leaf] leaf by auto
qed

theorem expired_certificate_served_witness:
  "\<exists>leaf. fst (certificates_for sample_ext (new_authority sample_pair) sample_calls) ! 2 = Inr leaf
     \<and> lf_not_after leaf < 50 * day_nanoseconds"
proof -
  let ?run = "certificates_for sample_ext (new_authority sample_pair) sample_calls"
  obtain leaf where leaf: "fst ?run ! 0 = Inr leaf" by (rule sample_served [of 0]) simp
  have early: "le_now (snd c) + 31 * day_nanoseconds < le_now (leaf_at 50)" if "c \<in> set (take (Suc 0) sample_calls)" for c
    using that by (auto simp: sample_calls_def leaf_at_def day_nanoseconds_def)
  show ?thesis
    using expired_certificate_served [of sample_ext sample_pair sample_calls "fst ?run" "snd ?run" 0 2,
        OF _ _ _ sample_calls_nth(2) leaf sample_calls_nth(4) sample_hosts early]
    by (auto simp: leaf_at_def)
qed

end
