(* ===== verification/Dependency_Runtime.thy ===== *)
theory Dependency_Runtime
  imports Cli_Run Proxy_Connections Uploader_Loop Certificate_Files
begin

text \<open>
  \<^verbatim>\<open>internal/cli/dependency_runtime.go\<close>: how a run wires the inspection CA, the behaviour
  store, the proxy, the uploader and the capture sessions together, what it tells the user, and how
  it ends.
\<close>

record runtime_options =
  rt_name :: string
  rt_proxy_bind :: string
  rt_proxy_port :: int
  rt_passthrough :: "string list"
  rt_gateway_host :: string
  rt_initial_delay :: int
  rt_max_delay :: int
  rt_allow_insecure :: bool
  rt_verbose :: bool

text \<open>The options that \<^verbatim>\<open>run\<close> passes on.\<close>

definition runtime_options_of :: "run_options \<Rightarrow> runtime_options" where
  "runtime_options_of o' = \<lparr>rt_name = ro_name o', rt_proxy_bind = ro_proxy_bind o', rt_proxy_port = ro_proxy_port o',
     rt_passthrough = ro_passthrough o', rt_gateway_host = ro_gateway_host o',
     rt_initial_delay = ro_initial_delay o', rt_max_delay = ro_max_delay o',
     rt_allow_insecure = ro_allow_insecure o', rt_verbose = ro_verbose o'\<rparr>"

subsection \<open>Capture sessions\<close>

definition capture_checks :: "runtime_options \<Rightarrow> int \<Rightarrow> session_validation" where
  "capture_checks o' now = \<lparr>sv_gateway_hosts = split_on CHR '','' (rt_gateway_host o'),
     sv_allow_insecure_local = rt_allow_insecure o', sv_now = now\<rparr>"

definition create_capture_session ::
  "ext \<Rightarrow> 's store_ops \<Rightarrow> api_client \<Rightarrow> 's client_env \<Rightarrow> string
    \<Rightarrow> (string \<Rightarrow> nat \<Rightarrow> string \<Rightarrow> capture_session_response session_answer option)
    \<Rightarrow> runtime_options \<Rightarrow> int \<Rightarrow> 's \<Rightarrow> (tunnel_error + capture_session) \<times> 's" where
  "create_capture_session E ops cl U apiURL answers o' now s =
     (case CreateDependencyCaptureSession E ops cl U apiURL answers (rt_name o') (capture_checks o' now) s of
        (Inl e, s') \<Rightarrow> (Inl (mapCaptureSessionError (rt_name o') e), s')
      | (Inr r, s') \<Rightarrow> (Inr \<lparr>cs_endpoint_id = cv_endpoint_id r, cs_endpoint_name = cv_endpoint_name r,
          cs_session_id = cv_session_id r, cs_connect_url = cv_connect_url r, cs_ticket = cv_ticket r\<rparr>, s'))"

definition runtime_uploader :: "(client_error \<Rightarrow> bool) \<Rightarrow> runtime_options \<Rightarrow> tunnel_error uploader_config" where
  "runtime_uploader net o' = \<lparr>uc_initial_session = None, uc_acquire_set = True,
     uc_retryable = Some (\<lambda>e. IsRetryable (tunnel_api_error net e)),
     uc_initial_delay = rt_initial_delay o', uc_max_delay = rt_max_delay o', uc_on_state = True\<rparr>"

subsection \<open>Snapshots\<close>

text \<open>
  \<^verbatim>\<open>OnConfig\<close>: the store is replaced, and each behaviour is compared with each passthrough
  host; a warning names the behaviour and its host.  The last component is the number of behaviours
  reported as loaded.
\<close>

definition passes_through :: "ext \<Rightarrow> string \<Rightarrow> string \<Rightarrow> bool" where
  "passes_through E host passthrough \<longleftrightarrow> equal_fold E (trim_suffix host ''.'') (trim_suffix passthrough ''.'')"

definition OnConfig :: "ext \<Rightarrow> runtime_options \<Rightarrow> behavior_store \<Rightarrow> dependency_snapshot
    \<Rightarrow> protocol_error option \<times> behavior_store \<times> (string \<times> string) list \<times> nat option" where
  "OnConfig E o' store snapshot = (case Replace E store snapshot of
       (Some e, store') \<Rightarrow> (Some e, store', [], None)
     | (None, store') \<Rightarrow> (None, store',
         concat (map (\<lambda>b. map (\<lambda>_. (db_id b, db_host b)) (filter (passes_through E (db_host b)) (rt_passthrough o')))
           (elems (ds_behaviors snapshot))),
         Some (length (elems (ds_behaviors snapshot)))))"

subsection \<open>Starting\<close>

datatype runtime_error = Runtime_Authority ca_error | Runtime_Proxy proxy_error | Runtime_Address string

record dependency_runtime =
  dr_proxy :: proxy
  dr_proxy_address :: string
  dr_cancelled :: bool
  dr_closed :: bool
  dr_proxy_error :: "string option"

definition runtime_proxy_config :: "runtime_options \<Rightarrow> proxy_config" where
  "runtime_proxy_config o' = \<lparr>pc_bind_address = rt_proxy_bind o', pc_port = rt_proxy_port o', pc_has_ca = True,
     pc_passthrough = rt_passthrough o', pc_behaviors = Some NewBehaviorStore\<rparr>"

text \<open>\<open>listen\<close> gives the address of the listener on a network and an address, when it can be bound.\<close>

definition startDependencyRuntime ::
  "ext \<Rightarrow> ca_error + authority \<Rightarrow> (string \<Rightarrow> string \<Rightarrow> string option) \<Rightarrow> runtime_options
    \<Rightarrow> runtime_error + dependency_runtime" where
  "startDependencyRuntime E ca listen o' = (case ca of
       Inl e \<Rightarrow> Inl (Runtime_Authority e)
     | Inr authority \<Rightarrow> (case NewProxy E (runtime_proxy_config o') of
         Inl e \<Rightarrow> Inl (Runtime_Proxy e)
       | Inr proxy \<Rightarrow> (case listen (fst (Listen_address proxy)) (snd (Listen_address proxy)) of
           None \<Rightarrow> Inl (Runtime_Address (join_host_port (rt_proxy_bind o') (itoa (rt_proxy_port o'))))
         | Some address \<Rightarrow> Inr \<lparr>dr_proxy = proxy, dr_proxy_address = address, dr_cancelled = False,
             dr_closed = False, dr_proxy_error = None\<rparr>)))"

subsection \<open>What the user reads\<close>

definition proxyURL :: "string \<Rightarrow> string \<Rightarrow> string" where
  "proxyURL host port = ''http://'' @ join_host_port host port"

definition proxyBindIsLoopback :: "string \<Rightarrow> bool" where
  "proxyBindIsLoopback bind = (case parse_ip bind of None \<Rightarrow> False | Some ip \<Rightarrow> is_loopback ip)"

text \<open>The addresses under which the proxy is announced, with their labels, and whether the warning about
  a binding outside localhost is given.\<close>

definition announced :: "string \<Rightarrow> (string \<times> string) list \<times> bool" where
  "announced address = (case split_host_port address of
       None \<Rightarrow> ([(''Listening'', join_host_port [] [])] @ [(''Client proxy'', proxyURL [] [])], True)
     | Some (bind, port) \<Rightarrow>
         if proxyBindIsLoopback bind then ([(''Proxy'', proxyURL bind port)], False)
         else ((''Listening'', join_host_port bind port) # (case parse_ip bind of
             None \<Rightarrow> [(''Client proxy'', proxyURL bind port)]
           | Some ip \<Rightarrow>
               if is_unspecified ip then
                 (''Host apps'', proxyURL (if ip_to4 ip = None then ''::1'' else ''127.0.0.1'') port)
                 # (if ip_to4 ip \<noteq> None then [(''Docker Desktop'', ''http://host.docker.internal:'' @ port)] else [])
               else [(''Client proxy'', proxyURL bind port)]), True))"

subsection \<open>Ending\<close>

text \<open>What is said when the uploader returns, and \<^verbatim>\<open>Close\<close>, which runs once.\<close>

definition upload_ended :: "bool \<Rightarrow> string option \<Rightarrow> string option" where
  "upload_ended cancelled err = (if cancelled then None else Some (case err of
     None \<Rightarrow> ''Warning: dependency capture upload stopped. Proxy forwarding continues.''
   | Some e \<Rightarrow> ''Warning: dependency capture upload stopped: '' @ e @ ''. Proxy forwarding continues.''))"

definition proxy_ended :: "string option \<Rightarrow> dependency_runtime \<Rightarrow> dependency_runtime" where
  "proxy_ended err r = r\<lparr>dr_proxy_error := err\<rparr>"

definition runtime_Close :: "dependency_runtime \<Rightarrow> dependency_runtime" where
  "runtime_Close r = (if dr_closed r then r else r\<lparr>dr_closed := True, dr_cancelled := True\<rparr>)"

subsection \<open>Facts\<close>

lemma startDependencyRuntime_Inr:
  assumes "startDependencyRuntime E ca listen o' = Inr r"
  shows "NewProxy E (runtime_proxy_config o') = Inr (dr_proxy r)"
    and "listen (fst (Listen_address (dr_proxy r))) (snd (Listen_address (dr_proxy r))) = Some (dr_proxy_address r)"
  using assms by (auto simp: startDependencyRuntime_def split: sum.splits option.splits)

lemma proxy_label_byte: "proxy_label_rune (byte c) \<Longrightarrow> is_ascii c \<and> c \<noteq> CHR ''['' \<and> c \<noteq> CHR '']''"
  by (auto simp: proxy_label_rune_def is_ascii_def)

text \<open>The passthrough hosts that the command line accepts are ASCII and have no brackets.\<close>

lemma passthrough_chars:
  assumes "parse_ip p \<noteq> None \<or> validProxyHost p" and "c \<in> set p"
  shows "is_ascii c \<and> c \<noteq> CHR ''['' \<and> c \<noteq> CHR '']''"
proof (cases "parse_ip p = None")
  case False
  then have "ip_char c" using assms(2) by (rule parse_ip_chars)
  moreover have "\<not> ip_char CHR ''[''" "\<not> ip_char CHR '']''" by (simp_all add: ip_char_def is_hex_def is_digit_def)
  ultimately show ?thesis using ip_char_ascii by blast
next
  case True
  then have "list_all (\<lambda>label. list_all proxy_label_rune (runes label)) (split_on CHR ''.'' p)"
    using assms(1) by (auto simp: validProxyHost_def list_all_iff)
  then have "list_all (\<lambda>label. list_all (\<lambda>c. proxy_label_rune (byte c)) label) (split_on CHR ''.'' p)"
    by (subst (asm) runes_all_ascii) (simp_all add: proxy_label_rune_def)
  moreover have "c = CHR ''.'' \<or> (\<exists>label \<in> set (split_on CHR ''.'' p). c \<in> set label)"
    using set_split_on [of p "CHR ''.''"] assms(2) by auto
  ultimately show ?thesis using proxy_label_byte by (auto simp: list_all_iff is_ascii_def)
qed

lemma trim_suffix_ascii: "list_all is_ascii s \<Longrightarrow> list_all is_ascii (trim_suffix s x)"
  by (auto simp: trim_suffix_def list_all_iff dest: in_set_takeD)

lemma passes_through_iff:
  assumes b: "valid_behavior E b" and p: "parse_ip p \<noteq> None \<or> validProxyHost p"
  shows "passes_through E (db_host b) p \<longleftrightarrow> normalizeHostname E p = normalizeHostname E (db_host b)"
proof -
  have h: "validDependencyHost (db_host b)" using b by (simp add: valid_behavior_def)
  have ascii: "list_all is_ascii (db_host b)" "list_all is_ascii p"
    using valid_host_ascii [OF h] passthrough_chars [OF p] by (auto simp: list_all_iff)
  have "trim_set p ''[]'' = p" "trim_set (db_host b) ''[]'' = db_host b"
    using passthrough_chars [OF p] valid_host_chars [OF h] host_char_not by (auto intro!: trim_set_id)
  then show ?thesis
    using ascii by (auto simp: passes_through_def normalizeHostname_def equal_fold_ascii to_lower_ascii trim_suffix_ascii)
qed

lemma OnConfig_accepted:
  assumes "OnConfig E o' store sn = (None, store', warned, loaded)"
  shows "Replace E store sn = (None, store')"
    and "(i, h) \<in> set warned \<longleftrightarrow> (\<exists>b \<in> set (elems (ds_behaviors sn)). i = db_id b \<and> h = db_host b
      \<and> list_ex (passes_through E h) (rt_passthrough o'))"
proof -
  show "Replace E store sn = (None, store')"
    using assms by (auto simp: OnConfig_def split: prod.splits option.splits)
  have "warned = concat (map (\<lambda>b. map (\<lambda>_. (db_id b, db_host b))
      (filter (passes_through E (db_host b)) (rt_passthrough o'))) (elems (ds_behaviors sn)))"
    using assms by (auto simp: OnConfig_def split: prod.splits option.splits)
  then show "(i, h) \<in> set warned \<longleftrightarrow> (\<exists>b \<in> set (elems (ds_behaviors sn)). i = db_id b \<and> h = db_host b
      \<and> list_ex (passes_through E h) (rt_passthrough o'))"
    by (simp add: list_ex_iff) blast
qed

lemma warned_iff:
  assumes "startDependencyRuntime E ca listen o' = Inr r"
    and "normalizePassthroughHosts E hosts = Inr (rt_passthrough o')"
    and "OnConfig E o' store sn = (None, store', warned, loaded)" and "b \<in> set (elems (ds_behaviors sn))"
  shows "(db_id b, db_host b) \<in> set warned \<longleftrightarrow>
     normalizeHostname E (db_host b) \<in> set (px_passthrough (dr_proxy r))"
proof -
  have "validateDependencyConfig E sn = None"
    using behavior_store.accepts_iff [where E = E and s = store and sn = sn] OnConfig_accepted(1) [OF assms(3)] by simp
  then have valid: "valid_behavior E b" using assms(4) by (auto simp: validateDependencyConfig_iff list_all_iff)
  have "px_passthrough (dr_proxy r) = map (normalizeHostname E) (rt_passthrough o')"
    using NewProxy_passthrough [OF startDependencyRuntime_Inr(1) [OF assms(1)]] by (simp add: runtime_proxy_config_def)
  moreover have "parse_ip p \<noteq> None \<or> validProxyHost p" if "p \<in> set (rt_passthrough o')" for p
    using assms(2) that by (auto simp: normalizePassthroughHosts_Inr)
  moreover have "(db_id b, db_host b) \<in> set warned \<longleftrightarrow> list_ex (passes_through E (db_host b)) (rt_passthrough o')"
    using OnConfig_accepted(2) [OF assms(3)] assms(4) by blast
  ultimately show ?thesis
    using passes_through_iff [OF valid] by (simp add: list_ex_iff image_iff) metis
qed

text \<open>The warning that a replay is inactive tells the truth for HTTPS: after a snapshot was accepted, a
  behaviour is named in a warning exactly when the proxy that was started passes CONNECT tunnels to
  its host through without opening them.\<close>

theorem inactive_replay_warned:
  assumes "startDependencyRuntime E ca listen o' = Inr r"
    and "normalizePassthroughHosts E hosts = Inr (rt_passthrough o')"
    and "OnConfig E o' store sn = (None, store', warned, loaded)" and "b \<in> set (elems (ds_behaviors sn))"
    and "targetHostPort E authority ''https'' = Inr (db_host b, port)" and "all_calls_succeed ce"
  shows "(db_id b, db_host b) \<in> set warned \<longleftrightarrow> \<not> intercepts (handleConnect E (dr_proxy r) authority ce)"
  unfolding warned_iff [OF assms(1-4)] using assms(5,6)
  by (auto simp: handleConnect_def intercepts_def tunnelPassthrough_def interceptTLS_def all_calls_succeed_def Let_def)

text \<open>The same warning is wrong for plain HTTP: a behaviour for an http URL whose host is configured for
  HTTPS passthrough is reported as inactive, although a matching request is still answered from it.\<close>

theorem active_replay_reported_inactive:
  assumes "startDependencyRuntime (ev_ext V) ca listen o' = Inr r"
    and "normalizePassthroughHosts (ev_ext V) hosts = Inr (rt_passthrough o')"
    and "OnConfig (ev_ext V) o' store sn = (None, store', warned, loaded)"
    and "b \<in> set (elems (ds_behaviors sn))" and "db_scheme b = ''http''"
    and "normalizeHostname (ev_ext V) (db_host b) \<in> set (px_passthrough (dr_proxy r))"
    and "pc_behaviors (px_config p) = Some store'"
    and "hr_url q = Some u" and "ur_scheme u = ''http''"
    and "ur_host u = join_host_port (db_host b) (itoa (db_port b))"
    and "ur_path u = db_path b" and "hr_method q = db_method b" and "hr_body q = None"
  shows "(db_id b, db_host b) \<in> set warned
    \<and> (\<exists>h e. forward V p q [] [] = \<lparr>oc_reply = write_reply (db_method b) (db_status b) h (db_body b),
        oc_outgoing = None, oc_event = Some e\<rparr> \<and> di_handled_by e = ''REPLAY'')"
  using warned_iff [OF assms(1-4)] assms(6)
    forward_replays [OF OnConfig_accepted(1) [OF assms(3)] assms(4,7,8)] assms(5,9-13) by fastforce

text \<open>Capture sessions are trusted like tunnel sessions: one that is created belongs to the endpoint of
  the run, has a ticket, and connects to a host of \<^verbatim>\<open>--expected-gateway-host\<close>, over wss or, where
  that is allowed, over ws to a loopback name.\<close>

theorem capture_session_trusted:
  assumes "create_capture_session E ops cl U apiURL answers o' now s = (Inr session, s')"
  shows "cs_endpoint_name session = rt_name o' \<and> cs_ticket session \<noteq> []
    \<and> (\<exists>u. ParseRequestURI (cs_connect_url session) = Some u \<and> gu_user u = None
      \<and> gu_path u = ''/v1/dependency-capture/connect''
      \<and> (\<exists>allowed \<in> set (split_on CHR '','' (rt_gateway_host o')).
          equal_fold E (trim_space allowed) (to_lower E (Hostname u)))
      \<and> (gu_scheme u = ''wss'' \<or> rt_allow_insecure o' \<and> gu_scheme u = ''ws'' \<and> local_host (to_lower E (Hostname u))))"
proof -
  obtain v where v: "validateDependencyCaptureSession E (rt_name o') v (capture_checks o' now) = None"
    and session: "cs_endpoint_name session = cv_endpoint_name v" "cs_ticket session = cv_ticket v"
      "cs_connect_url session = cv_connect_url v"
    using assms by (auto simp: create_capture_session_def split: prod.splits sum.splits
        dest: CreateDependencyCaptureSession_Inr)
  then have "gateway_check E (capture_checks o' now) ''/v1/dependency-capture/connect'' (cv_connect_url v) = Gateway_OK"
    and "cv_endpoint_name v = rt_name o'" "cv_ticket v \<noteq> []"
    by (auto simp: validateDependencyCaptureSession_def gateway_text_None split: if_splits)
  moreover from this(1) obtain u where "ParseRequestURI (cv_connect_url v) = Some u" "gu_user u = None"
    "gu_path u = ''/v1/dependency-capture/connect''"
    "\<exists>allowed \<in> set (split_on CHR '','' (rt_gateway_host o')). equal_fold E (trim_space allowed) (to_lower E (Hostname u))"
    "gu_scheme u = ''wss'' \<or> rt_allow_insecure o' \<and> gu_scheme u = ''ws'' \<and> local_host (to_lower E (Hostname u))"
    by (rule gateway_OK) (auto simp: capture_checks_def)
  ultimately show ?thesis using session by auto
qed

text \<open>The user is warned exactly about proxies that others can reach, and a runtime is closed once.\<close>

lemma announced_warning:
  "split_host_port address = Some (bind, port) \<Longrightarrow> snd (announced address) \<longleftrightarrow> \<not> proxyBindIsLoopback bind"
  by (simp add: announced_def)

lemma announced_loopback:
  "split_host_port address = Some (bind, port) \<Longrightarrow> proxyBindIsLoopback bind \<Longrightarrow>
   fst (announced address) = [(''Proxy'', ''http://'' @ join_host_port bind port)]"
  by (simp add: announced_def proxyURL_def)

lemma runtime_Close_once: "runtime_Close (proxy_ended err (runtime_Close r)) = proxy_ended err (runtime_Close r)"
  by (simp add: runtime_Close_def proxy_ended_def)

subsection \<open>Concrete runs\<close>

definition sample_runtime_options :: runtime_options where
  "sample_runtime_options = \<lparr>rt_name = ''demo'', rt_proxy_bind = ''127.0.0.1'', rt_proxy_port = 8877,
     rt_passthrough = [''api.example.com''], rt_gateway_host = ''gateway.mockingo.click'',
     rt_initial_delay = 1, rt_max_delay = 2, rt_allow_insecure = False, rt_verbose = False\<rparr>"

definition http_behavior :: dependency_behavior where
  "http_behavior = sample_behavior\<lparr>db_id := ''b2'', db_scheme := ''http'', db_port := 80\<rparr>"

definition mixed_snapshot :: dependency_snapshot where
  "mixed_snapshot = \<lparr>ds_endpoint_id = ''e1'', ds_behaviors = Some [sample_behavior, http_behavior]\<rparr>"

definition sample_runtime :: dependency_runtime where
  "sample_runtime = projr (startDependencyRuntime sample_ext (Inr (sample_authority 1, 1)) (\<lambda>network address. Some address)
     sample_runtime_options)"

definition sample_warned :: "(string \<times> string) list" where
  "sample_warned = [(''b1'', ''api.example.com''), (''b2'', ''api.example.com'')]"

definition mixed_store :: behavior_store where
  "mixed_store = fst (snd (OnConfig sample_ext sample_runtime_options NewBehaviorStore mixed_snapshot))"

lemma sample_runtime_runs:
  "startDependencyRuntime sample_ext (Inr (sample_authority 1, 1)) (\<lambda>network address. Some address) sample_runtime_options
    = Inr sample_runtime"
  "normalizePassthroughHosts sample_ext [''API.example.com.''] = Inr (rt_passthrough sample_runtime_options)"
  "OnConfig sample_ext sample_runtime_options NewBehaviorStore mixed_snapshot = (None, mixed_store, sample_warned, Some 2)"
  "normalizeHostname sample_ext ''api.example.com'' \<in> set (px_passthrough (dr_proxy sample_runtime))"
  "targetHostPort sample_ext ''api.example.com:443'' ''https'' = Inr (db_host sample_behavior, 443)"
  by code_simp+

lemma mixed_behaviors:
  "sample_behavior \<in> set (elems (ds_behaviors mixed_snapshot))" "http_behavior \<in> set (elems (ds_behaviors mixed_snapshot))"
  by (simp_all add: mixed_snapshot_def)

theorem inactive_replay_warned_witness:
  "\<not> intercepts (handleConnect sample_ext (dr_proxy sample_runtime) ''api.example.com:443'' sample_connect)"
proof -
  have "all_calls_succeed sample_connect" by (simp add: all_calls_succeed_def sample_connect_def)
  moreover have "(db_id sample_behavior, db_host sample_behavior) \<in> set sample_warned"
    by (simp add: sample_behavior_def sample_warned_def)
  ultimately show ?thesis
    using inactive_replay_warned [OF sample_runtime_runs(1-3) mixed_behaviors(1) sample_runtime_runs(5)] by blast
qed

definition http_request_sample :: http_request where
  "http_request_sample = sample_request\<lparr>hr_url := Some \<lparr>ur_scheme = ''http'', ur_host = ''api.example.com:80'',
     ur_path = ''/v1/pets'', ur_raw_query = []\<rparr>\<rparr>"

theorem active_replay_reported_inactive_witness:
  "(''b2'', ''api.example.com'') \<in> set sample_warned
    \<and> (\<exists>h e. forward sample_env (dr_proxy sample_runtime\<lparr>px_config :=
          (px_config (dr_proxy sample_runtime))\<lparr>pc_behaviors := Some mixed_store\<rparr>\<rparr>) http_request_sample [] []
        = \<lparr>oc_reply = write_reply ''GET'' 200 h ''[]'', oc_outgoing = None, oc_event = Some e\<rparr>
        \<and> di_handled_by e = ''REPLAY'')"
proof -
  have ext: "ev_ext sample_env = sample_ext" by (simp add: sample_env_def)
  have fields: "db_id http_behavior = ''b2''" "db_scheme http_behavior = ''http''" "db_host http_behavior = ''api.example.com''"
    "db_method http_behavior = ''GET''" "db_status http_behavior = 200" "db_body http_behavior = ''[]''"
    "ur_host (the (hr_url http_request_sample)) = join_host_port (db_host http_behavior) (itoa (db_port http_behavior))"
    "ur_path (the (hr_url http_request_sample)) = db_path http_behavior"
    by code_simp+
  have request: "hr_url http_request_sample = Some (the (hr_url http_request_sample))"
    "ur_scheme (the (hr_url http_request_sample)) = ''http''" "hr_method http_request_sample = ''GET''"
    "hr_body http_request_sample = None"
    by (simp_all add: http_request_sample_def sample_request_def)
  show ?thesis
    using active_replay_reported_inactive [of sample_env, unfolded ext, OF sample_runtime_runs(1-3) mixed_behaviors(2) fields(2),
        of "dr_proxy sample_runtime\<lparr>px_config := (px_config (dr_proxy sample_runtime))\<lparr>pc_behaviors := Some mixed_store\<rparr>\<rparr>"
          http_request_sample "the (hr_url http_request_sample)"]
      sample_runtime_runs(4) fields request by simp
qed

end
