(* ===== verification/Go_Json_Strings.thy ===== *)
theory Go_Json_Strings
  imports Go_Strings Go_Net
begin

text \<open>
  String literals of package \<^verbatim>\<open>encoding/json\<close>: how \<^verbatim>\<open>Marshal\<close> writes a string
  (escapes for quotes, control characters, HTML and the two line separators, and the replacement
  character for invalid UTF-8), how the scanner finds the end of a literal, and how its text is
  unquoted.
\<close>

definition quote_mark :: char where "quote_mark = CHR 0x22"
definition backslash :: char where "backslash = CHR 0x5C"

subsection \<open>Writing\<close>

definition unicode_escape :: "nat \<Rightarrow> string" where
  "unicode_escape r = backslash # CHR ''u'' # map (\<lambda>k. hex_digit (r div k mod 16)) [4096, 256, 16, 1]"

definition quote_byte :: "char \<Rightarrow> string" where
  "quote_byte c =
     (if c = backslash \<or> c = quote_mark then [backslash, c]
      else if c = CHR 0x08 then [backslash, CHR ''b'']
      else if c = CHR 0x0C then [backslash, CHR ''f'']
      else if c = CHR 0x0A then [backslash, CHR ''n'']
      else if c = CHR 0x0D then [backslash, CHR ''r'']
      else if c = CHR 0x09 then [backslash, CHR ''t'']
      else if byte c < 32 \<or> c \<in> set ''<>&'' then unicode_escape (byte c)
      else [c])"

text \<open>The text between the quotes.\<close>

function quote_json :: "string \<Rightarrow> string" where
  "quote_json [] = []"
| "quote_json (a # s) =
     (if is_ascii a then quote_byte a @ quote_json s
      else let r = fst (decode_rune (a # s)); n = snd (decode_rune (a # s)) in
        (if r = rune_error \<and> n = 1 then unicode_escape r
         else if r = 8232 \<or> r = 8233 then unicode_escape r
         else take n (a # s)) @ quote_json (drop n (a # s)))"
  by pat_completeness auto
termination
  by (relation "measure length") (auto simp: decode_rune_width max_def)

declare quote_json.simps(2) [simp del]

subsection \<open>Scanning\<close>

text \<open>The text up to the closing quote, escapes left as they are, and what follows the quote.\<close>

fun scan_string :: "string \<Rightarrow> (string \<times> string) option" where
  "scan_string [] = None"
| "scan_string (c # s) =
     (if c = quote_mark then Some ([], s)
      else if byte c < 32 then None
      else if c = backslash then (case s of
          [] \<Rightarrow> None
        | e # t \<Rightarrow>
            if e \<in> set ([quote_mark, backslash] @ ''/bfnrt'') \<or> e = CHR ''u'' \<and> 4 \<le> length t \<and> list_all is_hex (take 4 t)
              then map_option (\<lambda>(raw, rest). (c # e # raw, rest)) (scan_string t)
            else None)
      else map_option (\<lambda>(raw, rest). (c # raw, rest)) (scan_string s))"

lemma scan_string_shorter: "scan_string s = Some (raw, rest) \<Longrightarrow> length rest < length s"
proof (induction s arbitrary: raw rest rule: scan_string.induct)
  case (2 c s)
  show ?case
  proof (cases "c = quote_mark \<or> byte c < 32 \<or> c \<noteq> backslash")
    case True
    then show ?thesis using 2(2) 2(3) by (auto split: if_splits)
  next
    case False
    show ?thesis
    proof (cases s)
      case (Cons e t)
      obtain raw' where "scan_string t = Some (raw', rest)"
        and "e \<in> set ([quote_mark, backslash] @ ''/bfnrt'') \<or> e = CHR ''u'' \<and> 4 \<le> length t \<and> list_all is_hex (take 4 t)"
        using 2(3) False Cons by (auto simp del: set_append split: if_splits)
      then have "length rest < length t" using 2(1) [OF _ _ _ Cons] False by blast
      then show ?thesis using Cons by simp
    qed (use 2(3) False in \<open>auto split: if_splits\<close>)
  qed
qed simp

subsection \<open>Reading\<close>

text \<open>\<^verbatim>\<open>getu4\<close>: the four hexadecimal digits of an escape at the head of the string.\<close>

definition getu4 :: "string \<Rightarrow> nat option" where
  "getu4 s = (if 6 \<le> length s \<and> s ! 0 = backslash \<and> s ! 1 = CHR ''u'' \<and> list_all is_hex (take 4 (drop 2 s))
     then Some (hex_number (take 4 (drop 2 s))) else None)"

definition is_surrogate :: "nat \<Rightarrow> bool" where
  "is_surrogate r \<longleftrightarrow> 55296 \<le> r \<and> r < 57344"

text \<open>\<^verbatim>\<open>utf16.DecodeRune\<close>.\<close>

definition utf16_pair :: "nat \<Rightarrow> nat \<Rightarrow> nat option" where
  "utf16_pair r1 r2 = (if 55296 \<le> r1 \<and> r1 < 56320 \<and> 56320 \<le> r2 \<and> r2 < 57344
     then Some ((r1 - 55296) * 1024 + (r2 - 56320) + 65536) else None)"

definition escaped_char :: "char \<Rightarrow> string" where
  "escaped_char e = (if e = CHR ''b'' then [CHR 0x08] else if e = CHR ''f'' then [CHR 0x0C]
     else if e = CHR ''n'' then [CHR 0x0A] else if e = CHR ''r'' then [CHR 0x0D]
     else if e = CHR ''t'' then [CHR 0x09] else [e])"

function unquote_json :: "string \<Rightarrow> string" where
  "unquote_json [] = []"
| "unquote_json (c # s) =
     (if c = backslash then (case getu4 (c # s) of
          Some r \<Rightarrow>
            if is_surrogate r then
              (case Option.bind (getu4 (drop 6 (c # s))) (utf16_pair r) of
                 Some p \<Rightarrow> encode_rune p @ unquote_json (drop 12 (c # s))
               | None \<Rightarrow> encode_rune rune_error @ unquote_json (drop 6 (c # s)))
            else encode_rune r @ unquote_json (drop 6 (c # s))
        | None \<Rightarrow> (case s of [] \<Rightarrow> [] | e # t \<Rightarrow> escaped_char e @ unquote_json t))
      else if is_ascii c then c # unquote_json s
      else encode_rune (fst (decode_rune (c # s))) @ unquote_json (drop (snd (decode_rune (c # s))) (c # s)))"
  by pat_completeness auto
termination
  by (relation "measure length") (auto simp: decode_rune_width max_def)

declare unquote_json.simps(2) [simp del]

subsection \<open>Runes\<close>

lemma split64: "(64 * q + y) div 64 = q" "(64 * q + y) mod 64 = y" if "y < 64" for q y :: nat
  using that by simp_all

lemma encode_rune_2:
  assumes "2 \<le> x" "x < 32" "y < 64"
  shows "encode_rune (x * 64 + y) = [char_of (192 + x), char_of (128 + y)]"
  using assms split64 [of y x] by (simp add: encode_rune_def Let_def mult.commute)

lemma encode_rune_plain:
  assumes "r < 55296 \<or> 57344 \<le> r" and "r \<le> 1114111"
  shows "encode_rune r =
     (if r < 128 then [char_of r]
      else if r < 2048 then [char_of (192 + r div 64), char_of (128 + r mod 64)]
      else if r < 65536 then [char_of (224 + r div 4096), char_of (128 + r div 64 mod 64), char_of (128 + r mod 64)]
      else [char_of (240 + r div 262144), char_of (128 + r div 4096 mod 64),
            char_of (128 + r div 64 mod 64), char_of (128 + r mod 64)])"
proof -
  have "\<not> ((55296 \<le> r \<and> r \<le> 57343) \<or> 1114111 < r)" using assms by linarith
  then show ?thesis unfolding encode_rune_def Let_def by (simp only: if_False)
qed

lemma encode_rune_3:
  assumes "x < 16" "y < 64" "z < 64" "2048 \<le> x * 4096 + y * 64 + z"
    and "x * 4096 + y * 64 + z < 55296 \<or> 57344 \<le> x * 4096 + y * 64 + z"
  shows "encode_rune (x * 4096 + y * 64 + z) = [char_of (224 + x), char_of (128 + y), char_of (128 + z)]"
proof -
  let ?r = "x * 4096 + y * 64 + z"
  have r: "?r = 64 * (64 * x + y) + z" by simp
  have "?r div 64 = 64 * x + y" "?r mod 64 = z" unfolding r using assms(3) by (simp_all only: split64)
  moreover have "?r div 4096 = ?r div 64 div 64" by (simp add: div_mult2_eq [symmetric])
  ultimately have "?r div 4096 = x" "?r div 64 mod 64 = y" "?r mod 64 = z"
    using split64 [OF assms(2), of x] by simp_all
  moreover have "?r < 65536" "\<not> ?r < 2048" "\<not> ?r < 128" "?r \<le> 1114111"
    using assms by linarith+
  ultimately show ?thesis unfolding encode_rune_plain [OF assms(5) \<open>?r \<le> 1114111\<close>] by (simp only: if_True if_False)
qed

lemma encode_rune_4:
  assumes "x < 8" "y < 64" "z < 64" "w < 64" "65536 \<le> x * 262144 + y * 4096 + z * 64 + w"
    and "x * 262144 + y * 4096 + z * 64 + w \<le> 1114111"
  shows "encode_rune (x * 262144 + y * 4096 + z * 64 + w)
    = [char_of (240 + x), char_of (128 + y), char_of (128 + z), char_of (128 + w)]"
proof -
  let ?r = "x * 262144 + y * 4096 + z * 64 + w"
  have r: "?r = 64 * (64 * (64 * x + y) + z) + w" by simp
  have low: "?r div 64 = 64 * (64 * x + y) + z" "?r mod 64 = w" unfolding r using assms(4) by (simp_all only: split64)
  have "?r div 4096 = ?r div 64 div 64" "?r div 262144 = ?r div 64 div 64 div 64"
    by (simp_all only: div_mult2_eq [symmetric] numeral_times_numeral semiring_norm)
  then have "?r div 4096 = 64 * x + y" "?r div 262144 = x" "?r div 64 mod 64 = z"
    unfolding low split64 [OF assms(3)] by (simp_all only: split64 [OF assms(2)])
  moreover have "(64 * x + y) mod 64 = y" by (rule split64 [OF assms(2)])
  ultimately have "?r div 262144 = x" "?r div 4096 mod 64 = y" "?r div 64 mod 64 = z" "?r mod 64 = w"
    using low(2) by (simp_all only:)
  moreover have "\<not> ?r < 65536" "\<not> ?r < 2048" "\<not> ?r < 128" "?r < 55296 \<or> 57344 \<le> ?r"
    using assms by linarith+
  ultimately show ?thesis
    unfolding encode_rune_plain [OF \<open>?r < 55296 \<or> 57344 \<le> ?r\<close> assms(6)] by (simp only: if_True if_False)
qed

lemma byte_parts: "n \<le> byte c \<Longrightarrow> char_of (n + (byte c - n)) = c"
  by simp

text \<open>Encoding a decoded rune gives its bytes back.\<close>

lemma encode_decode_rune:
  assumes "seq_len s \<noteq> 0"
  shows "encode_rune (fst (decode_rune s)) = take (seq_len s) s" "snd (decode_rune s) = seq_len s"
proof -
  show "snd (decode_rune s) = seq_len s"
    using assms seq_len_cases [of s] by (auto simp: decode_rune_def Let_def)
  consider "seq_len s = 1" | "seq_len s = 2" | "seq_len s = 3" | "seq_len s = 4"
    using assms seq_len_cases [of s] by auto
  then show "encode_rune (fst (decode_rune s)) = take (seq_len s) s"
  proof cases
    case 1
    then obtain a t where s: "s = a # t" and a: "byte a < 128"
      by (auto simp: seq_len_def split: list.splits if_splits)
    then show ?thesis using 1 by (simp add: decode_rune_def encode_rune_ascii)
  next
    case 2
    then obtain a b t where s: "s = a # b # t" and a: "194 \<le> byte a" "byte a < 224" and b: "128 \<le> byte b" "byte b < 192"
      by (auto simp: seq_len_def accept_lo_def accept_hi_def split: list.splits if_splits)
    show ?thesis
      using encode_rune_2 [of "byte a - 192" "byte b - 128"] 2 a b by (simp add: s decode_rune_def Let_def)
  next
    case 3
    then obtain a b c t where s: "s = a # b # c # t" and a: "224 \<le> byte a" "byte a < 240"
      and b: "accept_lo (byte a) \<le> byte b" "byte b \<le> accept_hi (byte a)" and c: "is_cont c"
      by (auto simp: seq_len_def split: list.splits if_splits)
    have b': "128 \<le> byte b" "byte b < 192" using b by (auto simp: accept_lo_def accept_hi_def split: if_splits)
    have c': "128 \<le> byte c" "byte c < 192" using c by (auto simp: is_cont_def)
    have range: "2048 \<le> (byte a - 224) * 4096 + (byte b - 128) * 64 + (byte c - 128)"
      "(byte a - 224) * 4096 + (byte b - 128) * 64 + (byte c - 128) < 55296
        \<or> 57344 \<le> (byte a - 224) * 4096 + (byte b - 128) * 64 + (byte c - 128)"
      using a b b' c' by (auto simp: accept_lo_def accept_hi_def split: if_splits)
    show ?thesis
      using encode_rune_3 [OF _ _ _ range] 3 a b' c' by (simp add: s decode_rune_def Let_def)
  next
    case 4
    then obtain a b c d t where s: "s = a # b # c # d # t" and a: "240 \<le> byte a" "byte a \<le> 244"
      and b: "accept_lo (byte a) \<le> byte b" "byte b \<le> accept_hi (byte a)" and c: "is_cont c" "is_cont d"
      by (auto simp: seq_len_def split: list.splits if_splits)
    have b': "128 \<le> byte b" "byte b < 192" using b by (auto simp: accept_lo_def accept_hi_def split: if_splits)
    have c': "128 \<le> byte c" "byte c < 192" "128 \<le> byte d" "byte d < 192" using c by (auto simp: is_cont_def)
    have range: "65536 \<le> (byte a - 240) * 262144 + (byte b - 128) * 4096 + (byte c - 128) * 64 + (byte d - 128)"
      "(byte a - 240) * 262144 + (byte b - 128) * 4096 + (byte c - 128) * 64 + (byte d - 128) \<le> 1114111"
      using a b b' c' by (auto simp: accept_lo_def accept_hi_def split: if_splits)
    show ?thesis
      using encode_rune_4 [OF _ _ _ _ range] 4 a b' c' by (simp add: s decode_rune_def Let_def)
  qed
qed

subsection \<open>Round trip\<close>

definition to_valid :: "string \<Rightarrow> string" where
  "to_valid s = concat (map encode_rune (runes s))"

lemma to_valid_Nil [simp]: "to_valid [] = []"
  by (simp add: to_valid_def)

lemma to_valid_Cons:
  "to_valid (a # s) = encode_rune (fst (decode_rune (a # s))) @ to_valid (drop (snd (decode_rune (a # s))) (a # s))"
  by (simp add: to_valid_def runes.simps)

lemma to_valid_id: "utf8_valid s \<Longrightarrow> to_valid s = s"
proof (induction s rule: utf8_valid.induct)
  case (2 a s)
  then have n: "seq_len (a # s) \<noteq> 0" by (auto simp: utf8_valid.simps split: if_splits)
  moreover have "utf8_valid (drop (seq_len (a # s)) (a # s))"
    using 2(2) n by (auto simp: utf8_valid.simps split: if_splits)
  ultimately show ?case
    using 2(1) [OF n] encode_decode_rune [OF n] by (simp only: to_valid_Cons append_take_drop_id)
qed simp

lemma hex_digit_value: "k < 16 \<Longrightarrow> is_hex (hex_digit k) \<and> hex_value (hex_digit k) = k"
proof -
  assume "k < 16"
  then have "k \<in> set [0..<16]" by simp
  then show ?thesis by (simp add: upt_rec hex_digit_def) (elim disjE; simp add: is_hex_def is_digit_def hex_value_def)
qed

lemma four_digits:
  fixes r :: nat
  assumes "r < 65536"
  shows "((r div 4096 mod 16 * 16 + r div 256 mod 16) * 16 + r div 16 mod 16) * 16 + r mod 16 = r"
proof -
  have "r div 256 = r div 16 div 16" "r div 4096 = r div 16 div 16 div 16"
    by (simp_all add: div_mult2_eq [symmetric])
  moreover have "r div 16 div 16 div 16 < 16"
    using assms by (simp add: div_mult2_eq [symmetric]) 
  ultimately show ?thesis
    using div_mult_mod_eq [of r 16] div_mult_mod_eq [of "r div 16" 16] div_mult_mod_eq [of "r div 16 div 16" 16] by simp
qed

lemma unicode_escape_eq:
  "unicode_escape r = [backslash, CHR ''u'', hex_digit (r div 4096 mod 16), hex_digit (r div 256 mod 16),
     hex_digit (r div 16 mod 16), hex_digit (r mod 16)]"
  by (simp add: unicode_escape_def)

lemma getu4_digits:
  assumes "a < 16" "b < 16" "c < 16" "d < 16"
  shows "getu4 (backslash # CHR ''u'' # hex_digit a # hex_digit b # hex_digit c # hex_digit d # t)
    = Some (((a * 16 + b) * 16 + c) * 16 + d)"
  using assms [THEN hex_digit_value] by (simp add: getu4_def hex_number_def)

lemma getu4_escape:
  assumes "r < 65536"
  shows "getu4 (unicode_escape r @ t) = Some r"
  using getu4_digits [of "r div 4096 mod 16" "r div 256 mod 16" "r div 16 mod 16" "r mod 16" t]
  unfolding four_digits [OF assms] unicode_escape_eq append.simps by simp

lemma unquote_escape:
  assumes "r < 65536" and "\<not> is_surrogate r"
  shows "unquote_json (unicode_escape r @ t) = encode_rune r @ unquote_json t"
proof -
  let ?ds = "[hex_digit (r div 4096 mod 16), hex_digit (r div 256 mod 16), hex_digit (r div 16 mod 16), hex_digit (r mod 16)]"
  have eq: "unicode_escape r @ t = backslash # (CHR ''u'' # ?ds @ t)" by (simp add: unicode_escape_eq)
  have "getu4 (backslash # (CHR ''u'' # ?ds @ t)) = Some r" using getu4_escape [OF assms(1), of t] eq by simp
  then show ?thesis using assms(2) unfolding eq by (subst unquote_json.simps) simp
qed

lemma unquote_short:
  assumes "e \<noteq> CHR ''u''"
  shows "unquote_json (backslash # e # t) = escaped_char e @ unquote_json t"
proof -
  have "getu4 (backslash # e # t) = None" using assms by (simp add: getu4_def)
  then show ?thesis by (subst unquote_json.simps) simp
qed

lemma unquote_plain:
  assumes "is_ascii c" and "c \<noteq> backslash"
  shows "unquote_json (c # t) = c # unquote_json t"
  using assms by (subst unquote_json.simps) simp

lemma quote_byte_cases:
  obtains (short) e where "quote_byte c = [backslash, e]" "e \<in> set ([quote_mark, backslash] @ ''/bfnrt'')"
      "escaped_char e = [c]"
    | (escape) "quote_byte c = unicode_escape (byte c)"
    | (plain) "quote_byte c = [c]" "c \<noteq> quote_mark" "32 \<le> byte c" "c \<noteq> backslash"
proof (cases "c \<in> {backslash, quote_mark, CHR 0x08, CHR 0x0C, CHR 0x0A, CHR 0x0D, CHR 0x09}")
  case True
  then show ?thesis
    using short [of c] short [of "CHR ''b''"] short [of "CHR ''f''"] short [of "CHR ''n''"] short [of "CHR ''r''"]
      short [of "CHR ''t''"]
    by (auto simp: quote_byte_def escaped_char_def backslash_def quote_mark_def)
next
  case False
  then have "quote_byte c = (if byte c < 32 \<or> c \<in> set ''<>&'' then unicode_escape (byte c) else [c])"
    by (simp add: quote_byte_def)
  then show ?thesis using escape plain False by (cases "byte c < 32 \<or> c \<in> set ''<>&''") auto
qed

lemma unquote_quote_byte:
  assumes "is_ascii c"
  shows "unquote_json (quote_byte c @ t) = c # unquote_json t"
proof (cases rule: quote_byte_cases [of c])
  case (short e)
  then have "e \<noteq> CHR ''u''" by (auto simp: quote_mark_def backslash_def)
  then show ?thesis using short by (simp add: unquote_short)
next
  case escape
  have "\<not> is_surrogate (byte c)" "byte c < 65536" "byte c < 128"
    using assms by (auto simp: is_surrogate_def is_ascii_def)
  then show ?thesis using escape by (simp add: unquote_escape encode_rune_ascii)
next
  case plain
  then show ?thesis using assms by (simp add: unquote_plain)
qed

lemma scan_plain:
  assumes "c \<noteq> quote_mark" "32 \<le> byte c" "c \<noteq> backslash"
  shows "scan_string (c # s) = map_option (\<lambda>(raw, rest). (c # raw, rest)) (scan_string s)"
  using assms by (subst scan_string.simps) simp

lemma scan_plains:
  assumes "\<And>c. c \<in> set xs \<Longrightarrow> c \<noteq> quote_mark \<and> 32 \<le> byte c \<and> c \<noteq> backslash"
  shows "scan_string (xs @ s) = map_option (\<lambda>(raw, rest). (xs @ raw, rest)) (scan_string s)"
  using assms
proof (induction xs)
  case (Cons c xs)
  have c: "c \<noteq> quote_mark" "32 \<le> byte c" "c \<noteq> backslash" using Cons.prems [of c] by simp_all
  have "scan_string (xs @ s) = map_option (\<lambda>(raw, rest). (xs @ raw, rest)) (scan_string s)"
    using Cons by simp
  then show ?case
    unfolding append.simps scan_plain [OF c] by (simp add: option.map_comp comp_def case_prod_unfold)
qed (simp add: case_prod_unfold option.map_ident)

lemma scan_short:
  assumes "e \<in> set ([quote_mark, backslash] @ ''/bfnrt'')"
  shows "scan_string (backslash # e # t) = map_option (\<lambda>(raw, rest). (backslash # e # raw, rest)) (scan_string t)"
proof -
  have "backslash \<noteq> quote_mark" "\<not> byte backslash < 32" by (simp_all add: backslash_def quote_mark_def)
  then show ?thesis using assms by (subst scan_string.simps) simp
qed

lemma scan_escape:
  "scan_string (unicode_escape r @ t) = map_option (\<lambda>(raw, rest). (unicode_escape r @ raw, rest)) (scan_string t)"
proof -
  let ?ds = "[hex_digit (r div 4096 mod 16), hex_digit (r div 256 mod 16), hex_digit (r div 16 mod 16), hex_digit (r mod 16)]"
  have hex: "is_hex c" if "c \<in> set ?ds" for c using that hex_digit_value by auto
  have "backslash \<noteq> quote_mark" "\<not> byte backslash < 32" by (simp_all add: backslash_def quote_mark_def)
  then have head: "scan_string (backslash # CHR ''u'' # ?ds @ t)
      = map_option (\<lambda>(raw, rest). (backslash # CHR ''u'' # raw, rest)) (scan_string (?ds @ t))"
    using hex by (subst scan_string.simps) simp
  have plain: "c \<noteq> quote_mark \<and> 32 \<le> byte c \<and> c \<noteq> backslash" if "is_hex c" for c
    using that by (auto simp: is_hex_def is_digit_def quote_mark_def backslash_def)
  have "scan_string (?ds @ t) = map_option (\<lambda>(raw, rest). (?ds @ raw, rest)) (scan_string t)"
    by (rule scan_plains) (use hex plain in blast)
  then have "scan_string (backslash # CHR ''u'' # ?ds @ t)
      = map_option (\<lambda>(raw, rest). (backslash # CHR ''u'' # ?ds @ raw, rest)) (scan_string t)"
    unfolding head by (simp add: option.map_comp comp_def case_prod_unfold)
  then show ?thesis by (simp add: unicode_escape_eq)
qed

lemma scan_quote_byte:
  "scan_string (quote_byte c @ t) = map_option (\<lambda>(raw, rest). (quote_byte c @ raw, rest)) (scan_string t)"
proof (cases rule: quote_byte_cases [of c])
  case (short e)
  then show ?thesis using scan_short [OF short(2), of t] by simp
next
  case escape
  then show ?thesis using scan_escape by simp
next
  case plain
  then show ?thesis using scan_plain [OF plain(2-4), of t] by simp
qed

text \<open>A valid sequence of several bytes passes through both unchanged.\<close>

lemma seq_bytes:
  assumes "\<not> is_ascii a" and "c \<in> set (take (seq_len (a # s)) (a # s))"
  shows "\<not> is_ascii c"
proof -
  obtain i where "i < seq_len (a # s)" "c = (a # s) ! i"
    using assms(2) by (auto simp: in_set_conv_nth)
  then show ?thesis using assms(1) seq_len_conts [of i "a # s"] by (cases i) auto
qed

lemma scan_sequence:
  assumes "\<not> is_ascii a"
  shows "scan_string (take (seq_len (a # s)) (a # s) @ t)
    = map_option (\<lambda>(raw, rest). (take (seq_len (a # s)) (a # s) @ raw, rest)) (scan_string t)"
proof (rule scan_plains)
  fix c
  assume "c \<in> set (take (seq_len (a # s)) (a # s))"
  then have "\<not> is_ascii c" by (rule seq_bytes [OF assms])
  then show "c \<noteq> quote_mark \<and> 32 \<le> byte c \<and> c \<noteq> backslash"
    by (auto simp: is_ascii_def quote_mark_def backslash_def)
qed

lemma unquote_sequence:
  assumes "\<not> is_ascii a" and "seq_len (a # s) \<noteq> 0"
  shows "unquote_json (take (seq_len (a # s)) (a # s) @ t) = take (seq_len (a # s)) (a # s) @ unquote_json t"
proof -
  let ?n = "seq_len (a # s)"
  obtain u where u: "take ?n (a # s) = a # u" using assms(2) by (cases ?n) auto
  have len: "seq_len (a # u @ t) = ?n" using seq_len_take [OF assms(2), of t] u by simp
  have "length (a # u) = ?n" using u seq_len_le(1) [of "a # s"] by (metis length_take min.absorb2)
  then have cut: "take ?n (a # u @ t) = a # u" "drop ?n (a # u @ t) = t" by (metis append_Cons append_eq_conv_conj)+
  have "a \<noteq> backslash" using assms(1) by (auto simp: is_ascii_def backslash_def)
  then show ?thesis
    unfolding u append.simps
    using assms(1) encode_decode_rune [of "a # u @ t"] len cut assms(2) by (subst unquote_json.simps) simp
qed

lemma separator_bytes:
  assumes "fst (decode_rune (a # s)) = r" and "r = 8232 \<or> r = 8233"
  shows "\<not> is_surrogate r" "r < 65536" "r \<noteq> rune_error"
  using assms by (auto simp: is_surrogate_def rune_error_def)

lemma quote_json_chunk:
  obtains chunk where "quote_json (a # s) = chunk @ quote_json (drop (snd (decode_rune (a # s))) (a # s))"
    "\<And>t. unquote_json (chunk @ t) = encode_rune (fst (decode_rune (a # s))) @ unquote_json t"
    "\<And>t. scan_string (chunk @ t) = map_option (\<lambda>(raw, rest). (chunk @ raw, rest)) (scan_string t)"
proof (cases "is_ascii a")
  case True
  then have "decode_rune (a # s) = (byte a, 1)" "byte a < 128" by (simp_all add: decode_rune_ascii is_ascii_def)
  then show ?thesis
    using that [of "quote_byte a"] True
    by (simp add: quote_json.simps unquote_quote_byte scan_quote_byte encode_rune_ascii)
next
  case False
  let ?r = "fst (decode_rune (a # s))" and ?n = "snd (decode_rune (a # s))"
  have step: "quote_json (a # s) = (if ?r = rune_error \<and> ?n = 1 then unicode_escape ?r
      else if ?r = 8232 \<or> ?r = 8233 then unicode_escape ?r else take ?n (a # s)) @ quote_json (drop ?n (a # s))"
    using False by (simp add: quote_json.simps Let_def)
  show ?thesis
  proof (cases "?r = rune_error \<and> ?n = 1 \<or> ?r = 8232 \<or> ?r = 8233")
    case True
    then have "\<not> is_surrogate ?r" "?r < 65536" by (auto simp: is_surrogate_def rune_error_def)
    then show ?thesis
      using that [of "unicode_escape ?r"] step True by (auto simp: unquote_escape scan_escape)
  next
    case other: False
    have "seq_len (a # s) \<noteq> 0"
    proof
      assume "seq_len (a # s) = 0"
      then have "decode_rune (a # s) = (rune_error, 1)" by (simp add: decode_rune_def)
      then show False using other by simp
    qed
    then show ?thesis
      using that [of "take (seq_len (a # s)) (a # s)"] step other encode_decode_rune [of "a # s"]
        unquote_sequence [OF False] scan_sequence [OF False] by auto
  qed
qed

text \<open>A quoted string is found again by the scanner and unquoted to itself, with each invalid byte replaced.\<close>

lemma unquote_quote_json: "unquote_json (quote_json s) = to_valid s"
proof (induction s rule: quote_json.induct)
  case (2 a s)
  obtain chunk where chunk: "quote_json (a # s) = chunk @ quote_json (drop (snd (decode_rune (a # s))) (a # s))"
    "\<And>t. unquote_json (chunk @ t) = encode_rune (fst (decode_rune (a # s))) @ unquote_json t"
    "\<And>t. scan_string (chunk @ t) = map_option (\<lambda>(raw, rest). (chunk @ raw, rest)) (scan_string t)"
    by (rule quote_json_chunk [of a s]) (rule that; assumption)
  have "unquote_json (quote_json (drop (snd (decode_rune (a # s))) (a # s))) = to_valid (drop (snd (decode_rune (a # s))) (a # s))"
    using 2 by (cases "is_ascii a") (auto simp: decode_rune_ascii)
  then show ?case by (simp add: chunk to_valid_Cons)
qed simp

lemma scan_quote_json: "scan_string (quote_json s @ quote_mark # rest) = Some (quote_json s, rest)"
proof (induction s rule: quote_json.induct)
  case (2 a s)
  obtain chunk where chunk: "quote_json (a # s) = chunk @ quote_json (drop (snd (decode_rune (a # s))) (a # s))"
    "\<And>t. unquote_json (chunk @ t) = encode_rune (fst (decode_rune (a # s))) @ unquote_json t"
    "\<And>t. scan_string (chunk @ t) = map_option (\<lambda>(raw, rest). (chunk @ raw, rest)) (scan_string t)"
    by (rule quote_json_chunk [of a s]) (rule that; assumption)
  have "scan_string (quote_json (drop (snd (decode_rune (a # s))) (a # s)) @ quote_mark # rest)
      = Some (quote_json (drop (snd (decode_rune (a # s))) (a # s)), rest)"
    using 2 by (cases "is_ascii a") (auto simp: decode_rune_ascii)
  then show ?case by (simp add: chunk)
qed simp

end
