(* ===== verification/Go_Json.thy ===== *)
theory Go_Json
  imports Go_Json_Strings
begin

text \<open>
  JSON texts as package \<^verbatim>\<open>encoding/json\<close> writes and reads them.  A value keeps the raw text of
  its strings and numbers, because some decoders look at it.  The reader is a tokenizer followed by
  a state machine with an explicit stack, whose depth is bounded as in the package.
\<close>

datatype json = J_Null | J_Bool bool | J_Num string | J_Str string | J_Arr "json list"
  | J_Obj "(string \<times> json) list"

subsection \<open>Writing\<close>

definition quoted :: "string \<Rightarrow> string" where
  "quoted raw = quote_mark # raw @ [quote_mark]"

fun print_json :: "json \<Rightarrow> string" where
  "print_json J_Null = ''null''"
| "print_json (J_Bool b) = (if b then ''true'' else ''false'')"
| "print_json (J_Num lit) = lit"
| "print_json (J_Str raw) = quoted raw"
| "print_json (J_Arr js) = ''['' @ join_with '','' (map print_json js) @ '']''"
| "print_json (J_Obj ms) = ''{'' @ join_with '','' (map (\<lambda>(k, v). quoted k @ '':'' @ print_json v) ms) @ ''}''"

text \<open>\<^verbatim>\<open>MarshalIndent\<close> with two blanks for each level.\<close>

definition new_line :: "nat \<Rightarrow> string" where
  "new_line d = CHR 0x0A # replicate (2 * d) CHR '' ''"

fun print_indent :: "nat \<Rightarrow> json \<Rightarrow> string" where
  "print_indent d (J_Arr js) = (if js = [] then ''[]'' else ''['' @ new_line (Suc d)
     @ join_with ('','' @ new_line (Suc d)) (map (print_indent (Suc d)) js) @ new_line d @ '']'')"
| "print_indent d (J_Obj ms) = (if ms = [] then ''{}'' else ''{'' @ new_line (Suc d)
     @ join_with ('','' @ new_line (Suc d)) (map (\<lambda>(k, v). quoted k @ '': '' @ print_indent (Suc d) v) ms)
     @ new_line d @ ''}'')"
| "print_indent d j = print_json j"

subsection \<open>Tokens\<close>

datatype token = T_Open_Obj | T_Close_Obj | T_Open_Arr | T_Close_Arr | T_Comma | T_Colon
  | T_Str string | T_Num string | T_Word string

definition json_space :: string where
  "json_space = [CHR '' '', CHR 0x09, CHR 0x0D, CHR 0x0A]"

definition punctuation :: "char \<Rightarrow> token option" where
  "punctuation c = map_of [(CHR ''{'', T_Open_Obj), (CHR ''}'', T_Close_Obj), (CHR ''['', T_Open_Arr),
     (CHR '']'', T_Close_Arr), (CHR '','', T_Comma), (CHR '':'', T_Colon)] c"

definition number_char :: "char \<Rightarrow> bool" where
  "number_char c \<longleftrightarrow> is_digit c \<or> c \<in> set ''+-.eE''"

definition fraction_ok :: "string \<Rightarrow> string option" where
  "fraction_ok s = (if prefix ''.'' s then
       (if takeWhile is_digit (tl s) = [] then None else Some (dropWhile is_digit (tl s)))
     else Some s)"

definition exponent_ok :: "string \<Rightarrow> bool" where
  "exponent_ok s \<longleftrightarrow> s = [] \<or> hd s \<in> set ''eE'' \<and>
     (let t = (if tl s \<noteq> [] \<and> hd (tl s) \<in> set ''+-'' then tl (tl s) else tl s) in t \<noteq> [] \<and> list_all is_digit t)"

definition valid_number :: "string \<Rightarrow> bool" where
  "valid_number lit =
     (let s = (if prefix ''-'' lit then tl lit else lit); digits = takeWhile is_digit s in
      digits \<noteq> [] \<and> (digits = ''0'' \<or> hd digits \<noteq> CHR ''0'')
      \<and> (case fraction_ok (dropWhile is_digit s) of None \<Rightarrow> False | Some rest \<Rightarrow> exponent_ok rest))"

function tokens :: "string \<Rightarrow> token list option" where
  "tokens [] = Some []"
| "tokens (c # s) =
     (if c \<in> set json_space then tokens s
      else case punctuation c of
        Some t \<Rightarrow> map_option ((#) t) (tokens s)
      | None \<Rightarrow>
          if c = quote_mark then (case scan_string s of
              None \<Rightarrow> None
            | Some (raw, rest) \<Rightarrow> map_option ((#) (T_Str raw)) (tokens rest))
          else if is_digit c \<or> c = CHR ''-'' then
            (if valid_number (c # takeWhile number_char s)
             then map_option ((#) (T_Num (c # takeWhile number_char s))) (tokens (dropWhile number_char s)) else None)
          else if c # takeWhile is_lower s \<in> {''true'', ''false'', ''null''} then
            map_option ((#) (T_Word (c # takeWhile is_lower s))) (tokens (dropWhile is_lower s))
          else None)"
  by pat_completeness auto
termination
  by (relation "measure length") (auto simp: length_dropWhile_le le_imp_less_Suc dest: scan_string_shorter)

declare tokens.simps(2) [simp del]

subsection \<open>The parser\<close>

text \<open>The values around the one that is read: the items before it, or the members before it and its key.\<close>

datatype frame = F_Arr "json list" | F_Obj "(string \<times> json) list" string

datatype pstate = P_Value "frame list" | P_Item "frame list" | P_First "frame list"
  | P_Key "(string \<times> json) list" "frame list" | P_Colon "(string \<times> json) list" string "frame list"
  | P_Next frame "frame list" | P_Done json

definition maxNestingDepth :: nat where "maxNestingDepth = 10000"

fun complete_value :: "json \<Rightarrow> frame list \<Rightarrow> pstate" where
  "complete_value v [] = P_Done v"
| "complete_value v (F_Arr js # st) = P_Next (F_Arr (js @ [v])) st"
| "complete_value v (F_Obj ms k # st) = P_Next (F_Obj (ms @ [(k, v)]) k) st"

fun begin_value :: "token \<Rightarrow> frame list \<Rightarrow> pstate option" where
  "begin_value T_Open_Obj st = (if length st < maxNestingDepth then Some (P_First st) else None)"
| "begin_value T_Open_Arr st = (if length st < maxNestingDepth then Some (P_Item st) else None)"
| "begin_value (T_Str raw) st = Some (complete_value (J_Str raw) st)"
| "begin_value (T_Num lit) st = Some (complete_value (J_Num lit) st)"
| "begin_value (T_Word w) st = Some (complete_value
     (if w = ''null'' then J_Null else J_Bool (w = ''true'')) st)"
| "begin_value _ st = None"

fun parse_step :: "token \<Rightarrow> pstate \<Rightarrow> pstate option" where
  "parse_step t (P_Value st) = begin_value t st"
| "parse_step t (P_Item st) = (if t = T_Close_Arr then Some (complete_value (J_Arr []) st)
     else begin_value t (F_Arr [] # st))"
| "parse_step t (P_First st) = (case t of T_Close_Obj \<Rightarrow> Some (complete_value (J_Obj []) st)
     | T_Str k \<Rightarrow> Some (P_Colon [] k st) | _ \<Rightarrow> None)"
| "parse_step t (P_Key ms st) = (case t of T_Str k \<Rightarrow> Some (P_Colon ms k st) | _ \<Rightarrow> None)"
| "parse_step t (P_Colon ms k st) = (if t = T_Colon then Some (P_Value (F_Obj ms k # st)) else None)"
| "parse_step t (P_Next (F_Arr js) st) = (case t of T_Comma \<Rightarrow> Some (P_Value (F_Arr js # st))
     | T_Close_Arr \<Rightarrow> Some (complete_value (J_Arr js) st) | _ \<Rightarrow> None)"
| "parse_step t (P_Next (F_Obj ms k) st) = (case t of T_Comma \<Rightarrow> Some (P_Key ms st)
     | T_Close_Obj \<Rightarrow> Some (complete_value (J_Obj ms) st) | _ \<Rightarrow> None)"
| "parse_step t (P_Done v) = None"

fun parse_tokens :: "token list \<Rightarrow> pstate \<Rightarrow> pstate option" where
  "parse_tokens [] p = Some p"
| "parse_tokens (t # ts) p = Option.bind (parse_step t p) (parse_tokens ts)"

definition parse_json :: "string \<Rightarrow> json option" where
  "parse_json s = (case Option.bind (tokens s) (\<lambda>ts. parse_tokens ts (P_Value [])) of
     Some (P_Done v) \<Rightarrow> Some v | _ \<Rightarrow> None)"

subsection \<open>Round trip\<close>

fun commas :: "token list list \<Rightarrow> token list" where
  "commas [] = []"
| "commas [x] = x"
| "commas (x # y # xs) = x @ T_Comma # commas (y # xs)"

fun tokens_of :: "json \<Rightarrow> token list" where
  "tokens_of J_Null = [T_Word ''null'']"
| "tokens_of (J_Bool b) = [T_Word (if b then ''true'' else ''false'')]"
| "tokens_of (J_Num lit) = [T_Num lit]"
| "tokens_of (J_Str raw) = [T_Str raw]"
| "tokens_of (J_Arr js) = T_Open_Arr # commas (map tokens_of js) @ [T_Close_Arr]"
| "tokens_of (J_Obj ms) = T_Open_Obj # commas (map (\<lambda>(k, v). T_Str k # T_Colon # tokens_of v) ms) @ [T_Close_Obj]"

fun depth :: "json \<Rightarrow> nat" where
  "depth (J_Arr js) = Suc (Max (insert 0 (set (map depth js))))"
| "depth (J_Obj ms) = Suc (Max (insert 0 (set (map (\<lambda>(k, v). depth v) ms))))"
| "depth _ = 0"

text \<open>Texts that the writer produces: the scanner finds the end of each string, and each number is one.\<close>

definition raw_ok :: "string \<Rightarrow> bool" where
  "raw_ok raw \<longleftrightarrow> (\<forall>rest. scan_string (raw @ quote_mark # rest) = Some (raw, rest))"

definition number_ok :: "string \<Rightarrow> bool" where
  "number_ok lit \<longleftrightarrow> valid_number lit \<and> list_all number_char lit \<and> lit \<noteq> [] \<and> (is_digit (hd lit) \<or> hd lit = CHR ''-'')"

fun json_ok :: "json \<Rightarrow> bool" where
  "json_ok (J_Num lit) = number_ok lit"
| "json_ok (J_Str raw) = raw_ok raw"
| "json_ok (J_Arr js) = list_all json_ok js"
| "json_ok (J_Obj ms) = list_all (\<lambda>(k, v). raw_ok k \<and> json_ok v) ms"
| "json_ok _ = True"

lemma raw_ok_quote [simp]: "raw_ok (quote_json s)"
  by (simp add: raw_ok_def scan_quote_json)

lemma digit_set: "is_digit c \<Longrightarrow> c \<in> set ''0123456789''"
proof -
  assume "is_digit c"
  then have "byte c \<in> {48..<58}" by (simp add: is_digit_def)
  then have "byte c \<in> set [48..<58]" by (simp only: atLeastLessThan_upt)
  then have "c \<in> set (map char_of [48..<58])" by (metis char_of_char image_eqI set_map)
  moreover have "map char_of [48..<58] = ''0123456789''" by code_simp
  ultimately show ?thesis by (simp only:)
qed

lemma digits_of_head: "digits_of n = ''0'' \<or> hd (digits_of n) \<noteq> CHR ''0''"
proof (induction n rule: digits_of.induct)
  case (1 n)
  show ?case
  proof (cases "n < 10")
    case True
    have "byte (char_of (48 + n)) = 48 + n" using True by (intro byte_char_of) simp
    moreover have "byte CHR ''0'' = 48" by simp
    ultimately have "n = 0 \<or> char_of (48 + n) \<noteq> CHR ''0''" by (metis add_cancel_left_right)
    moreover have "digits_of n = [char_of (48 + n)]" using True by (subst digits_of.simps) simp
    moreover have "char_of (48 + (0 :: nat)) = CHR ''0''" by code_simp
    ultimately show ?thesis by (metis list.sel(1))
  next
    case False
    then have "digits_of n = digits_of (n div 10) @ [char_of (48 + n mod 10)]" by (subst digits_of.simps) simp
    moreover have "digits_of (n div 10) \<noteq> ''0''"
    proof
      assume "digits_of (n div 10) = ''0''"
      then have "n div 10 = digits_value ''0''" by (metis digits_value_digits_of)
      then show False using False by (simp add: digits_value_def)
    qed
    ultimately show ?thesis using 1 False by (cases "digits_of (n div 10)") auto
  qed
qed

lemma number_ok_itoa [simp]: "number_ok (itoa i)"
proof -
  have all: "\<forall>c \<in> set (digits_of n). is_digit c" for n
    using digits_of_digits [of n] by (simp add: list_all_iff)
  have plain: "takeWhile is_digit (digits_of n) = digits_of n" "dropWhile is_digit (digits_of n) = []" for n
    unfolding takeWhile_eq_all_conv dropWhile_eq_Nil_conv by (rule all)+
  have head: "is_digit (hd (digits_of n))" for n by (metis all digits_of_nonempty list.set_sel(1))
  have "CHR ''-'' \<noteq> c" if "is_digit c" for c using that by (auto simp: is_digit_def)
  then have no_sign: "\<not> prefix ''-'' (digits_of n)" for n
    using head [of n] by (cases "digits_of n") auto
  have "valid_number (digits_of n)" "valid_number (CHR ''-'' # digits_of n)" for n
    using no_sign [of n] digits_of_head [of n]
    by (simp_all add: valid_number_def plain fraction_ok_def exponent_ok_def)
  moreover have "list_all number_char (digits_of n)" for n
    using all by (simp add: list_all_iff number_char_def)
  ultimately show ?thesis using head by (simp add: number_ok_def itoa_def number_char_def)
qed

text \<open>What may follow a value in a written text.\<close>

definition follows :: "string \<Rightarrow> bool" where
  "follows s \<longleftrightarrow> s = [] \<or> hd s \<in> set ('',]}'' @ json_space)"

lemma tokens_punctuation:
  assumes "punctuation c = Some t"
  shows "tokens (c # s) = map_option ((#) t) (tokens s)"
proof -
  have "c \<notin> set json_space" using assms by (auto simp: punctuation_def json_space_def split: if_splits)
  then show ?thesis using assms by (simp add: tokens.simps)
qed

lemma tokens_quoted:
  assumes "raw_ok raw"
  shows "tokens (quoted raw @ s) = map_option ((#) (T_Str raw)) (tokens s)"
  using assms by (simp add: quoted_def tokens.simps raw_ok_def punctuation_def json_space_def quote_mark_def)

lemma takeWhile_follows:
  assumes "list_all P xs" and "follows s" and "\<forall>c \<in> set ('',]}'' @ json_space). \<not> P c"
  shows "takeWhile P (xs @ s) = xs" "dropWhile P (xs @ s) = s"
proof -
  have "takeWhile P s = [] \<and> dropWhile P s = s" using assms(2,3) by (cases s) (auto simp: follows_def)
  then show "takeWhile P (xs @ s) = xs" "dropWhile P (xs @ s) = s"
    using assms(1) by (simp_all add: takeWhile_append2 dropWhile_append2 list_all_iff)
qed

lemma tokens_number:
  assumes "number_ok lit" and "follows s"
  shows "tokens (lit @ s) = map_option ((#) (T_Num lit)) (tokens s)"
proof -
  obtain c ds where lit: "lit = c # ds" using assms(1) by (cases lit) (simp_all add: number_ok_def)
  have c: "is_digit c \<or> c = CHR ''-''" and ds: "list_all number_char ds" and valid: "valid_number (c # ds)"
    using assms(1) by (simp_all add: number_ok_def lit)
  have "c \<in> set (CHR ''-'' # ''0123456789'')" using c digit_set [of c] unfolding list.set(2) [of "CHR ''-''"] by blast
  moreover have "\<forall>c \<in> set ''-0123456789''. c \<notin> set json_space \<and> punctuation c = None \<and> c \<noteq> quote_mark"
    by code_simp
  ultimately have start: "c \<notin> set json_space" "punctuation c = None" "c \<noteq> quote_mark" by blast+
  have "\<forall>c \<in> set ('',]}'' @ json_space). \<not> number_char c" by code_simp
  note cut = takeWhile_follows [OF ds assms(2) this]
  show ?thesis unfolding lit append.simps tokens.simps(2) cut using start c valid by (simp only: if_True if_False option.case)
qed

lemma tokens_word:
  assumes "w \<in> {''true'', ''false'', ''null''}" and "follows s"
  shows "tokens (w @ s) = map_option ((#) (T_Word w)) (tokens s)"
proof -
  define c where "c = hd w"
  define cs where "cs = tl w"
  have w: "w = c # cs" and cs: "list_all is_lower cs" and c: "c \<in> set ''tfn''"
    using assms(1) unfolding c_def cs_def by (elim insertE emptyE; simp add: is_lower_def)+
  have "\<forall>c \<in> set ''tfn''. c \<notin> set json_space \<and> punctuation c = None \<and> c \<noteq> quote_mark
      \<and> \<not> (is_digit c \<or> c = CHR ''-'')" by code_simp
  then have start: "c \<notin> set json_space" "punctuation c = None" "c \<noteq> quote_mark" "\<not> (is_digit c \<or> c = CHR ''-'')"
    using c by blast+
  have "\<forall>c \<in> set ('',]}'' @ json_space). \<not> is_lower c" by code_simp
  note cut = takeWhile_follows [OF cs assms(2) this]
  have "c # cs \<in> {''true'', ''false'', ''null''}" using assms(1) w by simp
  then show ?thesis unfolding w append.simps tokens.simps(2) cut using start by (simp only: if_True if_False option.case)
qed

lemma follows_punctuation [simp]:
  "follows (CHR '','' # s)" "follows (CHR '']'' # s)" "follows (CHR ''}'' # s)"
  by (simp_all add: follows_def)

lemma tokens_space: "set xs \<subseteq> set json_space \<Longrightarrow> tokens (xs @ s) = tokens s"
  by (induction xs) (simp_all add: tokens.simps)

lemma tokens_comma:
  assumes "set xs \<subseteq> set json_space"
  shows "tokens (CHR '','' # xs @ s) = map_option ((#) T_Comma) (tokens s)"
  using tokens_punctuation [of "CHR '',''" T_Comma "xs @ s"] tokens_space [OF assms] by (simp add: punctuation_def)

text \<open>Items with a comma and white space between them.\<close>

lemma tokens_join:
  assumes "\<And>x tx s. (x, tx) \<in> set pairs \<Longrightarrow> follows s \<Longrightarrow> tokens (x @ s) = map_option ((@) tx) (tokens s)"
    and "follows s" and "set gap \<subseteq> set json_space"
  shows "tokens (join_with (CHR '','' # gap) (map fst pairs) @ s) = map_option ((@) (commas (map snd pairs))) (tokens s)"
  using assms(1)
proof (induction pairs rule: induct_list012)
  case 1
  then show ?case by (simp add: option.map_ident)
next
  case (2 p)
  then show ?case using 2 [of "fst p" "snd p"] assms(2) by simp
next
  case (3 p q pairs)
  let ?rest = "join_with (CHR '','' # gap) (map fst (q # pairs)) @ s"
  have rest: "tokens ?rest = map_option ((@) (commas (map snd (q # pairs)))) (tokens s)"
    using 3 by simp
  have "tokens (fst p @ CHR '','' # gap @ ?rest) = map_option ((@) (snd p)) (tokens (CHR '','' # gap @ ?rest))"
    using 3(3) [of "fst p" "snd p"] by (simp add: follows_def)
  also have "tokens (CHR '','' # gap @ ?rest) = map_option ((#) T_Comma) (tokens ?rest)"
    by (rule tokens_comma [OF assms(3)])
  finally show ?case using rest by (simp add: option.map_comp comp_def)
qed

lemma tokens_print:
  "json_ok j \<Longrightarrow> follows s \<or> (\<exists>ms. j = J_Obj ms) \<Longrightarrow> tokens (print_json j @ s) = map_option ((@) (tokens_of j)) (tokens s)"
proof (induction j arbitrary: s)
  case J_Null
  then show ?case using tokens_word [of "''null''" s] by simp
next
  case (J_Bool b)
  then show ?case using tokens_word [of "''true''" s] tokens_word [of "''false''" s] by simp
next
  case (J_Num lit)
  then show ?case using tokens_number [of lit s] by simp
next
  case (J_Str raw)
  then show ?case using tokens_quoted [of raw s] by simp
next
  case (J_Arr js)
  let ?pairs = "map (\<lambda>j. (print_json j, tokens_of j)) js"
  have "tokens (join_with '','' (map fst ?pairs) @ CHR '']'' # s)
      = map_option ((@) (commas (map snd ?pairs))) (tokens (CHR '']'' # s))"
    by (rule tokens_join) (use J_Arr in \<open>auto simp: list_all_iff\<close>)
  then show ?case
    using tokens_punctuation [of "CHR ''[''" T_Open_Arr] tokens_punctuation [of "CHR '']''" T_Close_Arr s]
    by (simp add: punctuation_def option.map_comp comp_def)
next
  case (J_Obj ms)
  let ?pairs = "map (\<lambda>(k, v). (quoted k @ '':'' @ print_json v, T_Str k # T_Colon # tokens_of v)) ms"
  have member: "tokens ((quoted k @ '':'' @ print_json v) @ s') = map_option ((@) (T_Str k # T_Colon # tokens_of v)) (tokens s')"
    if "(k, v) \<in> set ms" "follows s'" for k v s'
  proof -
    have "raw_ok k" "json_ok v" using J_Obj(2) that(1) by (auto simp: list_all_iff)
    moreover have "tokens (print_json v @ s') = map_option ((@) (tokens_of v)) (tokens s')"
      using J_Obj(1) [OF that(1)] \<open>json_ok v\<close> that(2) by simp
    ultimately show ?thesis
      using tokens_quoted [of k "'':'' @ print_json v @ s'"] tokens_punctuation [of "CHR '':''" T_Colon "print_json v @ s'"]
      by (cases "tokens s'") (simp_all add: punctuation_def)
  qed
  have "tokens (join_with '','' (map fst ?pairs) @ CHR ''}'' # s)
      = map_option ((@) (commas (map snd ?pairs))) (tokens (CHR ''}'' # s))"
    by (rule tokens_join) (use member in auto)
  then show ?case
    using tokens_punctuation [of "CHR ''{''" T_Open_Obj] tokens_punctuation [of "CHR ''}''" T_Close_Obj s]
    by (simp add: punctuation_def option.map_comp comp_def case_prod_unfold)
qed

lemma new_line_space [simp]: "set (new_line d) \<subseteq> set json_space"
  by (auto simp: new_line_def json_space_def)

lemma follows_new_line [simp]: "follows (new_line d @ s)"
  by (simp add: follows_def new_line_def json_space_def)

lemma tokens_new_line [simp]: "tokens (new_line d @ s) = tokens s"
  by (rule tokens_space) simp

text \<open>Indentation does not change the tokens.\<close>

lemma tokens_indent:
  "json_ok j \<Longrightarrow> follows s \<or> (\<exists>ms. j = J_Obj ms) \<Longrightarrow>
   tokens (print_indent d j @ s) = map_option ((@) (tokens_of j)) (tokens s)"
proof (induction j arbitrary: d s)
  case (J_Arr js)
  let ?pairs = "map (\<lambda>j. (print_indent (Suc d) j, tokens_of j)) js"
  have "tokens (join_with (CHR '','' # new_line (Suc d)) (map fst ?pairs) @ new_line d @ CHR '']'' # s)
      = map_option ((@) (commas (map snd ?pairs))) (tokens (new_line d @ CHR '']'' # s))"
    by (rule tokens_join) (use J_Arr in \<open>auto simp: list_all_iff\<close>)
  then show ?case
    using tokens_punctuation [of "CHR ''[''" T_Open_Arr] tokens_punctuation [of "CHR '']''" T_Close_Arr s]
    by (cases "js = []") (simp_all add: punctuation_def option.map_comp comp_def)
next
  case (J_Obj ms)
  let ?pairs = "map (\<lambda>(k, v). (quoted k @ '': '' @ print_indent (Suc d) v, T_Str k # T_Colon # tokens_of v)) ms"
  have member: "tokens ((quoted k @ '': '' @ print_indent (Suc d) v) @ s')
      = map_option ((@) (T_Str k # T_Colon # tokens_of v)) (tokens s')"
    if "(k, v) \<in> set ms" "follows s'" for k v s'
  proof -
    have "raw_ok k" "json_ok v" using J_Obj(2) that(1) by (auto simp: list_all_iff)
    moreover have "tokens (print_indent (Suc d) v @ s') = map_option ((@) (tokens_of v)) (tokens s')"
      using J_Obj(1) [OF that(1)] \<open>json_ok v\<close> that(2) by simp
    ultimately show ?thesis
      using tokens_quoted [of k "'': '' @ print_indent (Suc d) v @ s'"]
        tokens_punctuation [of "CHR '':''" T_Colon "'' '' @ print_indent (Suc d) v @ s'"]
        tokens_space [of "'' ''" "print_indent (Suc d) v @ s'"]
      by (cases "tokens s'") (simp_all add: punctuation_def json_space_def)
  qed
  have "tokens (join_with (CHR '','' # new_line (Suc d)) (map fst ?pairs) @ new_line d @ CHR ''}'' # s)
      = map_option ((@) (commas (map snd ?pairs))) (tokens (new_line d @ CHR ''}'' # s))"
    by (rule tokens_join) (use member in auto)
  then show ?case
    using tokens_punctuation [of "CHR ''{''" T_Open_Obj] tokens_punctuation [of "CHR ''}''" T_Close_Obj s]
    by (cases "ms = []") (simp_all add: punctuation_def option.map_comp comp_def case_prod_unfold)
qed (use tokens_print in \<open>simp_all del: print_json.simps\<close>)

lemma parse_tokens_Cons: "parse_step t p = Some p' \<Longrightarrow> parse_tokens (t # ts) p = parse_tokens ts p'"
  by simp

lemma tokens_of_head: "\<exists>t ts. tokens_of j = t # ts \<and> t \<noteq> T_Close_Arr"
  by (cases j) auto

lemma parse_array:
  assumes "\<And>j st ts. j \<in> set js \<Longrightarrow> length st + depth j \<le> maxNestingDepth \<Longrightarrow>
      parse_tokens (tokens_of j @ ts) (P_Value st) = parse_tokens ts (complete_value j st)"
    and "\<And>j. j \<in> set js \<Longrightarrow> Suc (length st) + depth j \<le> maxNestingDepth" and "js \<noteq> []"
  shows "parse_tokens (commas (map tokens_of js) @ T_Close_Arr # ts) (P_Value (F_Arr xs # st))
    = parse_tokens ts (complete_value (J_Arr (xs @ js)) st)"
  using assms
proof (induction js arbitrary: xs rule: induct_list012)
  case (2 j)
  then show ?case by simp
next
  case (3 j k js)
  have "parse_tokens (tokens_of j @ T_Comma # commas (map tokens_of (k # js)) @ T_Close_Arr # ts) (P_Value (F_Arr xs # st))
      = parse_tokens (commas (map tokens_of (k # js)) @ T_Close_Arr # ts) (P_Value (F_Arr (xs @ [j]) # st))"
    using 3(3) [of j "F_Arr xs # st"] 3(4) [of j] by simp
  also have "\<dots> = parse_tokens ts (complete_value (J_Arr ((xs @ [j]) @ k # js)) st)"
    by (rule 3(2)) (use 3(3,4) in auto)
  finally show ?case by simp
qed simp

lemma parse_object:
  assumes "\<And>k j st ts. (k, j) \<in> set ms \<Longrightarrow> length st + depth j \<le> maxNestingDepth \<Longrightarrow>
      parse_tokens (tokens_of j @ ts) (P_Value st) = parse_tokens ts (complete_value j st)"
    and "\<And>k j. (k, j) \<in> set ms \<Longrightarrow> Suc (length st) + depth j \<le> maxNestingDepth" and "ms \<noteq> []"
  shows "parse_tokens (commas (map (\<lambda>(k, v). T_Str k # T_Colon # tokens_of v) ms) @ T_Close_Obj # ts) (P_Key xs st)
    = parse_tokens ts (complete_value (J_Obj (xs @ ms)) st)"
  using assms
proof (induction ms arbitrary: xs rule: induct_list012)
  case (2 p)
  then show ?case by (cases p) simp
next
  case (3 p q ms)
  obtain k j where p: "p = (k, j)" by (cases p)
  let ?rest = "commas (map (\<lambda>(k, v). T_Str k # T_Colon # tokens_of v) (q # ms)) @ T_Close_Obj # ts"
  have "parse_tokens (T_Str k # T_Colon # tokens_of j @ T_Comma # ?rest) (P_Key xs st)
      = parse_tokens ?rest (P_Key (xs @ [(k, j)]) st)"
    using 3(3) [of k j "F_Obj xs k # st"] 3(4) [of k j] by (simp add: p)
  also have "\<dots> = parse_tokens ts (complete_value (J_Obj ((xs @ [(k, j)]) @ q # ms)) st)"
  proof (rule 3(2))
    fix k j
    assume "(k, j) \<in> set (q # ms)"
    then show "Suc (length st) + depth j \<le> maxNestingDepth" using 3(4) [of k j] by simp
  qed (use 3(3) in auto)
  finally show ?case by (simp add: p)
qed simp

lemma parse_value:
  "length st + depth j \<le> maxNestingDepth \<Longrightarrow>
   parse_tokens (tokens_of j @ ts) (P_Value st) = parse_tokens ts (complete_value j st)"
proof (induction j arbitrary: st ts)
  case (J_Arr js)
  have deep: "Suc (length st) + depth j \<le> maxNestingDepth" if "j \<in> set js" for j
  proof -
    have "depth j \<le> Max (insert 0 (set (map depth js)))" using that by (intro Max_ge) auto
    then show ?thesis using J_Arr(2) by simp
  qed
  have len: "length st < maxNestingDepth" using J_Arr(2) by simp
  show ?case
  proof (cases js)
    case Nil
    then show ?thesis using len by simp
  next
    case (Cons j js')
    obtain t us where head: "tokens_of j = t # us" "t \<noteq> T_Close_Arr" using tokens_of_head by blast
    have "\<exists>us. commas (map tokens_of js) = t # us" using head Cons by (cases js') auto
    then obtain us where us: "commas (map tokens_of js) = t # us" by blast
    have "parse_tokens (t # us @ T_Close_Arr # ts) (P_Item st) = parse_tokens (t # us @ T_Close_Arr # ts) (P_Value (F_Arr [] # st))"
      using head(2) by simp
    also have "\<dots> = parse_tokens ts (complete_value (J_Arr js) st)"
      using parse_array [of js st ts "[]"] J_Arr(1) deep Cons us by simp
    finally show ?thesis using len us by simp
  qed
next
  case (J_Obj ms)
  have deep: "Suc (length st) + depth j \<le> maxNestingDepth" if "(k, j) \<in> set ms" for k j
  proof -
    have "depth j \<le> Max (insert 0 (set (map (\<lambda>(k, v). depth v) ms)))" using that by (intro Max_ge) force+
    then show ?thesis using J_Obj(2) by simp
  qed
  have len: "length st < maxNestingDepth" using J_Obj(2) by simp
  show ?case
  proof (cases ms)
    case Nil
    then show ?thesis using len by simp
  next
    case (Cons p ms')
    let ?tokens = "commas (map (\<lambda>(k, v). T_Str k # T_Colon # tokens_of v) ms)"
    have IH: "parse_tokens (tokens_of j @ ts) (P_Value st) = parse_tokens ts (complete_value j st)"
      if "(k, j) \<in> set ms" "length st + depth j \<le> maxNestingDepth" for k j st ts
      using J_Obj(1) [OF that(1)] that(2) by simp
    obtain k us where us: "?tokens = T_Str k # us" using Cons by (cases p; cases ms') auto
    have "parse_tokens (T_Str k # us @ T_Close_Obj # ts) (P_First st) = parse_tokens (T_Str k # us @ T_Close_Obj # ts) (P_Key [] st)"
      by simp
    also have "\<dots> = parse_tokens ts (complete_value (J_Obj ms) st)"
      using parse_object [where ms = ms and ts = ts and xs = "[]", OF IH deep] Cons us by simp
    finally show ?thesis using len us by simp
  qed
qed simp_all

text \<open>A written value is read back.\<close>

theorem parse_print_json:
  assumes "json_ok j" and "depth j \<le> maxNestingDepth"
  shows "parse_json (print_json j) = Some j"
proof -
  have "tokens (print_json j) = Some (tokens_of j)"
    using tokens_print [OF assms(1), of "[]"] by (simp add: follows_def)
  then show ?thesis
    using parse_value [of "[]" j "[]"] assms(2) by (simp add: parse_json_def)
qed

theorem parse_print_indent:
  assumes "json_ok j" and "depth j \<le> maxNestingDepth" and "set rest \<subseteq> set json_space"
  shows "parse_json (print_indent 0 j @ rest) = Some j"
proof -
  have "tokens rest = Some []" using tokens_space [OF assms(3), of "[]"] by simp
  moreover have "follows rest" using assms(3) by (cases rest) (auto simp: follows_def)
  ultimately have "tokens (print_indent 0 j @ rest) = Some (tokens_of j)"
    using tokens_indent [OF assms(1), of rest 0] by simp
  then show ?thesis
    using parse_value [of "[]" j "[]"] assms(2) by (simp add: parse_json_def)
qed

text \<open>Behind an object only white space may follow.\<close>

lemma tokens_empty: "tokens s = Some [] \<longleftrightarrow> set s \<subseteq> set json_space"
  by (induction s) (auto simp: tokens.simps split: option.splits)

lemma parse_trailing:
  assumes "json_ok (J_Obj ms)" and "depth (J_Obj ms) \<le> maxNestingDepth"
  shows "parse_json (print_json (J_Obj ms) @ rest) = (if set rest \<subseteq> set json_space then Some (J_Obj ms) else None)"
proof -
  let ?j = "J_Obj ms"
  have read: "tokens (print_json ?j @ rest) = map_option ((@) (tokens_of ?j)) (tokens rest)"
    by (rule tokens_print) (use assms(1) in simp_all)
  have complete: "parse_tokens (tokens_of ?j @ ts) (P_Value []) = parse_tokens ts (P_Done ?j)" for ts
    using parse_value [of "[]" ?j ts] assms(2) by simp
  then have whole: "parse_tokens (tokens_of ?j) (P_Value []) = Some (P_Done ?j)"
    using complete [of "[]"] by (simp del: tokens_of.simps)
  show ?thesis
  proof (cases "tokens rest")
    case None
    then show ?thesis using tokens_empty [of rest] by (simp add: parse_json_def read del: print_json.simps)
  next
    case (Some ts)
    then show ?thesis
      using tokens_empty [of rest] by (cases ts) (simp_all add: parse_json_def read complete whole del: tokens_of.simps print_json.simps)
  qed
qed

end
