(* ===== verification/Go_Time_Text.thy ===== *)
theory Go_Time_Text
  imports Go_Time
begin

text \<open>
  RFC 3339 texts of times, as \<^verbatim>\<open>Time.MarshalJSON\<close> writes them for a time in UTC and as
  \<^verbatim>\<open>parseRFC3339\<close>, the parser that \<^verbatim>\<open>Time.UnmarshalJSON\<close> tries first, reads them.
\<close>

fun pad_digits :: "nat \<Rightarrow> nat \<Rightarrow> string" where
  "pad_digits 0 n = []"
| "pad_digits (Suc k) n = pad_digits k (n div 10) @ [char_of (48 + n mod 10)]"

definition trim_zeros :: "string \<Rightarrow> string" where
  "trim_zeros s = rev (dropWhile (\<lambda>c. c = CHR ''0'') (rev s))"

definition second_nanoseconds :: int where
  "second_nanoseconds = 1000000000"

definition format_time :: "int \<Rightarrow> string" where
  "format_time t = (case civil (t div day_nanoseconds) of (y, m, d) \<Rightarrow>
     let ns = t mod day_nanoseconds; secs = ns div second_nanoseconds; nsec = ns mod second_nanoseconds in
     pad_digits 4 (nat y) @ ''-'' @ pad_digits 2 (nat m) @ ''-'' @ pad_digits 2 (nat d) @ ''T''
     @ pad_digits 2 (nat (secs div 3600)) @ '':'' @ pad_digits 2 (nat (secs div 60 mod 60)) @ '':''
     @ pad_digits 2 (nat (secs mod 60))
     @ (if nsec = 0 then [] else ''.'' @ trim_zeros (pad_digits 9 (nat nsec))) @ ''Z'')"

text \<open>\<^verbatim>\<open>MarshalJSON\<close> fails for years outside 0 to 9999.\<close>

definition year_ok :: "int \<Rightarrow> bool" where
  "year_ok t \<longleftrightarrow> 0 \<le> year_of (t div day_nanoseconds) \<and> year_of (t div day_nanoseconds) \<le> 9999"

subsection \<open>Reading\<close>

definition parse_uint :: "string \<Rightarrow> nat \<Rightarrow> nat \<Rightarrow> nat option" where
  "parse_uint s lo hi = (if list_all is_digit s \<and> lo \<le> digits_value s \<and> digits_value s \<le> hi
     then Some (digits_value s) else None)"

definition rfc_fraction :: "string \<Rightarrow> nat \<times> string" where
  "rfc_fraction s = (if 2 \<le> length s \<and> s ! 0 = CHR ''.'' \<and> is_digit (s ! 1) then
       let used = take 9 (takeWhile is_digit (tl s)) in
       (digits_value used * 10 ^ (9 - length used), dropWhile is_digit (tl s))
     else (0, s))"

text \<open>The offset in seconds.\<close>

definition rfc_zone :: "string \<Rightarrow> int option" where
  "rfc_zone s =
     (if s = ''Z'' then Some 0
      else if length s \<noteq> 6 \<or> s ! 0 \<notin> {CHR ''+'', CHR ''-''} \<or> s ! 3 \<noteq> CHR '':'' then None
      else (case (parse_uint (take 2 (drop 1 s)) 0 23, parse_uint (drop 4 s) 0 59) of
          (Some h, Some m) \<Rightarrow> Some ((if s ! 0 = CHR ''-'' then - 1 else 1) * int (h * 60 + m) * 60)
        | _ \<Rightarrow> None))"

definition rfc_separators :: "string \<Rightarrow> bool" where
  "rfc_separators s \<longleftrightarrow> s ! 4 = CHR ''-'' \<and> s ! 7 = CHR ''-'' \<and> s ! 10 = CHR ''T'' \<and> s ! 13 = CHR '':'' \<and> s ! 16 = CHR '':''"

definition rfc_date :: "string \<Rightarrow> (int \<times> int \<times> int) option" where
  "rfc_date s = (case (parse_uint (take 4 s) 0 9999, parse_uint (take 2 (drop 5 s)) 1 12) of
       (Some y, Some m) \<Rightarrow> map_option (\<lambda>d. (int y, int m, int d))
         (parse_uint (take 2 (drop 8 s)) 1 (nat (month_length (int y) (int m))))
     | _ \<Rightarrow> None)"

definition rfc_clock :: "string \<Rightarrow> int option" where
  "rfc_clock s = (case (parse_uint (take 2 (drop 11 s)) 0 23, parse_uint (take 2 (drop 14 s)) 0 59,
         parse_uint (take 2 (drop 17 s)) 0 59) of
       (Some h, Some m, Some sec) \<Rightarrow> Some (int (h * 3600 + m * 60 + sec)) | _ \<Rightarrow> None)"

definition parse_rfc3339 :: "string \<Rightarrow> int option" where
  "parse_rfc3339 s =
     (if length s < 19 \<or> \<not> rfc_separators s then None
      else case (rfc_date s, rfc_clock s, rfc_fraction (drop 19 s)) of
        (Some (y, m, d), Some secs, (nsec, zone)) \<Rightarrow> map_option (\<lambda>offset.
            day_number y m d * day_nanoseconds + (secs - offset) * second_nanoseconds + int nsec) (rfc_zone zone)
      | _ \<Rightarrow> None)"

subsection \<open>Reading by the layout\<close>

text \<open>
  The texts that \<^verbatim>\<open>parseRFC3339\<close> refuses go to \<^verbatim>\<open>Parse\<close> with the layout
  \<^verbatim>\<open>RFC3339\<close>, which is more lenient: an hour of one digit, a comma before the fraction, and
  offsets up to 24 hours and 60 minutes.  Each step reads one part of the layout from the front of the text.
\<close>

definition getnum :: "bool \<Rightarrow> string \<Rightarrow> (nat \<times> string) option" where
  "getnum fixed s =
     (if s = [] \<or> \<not> is_digit (hd s) then None
      else if tl s = [] \<or> \<not> is_digit (hd (tl s)) then
        (if fixed then None else Some (digits_value (take 1 s), drop 1 s))
      else Some (digits_value (take 2 s), drop 2 s))"

definition skip_char :: "char \<Rightarrow> string \<Rightarrow> string option" where
  "skip_char c s = (if s \<noteq> [] \<and> hd s = c then Some (tl s) else None)"

definition read_year :: "string \<Rightarrow> (nat \<times> string) option" where
  "read_year s = (if length s < 4 \<or> \<not> list_all is_digit (take 4 s) then None
     else Some (digits_value (take 4 s), drop 4 s))"

definition read_fraction :: "string \<Rightarrow> nat \<times> string" where
  "read_fraction s = (if prefix '','' s then rfc_fraction (CHR ''.'' # tl s) else rfc_fraction s)"

definition read_zone :: "string \<Rightarrow> int option" where
  "read_zone s =
     (if s = ''Z'' then Some 0
      else if length s \<noteq> 6 \<or> s ! 0 \<notin> {CHR ''+'', CHR ''-''} \<or> s ! 3 \<noteq> CHR '':'' then None
      else (case (getnum True (take 2 (drop 1 s)), getnum True (drop 4 s)) of
          (Some (h, _), Some (m, _)) \<Rightarrow>
            if 24 < h \<or> 60 < m then None
            else Some ((if s ! 0 = CHR ''-'' then - 1 else 1) * int (h * 60 + m) * 60)
        | _ \<Rightarrow> None))"

definition read_part :: "bool \<Rightarrow> nat \<Rightarrow> nat \<Rightarrow> char \<Rightarrow> string \<Rightarrow> (nat \<times> string) option" where
  "read_part fixed lo hi c s = Option.bind (skip_char c s) (\<lambda>s. Option.bind (getnum fixed s)
     (\<lambda>(n, s). if lo \<le> n \<and> n \<le> hi then Some (n, s) else None))"

definition parse_layout :: "string \<Rightarrow> int option" where
  "parse_layout s =
     Option.bind (read_year s) (\<lambda>(y, s). Option.bind (read_part True 1 12 CHR ''-'' s)
       (\<lambda>(m, s). Option.bind (read_part True 0 99 CHR ''-'' s)
       (\<lambda>(d, s). Option.bind (read_part False 0 23 CHR ''T'' s)
       (\<lambda>(h, s). Option.bind (read_part True 0 59 CHR '':'' s)
       (\<lambda>(mi, s). Option.bind (read_part True 0 59 CHR '':'' s)
       (\<lambda>(sec, s). let (nsec, zone) = read_fraction s in
          if d < 1 \<or> nat (month_length (int y) (int m)) < d then None
          else map_option (\<lambda>offset. day_number (int y) (int m) (int d) * day_nanoseconds
              + (int (h * 3600 + mi * 60 + sec) - offset) * second_nanoseconds + int nsec) (read_zone zone)))))))"

definition parse_time :: "string \<Rightarrow> int option" where
  "parse_time s = (case parse_rfc3339 s of Some t \<Rightarrow> Some t | None \<Rightarrow> parse_layout s)"

lemma parse_time_samples:
  "parse_time ''2024-02-29T09:05:00Z'' = parse_time ''2024-02-29T9:05:00Z''"
  "parse_time ''2024-02-29T10:05:00+01:00'' = parse_time ''2024-02-29T09:05:00Z''"
  "parse_time ''2024-02-29T09:05:00,25Z'' = parse_time ''2024-02-29T09:05:00.25Z''"
  "parse_time ''2023-02-29T09:05:00Z'' = None"
  "parse_time ''0001-01-01T00:00:01.000000002Z'' = Some 1000000002"
  by code_simp+

subsection \<open>Round trip\<close>

lemma length_pad [simp]: "length (pad_digits k n) = k"
  by (induction k arbitrary: n) auto

lemma pad_digit: "c \<in> set (pad_digits k n) \<Longrightarrow> is_digit c"
proof (induction k arbitrary: n)
  case (Suc k)
  have "n mod 10 < 10" by simp
  then have "is_digit (char_of (48 + n mod 10))" by (simp add: is_digit_def)
  then show ?case using Suc by auto
qed simp

lemma pad_digits_value: "digits_value (pad_digits k n) = n mod 10 ^ k"
proof (induction k arbitrary: n)
  case 0
  then show ?case by (simp add: digits_value_def)
next
  case (Suc k)
  have "n mod 10 < 10" by simp
  then have "digits_value (pad_digits (Suc k) n) = (n div 10) mod 10 ^ k * 10 + n mod 10"
    using Suc by (simp add: digits_value_snoc)
  also have "\<dots> = n mod 10 ^ Suc k" by (simp add: mod_mult2_eq)
  finally show ?case .
qed

lemma parse_uint_pad:
  "n < 10 ^ k \<Longrightarrow> lo \<le> n \<Longrightarrow> n \<le> hi \<Longrightarrow> parse_uint (pad_digits k n) lo hi = Some n"
  using pad_digit by (auto simp: parse_uint_def pad_digits_value list_all_iff)

lemma trim_zeros_snoc: "trim_zeros (s @ [c]) = (if c = CHR ''0'' then trim_zeros s else s @ [c])"
  by (simp add: trim_zeros_def)

lemma trim_zeros_value:
  "digits_value s = digits_value (trim_zeros s) * 10 ^ (length s - length (trim_zeros s))
   \<and> length (trim_zeros s) \<le> length s \<and> set (trim_zeros s) \<subseteq> set s"
proof (induction s rule: rev_induct)
  case Nil
  then show ?case by (simp add: trim_zeros_def)
next
  case (snoc c s)
  show ?case
  proof (cases "c = CHR ''0''")
    case True
    then show ?thesis using snoc by (auto simp: trim_zeros_snoc digits_value_snoc Suc_diff_le)
  qed (simp add: trim_zeros_snoc)
qed

lemma rfc_layout:
  assumes "s = A @ CHR ''-'' # B @ CHR ''-'' # C @ CHR ''T'' # D @ CHR '':'' # F @ CHR '':'' # G @ rest"
    and "length A = 4" "length B = 2" "length C = 2" "length D = 2" "length F = 2" "length G = 2"
  shows "19 \<le> length s" "rfc_separators s" "take 4 s = A" "take 2 (drop 5 s) = B" "take 2 (drop 8 s) = C"
    "take 2 (drop 11 s) = D" "take 2 (drop 14 s) = F" "take 2 (drop 17 s) = G" "drop 19 s = rest"
  using assms by (auto simp: rfc_separators_def eval_nat_numeral length_Suc_conv)

lemma trim_zeros_digits:
  assumes "0 < n" and "n < 10 ^ k"
  shows "trim_zeros (pad_digits k n) \<noteq> []" "list_all is_digit (trim_zeros (pad_digits k n))"
    "length (trim_zeros (pad_digits k n)) \<le> k"
    "digits_value (trim_zeros (pad_digits k n)) * 10 ^ (k - length (trim_zeros (pad_digits k n))) = n"
proof -
  let ?t = "trim_zeros (pad_digits k n)"
  have t: "digits_value (pad_digits k n) = digits_value ?t * 10 ^ (length (pad_digits k n) - length ?t)"
    "length ?t \<le> length (pad_digits k n)" "set ?t \<subseteq> set (pad_digits k n)"
    using trim_zeros_value [of "pad_digits k n"] by blast+
  have v: "digits_value (pad_digits k n) = n" using assms(2) by (simp add: pad_digits_value)
  show "?t \<noteq> []" using t(1) v assms(1) by (auto simp: digits_value_def)
  show "list_all is_digit ?t" using t(3) pad_digit by (auto simp: list_all_iff)
  show "length ?t \<le> k" "digits_value ?t * 10 ^ (k - length ?t) = n" using t(1,2) v by simp_all
qed

lemma rfc_fraction_zone: "rfc_fraction ''Z'' = (0, ''Z'')"
  by (simp add: rfc_fraction_def)

lemma rfc_fraction_digits:
  assumes "list_all is_digit ds" and "ds \<noteq> []" and "length ds \<le> 9"
  shows "rfc_fraction (CHR ''.'' # ds @ ''Z'') = (digits_value ds * 10 ^ (9 - length ds), ''Z'')"
proof -
  have all: "\<forall>c \<in> set ds. is_digit c" using assms(1) by (simp add: list_all_iff)
  have z: "\<not> is_digit CHR ''Z''" by (simp add: is_digit_def)
  have "takeWhile is_digit (ds @ ''Z'') = ds" "dropWhile is_digit (ds @ ''Z'') = ''Z''"
    using all z by (simp_all add: takeWhile_append2 dropWhile_append2)
  moreover have "(ds @ ''Z'') ! 0 = hd ds" "is_digit (hd ds)" using assms(1,2) all by (cases ds; simp)+
  moreover have "2 \<le> length (CHR ''.'' # ds @ ''Z'')" by simp
  ultimately show ?thesis using assms(3) by (simp add: rfc_fraction_def)
qed

text \<open>The seconds of the day as hours, minutes and seconds.\<close>

lemma clock_parts:
  fixes secs :: int
  assumes "0 \<le> secs" and "secs < 86400"
  shows "0 \<le> secs div 3600" "secs div 3600 < 24" "0 \<le> secs div 60 mod 60" "secs div 60 mod 60 < 60"
    "0 \<le> secs mod 60" "secs mod 60 < 60" "secs div 3600 * 3600 + secs div 60 mod 60 * 60 + secs mod 60 = secs"
proof -
  have "secs div 3600 = secs div 60 div 60" by (simp add: zdiv_zmult2_eq [symmetric])
  moreover have "secs div 60 = secs div 60 div 60 * 60 + secs div 60 mod 60" by simp
  moreover have "secs = secs div 60 * 60 + secs mod 60" by simp
  ultimately show "secs div 3600 * 3600 + secs div 60 mod 60 * 60 + secs mod 60 = secs" by linarith
  show "0 \<le> secs div 3600" "secs div 3600 < 24" using assms by (simp_all add: div_less_iff_less_mult pos_imp_zdiv_nonneg_iff) 
qed simp_all

theorem parse_format_time:
  assumes "year_ok t"
  shows "parse_rfc3339 (format_time t) = Some t"
proof -
  obtain y m d where c: "civil (t div day_nanoseconds) = (y, m, d)" by (cases "civil (t div day_nanoseconds)")
  note date = civil_day [OF c]
  have y: "y = year_of (t div day_nanoseconds)" using c by (simp add: civil_def Let_def)
  then have y: "0 \<le> y" "y \<le> 9999" using assms by (simp_all add: year_ok_def)
  have len: "28 \<le> month_length y m" "month_length y m \<le> 31" using month_length date(1,2) by auto
  define ns where "ns = t mod day_nanoseconds"
  define secs where "secs = ns div second_nanoseconds"
  define nsec where "nsec = ns mod second_nanoseconds"
  have ns: "0 \<le> ns" "ns < 86400000000000" by (simp_all add: ns_def day_nanoseconds_def)
  have split: "ns = secs * 1000000000 + nsec" "0 \<le> nsec" "nsec < 1000000000"
    by (simp_all add: secs_def nsec_def second_nanoseconds_def)
  have secs: "0 \<le> secs" "secs < 86400" using ns split by linarith+
  define h where "h = secs div 3600"
  define mi where "mi = secs div 60 mod 60"
  define se where "se = secs mod 60"
  have h: "0 \<le> h" "h < 24" and mi: "0 \<le> mi" "mi < 60" and se: "0 \<le> se" "se < 60"
    and whole: "h * 3600 + mi * 60 + se = secs"
    using clock_parts [OF secs] by (simp_all only: h_def mi_def se_def)
  define frac where "frac = (if nsec = 0 then [] else ''.'' @ trim_zeros (pad_digits 9 (nat nsec)))"
  have eq: "format_time t = pad_digits 4 (nat y) @ CHR ''-'' # pad_digits 2 (nat m) @ CHR ''-''
      # pad_digits 2 (nat d) @ CHR ''T'' # pad_digits 2 (nat h) @ CHR '':''
      # pad_digits 2 (nat mi) @ CHR '':'' # pad_digits 2 (nat se) @ frac @ ''Z''"
    unfolding format_time_def c frac_def h_def mi_def se_def secs_def nsec_def ns_def by (simp add: Let_def)
  note parts = rfc_layout [OF eq length_pad length_pad length_pad length_pad length_pad length_pad]
  have "rfc_date (format_time t) = Some (y, m, d)"
    unfolding rfc_date_def parts using y date(1-4) len by (simp add: parse_uint_pad)
  moreover have "rfc_clock (format_time t) = Some secs"
    unfolding rfc_clock_def parts using h mi se by (simp add: parse_uint_pad flip: whole)
  moreover have "rfc_fraction (frac @ ''Z'') = (nat nsec, ''Z'')"
  proof (cases "nsec = 0")
    case False
    then have "0 < nat nsec" "nat nsec < 10 ^ 9" using split by simp_all
    note digits = trim_zeros_digits [OF this]
    then show ?thesis using False rfc_fraction_digits [OF digits(2) digits(1) digits(3)] by (simp add: frac_def)
  qed (simp add: frac_def rfc_fraction_zone)
  moreover have "day_number y m d * day_nanoseconds + secs * second_nanoseconds + nsec = t"
    using split(1) div_mult_mod_eq [of t day_nanoseconds]
    unfolding date(5) ns_def second_nanoseconds_def by linarith
  ultimately show ?thesis
    using parts(1,2,9) split(2) by (simp add: parse_rfc3339_def rfc_zone_def)
qed

definition time_char :: "char \<Rightarrow> bool" where
  "time_char c \<longleftrightarrow> is_digit c \<or> c \<in> set ''-:.TZ''"

lemma format_time_chars: "list_all time_char (format_time t)"
proof -
  have pad: "list_all time_char (pad_digits k n)" for k n
    using pad_digit by (auto simp: list_all_iff time_char_def)
  moreover have "set (trim_zeros xs) \<subseteq> set xs" for xs using trim_zeros_value [of xs] by blast
  ultimately have "list_all time_char (trim_zeros (pad_digits k n))" for k n
    unfolding list_all_iff by blast
  then show ?thesis
    unfolding format_time_def by (simp add: pad Let_def split_beta time_char_def)
qed

end
