(* ===== verification/Go_Json_Structs.thy ===== *)
theory Go_Json_Structs
  imports Go_Json Go_Time_Text "HOL-Library.List_Lexorder" "HOL-Library.Char_ord"
begin

text \<open>
  How package \<^verbatim>\<open>encoding/json\<close> maps Go values to JSON.  For a struct type the package keeps
  one table of its fields, which its encoder and its decoder share; so does the model.  A decoder reads
  \<^emph>\<open>into\<close> an existing value: \<open>null\<close> leaves a scalar or a struct as it is and makes a map or a slice
  nil, a member that the text does not name keeps its value, and a map keeps its other entries.  \<open>None\<close> is a
  type error.
\<close>

subsection \<open>Scalars, slices and maps\<close>

definition enc_string :: "string \<Rightarrow> json" where "enc_string s = J_Str (quote_json s)"
definition enc_int :: "int \<Rightarrow> json" where "enc_int i = J_Num (itoa i)"
definition enc_bool :: "bool \<Rightarrow> json" where "enc_bool b = J_Bool b"
definition enc_time :: "int \<Rightarrow> json" where "enc_time t = J_Str (format_time t)"

text \<open>
  A slice is read element by element into the array behind it.  When a text names it more than
  once, its elements are read into what earlier values left there, also behind a shorter slice; a
  slice comes with these spare elements.
\<close>

definition enc_slice :: "('v \<Rightarrow> json) \<Rightarrow> 'v slice \<times> 'v list \<Rightarrow> json" where
  "enc_slice enc v = (case fst v of None \<Rightarrow> J_Null | Some xs \<Rightarrow> J_Arr (map enc xs))"

fun dec_elements :: "(json \<Rightarrow> 'v \<Rightarrow> 'v option) \<Rightarrow> 'v \<Rightarrow> json list \<Rightarrow> 'v list \<Rightarrow> 'v list option" where
  "dec_elements dec zero [] array = Some []"
| "dec_elements dec zero (j # js) array =
     Option.bind (dec j (case array of [] \<Rightarrow> zero | v # _ \<Rightarrow> v))
       (\<lambda>v. map_option ((#) v) (dec_elements dec zero js (tl array)))"

definition dec_slice :: "(json \<Rightarrow> 'v \<Rightarrow> 'v option) \<Rightarrow> 'v \<Rightarrow> json \<Rightarrow> 'v slice \<times> 'v list
    \<Rightarrow> ('v slice \<times> 'v list) option" where
  "dec_slice dec zero j v = (case j of
       J_Null \<Rightarrow> Some (None, [])
     | J_Arr js \<Rightarrow>
         if js = [] then Some (Some [], [])
         else map_option (\<lambda>xs. (Some xs, drop (length js) (elems (fst v) @ snd v)))
           (dec_elements dec zero js (elems (fst v) @ snd v))
     | _ \<Rightarrow> None)"

definition enc_strings :: "string slice \<Rightarrow> json" where
  "enc_strings vs = enc_slice enc_string (vs, [])"

text \<open>The keys of a map are written in order.\<close>

definition enc_string_map :: "(string, string slice) gomap option \<Rightarrow> json" where
  "enc_string_map h = (case h of None \<Rightarrow> J_Null
     | Some m \<Rightarrow> J_Obj (map (\<lambda>(k, v). (quote_json k, enc_strings v)) (sort_key fst m)))"

definition dec_string :: "json \<Rightarrow> string \<Rightarrow> string option" where
  "dec_string j v = (case j of J_Null \<Rightarrow> Some v | J_Str raw \<Rightarrow> Some (unquote_json raw) | _ \<Rightarrow> None)"

definition dec_int :: "json \<Rightarrow> int \<Rightarrow> int option" where
  "dec_int j v = (case j of J_Null \<Rightarrow> Some v | J_Num lit \<Rightarrow> atoi lit | _ \<Rightarrow> None)"

definition dec_bool :: "json \<Rightarrow> bool \<Rightarrow> bool option" where
  "dec_bool j v = (case j of J_Null \<Rightarrow> Some v | J_Bool b \<Rightarrow> Some b | _ \<Rightarrow> None)"

text \<open>\<^verbatim>\<open>Time.UnmarshalJSON\<close> gets the raw text.\<close>

definition dec_time :: "json \<Rightarrow> int \<Rightarrow> int option" where
  "dec_time j v = (case j of J_Null \<Rightarrow> Some v | J_Str raw \<Rightarrow> parse_time raw | _ \<Rightarrow> None)"

text \<open>The value of a map entry is always read into a new, nil slice.\<close>

definition dec_strings :: "json \<Rightarrow> string slice option" where
  "dec_strings j = map_option fst (dec_slice dec_string [] j (None, []))"

fun dec_entries :: "(string \<times> json) list \<Rightarrow> (string, string slice) gomap \<Rightarrow> (string, string slice) gomap option" where
  "dec_entries [] m = Some m"
| "dec_entries ((k, j) # ms) m = Option.bind (dec_strings j) (\<lambda>v. dec_entries ms (gomap_set (unquote_json k) v m))"

definition dec_string_map :: "json \<Rightarrow> (string, string slice) gomap option \<Rightarrow> (string, string slice) gomap option option" where
  "dec_string_map j h = (case j of J_Null \<Rightarrow> Some None
     | J_Obj ms \<Rightarrow> map_option Some (dec_entries ms (elems h)) | _ \<Rightarrow> None)"

subsection \<open>Structs\<close>

text \<open>The name of a field, when the encoder omits it, and how it is written and read.\<close>

type_synonym 'a json_field = "string \<times> ('a \<Rightarrow> bool) \<times> ('a \<Rightarrow> json) \<times> (json \<Rightarrow> 'a \<Rightarrow> 'a option)"

definition field :: "string \<Rightarrow> ('v \<Rightarrow> bool) \<Rightarrow> ('a \<Rightarrow> 'v) \<Rightarrow> (('v \<Rightarrow> 'v) \<Rightarrow> 'a \<Rightarrow> 'a) \<Rightarrow> ('v \<Rightarrow> json)
    \<Rightarrow> (json \<Rightarrow> 'v \<Rightarrow> 'v option) \<Rightarrow> 'a json_field" where
  "field name omit get upd enc dec =
     (name, \<lambda>x. omit (get x), \<lambda>x. enc (get x), \<lambda>j x. map_option (\<lambda>v. upd (\<lambda>_. v) x) (dec j (get x)))"

definition keep :: "'v \<Rightarrow> bool" where
  "keep v \<longleftrightarrow> False"

definition enc_struct :: "'a json_field list \<Rightarrow> 'a \<Rightarrow> json" where
  "enc_struct fs x = J_Obj (map (\<lambda>(n, om, w, r). (quote_json n, w x)) (filter (\<lambda>(n, om, w, r). \<not> om x) fs))"

text \<open>The field of exactly that name, else one whose name differs in case only.\<close>

definition find_field :: "ext \<Rightarrow> 'a json_field list \<Rightarrow> string \<Rightarrow> 'a json_field option" where
  "find_field E fs key = (case find (\<lambda>f. fst f = key) fs of Some f \<Rightarrow> Some f
     | None \<Rightarrow> find (\<lambda>f. equal_fold E key (fst f)) fs)"

fun dec_members :: "ext \<Rightarrow> 'a json_field list \<Rightarrow> (string \<times> json) list \<Rightarrow> 'a \<Rightarrow> 'a option" where
  "dec_members E fs [] x = Some x"
| "dec_members E fs ((k, j) # ms) x =
     Option.bind (case find_field E fs (unquote_json k) of None \<Rightarrow> Some x | Some (n, om, w, r) \<Rightarrow> r j x)
       (dec_members E fs ms)"

definition dec_struct :: "ext \<Rightarrow> 'a json_field list \<Rightarrow> json \<Rightarrow> 'a \<Rightarrow> 'a option" where
  "dec_struct E fs j x = (case j of J_Null \<Rightarrow> Some x | J_Obj ms \<Rightarrow> dec_members E fs ms x | _ \<Rightarrow> None)"

subsection \<open>What is written is well formed\<close>

lemma enc_scalar_ok [simp]:
  "json_ok (enc_string s)" "json_ok (enc_int i)" "json_ok (enc_bool b)"
  "depth (enc_string s) = 0" "depth (enc_int i) = 0" "depth (enc_bool b) = 0" "depth (enc_time t) = 0"
  by (simp_all add: enc_string_def enc_int_def enc_bool_def enc_time_def)

lemma time_raw_ok: "raw_ok (format_time t)"
proof -
  have "c \<noteq> quote_mark \<and> 32 \<le> byte c \<and> c \<noteq> backslash" if "c \<in> set (format_time t)" for c
  proof -
    have "time_char c" using format_time_chars that by (simp add: list_all_iff)
    then show ?thesis by (auto simp: time_char_def is_digit_def quote_mark_def backslash_def)
  qed
  then have "scan_string (format_time t @ quote_mark # rest)
      = map_option (\<lambda>(raw, r). (format_time t @ raw, r)) (scan_string (quote_mark # rest))" for rest
    by (rule scan_plains)
  then show ?thesis by (simp add: raw_ok_def)
qed

lemma enc_time_ok [simp]: "json_ok (enc_time t)"
  by (simp add: enc_time_def time_raw_ok)

lemma depth_Arr: "(\<And>j. j \<in> set js \<Longrightarrow> depth j \<le> d) \<Longrightarrow> depth (J_Arr js) \<le> Suc d"
  by simp

lemma depth_Obj: "(\<And>k j. (k, j) \<in> set ms \<Longrightarrow> depth j \<le> d) \<Longrightarrow> depth (J_Obj ms) \<le> Suc d"
  by auto

lemma enc_slice_ok:
  assumes "\<And>x. json_ok (enc x) \<and> depth (enc x) \<le> d"
  shows "json_ok (enc_slice enc v)" "depth (enc_slice enc v) \<le> Suc d"
proof -
  show "json_ok (enc_slice enc v)" using assms by (simp add: enc_slice_def list_all_iff split: option.split)
  have "depth (J_Arr (map enc xs)) \<le> Suc d" for xs by (rule depth_Arr) (use assms in auto)
  then show "depth (enc_slice enc v) \<le> Suc d" by (simp add: enc_slice_def del: depth.simps(1) split: option.split)
qed

lemma enc_strings_ok: "json_ok (enc_strings v)" "depth (enc_strings v) \<le> 1"
  using enc_slice_ok [of enc_string 0] by (simp_all add: enc_strings_def)

lemma enc_string_map_ok: "json_ok (enc_string_map h)" "depth (enc_string_map h) \<le> 2"
proof -
  show "json_ok (enc_string_map h)"
    using enc_strings_ok(1) by (auto simp: enc_string_map_def list_all_iff split: option.split)
  have "depth (J_Obj (map (\<lambda>(k, v). (quote_json k, enc_strings v)) m)) \<le> Suc 1" for m
    by (rule depth_Obj) (use enc_strings_ok(2) in auto)
  then show "depth (enc_string_map h) \<le> 2"
    by (cases h) (simp_all add: enc_string_map_def numeral_2_eq_2 del: depth.simps(2))
qed

lemma enc_struct_ok:
  assumes "\<And>n om w r. (n, om, w, r) \<in> set fs \<Longrightarrow> json_ok (w x) \<and> depth (w x) \<le> d"
  shows "json_ok (enc_struct fs x)" "depth (enc_struct fs x) \<le> Suc d"
proof -
  show "json_ok (enc_struct fs x)" using assms by (auto simp: enc_struct_def list_all_iff)
  show "depth (enc_struct fs x) \<le> Suc d"
    unfolding enc_struct_def by (rule depth_Obj) (use assms in auto)
qed

lemma enc_fields_ok:
  assumes "list_all (\<lambda>(n, om, w, r). json_ok (w x) \<and> depth (w x) \<le> d) fs"
  shows "json_ok (enc_struct fs x) \<and> depth (enc_struct fs x) \<le> Suc d"
  using enc_struct_ok [of fs x d] assms by (force simp: list_all_iff)

subsection \<open>What is read back\<close>

lemma dec_enc_string: "dec_string (enc_string s) v = Some (to_valid s)"
  by (simp add: dec_string_def enc_string_def unquote_quote_json)

lemma dec_enc_int: "- (2 ^ 63) \<le> i \<Longrightarrow> i < 2 ^ 63 \<Longrightarrow> dec_int (enc_int i) v = Some i"
  by (simp add: dec_int_def enc_int_def atoi_itoa)

lemma dec_enc_bool: "dec_bool (enc_bool b) v = Some b"
  by (simp add: dec_bool_def enc_bool_def)

lemma dec_enc_time: "year_ok t \<Longrightarrow> dec_time (enc_time t) v = Some t"
  by (simp add: dec_time_def enc_time_def parse_time_def parse_format_time)

definition wire_strings :: "string slice \<Rightarrow> string slice" where
  "wire_strings v = map_option (map to_valid) v"

definition wire_map :: "(string, string slice) gomap \<Rightarrow> (string, string slice) gomap" where
  "wire_map m = foldl (\<lambda>m (k, v). gomap_set (to_valid k) (wire_strings v) m) [] (sort_key fst m)"

lemma dec_enc_slice:
  assumes "\<forall>x \<in> set (elems v). dec (enc x) zero = Some (f x)"
  shows "dec_slice dec zero (enc_slice enc (v, [])) (None, []) = Some (map_option (map f) v, [])"
proof -
  have "dec_elements dec zero (map enc xs) [] = Some (map f xs)" if "\<forall>x \<in> set xs. dec (enc x) zero = Some (f x)" for xs
    using that by (induction xs) simp_all
  then show ?thesis using assms by (cases v) (auto simp: dec_slice_def enc_slice_def)
qed

lemma dec_enc_strings: "dec_strings (enc_strings v) = Some (wire_strings v)"
  using dec_enc_slice [of v dec_string enc_string "[]" to_valid]
  by (simp add: dec_strings_def enc_strings_def wire_strings_def dec_enc_string)

lemma dec_enc_entries:
  "dec_entries (map (\<lambda>(k, v). (quote_json k, enc_strings v)) xs) m
    = Some (foldl (\<lambda>m (k, v). gomap_set (to_valid k) (wire_strings v) m) m xs)"
  by (induction xs arbitrary: m) (auto simp: dec_enc_strings unquote_quote_json)

lemma dec_enc_string_map: "dec_string_map (enc_string_map h) None = Some (map_option wire_map h)"
  by (simp add: dec_string_map_def enc_string_map_def wire_map_def dec_enc_entries split: option.split)

text \<open>Valid strings come back as they are, and a map of them in the order of its keys.\<close>

definition valid_strings :: "string slice \<Rightarrow> bool" where
  "valid_strings v \<longleftrightarrow> list_all utf8_valid (elems v)"

definition valid_map :: "(string, string slice) gomap \<Rightarrow> bool" where
  "valid_map m \<longleftrightarrow> wf_gomap m \<and> list_all (\<lambda>(k, v). utf8_valid k \<and> valid_strings v) m"

lemma wire_strings_valid: "valid_strings v \<Longrightarrow> wire_strings v = v"
  by (cases v) (auto simp: valid_strings_def wire_strings_def list_all_iff to_valid_id intro: map_idI)

lemma wire_map_valid:
  assumes "valid_map m"
  shows "wire_map m = sort_key fst m"
proof -
  let ?f = "\<lambda>m (k, v). gomap_set (to_valid k) (wire_strings v) m"
  have fold: "foldl ?f a xs = a @ xs" if "distinct (map fst (a @ xs))"
    and "list_all (\<lambda>(k, v). utf8_valid k \<and> valid_strings v) xs" for a xs
    using that
  proof (induction xs arbitrary: a)
    case (Cons p xs)
    obtain k v where p: "p = (k, v)" by (cases p)
    have "utf8_valid k \<and> valid_strings v" using Cons.prems(2) p by simp
    moreover have "k \<notin> fst ` set a" using Cons.prems(1) p by auto
    ultimately have "?f a p = a @ [p]" by (simp add: p to_valid_id wire_strings_valid gomap_set_new)
    then show ?case using Cons.IH [of "a @ [p]"] Cons.prems by simp
  qed simp
  have "distinct (map fst (sort_key fst m))"
    using assms by (simp add: valid_map_def wf_gomap_def distinct_map)
  then show ?thesis
    using fold [of "[]" "sort_key fst m"] assms by (simp add: wire_map_def valid_map_def list_all_iff)
qed

text \<open>Reading the members that a struct's table has written runs the readers of the fields that are not omitted.\<close>

fun run_fields :: "'a json_field list \<Rightarrow> 'a \<Rightarrow> 'a \<Rightarrow> 'a option" where
  "run_fields [] m x = Some x"
| "run_fields ((n, om, w, r) # fs) m x =
     (if om m then run_fields fs m x else Option.bind (r (w m) x) (run_fields fs m))"

definition wf_fields :: "'a json_field list \<Rightarrow> bool" where
  "wf_fields fs \<longleftrightarrow> distinct (map fst fs) \<and> list_all (\<lambda>f. utf8_valid (fst f)) fs"

lemma find_field_own:
  assumes "wf_fields fs" and "f \<in> set fs"
  shows "find_field E fs (fst f) = Some f"
proof -
  have "distinct (map fst fs)" using assms(1) by (simp add: wf_fields_def)
  then have "find (\<lambda>g. fst g = fst f) fs = Some f" using assms(2) by (induction fs) auto
  then show ?thesis by (simp add: find_field_def)
qed

lemma dec_members_written:
  assumes "wf_fields all" and "set fs \<subseteq> set all"
  shows "dec_members E all (map (\<lambda>(n, om, w, r). (quote_json n, w m)) (filter (\<lambda>(n, om, w, r). \<not> om m) fs)) x
    = run_fields fs m x"
  using assms(2)
proof (induction fs arbitrary: x)
  case (Cons f fs)
  obtain n om w r where f: "f = (n, om, w, r)" by (cases f)
  have "utf8_valid n" using assms(1) Cons.prems f by (auto simp: wf_fields_def list_all_iff)
  then have "find_field E all (unquote_json (quote_json n)) = Some f"
    using find_field_own [OF assms(1), of f E] Cons.prems f by (simp add: unquote_quote_json to_valid_id)
  then show ?case
    using Cons f by (cases "r (w m) x") simp_all
qed simp

lemma dec_enc_struct:
  "wf_fields fs \<Longrightarrow> dec_struct E fs (enc_struct fs m) x = run_fields fs m x"
  by (simp add: dec_struct_def enc_struct_def dec_members_written)

lemma run_keep:
  "run_fields (field name keep get upd enc dec # fs) m x
    = Option.bind (dec (enc (get m)) (get x)) (\<lambda>v. run_fields fs m (upd (\<lambda>_. v) x))"
  by (cases "dec (enc (get m)) (get x)") (simp_all add: field_def keep_def)

text \<open>A field that may be omitted is read into a value in which it has its zero value.\<close>

lemma run_omit:
  assumes "omit (get m) \<Longrightarrow> upd (\<lambda>_. v) x = x" and "\<not> omit (get m) \<Longrightarrow> dec (enc (get m)) (get x) = Some v"
  shows "run_fields (field name omit get upd enc dec # fs) m x = run_fields fs m (upd (\<lambda>_. v) x)"
  using assms by (simp add: field_def)

lemma run_omit_string:
  "upd (\<lambda>_. []) x = x \<Longrightarrow> run_fields (field name (\<lambda>v. v = []) get upd enc_string dec_string # fs) m x
    = run_fields fs m (upd (\<lambda>_. to_valid (get m)) x)"
  by (rule run_omit) (simp_all add: dec_enc_string)

definition int64 :: "int \<Rightarrow> bool" where
  "int64 i \<longleftrightarrow> - (2 ^ 63) \<le> i \<and> i < 2 ^ 63"

lemma dec_enc_int64: "int64 i \<Longrightarrow> dec_int (enc_int i) v = Some i"
  by (simp add: int64_def dec_enc_int)

lemma run_omit_int:
  "upd (\<lambda>_. 0) x = x \<Longrightarrow> int64 (get m) \<Longrightarrow> run_fields (field name (\<lambda>v. v = 0) get upd enc_int dec_int # fs) m x
    = run_fields fs m (upd (\<lambda>_. get m) x)"
  by (rule run_omit) (simp_all add: dec_enc_int64)

text \<open>A map whose entries are none is omitted, and is nil afterwards.\<close>

definition wire_omitted :: "(string, string slice) gomap option \<Rightarrow> (string, string slice) gomap option" where
  "wire_omitted h = (if elems h = [] then None else map_option wire_map h)"

lemma run_omit_map:
  "upd (\<lambda>_. None) x = x \<Longrightarrow> get x = None \<Longrightarrow>
   run_fields (field name (\<lambda>v. elems v = []) get upd enc_string_map dec_string_map # fs) m x
    = run_fields fs m (upd (\<lambda>_. wire_omitted (get m)) x)"
  by (rule run_omit) (simp_all add: dec_enc_string_map wire_omitted_def)

lemmas field_runs = run_keep run_omit_string run_omit_int run_omit_map dec_enc_string dec_enc_bool dec_enc_int64
  dec_enc_time dec_enc_string_map

end
