(* ===== verification/Codec.thy ===== *)
theory Codec
  imports Go_Json_Structs Tunnel_Protocol
begin

text \<open>
  \<^verbatim>\<open>codec.go\<close>: \<^verbatim>\<open>Encode\<close> and \<^verbatim>\<open>Decode\<close>.  Each struct of \<^verbatim>\<open>message.go\<close> has its
  table of fields, in the order of the struct and with the names and \<^verbatim>\<open>omitempty\<close> options of its tags.
\<close>

subsection \<open>The tables of message.go\<close>

definition empty_captured_body :: captured_body where
  "empty_captured_body = \<lparr>cb_captured = False, cb_content_type = [], cb_content = [], cb_size_bytes = 0,
     cb_captured_bytes = 0, cb_truncated = False, cb_reason = []\<rparr>"

definition body_fields :: "captured_body json_field list" where
  "body_fields =
     [field ''captured'' keep cb_captured cb_captured_update enc_bool dec_bool,
      field ''contentType'' (\<lambda>v. v = []) cb_content_type cb_content_type_update enc_string dec_string,
      field ''content'' (\<lambda>v. v = []) cb_content cb_content_update enc_string dec_string,
      field ''sizeBytes'' keep cb_size_bytes cb_size_bytes_update enc_int dec_int,
      field ''capturedBytes'' keep cb_captured_bytes cb_captured_bytes_update enc_int dec_int,
      field ''truncated'' keep cb_truncated cb_truncated_update enc_bool dec_bool,
      field ''reason'' (\<lambda>v. v = []) cb_reason cb_reason_update enc_string dec_string]"

definition request_fields :: "ext \<Rightarrow> captured_request json_field list" where
  "request_fields E =
     [field ''method'' keep rq_method rq_method_update enc_string dec_string,
      field ''path'' keep rq_path rq_path_update enc_string dec_string,
      field ''rawQuery'' (\<lambda>v. v = []) rq_raw_query rq_raw_query_update enc_string dec_string,
      field ''headers'' keep rq_headers rq_headers_update enc_string_map dec_string_map,
      field ''body'' keep rq_body rq_body_update (enc_struct body_fields) (dec_struct E body_fields),
      field ''sizeBytes'' keep rq_size_bytes rq_size_bytes_update enc_int dec_int]"

definition response_fields :: "ext \<Rightarrow> captured_response json_field list" where
  "response_fields E =
     [field ''status'' keep rs_status rs_status_update enc_int dec_int,
      field ''headers'' keep rs_headers rs_headers_update enc_string_map dec_string_map,
      field ''body'' keep rs_body rs_body_update (enc_struct body_fields) (dec_struct E body_fields),
      field ''sizeBytes'' keep rs_size_bytes rs_size_bytes_update enc_int dec_int]"

definition interaction_fields :: "ext \<Rightarrow> dependency_interaction json_field list" where
  "interaction_fields E =
     [field ''id'' keep di_id di_id_update enc_string dec_string,
      field ''scheme'' keep di_scheme di_scheme_update enc_string dec_string,
      field ''host'' keep di_host di_host_update enc_string dec_string,
      field ''port'' keep di_port di_port_update enc_int dec_int,
      field ''handledBy'' keep di_handled_by di_handled_by_update enc_string dec_string,
      field ''startedAt'' keep di_started_at di_started_at_update enc_time dec_time,
      field ''completedAt'' keep di_completed_at di_completed_at_update enc_time dec_time,
      field ''durationMs'' keep di_duration_ms di_duration_ms_update enc_int dec_int,
      field ''request'' keep di_request di_request_update
        (enc_struct (request_fields E)) (dec_struct E (request_fields E)),
      field ''response'' keep di_response di_response_update
        (enc_struct (response_fields E)) (dec_struct E (response_fields E))]"

definition behavior_fields :: "dependency_behavior json_field list" where
  "behavior_fields =
     [field ''id'' keep db_id db_id_update enc_string dec_string,
      field ''scheme'' keep db_scheme db_scheme_update enc_string dec_string,
      field ''host'' keep db_host db_host_update enc_string dec_string,
      field ''port'' keep db_port db_port_update enc_int dec_int,
      field ''method'' keep db_method db_method_update enc_string dec_string,
      field ''path'' keep db_path db_path_update enc_string dec_string,
      field ''status'' keep db_status db_status_update enc_int dec_int,
      field ''headers'' keep db_headers db_headers_update enc_string_map dec_string_map,
      field ''body'' keep db_body db_body_update enc_string dec_string]"

definition empty_request :: captured_request where
  "empty_request = \<lparr>rq_method = [], rq_path = [], rq_raw_query = [], rq_headers = None, rq_body = empty_captured_body,
     rq_size_bytes = 0\<rparr>"

definition empty_response :: captured_response where
  "empty_response = \<lparr>rs_status = 0, rs_headers = None, rs_body = empty_captured_body, rs_size_bytes = 0\<rparr>"

definition empty_interaction :: dependency_interaction where
  "empty_interaction = \<lparr>di_id = [], di_scheme = [], di_host = [], di_port = 0, di_handled_by = [],
     di_started_at = 0, di_completed_at = 0, di_duration_ms = 0,
     di_request = empty_request, di_response = empty_response\<rparr>"

definition empty_behavior :: dependency_behavior where
  "empty_behavior = \<lparr>db_id = [], db_scheme = [], db_host = [], db_port = 0, db_method = [], db_path = [],
     db_status = 0, db_headers = None, db_body = []\<rparr>"

text \<open>The spare elements of the slice of behaviours are part of the decoder's state.\<close>

record snapshot_buffer = dependency_snapshot +
  sb_spare :: "dependency_behavior list"

record message_buffer = message +
  mb_spare :: "dependency_behavior list"

definition enc_behaviors :: "dependency_behavior slice \<times> dependency_behavior list \<Rightarrow> json" where
  "enc_behaviors = enc_slice (enc_struct behavior_fields)"

definition dec_behaviors :: "ext \<Rightarrow> json \<Rightarrow> dependency_behavior slice \<times> dependency_behavior list
    \<Rightarrow> (dependency_behavior slice \<times> dependency_behavior list) option" where
  "dec_behaviors E = dec_slice (dec_struct E behavior_fields) empty_behavior"

definition set_behaviors :: "(dependency_behavior slice \<times> dependency_behavior list
    \<Rightarrow> dependency_behavior slice \<times> dependency_behavior list) \<Rightarrow> snapshot_buffer \<Rightarrow> snapshot_buffer" where
  "set_behaviors f b = (let v = f (ds_behaviors b, sb_spare b) in b\<lparr>ds_behaviors := fst v, sb_spare := snd v\<rparr>)"

definition snapshot_fields :: "ext \<Rightarrow> snapshot_buffer json_field list" where
  "snapshot_fields E =
     [field ''endpointId'' keep ds_endpoint_id ds_endpoint_id_update enc_string dec_string,
      field ''behaviors'' keep (\<lambda>b. (ds_behaviors b, sb_spare b)) set_behaviors enc_behaviors (dec_behaviors E)]"

definition buffer_of :: "dependency_snapshot \<Rightarrow> dependency_behavior list \<Rightarrow> snapshot_buffer" where
  "buffer_of s spare = \<lparr>ds_endpoint_id = ds_endpoint_id s, ds_behaviors = ds_behaviors s, sb_spare = spare\<rparr>"

definition unbuffered :: "snapshot_buffer \<Rightarrow> dependency_snapshot" where
  "unbuffered b = \<lparr>ds_endpoint_id = ds_endpoint_id b, ds_behaviors = ds_behaviors b\<rparr>"

text \<open>A pointer is allocated when it is nil and kept otherwise.\<close>

definition enc_interaction :: "ext \<Rightarrow> dependency_interaction option \<Rightarrow> json" where
  "enc_interaction E d = (case d of None \<Rightarrow> J_Null | Some d \<Rightarrow> enc_struct (interaction_fields E) d)"

definition dec_interaction :: "ext \<Rightarrow> json \<Rightarrow> dependency_interaction option \<Rightarrow> dependency_interaction option option" where
  "dec_interaction E j d = (if j = J_Null then Some None
     else map_option Some (dec_struct E (interaction_fields E) j (case d of None \<Rightarrow> empty_interaction | Some d \<Rightarrow> d)))"

definition enc_snapshot :: "ext \<Rightarrow> dependency_snapshot option \<times> dependency_behavior list \<Rightarrow> json" where
  "enc_snapshot E v = (case fst v of None \<Rightarrow> J_Null
     | Some s \<Rightarrow> enc_struct (snapshot_fields E) (buffer_of s (snd v)))"

definition dec_snapshot :: "ext \<Rightarrow> json \<Rightarrow> dependency_snapshot option \<times> dependency_behavior list
    \<Rightarrow> (dependency_snapshot option \<times> dependency_behavior list) option" where
  "dec_snapshot E j v = (if j = J_Null then Some (None, [])
     else map_option (\<lambda>b. (Some (unbuffered b), sb_spare b))
       (dec_struct E (snapshot_fields E) j
         (case fst v of None \<Rightarrow> buffer_of \<lparr>ds_endpoint_id = [], ds_behaviors = None\<rparr> [] | Some s \<Rightarrow> buffer_of s (snd v))))"

definition set_config :: "(dependency_snapshot option \<times> dependency_behavior list
    \<Rightarrow> dependency_snapshot option \<times> dependency_behavior list) \<Rightarrow> message_buffer \<Rightarrow> message_buffer" where
  "set_config f b = (let v = f (msg_dependency_config b, mb_spare b)
     in b\<lparr>msg_dependency_config := fst v, mb_spare := snd v\<rparr>)"

definition message_fields :: "ext \<Rightarrow> message_buffer json_field list" where
  "message_fields E =
     [field ''version'' keep msg_version msg_version_update enc_int dec_int,
      field ''type'' keep msg_type msg_type_update enc_string dec_string,
      field ''requestId'' (\<lambda>v. v = []) msg_request_id msg_request_id_update enc_string dec_string,
      field ''method'' (\<lambda>v. v = []) msg_method msg_method_update enc_string dec_string,
      field ''path'' (\<lambda>v. v = []) msg_path msg_path_update enc_string dec_string,
      field ''headers'' (\<lambda>v. elems v = []) msg_headers msg_headers_update enc_string_map dec_string_map,
      field ''bodyBase64'' (\<lambda>v. v = []) msg_body_base64 msg_body_base64_update enc_string dec_string,
      field ''status'' (\<lambda>v. v = 0) msg_status msg_status_update enc_int dec_int,
      field ''errorCode'' (\<lambda>v. v = []) msg_error_code msg_error_code_update enc_string dec_string,
      field ''error'' (\<lambda>v. v = []) msg_error msg_error_update enc_string dec_string,
      field ''dependency'' (\<lambda>v. v = None) msg_dependency msg_dependency_update (enc_interaction E) (dec_interaction E),
      field ''dependencyConfig'' (\<lambda>v. fst v = None) (\<lambda>b. (msg_dependency_config b, mb_spare b)) set_config
        (enc_snapshot E) (dec_snapshot E)]"

subsection \<open>Encode and Decode\<close>

text \<open>\<^verbatim>\<open>Marshal\<close> fails when a time it meets has a year that RFC 3339 cannot write.\<close>

definition times_ok :: "message \<Rightarrow> bool" where
  "times_ok m = (case msg_dependency m of None \<Rightarrow> True
     | Some d \<Rightarrow> year_ok (di_started_at d) \<and> year_ok (di_completed_at d))"

definition message_json :: "ext \<Rightarrow> message \<Rightarrow> json" where
  "message_json E m = enc_struct (message_fields E) (message.extend m \<lparr>mb_spare = []\<rparr>)"

definition Marshal :: "ext \<Rightarrow> message \<Rightarrow> string option" where
  "Marshal E m = (if times_ok m then Some (print_json (message_json E m)) else None)"

datatype encode_error = Encode_Invalid protocol_error | Marshal_Failed

definition Encode :: "ext \<Rightarrow> message \<Rightarrow> encode_error + string" where
  "Encode E m = (case Validate E m of
       Some e \<Rightarrow> Inl (Encode_Invalid e)
     | None \<Rightarrow> (case Marshal E m of
           None \<Rightarrow> Inl Marshal_Failed
         | Some data \<Rightarrow>
             if msg_type m = TypeDependencyInteraction \<and> MaxDependencyMessageSize < length data
             then Inl (Encode_Invalid ErrMessageTooLarge) else Inr data))"

text \<open>
  The decoder reads one value and then has to meet the end of the text, which together accept one
  value with white space around it.
\<close>

definition Unmarshal :: "ext \<Rightarrow> string \<Rightarrow> message option" where
  "Unmarshal E data = Option.bind (parse_json data) (\<lambda>j.
     map_option message.truncate (dec_struct E (message_fields E) j (message.extend empty_message \<lparr>mb_spare = []\<rparr>)))"

definition Decode :: "ext \<Rightarrow> string \<Rightarrow> protocol_error + message" where
  "Decode E data =
     (if MaxMessageSize < length data then Inl ErrMessageTooLarge
      else case Unmarshal E data of
        None \<Rightarrow> Inl ErrInvalidMessage
      | Some m \<Rightarrow> (case Validate E m of Some e \<Rightarrow> Inl e | None \<Rightarrow> Inr m))"

end
