(* ===== verification/Codec_Properties.thy ===== *)
theory Codec_Properties
  imports Codec
begin

text \<open>
  What \<^verbatim>\<open>Decode\<close> makes of what \<^verbatim>\<open>Encode\<close> wrote.
\<close>

subsection \<open>The message after the wire\<close>

text \<open>
  Strings lose their invalid bytes, maps come back in the order of their keys, and an omitted
  empty map is nil.
\<close>

definition wire_body :: "captured_body \<Rightarrow> captured_body" where
  "wire_body b = b\<lparr>cb_content_type := to_valid (cb_content_type b), cb_content := to_valid (cb_content b),
     cb_reason := to_valid (cb_reason b)\<rparr>"

definition wire_request :: "captured_request \<Rightarrow> captured_request" where
  "wire_request r = r\<lparr>rq_method := to_valid (rq_method r), rq_path := to_valid (rq_path r),
     rq_raw_query := to_valid (rq_raw_query r), rq_headers := map_option wire_map (rq_headers r),
     rq_body := wire_body (rq_body r)\<rparr>"

definition wire_response :: "captured_response \<Rightarrow> captured_response" where
  "wire_response r = r\<lparr>rs_headers := map_option wire_map (rs_headers r), rs_body := wire_body (rs_body r)\<rparr>"

definition wire_interaction :: "dependency_interaction \<Rightarrow> dependency_interaction" where
  "wire_interaction d = d\<lparr>di_id := to_valid (di_id d), di_scheme := to_valid (di_scheme d),
     di_host := to_valid (di_host d), di_handled_by := to_valid (di_handled_by d),
     di_request := wire_request (di_request d), di_response := wire_response (di_response d)\<rparr>"

definition wire_behavior :: "dependency_behavior \<Rightarrow> dependency_behavior" where
  "wire_behavior b = b\<lparr>db_id := to_valid (db_id b), db_scheme := to_valid (db_scheme b),
     db_host := to_valid (db_host b), db_method := to_valid (db_method b), db_path := to_valid (db_path b),
     db_headers := map_option wire_map (db_headers b), db_body := to_valid (db_body b)\<rparr>"

definition wire_snapshot :: "dependency_snapshot \<Rightarrow> dependency_snapshot" where
  "wire_snapshot s = s\<lparr>ds_endpoint_id := to_valid (ds_endpoint_id s),
     ds_behaviors := map_option (map wire_behavior) (ds_behaviors s)\<rparr>"

definition wire_message :: "message \<Rightarrow> message" where
  "wire_message m = m\<lparr>msg_type := to_valid (msg_type m), msg_request_id := to_valid (msg_request_id m),
     msg_method := to_valid (msg_method m), msg_path := to_valid (msg_path m),
     msg_headers := wire_omitted (msg_headers m), msg_body_base64 := to_valid (msg_body_base64 m),
     msg_error_code := to_valid (msg_error_code m), msg_error := to_valid (msg_error m),
     msg_dependency := map_option wire_interaction (msg_dependency m),
     msg_dependency_config := map_option wire_snapshot (msg_dependency_config m)\<rparr>"

text \<open>The integers are values of Go's 64-bit types.\<close>

definition body_ints :: "captured_body \<Rightarrow> bool" where
  "body_ints b \<longleftrightarrow> int64 (cb_size_bytes b) \<and> int64 (cb_captured_bytes b)"

definition interaction_ints :: "dependency_interaction \<Rightarrow> bool" where
  "interaction_ints d \<longleftrightarrow> int64 (di_port d) \<and> int64 (di_duration_ms d)
     \<and> int64 (rq_size_bytes (di_request d)) \<and> body_ints (rq_body (di_request d))
     \<and> int64 (rs_status (di_response d)) \<and> int64 (rs_size_bytes (di_response d)) \<and> body_ints (rs_body (di_response d))"

definition behavior_ints :: "dependency_behavior \<Rightarrow> bool" where
  "behavior_ints b \<longleftrightarrow> int64 (db_port b) \<and> int64 (db_status b)"

definition message_ints :: "message \<Rightarrow> bool" where
  "message_ints m \<longleftrightarrow> int64 (msg_version m) \<and> int64 (msg_status m)
     \<and> (\<forall>d \<in> set_option (msg_dependency m). interaction_ints d)
     \<and> (\<forall>s \<in> set_option (msg_dependency_config m). \<forall>b \<in> set (elems (ds_behaviors s)). behavior_ints b)"

subsection \<open>Each struct\<close>

lemmas names_defs = wf_fields_def field_def keep_def

lemma wf_tables:
  "wf_fields body_fields" "wf_fields (request_fields E)" "wf_fields (response_fields E)"
  "wf_fields (interaction_fields E)" "wf_fields behavior_fields" "wf_fields (snapshot_fields E)"
  "wf_fields (message_fields E)"
  by (simp_all add: names_defs body_fields_def request_fields_def response_fields_def interaction_fields_def
      behavior_fields_def snapshot_fields_def message_fields_def utf8_valid_ascii is_ascii_def)

lemma dec_enc_body:
  "body_ints b \<Longrightarrow> dec_struct E body_fields (enc_struct body_fields b) empty_captured_body = Some (wire_body b)"
  by (cases b) (simp add: dec_enc_struct [OF wf_tables(1)], simp add: body_fields_def body_ints_def empty_captured_body_def
      field_runs wire_body_def)

lemma dec_enc_request:
  assumes "int64 (rq_size_bytes r)" and "body_ints (rq_body r)"
  shows "dec_struct E (request_fields E) (enc_struct (request_fields E) r) empty_request
    = Some (wire_request r)"
  using assms
  by (cases r) (simp add: dec_enc_struct [OF wf_tables(2)], simp add: request_fields_def empty_request_def
      field_runs dec_enc_body wire_request_def)

lemma dec_enc_response:
  assumes "int64 (rs_status r)" "int64 (rs_size_bytes r)" "body_ints (rs_body r)"
  shows "dec_struct E (response_fields E) (enc_struct (response_fields E) r) empty_response
    = Some (wire_response r)"
  using assms
  by (cases r) (simp add: dec_enc_struct [OF wf_tables(3)], simp add: response_fields_def empty_response_def
      field_runs dec_enc_body wire_response_def)

lemma dec_enc_interaction_struct:
  assumes "interaction_ints d" "year_ok (di_started_at d)" "year_ok (di_completed_at d)"
  shows "dec_struct E (interaction_fields E) (enc_struct (interaction_fields E) d) empty_interaction
    = Some (wire_interaction d)"
  using assms
  by (cases d) (simp add: dec_enc_struct [OF wf_tables(4)], simp add: interaction_fields_def empty_interaction_def
      interaction_ints_def field_runs dec_enc_request dec_enc_response wire_interaction_def)

lemma enc_struct_object: "enc_struct fs x \<noteq> J_Null"
  by (simp add: enc_struct_def)

lemma dec_enc_interaction:
  assumes "\<And>d. v = Some d \<Longrightarrow> interaction_ints d \<and> year_ok (di_started_at d) \<and> year_ok (di_completed_at d)"
  shows "dec_interaction E (enc_interaction E v) None = Some (map_option wire_interaction v)"
proof (cases v)
  case (Some d)
  then show ?thesis
    using dec_enc_interaction_struct [of d E] assms [of d]
    by (simp add: dec_interaction_def enc_interaction_def enc_struct_object)
qed (simp add: dec_interaction_def enc_interaction_def)

lemma dec_enc_behavior:
  "behavior_ints b \<Longrightarrow> dec_struct E behavior_fields (enc_struct behavior_fields b) empty_behavior = Some (wire_behavior b)"
  by (cases b) (simp add: dec_enc_struct [OF wf_tables(5)], simp add: behavior_fields_def empty_behavior_def
      behavior_ints_def field_runs wire_behavior_def)

lemma dec_enc_behaviors:
  assumes "\<forall>b \<in> set (elems v). behavior_ints b"
  shows "dec_behaviors E (enc_behaviors (v, [])) (None, []) = Some (map_option (map wire_behavior) v, [])"
  unfolding dec_behaviors_def enc_behaviors_def by (rule dec_enc_slice) (use assms dec_enc_behavior in blast)

lemma dec_enc_snapshot:
  assumes "\<And>s. v = Some s \<Longrightarrow> \<forall>b \<in> set (elems (ds_behaviors s)). behavior_ints b"
  shows "dec_snapshot E (enc_snapshot E (v, [])) (None, []) = Some (map_option wire_snapshot v, [])"
proof (cases v)
  case (Some s)
  have "dec_struct E (snapshot_fields E) (enc_struct (snapshot_fields E) (buffer_of s []))
      (buffer_of \<lparr>ds_endpoint_id = [], ds_behaviors = None\<rparr> []) = Some (buffer_of (wire_snapshot s) [])"
    using assms [OF Some]
    by (cases s) (simp add: dec_enc_struct [OF wf_tables(6)], simp add: snapshot_fields_def buffer_of_def
        field_runs dec_enc_behaviors wire_snapshot_def set_behaviors_def)
  then show ?thesis
    by (simp add: Some dec_snapshot_def enc_snapshot_def enc_struct_object unbuffered_def buffer_of_def wire_snapshot_def)
qed (simp add: dec_snapshot_def enc_snapshot_def)

definition interaction_times :: "dependency_interaction \<Rightarrow> bool" where
  "interaction_times d \<longleftrightarrow> year_ok (di_started_at d) \<and> year_ok (di_completed_at d)"

lemma run_omit_interaction:
  assumes "upd (\<lambda>_. None) x = x" "get x = None"
    and "\<forall>d \<in> set_option (get m). interaction_ints d \<and> interaction_times d"
  shows "run_fields (field name (\<lambda>v. v = None) get upd (enc_interaction E) (dec_interaction E) # fs) m x
    = run_fields fs m (upd (\<lambda>_. map_option wire_interaction (get m)) x)"
  by (rule run_omit) (use assms in \<open>simp_all add: dec_enc_interaction interaction_times_def\<close>)

lemma run_omit_snapshot:
  assumes "upd (\<lambda>_. (None, [])) x = x" "get x = (None, [])" "snd (get m) = []"
    and "\<forall>s \<in> set_option (fst (get m)). \<forall>b \<in> set (elems (ds_behaviors s)). behavior_ints b"
  shows "run_fields (field name (\<lambda>v. fst v = None) get upd (enc_snapshot E) (dec_snapshot E) # fs) m x
    = run_fields fs m (upd (\<lambda>_. (map_option wire_snapshot (fst (get m)), [])) x)"
proof (rule run_omit)
  have "get m = (fst (get m), [])" using assms(3) by (metis prod.collapse)
  then show "dec_snapshot E (enc_snapshot E (get m)) (get x) = Some (map_option wire_snapshot (fst (get m)), [])"
    using dec_enc_snapshot [of "fst (get m)" E] assms(2,4) by simp
qed (use assms in simp)

lemma dec_message_json:
  assumes "message_ints m" and "times_ok m"
  shows "dec_struct E (message_fields E) (message_json E m) (message.extend empty_message \<lparr>mb_spare = []\<rparr>)
    = Some (message.extend (wire_message m) \<lparr>mb_spare = []\<rparr>)"
proof -
  have "\<forall>d \<in> set_option (msg_dependency m). interaction_ints d \<and> interaction_times d"
    using assms by (auto simp: message_ints_def times_ok_def interaction_times_def)
  with assms(1) show ?thesis
    by (cases m) (simp add: message_json_def dec_enc_struct [OF wf_tables(7)], simp add: message_fields_def
        empty_message_def message.defs message_ints_def field_runs wire_message_def set_config_def
        run_omit_interaction run_omit_snapshot)
qed

subsection \<open>The written text is read as the value it was written from\<close>

lemma string_map_ok [simp]: "json_ok (enc_string_map h)" "2 \<le> d \<Longrightarrow> depth (enc_string_map h) \<le> d"
  using enc_string_map_ok [of h] by auto

lemma body_json_ok: "json_ok (enc_struct body_fields b) \<and> depth (enc_struct body_fields b) \<le> Suc 0"
  by (rule enc_fields_ok) (simp add: body_fields_def field_def)

lemma body_json_le [simp]: "json_ok (enc_struct body_fields b)" "1 \<le> d \<Longrightarrow> depth (enc_struct body_fields b) \<le> d"
  using body_json_ok [of b] by auto

lemma request_json_ok: "json_ok (enc_struct (request_fields E) r) \<and> depth (enc_struct (request_fields E) r) \<le> Suc 2"
  by (rule enc_fields_ok) (simp add: request_fields_def field_def)

lemma response_json_ok: "json_ok (enc_struct (response_fields E) r) \<and> depth (enc_struct (response_fields E) r) \<le> Suc 2"
  by (rule enc_fields_ok) (simp add: response_fields_def field_def)

lemma interaction_json_ok:
  "json_ok (enc_struct (interaction_fields E) r) \<and> depth (enc_struct (interaction_fields E) r) \<le> Suc 3"
  by (rule enc_fields_ok) (use request_json_ok response_json_ok in \<open>simp add: interaction_fields_def field_def eval_nat_numeral\<close>)

lemma behavior_json_ok: "json_ok (enc_struct behavior_fields b) \<and> depth (enc_struct behavior_fields b) \<le> Suc 2"
  by (rule enc_fields_ok) (simp add: behavior_fields_def field_def)

lemma behaviors_json_ok: "json_ok (enc_behaviors v) \<and> depth (enc_behaviors v) \<le> Suc 3"
  using enc_slice_ok [of "enc_struct behavior_fields" 3] behavior_json_ok by (simp add: enc_behaviors_def eval_nat_numeral)

lemma snapshot_json_ok:
  "json_ok (enc_struct (snapshot_fields E) b) \<and> depth (enc_struct (snapshot_fields E) b) \<le> Suc 4"
  by (rule enc_fields_ok) (use behaviors_json_ok in \<open>simp add: snapshot_fields_def field_def eval_nat_numeral\<close>)

lemma message_json_ok: "json_ok (message_json E m) \<and> depth (message_json E m) \<le> Suc 5"
proof -
  have "json_ok (enc_interaction E d) \<and> depth (enc_interaction E d) \<le> 5" for d
    using interaction_json_ok [of E "the d"] by (cases d) (auto simp: enc_interaction_def)
  moreover have "json_ok (enc_snapshot E v) \<and> depth (enc_snapshot E v) \<le> 5" for v
    using snapshot_json_ok [of E "buffer_of (the (fst v)) (snd v)"] by (cases "fst v") (auto simp: enc_snapshot_def)
  ultimately show ?thesis
    unfolding message_json_def by (intro enc_fields_ok) (simp add: message_fields_def field_def)
qed

lemma parse_message_json: "parse_json (print_json (message_json E m)) = Some (message_json E m)"
  by (rule parse_print_json) (use message_json_ok [of E m] in \<open>simp_all add: maxNestingDepth_def\<close>)

lemma Unmarshal_Marshal:
  assumes "Marshal E m = Some data" and "message_ints m"
  shows "Unmarshal E data = Some (wire_message m)"
proof -
  have "data = print_json (message_json E m)" and "times_ok m"
    using assms(1) by (auto simp: Marshal_def split: if_splits)
  then show ?thesis
    using dec_message_json [OF assms(2)]
    by (simp add: Unmarshal_def parse_message_json message.defs)
qed

lemma Encode_Inr:
  assumes "Encode E m = Inr data"
  shows "Validate E m = None" "Marshal E m = Some data"
  using assms by (auto simp: Encode_def split: option.splits if_splits)

lemma decode_encoded:
  assumes "Encode E m = Inr data" and "message_ints m" and "length data \<le> MaxMessageSize"
  shows "Decode E data = (case Validate E (wire_message m) of Some e \<Rightarrow> Inl e | None \<Rightarrow> Inr (wire_message m))"
  using Unmarshal_Marshal [OF Encode_Inr(2) [OF assms(1)] assms(2)] assms(3) by (simp add: Decode_def)

subsection \<open>Messages of valid strings\<close>

definition valid_headers :: "headers \<Rightarrow> bool" where
  "valid_headers h \<longleftrightarrow> (\<forall>m \<in> set_option h. valid_map m)"

definition valid_body :: "captured_body \<Rightarrow> bool" where
  "valid_body b \<longleftrightarrow> utf8_valid (cb_content_type b) \<and> utf8_valid (cb_content b) \<and> utf8_valid (cb_reason b)"

definition valid_interaction :: "dependency_interaction \<Rightarrow> bool" where
  "valid_interaction d \<longleftrightarrow> utf8_valid (di_id d) \<and> utf8_valid (di_scheme d) \<and> utf8_valid (di_host d)
     \<and> utf8_valid (di_handled_by d)
     \<and> utf8_valid (rq_method (di_request d)) \<and> utf8_valid (rq_path (di_request d))
     \<and> utf8_valid (rq_raw_query (di_request d)) \<and> valid_headers (rq_headers (di_request d))
     \<and> valid_body (rq_body (di_request d)) \<and> valid_headers (rs_headers (di_response d)) \<and> valid_body (rs_body (di_response d))"

definition valid_behavior_text :: "dependency_behavior \<Rightarrow> bool" where
  "valid_behavior_text b \<longleftrightarrow> utf8_valid (db_id b) \<and> utf8_valid (db_scheme b) \<and> utf8_valid (db_host b)
     \<and> utf8_valid (db_method b) \<and> utf8_valid (db_path b) \<and> valid_headers (db_headers b) \<and> utf8_valid (db_body b)"

definition message_text :: "message \<Rightarrow> bool" where
  "message_text m \<longleftrightarrow> utf8_valid (msg_type m) \<and> utf8_valid (msg_request_id m) \<and> utf8_valid (msg_method m)
     \<and> utf8_valid (msg_path m) \<and> valid_headers (msg_headers m) \<and> utf8_valid (msg_body_base64 m)
     \<and> utf8_valid (msg_error_code m) \<and> utf8_valid (msg_error m)
     \<and> (\<forall>d \<in> set_option (msg_dependency m). valid_interaction d)
     \<and> (\<forall>s \<in> set_option (msg_dependency_config m). utf8_valid (ds_endpoint_id s)
          \<and> (\<forall>b \<in> set (elems (ds_behaviors s)). valid_behavior_text b))"

text \<open>The same message with its header maps listed in the order of their keys.\<close>

definition by_key :: "headers \<Rightarrow> headers" where
  "by_key h = map_option (sort_key fst) h"

definition interaction_by_key :: "dependency_interaction \<Rightarrow> dependency_interaction" where
  "interaction_by_key d = d\<lparr>di_request := (di_request d)\<lparr>rq_headers := by_key (rq_headers (di_request d))\<rparr>,
     di_response := (di_response d)\<lparr>rs_headers := by_key (rs_headers (di_response d))\<rparr>\<rparr>"

definition behavior_by_key :: "dependency_behavior \<Rightarrow> dependency_behavior" where
  "behavior_by_key b = b\<lparr>db_headers := by_key (db_headers b)\<rparr>"

definition snapshot_by_key :: "dependency_snapshot \<Rightarrow> dependency_snapshot" where
  "snapshot_by_key s = s\<lparr>ds_behaviors := map_option (map behavior_by_key) (ds_behaviors s)\<rparr>"

definition message_by_key :: "message \<Rightarrow> message" where
  "message_by_key m = m\<lparr>msg_headers := (if elems (msg_headers m) = [] then None else by_key (msg_headers m)),
     msg_dependency := map_option interaction_by_key (msg_dependency m),
     msg_dependency_config := map_option snapshot_by_key (msg_dependency_config m)\<rparr>"

lemma wire_map_by_key: "valid_headers h \<Longrightarrow> map_option wire_map h = by_key h"
  by (cases h) (simp_all add: valid_headers_def by_key_def wire_map_valid)

lemma wire_body_id: "valid_body b \<Longrightarrow> wire_body b = b"
  by (simp add: valid_body_def wire_body_def to_valid_id)

lemma wire_interaction_by_key: "valid_interaction d \<Longrightarrow> wire_interaction d = interaction_by_key d"
  by (simp add: valid_interaction_def wire_interaction_def interaction_by_key_def wire_request_def wire_response_def
      to_valid_id wire_body_id wire_map_by_key)

lemma wire_behavior_by_key: "valid_behavior_text b \<Longrightarrow> wire_behavior b = behavior_by_key b"
  by (simp add: valid_behavior_text_def wire_behavior_def behavior_by_key_def to_valid_id wire_map_by_key)

lemma wire_snapshot_by_key:
  assumes "utf8_valid (ds_endpoint_id s)" "\<forall>b \<in> set (elems (ds_behaviors s)). valid_behavior_text b"
  shows "wire_snapshot s = snapshot_by_key s"
proof -
  have "map_option (map wire_behavior) (ds_behaviors s) = map_option (map behavior_by_key) (ds_behaviors s)"
    using assms(2) by (cases "ds_behaviors s") (auto simp: wire_behavior_by_key)
  then show ?thesis using assms(1) by (simp add: wire_snapshot_def snapshot_by_key_def to_valid_id)
qed

lemma wire_message_by_key:
  assumes "message_text m"
  shows "wire_message m = message_by_key m"
proof -
  have "map_option wire_interaction (msg_dependency m) = map_option interaction_by_key (msg_dependency m)"
    using assms by (cases "msg_dependency m") (auto simp: message_text_def wire_interaction_by_key)
  moreover have "map_option wire_snapshot (msg_dependency_config m) = map_option snapshot_by_key (msg_dependency_config m)"
    using assms by (cases "msg_dependency_config m") (auto simp: message_text_def wire_snapshot_by_key)
  moreover have "map_option wire_map (msg_headers m) = by_key (msg_headers m)"
    using assms by (simp add: message_text_def wire_map_by_key)
  ultimately show ?thesis
    using assms by (simp add: wire_message_def message_by_key_def wire_omitted_def message_text_def to_valid_id)
qed

lemma validateHeaders_by_key: "validateHeaders (by_key h) = None \<longleftrightarrow> validateHeaders h = None"
proof (cases h)
  case (Some m)
  have "mset (sort_key fst m) = mset m" by simp
  note same = list_all_mset [OF this, of header_entry_ok] header_bytes_mset [OF this]
  show ?thesis by (simp add: Some by_key_def validateHeaders_iff same)
qed (simp add: by_key_def)

lemma validateDependency_by_key: "validateDependency (interaction_by_key d) = None \<longleftrightarrow> validateDependency d = None"
  by (simp add: validateDependency_def interaction_by_key_def Let_def validateHeaders_by_key del: not_None_eq)

lemma valid_behavior_by_key: "valid_behavior E (behavior_by_key b) = valid_behavior E b"
  by (simp add: valid_behavior_def behavior_by_key_def validateHeaders_by_key del: not_None_eq)

lemma validate_behaviors_by_key: "validate_behaviors E seen (map behavior_by_key bs) = validate_behaviors E seen bs"
  by (induction bs arbitrary: seen) (simp_all add: valid_behavior_by_key, simp_all add: behavior_key_def behavior_by_key_def)

lemma validateDependencyConfig_by_key: "validateDependencyConfig E (snapshot_by_key s) = validateDependencyConfig E s"
  by (cases "ds_behaviors s") (simp_all add: validateDependencyConfig_def snapshot_by_key_def validate_behaviors_by_key)

lemma Validate_by_key: "Validate E (message_by_key m) = Validate E m"
  by (cases "msg_dependency m"; cases "msg_dependency_config m")
    (simp_all add: Validate_def message_by_key_def validateDependency_by_key validateDependencyConfig_by_key
      del: not_None_eq split del: if_split cong: if_cong)

subsection \<open>The codec's promises\<close>


definition with_quotes :: "string \<Rightarrow> string" where
  "with_quotes s = map (\<lambda>c. if c = CHR ''|'' then quote_mark else c) s"

text \<open>The request of the repository's golden files, its header map in an order that the wire does not keep.\<close>

definition golden_request :: message where
  "golden_request = empty_message\<lparr>msg_version := 1, msg_type := ''request'', msg_request_id := ''0123456789abcdef'',
     msg_method := ''POST'', msg_path := ''/widgets?q=1'',
     msg_headers := Some [(''X-Test'', Some [''one'', ''two'']), (''Content-Type'', Some [''application/json''])],
     msg_body_base64 := ''eyJuYW1lIjoibW9ja2luZ28ifQ==''\<rparr>"

definition golden_text :: string where
  "golden_text = with_quotes (''{|version|:1,|type|:|request|,|requestId|:|0123456789abcdef|,|method|:|POST|,''
     @ ''|path|:|/widgets?q=1|,|headers|:{|Content-Type|:[|application/json|],|X-Test|:[|one|,|two|]},''
     @ ''|bodyBase64|:|eyJuYW1lIjoibW9ja2luZ28ifQ==|}'')"

lemma golden_encoded: "Encode sample_ext golden_request = Inr golden_text"
  by code_simp


text \<open>Behind a written message \<^verbatim>\<open>Decode\<close> accepts white space only: anything else after it, a
  second message for instance, makes the whole text invalid.\<close>

theorem trailing_data_rejected:
  assumes "Encode E m = Inr data" and "length (data @ rest) \<le> MaxMessageSize"
  shows "Decode E (data @ rest) = (if set rest \<subseteq> set json_space then Decode E data else Inl ErrInvalidMessage)"
proof -
  have data: "data = print_json (message_json E m)"
    using Encode_Inr(2) [OF assms(1)] by (auto simp: Marshal_def split: if_splits)
  obtain ms where ms: "message_json E m = J_Obj ms" by (simp add: message_json_def enc_struct_def)
  have "depth (J_Obj ms) \<le> maxNestingDepth"
    using message_json_ok [of E m] unfolding ms maxNestingDepth_def by linarith
  then have "parse_json (data @ rest) = (if set rest \<subseteq> set json_space then parse_json data else None)"
    using parse_trailing [of ms rest] parse_message_json [of E m] message_json_ok [of E m]
    unfolding data ms by simp
  then show ?thesis using assms(2) by (simp add: Decode_def Unmarshal_def)
qed

lemma trailing_data_rejected_witness:
  "Decode sample_ext (golden_text @ golden_text) = Inl ErrInvalidMessage
   \<and> Decode sample_ext (golden_text @ [CHR 0x0A]) = Decode sample_ext golden_text"
proof -
  have len: "length (golden_text @ golden_text) \<le> MaxMessageSize" "length (golden_text @ [CHR 0x0A]) \<le> MaxMessageSize"
    by code_simp+
  have "\<not> set golden_text \<subseteq> set json_space" "set [CHR 0x0A] \<subseteq> set json_space" by code_simp+
  then show ?thesis
    using trailing_data_rejected [OF golden_encoded len(1)] trailing_data_rejected [OF golden_encoded len(2)] by simp
qed

end
