(* ===== verification/Event_Size.thy ===== *)
theory Event_Size
  imports Codec_Properties Uploader
begin

text \<open>
  The size of a telemetry event on the wire.  The uploader checks an event with \<^verbatim>\<open>Validate\<close> and
  writes it with the connection's \<^verbatim>\<open>WriteJSON\<close>, without the limit that \<^verbatim>\<open>Encode\<close>
  enforces and the gateway too.
\<close>

lemma length_join_with: "x \<in> set xs \<Longrightarrow> length x \<le> length (join_with sep xs)"
  by (induction sep xs rule: join_with.induct) auto

lemma enc_struct_length:
  assumes "(n, om, w, r) \<in> set fs" and "\<not> om x"
  shows "length (print_json (w x)) \<le> length (print_json (enc_struct fs x))"
proof -
  let ?members = "map (\<lambda>(k, v). quoted k @ '':'' @ print_json v)
    (map (\<lambda>(n, om, w, r). (quote_json n, w x)) (filter (\<lambda>(n, om, w, r). \<not> om x) fs))"
  have "quoted (quote_json n) @ '':'' @ print_json (w x) \<in> set ?members"
    using assms by (force simp: image_iff)
  from length_join_with [OF this, of "'',''"] show ?thesis by (simp add: enc_struct_def)
qed

lemma field_length:
  assumes "field name omit get upd enc dec \<in> set fs" and "\<not> omit (get x)"
  shows "length (print_json (enc (get x))) \<le> length (print_json (enc_struct fs x))"
  using enc_struct_length [OF assms(1) [unfolded field_def], of x] assms(2) by simp

text \<open>The text of an event is at least as long as the quoted content of its response.\<close>

lemma event_length:
  assumes "cb_content (rs_body (di_response d)) \<noteq> []"
  shows "length (quote_json (cb_content (rs_body (di_response d))))
    \<le> length (print_json (message_json E (interaction_message d)))"
proof -
  let ?r = "di_response d" and ?b = "rs_body (di_response d)" and ?m = "message.extend (interaction_message d) \<lparr>mb_spare = []\<rparr>"
  have "length (print_json (enc_string (cb_content ?b))) \<le> length (print_json (enc_struct body_fields ?b))"
    by (rule field_length [where name = "''content''" and omit = "\<lambda>v. v = []" and upd = cb_content_update
          and dec = dec_string]) (use assms in \<open>simp_all add: body_fields_def\<close>)
  also have "\<dots> \<le> length (print_json (enc_struct (response_fields E) ?r))"
    by (rule field_length [where name = "''body''" and omit = keep and get = rs_body and upd = rs_body_update
          and enc = "enc_struct body_fields" and dec = "dec_struct E body_fields"]) (simp_all add: response_fields_def keep_def)
  also have "\<dots> \<le> length (print_json (enc_struct (interaction_fields E) d))"
    by (rule field_length [where name = "''response''" and omit = keep and get = di_response
          and upd = di_response_update and enc = "enc_struct (response_fields E)"
          and dec = "dec_struct E (response_fields E)"])
      (simp_all add: interaction_fields_def keep_def)
  also have "\<dots> = length (print_json (enc_interaction E (msg_dependency ?m)))"
    by (simp add: enc_interaction_def interaction_message_def empty_message_def message.defs)
  also have "\<dots> \<le> length (print_json (message_json E (interaction_message d)))"
    unfolding message_json_def
    by (rule field_length [where name = "''dependency''" and omit = "\<lambda>v. v = None" and get = msg_dependency
          and upd = msg_dependency_update and enc = "enc_interaction E" and dec = "dec_interaction E"])
      (simp_all add: message_fields_def interaction_message_def empty_message_def message.defs)
  finally show ?thesis by (simp add: enc_string_def quoted_def)
qed

lemma quoted_angles: "length (quote_json (replicate n CHR ''<'')) = 6 * n"
  by (induction n) (simp_all add: quote_json.simps quote_byte_def is_ascii_def unicode_escape_def backslash_def quote_mark_def)

definition angle_event :: dependency_interaction where
  "angle_event = sample_interaction\<lparr>di_response := (di_response sample_interaction)\<lparr>
     rs_body := \<lparr>cb_captured = True, cb_content_type = ''text/plain'', cb_content = replicate 524288 CHR ''<'',
       cb_size_bytes = 524288, cb_captured_bytes = 524288, cb_truncated = False, cb_reason = []\<rparr>,
     rs_size_bytes := 524288\<rparr>\<rparr>"

lemma angle_event_valid: "validateDependency angle_event = None"
proof -
  have "validateDependency sample_interaction = None" by code_simp
  moreover have "utf8_valid (replicate 524288 CHR ''<'')" by (rule utf8_valid_ascii) (simp add: list_all_iff is_ascii_def)
  ultimately show ?thesis
    unfolding validateDependency_def angle_event_def Let_def
    by (simp add: validateCapturedBody_def MaxDependencyResponsePreview_def del: not_None_eq replicate.simps split: if_splits)
qed

text \<open>C39: The limits of the previews do not bound the event: the uploader's queue takes an event whose
  text is longer than \<^verbatim>\<open>MaxDependencyMessageSize\<close>, which \<^verbatim>\<open>Encode\<close> would refuse.\<close>

theorem accepted_event_too_large:
  "Enqueue E now angle_event (NewUploader 1) = (True, (NewUploader 1)\<lparr>up_queue := [angle_event]\<rparr>)
   \<and> Encode E (interaction_message angle_event) = Inl (Encode_Invalid ErrMessageTooLarge)"
proof -
  have valid: "Validate E (interaction_message angle_event) = None"
    by (simp add: Validate_interaction_message interaction_message_def angle_event_valid)
  have times: "times_ok (interaction_message angle_event)"
    by (simp add: times_ok_def interaction_message_def angle_event_def) code_simp
  have "6 * 524288 \<le> length (print_json (message_json E (interaction_message angle_event)))"
    using event_length [of angle_event E] quoted_angles [of 524288] by (simp add: angle_event_def del: replicate.simps)
  then show ?thesis
    using valid times
    by (simp add: Encode_def Marshal_def Enqueue_def NewUploader_def MaxDependencyMessageSize_def interaction_message_def)
qed

end
