(* ===== verification/Stored_Credentials.thy ===== *)
theory Stored_Credentials
  imports Go_Json_Structs Credentials
begin

text \<open>
  The texts behind the credential stores: \<^verbatim>\<open>encodeCredentials\<close>, \<^verbatim>\<open>decodeCredentials\<close>,
  and the keyring and file stores over the strings that they hold.  \<open>Credentials\<close> has a stored text as the
  record it decodes to; the locale \<open>store_refinement\<close> states what makes that right, for any sequence of calls.
\<close>

subsection \<open>Credentials as text\<close>

text \<open>An empty scope is the nil slice, which \<^verbatim>\<open>ParseTokenResponse\<close> returns for it.\<close>

record credentials_buffer = oauth_credentials +
  cb_spare_scope :: "string list"

definition set_scope :: "(string slice \<times> string list \<Rightarrow> string slice \<times> string list)
    \<Rightarrow> credentials_buffer \<Rightarrow> credentials_buffer" where
  "set_scope f b = (let v = f (append_nil (Some (oc_scope b)), cb_spare_scope b)
     in b\<lparr>oc_scope := elems (fst v), cb_spare_scope := snd v\<rparr>)"

definition credentials_fields :: "credentials_buffer json_field list" where
  "credentials_fields =
     [field ''accessToken'' keep oc_access_token oc_access_token_update enc_string dec_string,
      field ''refreshToken'' keep oc_refresh_token oc_refresh_token_update enc_string dec_string,
      field ''tokenType'' keep oc_token_type oc_token_type_update enc_string dec_string,
      field ''scope'' keep (\<lambda>b. (append_nil (Some (oc_scope b)), cb_spare_scope b)) set_scope
        (enc_slice enc_string) (dec_slice dec_string []),
      field ''expiresAt'' keep oc_expires_at oc_expires_at_update enc_time dec_time,
      field ''userId'' keep oc_user_id oc_user_id_update enc_string dec_string]"

definition empty_credentials :: oauth_credentials where
  "empty_credentials = \<lparr>oc_access_token = [], oc_refresh_token = [], oc_token_type = [], oc_scope = [],
     oc_expires_at = 0, oc_user_id = []\<rparr>"

definition credentials_json :: "oauth_credentials \<Rightarrow> json" where
  "credentials_json c = enc_struct credentials_fields (oauth_credentials.extend c \<lparr>cb_spare_scope = []\<rparr>)"

definition encodeCredentials :: "oauth_credentials \<Rightarrow> string option" where
  "encodeCredentials c = (if year_ok (oc_expires_at c) then Some (print_json (credentials_json c)) else None)"

definition unmarshal_credentials :: "ext \<Rightarrow> string \<Rightarrow> oauth_credentials option" where
  "unmarshal_credentials E text = Option.bind (parse_json text) (\<lambda>j. map_option oauth_credentials.truncate
     (dec_struct E credentials_fields j (oauth_credentials.extend empty_credentials \<lparr>cb_spare_scope = []\<rparr>)))"

definition decode_text :: "ext \<Rightarrow> string \<Rightarrow> store_error + oauth_credentials" where
  "decode_text E text = decodeCredentials E (unmarshal_credentials E text)"

text \<open>What a text can hold.\<close>

definition storable :: "oauth_credentials \<Rightarrow> bool" where
  "storable c \<longleftrightarrow> year_ok (oc_expires_at c) \<and> utf8_valid (oc_access_token c) \<and> utf8_valid (oc_refresh_token c)
     \<and> utf8_valid (oc_token_type c) \<and> list_all utf8_valid (oc_scope c) \<and> utf8_valid (oc_user_id c)"

lemma wf_credentials_fields: "wf_fields credentials_fields"
  by (simp add: wf_fields_def field_def credentials_fields_def utf8_valid_ascii is_ascii_def)

lemma credentials_json_ok: "json_ok (credentials_json c) \<and> depth (credentials_json c) \<le> Suc 1"
proof -
  have "json_ok (enc_slice enc_string v) \<and> depth (enc_slice enc_string v) \<le> Suc 0" for v
    using enc_slice_ok [of enc_string 0] by simp
  then show ?thesis
    unfolding credentials_json_def by (intro enc_fields_ok) (simp add: credentials_fields_def field_def)
qed

lemma dec_scope:
  assumes "list_all utf8_valid scope"
  shows "dec_slice dec_string [] (enc_slice enc_string (append_nil (Some scope), [])) (append_nil (Some []), [])
    = Some (append_nil (Some scope), [])"
proof -
  have "map to_valid scope = scope" using assms by (intro map_idI) (simp add: list_all_iff to_valid_id)
  then have "map_option (map to_valid) (append_nil (Some scope)) = append_nil (Some scope)"
    by (simp add: append_nil_def)
  moreover have "append_nil (Some ([] :: string list)) = None" by (simp add: append_nil_def)
  ultimately show ?thesis
    using dec_enc_slice [of "append_nil (Some scope)" dec_string enc_string "[]" to_valid]
    by (simp add: dec_enc_string)
qed

lemma stored_text_read:
  assumes "storable c" and "encodeCredentials c = Some text"
  shows "unmarshal_credentials E text = Some c"
proof -
  have eq: "text = print_json (credentials_json c)"
    using assms(2) by (simp add: encodeCredentials_def split: if_splits)
  have "depth (credentials_json c) \<le> maxNestingDepth"
    using credentials_json_ok [of c] unfolding maxNestingDepth_def by linarith
  then have "parse_json text = Some (credentials_json c)"
    unfolding eq using credentials_json_ok [of c] by (intro parse_print_json) simp
  moreover have "dec_struct E credentials_fields (credentials_json c)
      (oauth_credentials.extend empty_credentials \<lparr>cb_spare_scope = []\<rparr>)
    = Some (oauth_credentials.extend c \<lparr>cb_spare_scope = []\<rparr>)"
    using assms(1)
    by (cases c) (simp add: credentials_json_def dec_enc_struct [OF wf_credentials_fields],
        simp add: credentials_fields_def empty_credentials_def oauth_credentials.defs storable_def field_runs
          set_scope_def dec_scope to_valid_id)
  ultimately show ?thesis by (simp add: unmarshal_credentials_def oauth_credentials.defs)
qed

subsection \<open>The stores over texts\<close>

record text_keyring =
  tk_entries :: "(string, string) gomap"
  tk_down :: bool
  tk_limit :: nat

definition text_keyring_Get :: "ext \<Rightarrow> text_keyring \<Rightarrow> string \<Rightarrow> store_error + oauth_credentials" where
  "text_keyring_Get E k account =
     (if tk_down k then Inl (Store_Failed ''read operating-system credential store'')
      else case map_of (tk_entries k) account of None \<Rightarrow> Inl Not_Found | Some text \<Rightarrow> decode_text E text)"

definition text_keyring_Set :: "text_keyring \<Rightarrow> string \<Rightarrow> oauth_credentials \<Rightarrow> store_error option \<times> text_keyring" where
  "text_keyring_Set k account c = (case encodeCredentials c of
       None \<Rightarrow> (Some (Store_Failed ''encode OAuth credentials''), k)
     | Some text \<Rightarrow>
         if tk_down k \<or> tk_limit k < length text
         then (Some (Store_Failed ''write operating-system credential store''), k)
         else (None, k\<lparr>tk_entries := gomap_set account text (tk_entries k)\<rparr>))"

definition text_keyring_Delete :: "text_keyring \<Rightarrow> string \<Rightarrow> store_error option \<times> text_keyring" where
  "text_keyring_Delete k account =
     (if tk_down k then (Some (Store_Failed ''delete operating-system credential''), k)
      else (None, k\<lparr>tk_entries := gomap_del account (tk_entries k)\<rparr>))"

definition TextKeyring :: "ext \<Rightarrow> text_keyring store_ops" where
  "TextKeyring E = \<lparr>st_get = text_keyring_Get E, st_set = text_keyring_Set, st_delete = text_keyring_Delete\<rparr>"

text \<open>The files, with the flags of \<open>file_system\<close>.\<close>

record text_files =
  tf_files :: "(string, string \<times> nat) gomap"
  tf_system :: file_system

definition text_file_path :: "text_files \<Rightarrow> string \<Rightarrow> string" where
  "text_file_path f account = file_path (tf_system f) account"

definition text_file_Get :: "ext \<Rightarrow> text_files \<Rightarrow> string \<Rightarrow> store_error + oauth_credentials" where
  "text_file_Get E f account = (case map_of (tf_files f) (text_file_path f account) of
       None \<Rightarrow> Inl Not_Found
     | Some (text, mode) \<Rightarrow> if fs_read_fails (tf_system f) then Inl (Store_Failed ''read fallback credential file'')
         else decode_text E text)"

definition text_file_Set :: "text_files \<Rightarrow> string \<Rightarrow> oauth_credentials \<Rightarrow> store_error option \<times> text_files" where
  "text_file_Set f account c = (case encodeCredentials c of
       None \<Rightarrow> (Some (Store_Failed ''encode OAuth credentials''), f)
     | Some text \<Rightarrow>
         if fs_prepare_fails (tf_system f) then (Some (Store_Failed ''create fallback credential file''), f)
         else if fs_replace_fails (tf_system f) then (Some (Store_Failed ''replace fallback credential file''), f)
         else (if fs_chmod_fails (tf_system f) then Some (Store_Failed ''chmod'') else None,
           f\<lparr>tf_files := gomap_set (text_file_path f account) (text, owner_only) (tf_files f)\<rparr>))"

definition text_file_Delete :: "text_files \<Rightarrow> string \<Rightarrow> store_error option \<times> text_files" where
  "text_file_Delete f account =
     (if map_of (tf_files f) (text_file_path f account) = None then (None, f)
      else if fs_remove_fails (tf_system f) then (Some (Store_Failed ''remove''), f)
      else (None, f\<lparr>tf_files := gomap_del (text_file_path f account) (tf_files f)\<rparr>))"

definition TextFiles :: "ext \<Rightarrow> text_files store_ops" where
  "TextFiles E = \<lparr>st_get = text_file_Get E, st_set = text_file_Set, st_delete = text_file_Delete\<rparr>"

subsection \<open>Refinement\<close>

text \<open>The record store that a text store stands for.\<close>

definition text_size :: "oauth_credentials \<Rightarrow> nat" where
  "text_size c = (case encodeCredentials c of None \<Rightarrow> 0 | Some text \<Rightarrow> length text)"

definition keyring_of :: "ext \<Rightarrow> text_keyring \<Rightarrow> keyring" where
  "keyring_of E k = \<lparr>kr_entries = map (\<lambda>(a, text). (a, unmarshal_credentials E text)) (tk_entries k),
     kr_down = tk_down k, kr_limit = tk_limit k, kr_size = text_size\<rparr>"

definition files_of :: "ext \<Rightarrow> text_files \<Rightarrow> file_system" where
  "files_of E f = (tf_system f)\<lparr>fs_files := map (\<lambda>(p, file). (p, map_prod (unmarshal_credentials E) id file)) (tf_files f)\<rparr>"

datatype credential_call = Call_Get string | Call_Set string oauth_credentials | Call_Delete string

datatype credential_answer = Got "store_error + oauth_credentials" | Done_With "store_error option"

fun store_call :: "'s store_ops \<Rightarrow> credential_call \<Rightarrow> 's \<Rightarrow> credential_answer \<times> 's" where
  "store_call ops (Call_Get a) s = (Got (st_get ops s a), s)"
| "store_call ops (Call_Set a c) s = (case st_set ops s a c of (r, s') \<Rightarrow> (Done_With r, s'))"
| "store_call ops (Call_Delete a) s = (case st_delete ops s a of (r, s') \<Rightarrow> (Done_With r, s'))"

fun store_calls :: "'s store_ops \<Rightarrow> credential_call list \<Rightarrow> 's \<Rightarrow> credential_answer list" where
  "store_calls ops [] s = []"
| "store_calls ops (call # cs) s = (case store_call ops call s of (r, s') \<Rightarrow> r # store_calls ops cs s')"

fun call_storable :: "credential_call \<Rightarrow> bool" where
  "call_storable (Call_Set a c) = storable c"
| "call_storable _ = True"

locale store_refinement =
  fixes C :: "'c store_ops" and A :: "'a store_ops" and abs :: "'c \<Rightarrow> 'a"
  assumes get: "st_get A (abs s) a = st_get C s a"
    and set: "storable c \<Longrightarrow> st_set A (abs s) a c = map_prod id abs (st_set C s a c)"
    and delete: "st_delete A (abs s) a = map_prod id abs (st_delete C s a)"
begin

lemma one_call: "call_storable call \<Longrightarrow> store_call A call (abs s) = map_prod id abs (store_call C call s)"
  by (cases call) (simp_all add: get set delete split: prod.split)

lemma same_answers: "list_all call_storable calls \<Longrightarrow> store_calls A calls (abs s) = store_calls C calls s"
proof (induction calls arbitrary: s)
  case (Cons call calls)
  obtain r s' where call: "store_call C call s = (r, s')" by fastforce
  then show ?case using one_call [of call s] Cons by simp
qed simp

end

lemma map_of_texts:
  "map_of (map (\<lambda>(a, text). (a, f text)) m) k = map_option f (map_of m k)"
  by (induction m) auto

lemma gomap_map_values:
  "gomap_set k (f v) (map (\<lambda>(a, text). (a, f text)) m) = map (\<lambda>(a, text). (a, f text)) (gomap_set k v m)"
  "gomap_del k (map (\<lambda>(a, text). (a, f text)) m) = map (\<lambda>(a, text). (a, f text)) (gomap_del k m)"
  by (induction m) (auto simp: gomap_del_def)

lemma storable_encoded: "storable c \<Longrightarrow> \<exists>t. encodeCredentials c = Some t"
  by (simp add: storable_def encodeCredentials_def)

interpretation text_keyring: store_refinement "TextKeyring E" "KeyringStore E" "keyring_of E" for E
proof unfold_locales
  fix s :: text_keyring and a c
  show "st_get (KeyringStore E) (keyring_of E s) a = st_get (TextKeyring E) s a"
    by (simp add: KeyringStore_def TextKeyring_def keyring_Get_def text_keyring_Get_def keyring_of_def map_of_texts
        decode_text_def split: option.split)
  show "st_set (KeyringStore E) (keyring_of E s) a c = map_prod id (keyring_of E) (st_set (TextKeyring E) s a c)"
    if ok: "storable c"
  proof -
    obtain t where "encodeCredentials c = Some t" using storable_encoded [OF ok] by blast
    then show ?thesis
      using stored_text_read [OF ok, of _ E] gomap_map_values(1) [of a "unmarshal_credentials E" t]
      by (simp add: KeyringStore_def TextKeyring_def keyring_Set_def text_keyring_Set_def keyring_of_def text_size_def)
  qed
  show "st_delete (KeyringStore E) (keyring_of E s) a = map_prod id (keyring_of E) (st_delete (TextKeyring E) s a)"
    by (simp add: KeyringStore_def TextKeyring_def keyring_Delete_def text_keyring_Delete_def keyring_of_def
        gomap_map_values)
qed

interpretation text_file_store: store_refinement "TextFiles E" "FileStore E" "files_of E" for E
proof unfold_locales
  fix s :: text_files and a c
  have path: "file_path (files_of E s) a = text_file_path s a" by (simp add: files_of_def text_file_path_def)
  show "st_get (FileStore E) (files_of E s) a = st_get (TextFiles E) s a"
    by (simp add: FileStore_def TextFiles_def file_Get_def text_file_Get_def path, simp add: files_of_def map_of_texts
        decode_text_def split: option.split prod.split)
  show "st_set (FileStore E) (files_of E s) a c = map_prod id (files_of E) (st_set (TextFiles E) s a c)"
    if ok: "storable c"
  proof -
    obtain t where encoded: "encodeCredentials c = Some t" using storable_encoded [OF ok] by blast
    have "map_prod (unmarshal_credentials E) id (t, owner_only) = (Some c, owner_only)"
      using stored_text_read [OF ok encoded] by simp
    then show ?thesis
      using encoded gomap_map_values(1) [of "text_file_path s a" "map_prod (unmarshal_credentials E) id" "(t, owner_only)"]
      by (simp add: FileStore_def TextFiles_def file_Set_def text_file_Set_def path, simp add: files_of_def)
  qed
  show "st_delete (FileStore E) (files_of E s) a = map_prod id (files_of E) (st_delete (TextFiles E) s a)"
    by (cases "map_of (tf_files s) (text_file_path s a)")
      (simp_all add: FileStore_def TextFiles_def file_Delete_def text_file_Delete_def path,
        simp_all add: files_of_def map_of_texts gomap_map_values)
qed

text \<open>The fallback store of two refinements refines the fallback store.\<close>

lemma fallback_refines:
  assumes "store_refinement P P' absP" and "store_refinement F F' absF"
  shows "store_refinement (FallbackStore allow P F) (FallbackStore allow P' F') (map_prod absP absF)"
proof (rule store_refinement.intro)
  note P = store_refinement.get [OF assms(1)] store_refinement.set [OF assms(1)] store_refinement.delete [OF assms(1)]
  note F = store_refinement.get [OF assms(2)] store_refinement.set [OF assms(2)] store_refinement.delete [OF assms(2)]
  fix s :: "'a \<times> 'c" and a c
  show "st_get (FallbackStore allow P' F') (map_prod absP absF s) a = st_get (FallbackStore allow P F) s a"
    by (simp add: FallbackStore_def fallback_Get_def P F split: sum.split store_error.split)
  show "st_set (FallbackStore allow P' F') (map_prod absP absF s) a c
      = map_prod id (map_prod absP absF) (st_set (FallbackStore allow P F) s a c)" if "storable c"
    by (simp add: FallbackStore_def fallback_Set_def P F that split: prod.split option.split)
  show "st_delete (FallbackStore allow P' F') (map_prod absP absF s) a
      = map_prod id (map_prod absP absF) (st_delete (FallbackStore allow P F) s a)"
    by (simp add: FallbackStore_def fallback_Delete_def P F Let_def split: prod.split)
qed

interpretation text_fallback: store_refinement "FallbackStore allow (TextKeyring E) (TextFiles E)"
  "FallbackStore allow (KeyringStore E) (FileStore E)" "map_prod (keyring_of E) (files_of E)" for allow E
  by (rule fallback_refines [OF text_keyring.store_refinement_axioms text_file_store.store_refinement_axioms])

text \<open>C33: The credential store of the program, over the JSON texts that the keyring and the files hold, gives
  in any sequence of calls the answers of the store over records, when the credentials that are written
  have valid UTF-8 strings and a time that RFC 3339 can write.\<close>

theorem stored_texts_refine:
  assumes "list_all call_storable calls"
  shows "store_calls (FallbackStore allow (TextKeyring E) (TextFiles E)) calls (k, f)
    = store_calls (FallbackStore allow (KeyringStore E) (FileStore E)) calls (keyring_of E k, files_of E f)"
  using text_fallback.same_answers [OF assms, of allow E "(k, f)"] by simp

definition sample_credentials :: oauth_credentials where
  "sample_credentials = \<lparr>oc_access_token = ''at'', oc_refresh_token = ''rt'', oc_token_type = ''Bearer'',
     oc_scope = [''openid'', ''email''], oc_expires_at = 5, oc_user_id = ''user_1''\<rparr>"

lemma stored_texts_refine_witness:
  "store_calls (FallbackStore False (TextKeyring sample_ext) (TextFiles sample_ext))
     [Call_Set ''a'' sample_credentials, Call_Get ''a'', Call_Get ''b'', Call_Delete ''a'', Call_Get ''a'']
     (\<lparr>tk_entries = [], tk_down = False, tk_limit = text_size sample_credentials\<rparr>, \<lparr>tf_files = [], tf_system = \<lparr>fs_files = [], fs_digest = id,
        fs_read_fails = False, fs_prepare_fails = False, fs_replace_fails = False, fs_chmod_fails = False,
        fs_remove_fails = False\<rparr>\<rparr>)
   = [Done_With None, Got (Inr sample_credentials), Got (Inl Not_Found), Done_With None, Got (Inl Not_Found)]"
proof -
  let ?calls = "[Call_Set ''a'' sample_credentials, Call_Get ''a'', Call_Get ''b'', Call_Delete ''a'', Call_Get ''a'']"
  have "list_all call_storable ?calls" by code_simp
  note eq = stored_texts_refine [OF this]
  have complete: "complete_credentials sample_ext sample_credentials" by code_simp
  show ?thesis
    unfolding eq
    by (simp add: keyring_of_def files_of_def FallbackStore_def fallback_Get_def fallback_Set_def fallback_Delete_def
        KeyringStore_def FileStore_def keyring_Get_def keyring_Set_def keyring_Delete_def file_Delete_def complete
        gomap_del_def)
qed

end
