(* ===== verification/Stored_Settings.thy ===== *)
theory Stored_Settings
  imports Go_Json_Structs Config
begin

text \<open>
  The text of the settings file: \<^verbatim>\<open>Save\<close> and \<^verbatim>\<open>Load\<close> of \<^verbatim>\<open>config.go\<close> over the
  indented JSON that the file holds, and that they refine the operations of \<open>Config\<close> on records.
\<close>

text \<open>\<^verbatim>\<open>ExpiresAt\<close> is a pointer.\<close>

definition enc_time_pointer :: "int option \<Rightarrow> json" where
  "enc_time_pointer v = (case v of None \<Rightarrow> J_Null | Some t \<Rightarrow> enc_time t)"

definition dec_time_pointer :: "json \<Rightarrow> int option \<Rightarrow> int option option" where
  "dec_time_pointer j v = (if j = J_Null then Some None
     else map_option Some (dec_time j (case v of None \<Rightarrow> 0 | Some t \<Rightarrow> t)))"

definition config_fields :: "config json_field list" where
  "config_fields =
     [field ''apiUrl'' (\<lambda>v. v = []) cf_api_url cf_api_url_update enc_string dec_string,
      field ''oauthIssuer'' (\<lambda>v. v = []) cf_issuer cf_issuer_update enc_string dec_string,
      field ''oauthClientId'' (\<lambda>v. v = []) cf_client_id cf_client_id_update enc_string dec_string,
      field ''oauthScopes'' (\<lambda>v. v = []) cf_scopes cf_scopes_update enc_string dec_string,
      field ''userId'' (\<lambda>v. v = []) cf_user_id cf_user_id_update enc_string dec_string,
      field ''expiresAt'' (\<lambda>v. v = None) cf_expires_at cf_expires_at_update enc_time_pointer dec_time_pointer]"

definition config_text :: "config \<Rightarrow> string option" where
  "config_text c = (if \<forall>t \<in> set_option (cf_expires_at c). year_ok t
     then Some (print_indent 0 (enc_struct config_fields c) @ [CHR 0x0A]) else None)"

definition unmarshal_config :: "ext \<Rightarrow> string \<Rightarrow> config option" where
  "unmarshal_config E text = Option.bind (parse_json text) (\<lambda>j. dec_struct E config_fields j empty_config)"

text \<open>The file's text and mode, with the flags of \<open>config_disk\<close>.\<close>

record text_disk =
  td_file :: "(string \<times> nat) option"
  td_disk :: config_disk

definition Save_text :: "config \<Rightarrow> text_disk \<Rightarrow> config_error option \<times> text_disk" where
  "Save_text c d = (case config_Validate c of
       Some e \<Rightarrow> (Some e, d)
     | None \<Rightarrow> (case config_text c of
         None \<Rightarrow> (Some (Config_Failed ''encode configuration''), d)
       | Some t \<Rightarrow>
           if cd_prepare_fails (td_disk d) then (Some (Config_Failed ''create temporary configuration''), d)
           else if cd_replace_fails (td_disk d) then (Some (Config_Failed ''replace configuration''), d)
           else (if cd_chmod_fails (td_disk d) then Some (Config_Failed ''secure configuration file'') else None,
             d\<lparr>td_file := Some (t, private_mode)\<rparr>)))"

definition Load_text :: "ext \<Rightarrow> text_disk \<Rightarrow> config_error + config" where
  "Load_text E d = (case td_file d of
       None \<Rightarrow> Inl Not_Configured
     | Some (t, mode) \<Rightarrow>
         if cd_read_fails (td_disk d) then Inl (Config_Failed ''read configuration'')
         else (case unmarshal_config E t of
             None \<Rightarrow> Inl (Config_Failed ''decode configuration'')
           | Some c \<Rightarrow> (case config_Validate c of Some e \<Rightarrow> Inl e | None \<Rightarrow> Inr c)))"

definition remove_text :: "text_disk \<Rightarrow> bool \<times> text_disk" where
  "remove_text d = (if td_file d = None then (True, d)
     else if cd_remove_fails (td_disk d) then (False, d) else (True, d\<lparr>td_file := None\<rparr>))"

definition storable_config :: "config \<Rightarrow> bool" where
  "storable_config c \<longleftrightarrow> (\<forall>t \<in> set_option (cf_expires_at c). year_ok t) \<and> utf8_valid (cf_api_url c)
     \<and> utf8_valid (cf_issuer c) \<and> utf8_valid (cf_client_id c) \<and> utf8_valid (cf_scopes c) \<and> utf8_valid (cf_user_id c)"

definition disk_of :: "ext \<Rightarrow> text_disk \<Rightarrow> config_disk" where
  "disk_of E d = (td_disk d)\<lparr>cd_file := map_option (map_prod (unmarshal_config E) id) (td_file d)\<rparr>"

lemma wf_config_fields: "wf_fields config_fields"
  by (simp add: wf_fields_def field_def config_fields_def utf8_valid_ascii is_ascii_def)

lemma run_omit_time:
  assumes "upd (\<lambda>_. None) x = x" "get x = None" "\<forall>t \<in> set_option (get m). year_ok t"
  shows "run_fields (field name (\<lambda>v. v = None) get upd enc_time_pointer dec_time_pointer # fs) m x
    = run_fields fs m (upd (\<lambda>_. get m) x)"
proof (rule run_omit)
  show "dec_time_pointer (enc_time_pointer (get m)) (get x) = Some (get m)" if some: "get m \<noteq> None"
  proof -
    obtain t where t: "get m = Some t" using some by blast
    then have "dec_time (enc_time t) v = Some t" for v using assms(3) by (simp add: dec_enc_time)
    moreover have "enc_time t \<noteq> J_Null" by (simp add: enc_time_def)
    ultimately show ?thesis by (simp add: t dec_time_pointer_def enc_time_pointer_def)
  qed
qed (use assms in simp)

lemma config_json_ok: "json_ok (enc_struct config_fields c) \<and> depth (enc_struct config_fields c) \<le> Suc 0"
proof (rule enc_fields_ok)
  have "json_ok (enc_time_pointer v) \<and> depth (enc_time_pointer v) = 0" for v by (cases v) (simp_all add: enc_time_pointer_def)
  then show "list_all (\<lambda>(n, om, w, r). json_ok (w c) \<and> depth (w c) \<le> 0) config_fields"
    by (simp add: config_fields_def field_def)
qed

text \<open>The indented text of the settings is read back.\<close>

lemma config_text_read:
  assumes "storable_config c" and "config_text c = Some t"
  shows "unmarshal_config E t = Some c"
proof -
  have t: "t = print_indent 0 (enc_struct config_fields c) @ [CHR 0x0A]"
    using assms(2) by (simp add: config_text_def split: if_splits)
  have "depth (enc_struct config_fields c) \<le> maxNestingDepth"
    using config_json_ok [of c] unfolding maxNestingDepth_def by linarith
  then have "parse_json t = Some (enc_struct config_fields c)"
    unfolding t using config_json_ok [of c] by (intro parse_print_indent) (simp_all add: json_space_def)
  moreover have "dec_struct E config_fields (enc_struct config_fields c) empty_config = Some c"
    using assms(1)
    by (cases c) (simp add: dec_enc_struct [OF wf_config_fields], simp add: config_fields_def empty_config_def
        storable_config_def field_runs run_omit_time to_valid_id)
  ultimately show ?thesis by (simp add: unmarshal_config_def)
qed

text \<open>Over the texts of storable settings the file behaves as the file of records.\<close>

theorem settings_text_refines:
  assumes "storable_config c"
  shows "Save c (disk_of E d) = map_prod id (disk_of E) (Save_text c d)
    \<and> Load (disk_of E d) = Load_text E d
    \<and> remove_config (disk_of E d) = map_prod id (disk_of E) (remove_text d)"
proof -
  obtain t where t: "config_text c = Some t" using assms by (simp add: config_text_def storable_config_def)
  have "map_prod (unmarshal_config E) id (t, private_mode) = (Some c, private_mode)"
    using config_text_read [OF assms t] by simp
  then show ?thesis
    by (auto simp: Save_def Save_text_def Load_def Load_text_def remove_config_def remove_text_def disk_of_def t
        split: option.split)
qed

lemma settings_text_refines_witness:
  "fst (Save_text (SetOAuth ''https://api.example/'' ''https://issuer.example'' ''cli'' [''openid''] ''u'' 5 empty_config)
     \<lparr>td_file = None, td_disk = \<lparr>cd_file = None, cd_read_fails = False, cd_prepare_fails = False,
        cd_replace_fails = False, cd_chmod_fails = False, cd_remove_fails = False\<rparr>\<rparr>) = None"
proof -
  let ?c = "SetOAuth ''https://api.example/'' ''https://issuer.example'' ''cli'' [''openid''] ''u'' 5 empty_config"
  let ?disk = "\<lparr>cd_file = None, cd_read_fails = False, cd_prepare_fails = False,
    cd_replace_fails = False, cd_chmod_fails = False, cd_remove_fails = False\<rparr>"
  have "storable_config ?c" and valid: "config_Validate ?c = None" by code_simp+
  note settings_text_refines [OF this(1), of sample_ext "\<lparr>td_file = None, td_disk = ?disk\<rparr>"]
  then have "Save ?c (disk_of sample_ext \<lparr>td_file = None, td_disk = ?disk\<rparr>)
      = map_prod id (disk_of sample_ext) (Save_text ?c \<lparr>td_file = None, td_disk = ?disk\<rparr>)"
    by (rule conjunct1)
  then have "fst (Save ?c (disk_of sample_ext \<lparr>td_file = None, td_disk = ?disk\<rparr>))
      = fst (Save_text ?c \<lparr>td_file = None, td_disk = ?disk\<rparr>)"
    by (simp only: fst_map_prod id_apply)
  then show ?thesis using valid by (simp add: Save_def disk_of_def)
qed

end
