(* ===== verification/Tunnel_Copy.thy ===== *)
theory Tunnel_Copy
  imports Proxy_Connections
begin

text \<open>
  \<^verbatim>\<open>copyTunnel\<close>: two goroutines copy between the client's and the upstream's connection while the
  caller waits for the first of them and then closes both connections.  The peers, the goroutines and the
  caller interleave.
\<close>

text \<open>
  For each direction: what the peer has sent on the connection (a history), what has not been read yet,
  whether the peer has finished sending, what has been written to the other side, whether the goroutine
  still copies, and whether a read or a write has failed.
\<close>

record direction =
  dn_sent :: string
  dn_pending :: string
  dn_finished :: bool
  dn_delivered :: string
  dn_copying :: bool
  dn_failed :: bool

datatype tunnel_pc = T_Waiting | T_Close_Upstream | T_Close_Client | T_Returned

record tunnel =
  tu_up :: direction
  tu_down :: direction
  tu_done :: nat
  tu_client_closed :: bool
  tu_upstream_closed :: bool
  tu_main :: tunnel_pc

definition new_direction :: direction where
  "new_direction = \<lparr>dn_sent = [], dn_pending = [], dn_finished = False, dn_delivered = [], dn_copying = True,
     dn_failed = False\<rparr>"

definition copyTunnel_start :: tunnel where
  "copyTunnel_start = \<lparr>tu_up = new_direction, tu_down = new_direction, tu_done = 0, tu_client_closed = False,
     tu_upstream_closed = False, tu_main = T_Waiting\<rparr>"

definition tunnel_open :: "tunnel \<Rightarrow> bool" where
  "tunnel_open t \<longleftrightarrow> \<not> tu_client_closed t \<and> \<not> tu_upstream_closed t"

subsection \<open>The peers and \<^verbatim>\<open>io.Copy\<close>\<close>

text \<open>
  A goroutine reads some of what is pending and writes it; it ends when the peer has finished and all is
  read, or when a read or a write fails, which can happen at any time and always happens on a closed
  connection.  A write that fails may have delivered a part of what was read.
\<close>

inductive peer_step :: "direction \<Rightarrow> direction \<Rightarrow> bool" where
  sends: "\<not> dn_finished d \<Longrightarrow> peer_step d (d\<lparr>dn_sent := dn_sent d @ xs, dn_pending := dn_pending d @ xs\<rparr>)"
| finishes: "peer_step d (d\<lparr>dn_finished := True\<rparr>)"

inductive copy_step :: "direction \<Rightarrow> direction \<Rightarrow> bool" where
  copies: "dn_copying d \<Longrightarrow> dn_pending d = xs @ ys \<Longrightarrow> xs \<noteq> [] \<Longrightarrow>
    copy_step d (d\<lparr>dn_pending := ys, dn_delivered := dn_delivered d @ xs\<rparr>)"

inductive copy_end :: "direction \<Rightarrow> direction \<Rightarrow> bool" where
  at_end: "dn_copying d \<Longrightarrow> dn_pending d = [] \<Longrightarrow> dn_finished d \<Longrightarrow> copy_end d (d\<lparr>dn_copying := False\<rparr>)"
| fails: "dn_copying d \<Longrightarrow> dn_pending d = xs @ ys @ zs \<Longrightarrow>
    copy_end d (d\<lparr>dn_pending := zs, dn_delivered := dn_delivered d @ xs, dn_copying := False, dn_failed := True\<rparr>)"

subsection \<open>The function\<close>

text \<open>The deferred calls close the upstream's connection first.\<close>

inductive tunnel_step :: "tunnel \<Rightarrow> tunnel \<Rightarrow> bool" where
  client_sends: "peer_step (tu_up t) d \<Longrightarrow> tunnel_step t (t\<lparr>tu_up := d\<rparr>)"
| upstream_sends: "peer_step (tu_down t) d \<Longrightarrow> tunnel_step t (t\<lparr>tu_down := d\<rparr>)"
| up: "tunnel_open t \<Longrightarrow> copy_step (tu_up t) d \<Longrightarrow> tunnel_step t (t\<lparr>tu_up := d\<rparr>)"
| down: "tunnel_open t \<Longrightarrow> copy_step (tu_down t) d \<Longrightarrow> tunnel_step t (t\<lparr>tu_down := d\<rparr>)"
| up_ends: "copy_end (tu_up t) d \<Longrightarrow> tunnel_step t (t\<lparr>tu_up := d, tu_done := Suc (tu_done t)\<rparr>)"
| down_ends: "copy_end (tu_down t) d \<Longrightarrow> tunnel_step t (t\<lparr>tu_down := d, tu_done := Suc (tu_done t)\<rparr>)"
| first_done: "tu_main t = T_Waiting \<Longrightarrow> tu_done t = Suc n \<Longrightarrow>
    tunnel_step t (t\<lparr>tu_done := n, tu_main := T_Close_Upstream\<rparr>)"
| close_upstream: "tu_main t = T_Close_Upstream \<Longrightarrow>
    tunnel_step t (t\<lparr>tu_upstream_closed := True, tu_main := T_Close_Client\<rparr>)"
| close_client: "tu_main t = T_Close_Client \<Longrightarrow>
    tunnel_step t (t\<lparr>tu_client_closed := True, tu_main := T_Returned\<rparr>)"

inductive_cases tunnel_stepE: "tunnel_step t t'"
inductive_cases peer_stepE: "peer_step d d'"
inductive_cases copy_stepE: "copy_step d d'"
inductive_cases copy_endE: "copy_end d d'"

inductive tunnel_reachable :: "tunnel \<Rightarrow> bool" where
  init: "tunnel_reachable copyTunnel_start"
| step: "tunnel_reachable t \<Longrightarrow> tunnel_step t t' \<Longrightarrow> tunnel_reachable t'"

subsection \<open>Invariant\<close>

definition direction_inv :: "direction \<Rightarrow> bool" where
  "direction_inv d \<longleftrightarrow> prefix (dn_delivered d) (dn_sent d)
     \<and> (dn_copying d \<longrightarrow> dn_sent d = dn_delivered d @ dn_pending d)"

lemma direction_inv_steps:
  assumes "direction_inv d"
  shows "peer_step d d' \<Longrightarrow> direction_inv d' \<and> dn_copying d' = dn_copying d"
    "copy_step d d' \<Longrightarrow> direction_inv d' \<and> dn_copying d' = dn_copying d"
    "copy_end d d' \<Longrightarrow> direction_inv d' \<and> dn_copying d \<and> \<not> dn_copying d'"
  using assms by (auto simp: direction_inv_def elim!: peer_stepE copy_stepE copy_endE)

definition ended_goroutines :: "tunnel \<Rightarrow> nat" where
  "ended_goroutines t = (if dn_copying (tu_up t) then 0 else 1) + (if dn_copying (tu_down t) then 0 else 1)"

definition tunnel_inv :: "tunnel \<Rightarrow> bool" where
  "tunnel_inv t \<longleftrightarrow> direction_inv (tu_up t) \<and> direction_inv (tu_down t)
     \<and> tu_done t + (if tu_main t = T_Waiting then 0 else 1) = ended_goroutines t
     \<and> (tu_upstream_closed t \<longleftrightarrow> tu_main t \<in> {T_Close_Client, T_Returned})
     \<and> (tu_client_closed t \<longleftrightarrow> tu_main t = T_Returned)"

lemma tunnel_inv_step: "tunnel_inv t \<Longrightarrow> tunnel_step t t' \<Longrightarrow> tunnel_inv t'"
  by (erule tunnel_stepE)
    (auto simp: tunnel_inv_def ended_goroutines_def dest: direction_inv_steps split: if_splits)

lemma tunnel_inv_reachable: "tunnel_reachable t \<Longrightarrow> tunnel_inv t"
proof (induction rule: tunnel_reachable.induct)
  case init
  then show ?case
    by (simp add: tunnel_inv_def direction_inv_def ended_goroutines_def copyTunnel_start_def new_direction_def)
qed (rule tunnel_inv_step)


subsection \<open>A client that finishes sending first\<close>

text \<open>The client has sent \<open>xs\<close> and finished, the upstream has sent \<open>ys\<close> so far.\<close>

definition request_side :: "string \<Rightarrow> direction" where
  "request_side xs = \<lparr>dn_sent = xs, dn_pending = [], dn_finished = True, dn_delivered = xs, dn_copying = False,
     dn_failed = False\<rparr>"

definition answer_side :: "string \<Rightarrow> direction" where
  "answer_side ys = \<lparr>dn_sent = ys, dn_pending = ys, dn_finished = False, dn_delivered = [], dn_copying = True,
     dn_failed = False\<rparr>"

definition half_closed :: "string \<Rightarrow> string \<Rightarrow> tunnel" where
  "half_closed xs ys = \<lparr>tu_up = request_side xs, tu_down = answer_side ys, tu_done = 0, tu_client_closed = True,
     tu_upstream_closed = True, tu_main = T_Returned\<rparr>"

lemma half_closed_reachable:
  assumes "xs \<noteq> []"
  shows "tunnel_reachable (half_closed xs ys)"
proof -
  define tn where "tn u d k uc cc m = \<lparr>tu_up = u, tu_down = d, tu_done = k, tu_client_closed = cc,
    tu_upstream_closed = uc, tu_main = m\<rparr>" for u d k uc cc m
  define u1 where "u1 = new_direction\<lparr>dn_sent := xs, dn_pending := xs\<rparr>"
  define u2 where "u2 = u1\<lparr>dn_pending := [], dn_delivered := xs\<rparr>"
  define u3 where "u3 = u2\<lparr>dn_finished := True\<rparr>"
  have sides: "u3\<lparr>dn_copying := False\<rparr> = request_side xs" "new_direction\<lparr>dn_sent := ys, dn_pending := ys\<rparr> = answer_side ys"
    by (simp_all add: u3_def u2_def u1_def request_side_def answer_side_def new_direction_def)
  have "tunnel_reachable (tn new_direction new_direction 0 False False T_Waiting)"
    using init by (simp add: tn_def copyTunnel_start_def)
  moreover have "tunnel_step (tn new_direction new_direction 0 False False T_Waiting) (tn u1 new_direction 0 False False T_Waiting)"
    using client_sends [of "tn new_direction new_direction 0 False False T_Waiting" u1] sends [of new_direction xs]
    by (simp add: tn_def u1_def new_direction_def)
  moreover have "tunnel_step (tn u1 new_direction 0 False False T_Waiting) (tn u2 new_direction 0 False False T_Waiting)"
    using up [of "tn u1 new_direction 0 False False T_Waiting" u2] copies [of u1 xs "[]"] assms
    by (simp add: tn_def u1_def u2_def new_direction_def tunnel_open_def)
  moreover have "tunnel_step (tn u2 new_direction 0 False False T_Waiting) (tn u3 new_direction 0 False False T_Waiting)"
    using client_sends [of "tn u2 new_direction 0 False False T_Waiting" u3] finishes [of u2] by (simp add: tn_def u3_def)
  moreover have "tunnel_step (tn u3 new_direction 0 False False T_Waiting) (tn (request_side xs) new_direction 1 False False T_Waiting)"
    using up_ends [of "tn u3 new_direction 0 False False T_Waiting" "request_side xs"] at_end [of u3]
    by (simp add: tn_def sides) (simp add: u3_def u2_def u1_def new_direction_def)
  moreover have "tunnel_step (tn (request_side xs) new_direction 1 False False T_Waiting)
      (tn (request_side xs) (answer_side ys) 1 False False T_Waiting)"
    using upstream_sends [of "tn (request_side xs) new_direction 1 False False T_Waiting" "answer_side ys"]
      sends [of new_direction ys] sides(2) by (simp add: tn_def new_direction_def)
  moreover have "tunnel_step (tn (request_side xs) (answer_side ys) 1 False False T_Waiting)
      (tn (request_side xs) (answer_side ys) 0 False False T_Close_Upstream)"
    using first_done [of "tn (request_side xs) (answer_side ys) 1 False False T_Waiting" 0] by (simp add: tn_def)
  moreover have "tunnel_step (tn (request_side xs) (answer_side ys) 0 False False T_Close_Upstream)
      (tn (request_side xs) (answer_side ys) 0 True False T_Close_Client)"
    using close_upstream [of "tn (request_side xs) (answer_side ys) 0 False False T_Close_Upstream"] by (simp add: tn_def)
  moreover have "tunnel_step (tn (request_side xs) (answer_side ys) 0 True False T_Close_Client) (half_closed xs ys)"
    using close_client [of "tn (request_side xs) (answer_side ys) 0 True False T_Close_Client"]
    by (simp add: tn_def half_closed_def)
  ultimately show ?thesis by (meson tunnel_reachable.step)
qed


text \<open>The first direction that ends closes both: when a client finishes sending before the answer has
  come, as half-closed connections do, the tunnel can drop the whole answer although nothing has failed.\<close>

theorem half_close_drops_answer:
  assumes "xs \<noteq> []"
  shows "\<exists>t. tunnel_reachable t \<and> tu_main t = T_Returned \<and> \<not> dn_failed (tu_up t) \<and> \<not> dn_failed (tu_down t)
    \<and> dn_delivered (tu_up t) = xs \<and> dn_finished (tu_up t)
    \<and> dn_sent (tu_down t) = ys \<and> dn_delivered (tu_down t) = []"
  using half_closed_reachable [OF assms, of ys]
  by (intro exI [of _ "half_closed xs ys"]) (simp add: half_closed_def request_side_def answer_side_def)

lemma half_close_drops_answer_witness:
  "\<exists>t. tunnel_reachable t \<and> tu_main t = T_Returned \<and> dn_delivered (tu_up t) = ''request''
    \<and> dn_sent (tu_down t) = ''answer'' \<and> dn_delivered (tu_down t) = []"
  using half_close_drops_answer [of "''request''" "''answer''"] by auto

end
