(* ===== verification/Proxy_Serve.thy ===== *)
theory Proxy_Serve
  imports Proxy_Connections
begin

text \<open>
  \<^verbatim>\<open>Proxy.Serve\<close>: the server's accept loop, the goroutine that waits for the cancellation and
  then closes the hijacked connections and shuts the server down, and the handlers that start and end
  tunnels, as a transition system.
\<close>

datatype shutdown_pc = G_Waiting | G_Closing "nat list" | G_Shutdown | G_Ended

datatype server_state = S_Serving | S_Shut_Down | S_Closed | S_Failed

text \<open>
  \<open>se_done\<close> is the closed channel of that name, \<open>se_started\<close> the tunnels that were ever tracked,
  \<open>se_snapshot\<close> the ones that the goroutine found; the result is whether \<^verbatim>\<open>Serve\<close> returned nil.
\<close>

record serving =
  se_cancelled :: bool
  se_goroutine :: shutdown_pc
  se_server :: server_state
  se_done :: bool
  se_result :: "bool option"
  se_proxy :: proxy
  se_started :: "nat list"
  se_snapshot :: "nat list"
  se_closed :: "nat list"

definition Serve_start :: "proxy \<Rightarrow> serving" where
  "Serve_start p = \<lparr>se_cancelled = False, se_goroutine = G_Waiting, se_server = S_Serving, se_done = False,
     se_result = None, se_proxy = p, se_started = px_connections p, se_snapshot = [], se_closed = []\<rparr>"

definition Serve_returns :: "bool \<Rightarrow> serving \<Rightarrow> serving" where
  "Serve_returns server_closed s = s\<lparr>se_done := True, se_result := Some (server_closed \<or> se_cancelled s)\<rparr>"

inductive Serve_step :: "serving \<Rightarrow> serving \<Rightarrow> bool" where
  cancel: "Serve_step s (s\<lparr>se_cancelled := True\<rparr>)"
| tunnel_starts: "c \<notin> set (se_started s) \<Longrightarrow>
    Serve_step s (s\<lparr>se_proxy := trackConnection (se_proxy s) c, se_started := c # se_started s\<rparr>)"
| tunnel_ends: "c \<in> set (px_connections (se_proxy s)) \<Longrightarrow>
    Serve_step s (s\<lparr>se_proxy := untrackConnection (se_proxy s) c, se_closed := c # se_closed s\<rparr>)"
| wake: "se_goroutine s = G_Waiting \<Longrightarrow> se_cancelled s \<Longrightarrow>
    Serve_step s (s\<lparr>se_goroutine := G_Closing (px_connections (se_proxy s)), se_snapshot := px_connections (se_proxy s)\<rparr>)"
| leave: "se_goroutine s = G_Waiting \<Longrightarrow> se_done s \<Longrightarrow> Serve_step s (s\<lparr>se_goroutine := G_Ended\<rparr>)"
| close_one: "se_goroutine s = G_Closing (c # cs) \<Longrightarrow>
    Serve_step s (s\<lparr>se_goroutine := G_Closing cs, se_closed := c # se_closed s\<rparr>)"
| shut_down: "se_goroutine s = G_Closing [] \<Longrightarrow> Serve_step s (s\<lparr>se_goroutine := G_Shutdown,
    se_server := (if se_server s = S_Serving then S_Shut_Down else se_server s)\<rparr>)"
| shut_down_ends: "se_goroutine s = G_Shutdown \<Longrightarrow> Serve_step s (s\<lparr>se_goroutine := G_Ended\<rparr>)"
| server_closed: "se_server s = S_Shut_Down \<Longrightarrow> Serve_step s (Serve_returns True (s\<lparr>se_server := S_Closed\<rparr>))"
| server_fails: "se_server s = S_Serving \<Longrightarrow> Serve_step s (Serve_returns False (s\<lparr>se_server := S_Failed\<rparr>))"

inductive_cases Serve_stepE: "Serve_step s s'"

inductive Serve_reachable :: "proxy \<Rightarrow> serving \<Rightarrow> bool" for p where
  init: "Serve_reachable p (Serve_start p)"
| step: "Serve_reachable p s \<Longrightarrow> Serve_step s s' \<Longrightarrow> Serve_reachable p s'"

fun still_to_close :: "shutdown_pc \<Rightarrow> nat list" where
  "still_to_close (G_Closing cs) = cs"
| "still_to_close _ = []"

text \<open>Which states of the server go with a state of the goroutine.\<close>

fun phase_ok :: "shutdown_pc \<Rightarrow> bool \<Rightarrow> server_state \<Rightarrow> bool" where
  "phase_ok G_Waiting cancelled sv = (sv = S_Serving \<or> sv = S_Failed)"
| "phase_ok (G_Closing cs) cancelled sv = (cancelled \<and> (sv = S_Serving \<or> sv = S_Failed))"
| "phase_ok G_Shutdown cancelled sv = (cancelled \<and> sv \<noteq> S_Serving)"
| "phase_ok G_Ended cancelled sv = (sv \<noteq> S_Serving \<and> (sv \<noteq> S_Failed \<longrightarrow> cancelled))"

lemma phase_ok_cancel: "phase_ok g c sv \<Longrightarrow> phase_ok g True sv"
  by (cases g) auto

lemma phase_ok_server:
  "phase_ok g c S_Shut_Down \<Longrightarrow> phase_ok g c S_Closed \<and> c" "phase_ok g c S_Serving \<Longrightarrow> phase_ok g c S_Failed"
  by (cases g; auto)+

definition Serve_inv :: "serving \<Rightarrow> bool" where
  "Serve_inv s \<longleftrightarrow>
     set (se_snapshot s) \<subseteq> set (se_closed s) \<union> set (still_to_close (se_goroutine s))
     \<and> phase_ok (se_goroutine s) (se_cancelled s) (se_server s)
     \<and> (se_done s \<longleftrightarrow> se_server s = S_Closed \<or> se_server s = S_Failed)
     \<and> (se_result s = None \<longleftrightarrow> \<not> se_done s)
     \<and> (se_result s = Some False \<longrightarrow> se_server s = S_Failed)"

lemma Serve_inv_step: "Serve_inv s \<Longrightarrow> Serve_step s s' \<Longrightarrow> Serve_inv s'"
  by (erule Serve_stepE)
    (auto simp: Serve_inv_def Serve_returns_def simp del: not_None_eq dest: phase_ok_cancel phase_ok_server)

lemma Serve_inv_reachable: "Serve_reachable p s \<Longrightarrow> Serve_inv s"
proof (induction rule: Serve_reachable.induct)
  case init
  then show ?case by (simp add: Serve_inv_def Serve_start_def)
qed (rule Serve_inv_step)

text \<open>In every interleaving: \<^verbatim>\<open>Serve\<close> returns an error only when the listener failed; when
  the server was shut down, every tunnel that the goroutine found at the cancellation has been closed;
  and the goroutine is not left behind, since from each state in which \<^verbatim>\<open>Serve\<close> has returned and
  it has not ended it can go on.\<close>

theorem Serve_shuts_down:
  assumes "Serve_reachable p s"
  shows "(se_result s = Some False \<longrightarrow> se_server s = S_Failed)
    \<and> (se_server s = S_Closed \<longrightarrow> se_cancelled s \<and> se_result s \<noteq> None
        \<and> set (se_snapshot s) \<subseteq> set (se_closed s))
    \<and> (se_result s \<noteq> None \<and> se_goroutine s \<noteq> G_Ended
        \<longrightarrow> (\<exists>s'. Serve_step s s' \<and> se_goroutine s' \<noteq> se_goroutine s))"
proof -
  have inv: "Serve_inv s" by (rule Serve_inv_reachable [OF assms])
  have "\<exists>s'. Serve_step s s' \<and> se_goroutine s' \<noteq> se_goroutine s"
    if returned: "se_result s \<noteq> None" and running: "se_goroutine s \<noteq> G_Ended"
  proof (cases "se_goroutine s")
    case G_Waiting
    then have "se_done s" using inv returned by (auto simp: Serve_inv_def)
    have "se_goroutine (s\<lparr>se_goroutine := G_Ended\<rparr>) \<noteq> se_goroutine s" using G_Waiting by simp
    then show ?thesis using leave [OF G_Waiting \<open>se_done s\<close>] by blast
  next
    case (G_Closing cs)
    show ?thesis
    proof (cases cs)
      case Nil
      then show ?thesis using shut_down [of s] G_Closing by fastforce
    next
      case (Cons c cs')
      then show ?thesis using close_one [of s c cs'] G_Closing by fastforce
    qed
  next
    case G_Shutdown
    then show ?thesis using shut_down_ends [of s] by fastforce
  next
    case G_Ended
    with running show ?thesis by simp
  qed
  then show ?thesis using inv by (cases "se_goroutine s") (auto simp: Serve_inv_def)
qed

subsection \<open>A tunnel that starts during the shutdown\<close>

definition late_tunnel :: "proxy \<Rightarrow> nat \<Rightarrow> serving" where
  "late_tunnel p c = \<lparr>se_cancelled = True, se_goroutine = G_Shutdown, se_server = S_Closed, se_done = True,
     se_result = Some True, se_proxy = trackConnection p c, se_started = [c], se_snapshot = [], se_closed = []\<rparr>"

text \<open>A handler that is about to hijack its connection when the goroutine looks at the set is missed: the
  tunnel it starts is still open when \<^verbatim>\<open>Serve\<close> has returned.\<close>

lemma late_tunnel_survives:
  assumes "px_connections p = []"
  shows "Serve_reachable p (late_tunnel p c)
    \<and> c \<in> set (px_connections (se_proxy (late_tunnel p c))) \<and> c \<notin> set (se_closed (late_tunnel p c))"
proof -
  let ?s0 = "Serve_start p"
  let ?s1 = "?s0\<lparr>se_cancelled := True\<rparr>"
  let ?s2 = "?s1\<lparr>se_goroutine := G_Closing []\<rparr>"
  let ?s3 = "?s2\<lparr>se_proxy := trackConnection p c, se_started := [c]\<rparr>"
  let ?s4 = "?s3\<lparr>se_goroutine := G_Shutdown, se_server := S_Shut_Down\<rparr>"
  have "Serve_reachable p ?s1" by (rule step [OF init cancel])
  moreover have "Serve_step ?s1 ?s2" using wake [of ?s1] assms by (simp add: Serve_start_def)
  moreover have "Serve_step ?s2 ?s3" using tunnel_starts [of c ?s2] assms by (simp add: Serve_start_def)
  moreover have "Serve_step ?s3 ?s4" using shut_down [of ?s3] by (simp add: Serve_start_def)
  moreover have "Serve_step ?s4 (late_tunnel p c)"
    using server_closed [of ?s4] assms by (simp add: Serve_start_def Serve_returns_def late_tunnel_def)
  ultimately have "Serve_reachable p (late_tunnel p c)" by (meson Serve_reachable.step)
  then show ?thesis by (simp add: late_tunnel_def trackConnection_def)
qed

lemma Serve_shuts_down_witness:
  "\<exists>s'. Serve_step (late_tunnel sample_proxy 7) s' \<and> se_goroutine s' \<noteq> G_Shutdown"
proof -
  have "px_connections sample_proxy = []" by (simp add: sample_proxy_def)
  then have "Serve_reachable sample_proxy (late_tunnel sample_proxy 7)" using late_tunnel_survives by blast
  note run = Serve_shuts_down [OF this]
  have "se_goroutine (late_tunnel sample_proxy 7) = G_Shutdown" "se_result (late_tunnel sample_proxy 7) \<noteq> None"
    by (simp_all add: late_tunnel_def)
  with run show ?thesis by (metis shutdown_pc.distinct(11))
qed

end
