(* ===== verification/Refresh_Concurrency.thy ===== *)
theory Refresh_Concurrency
  imports Api_Client
begin

text \<open>
  \<^verbatim>\<open>Client.credentials\<close> called by any number of goroutines at the same time: the reads of the
  store, the account's lock, the token request and the update of the store as the steps of threads.  The
  lock is in a variable of the process, the store is shared by all processes of the user.
\<close>

subsection \<open>Threads\<close>

text \<open>Where a call is: \<open>R_Stale\<close> waits for the lock, \<open>R_Locked\<close> to \<open>R_Unlock\<close> hold it.\<close>

datatype refresh_pc = R_Idle | R_Start bool | R_Stale bool oauth_credentials | R_Locked bool oauth_credentials
  | R_Sent oauth_credentials | R_Answered oauth_credentials "refresh_error + token_response"
  | R_Unlock "client_error + oauth_credentials" | R_Done "client_error + oauth_credentials"

text \<open>\<open>rf_log\<close> is the history of the refresh tokens presented to the server with its answers.\<close>

record 's refreshing =
  rf_store :: 's
  rf_now :: int
  rf_locks :: "nat \<Rightarrow> nat option"
  rf_threads :: "nat \<Rightarrow> refresh_pc"
  rf_log :: "(string \<times> (refresh_error + token_response)) list"

definition refresh_start :: "'s \<Rightarrow> int \<Rightarrow> 's refreshing" where
  "refresh_start store now = \<lparr>rf_store = store, rf_now = now, rf_locks = (\<lambda>p. None), rf_threads = (\<lambda>i. R_Idle),
     rf_log = []\<rparr>"

definition first_read :: "'s store_ops \<Rightarrow> api_client \<Rightarrow> 's refreshing \<Rightarrow> bool \<Rightarrow> refresh_pc" where
  "first_read ops cl s forceRefresh = (case st_get ops (rf_store s) (client_account cl) of
       Inl e \<Rightarrow> R_Done (Inl (get_error e))
     | Inr c \<Rightarrow> if \<not> forceRefresh \<and> rf_now s + client_skew cl < oc_expires_at c then R_Done (Inr c)
         else R_Stale forceRefresh c)"

definition second_read ::
  "'s store_ops \<Rightarrow> api_client \<Rightarrow> 's refreshing \<Rightarrow> bool \<Rightarrow> oauth_credentials \<Rightarrow> refresh_pc" where
  "second_read ops cl s forceRefresh c = (case st_get ops (rf_store s) (client_account cl) of
       Inl e \<Rightarrow> R_Unlock (Inl (get_error e))
     | Inr latest \<Rightarrow>
         if \<not> forceRefresh \<and> rf_now s + client_skew cl < oc_expires_at latest then R_Unlock (Inr latest)
         else if forceRefresh \<and> oc_access_token latest \<noteq> oc_access_token c
             \<and> rf_now s + client_skew cl < oc_expires_at latest then R_Unlock (Inr latest)
         else R_Sent latest)"

text \<open>What a call does with the answer of the server, as in the sequential model.\<close>

definition with_answer :: "refresh_error + token_response \<Rightarrow> 's client_env" where
  "with_answer r = \<lparr>en_now = (\<lambda>n. 0), en_others = (\<lambda>s. s), en_refresh = (\<lambda>token scope. r)\<rparr>"

definition use_answer ::
  "'s store_ops \<Rightarrow> api_client \<Rightarrow> 's refreshing \<Rightarrow> oauth_credentials \<Rightarrow> refresh_error + token_response
    \<Rightarrow> refresh_pc \<times> 's" where
  "use_answer ops cl s latest r = (case refresh_locked ops (with_answer r) (client_account cl) latest (rf_store s) of
       (result, store, used) \<Rightarrow> (R_Unlock result, store))"

subsection \<open>Steps\<close>

datatype refresh_action = A_Call nat bool | A_Read nat | A_Lock nat | A_Reread nat
  | A_Answer nat "refresh_error + token_response" | A_Finish nat | A_Unlock nat | A_Time int

definition goto :: "nat \<Rightarrow> refresh_pc \<Rightarrow> 's refreshing \<Rightarrow> 's refreshing" where
  "goto i pc s = s\<lparr>rf_threads := (rf_threads s)(i := pc)\<rparr>"

text \<open>\<open>process\<close> is the process of a thread; \<open>server\<close> says which answers the server can give to a token
  after the presentations so far.\<close>

type_synonym token_server =
  "(string \<times> (refresh_error + token_response)) list \<Rightarrow> string \<Rightarrow> refresh_error + token_response \<Rightarrow> bool"

fun refresh_act ::
  "'s store_ops \<Rightarrow> api_client \<Rightarrow> (nat \<Rightarrow> nat) \<Rightarrow> token_server \<Rightarrow> refresh_action \<Rightarrow> 's refreshing
    \<Rightarrow> 's refreshing option" where
  "refresh_act ops cl process server (A_Call i forceRefresh) s = (case rf_threads s i of
       R_Idle \<Rightarrow> Some (goto i (R_Start forceRefresh) s)
     | R_Done result \<Rightarrow> Some (goto i (R_Start forceRefresh) s) | _ \<Rightarrow> None)"
| "refresh_act ops cl process server (A_Read i) s = (case rf_threads s i of
       R_Start forceRefresh \<Rightarrow> Some (goto i (first_read ops cl s forceRefresh) s) | _ \<Rightarrow> None)"
| "refresh_act ops cl process server (A_Lock i) s = (case rf_threads s i of
       R_Stale forceRefresh c \<Rightarrow>
         if rf_locks s (process i) = None
         then Some (goto i (R_Locked forceRefresh c) s\<lparr>rf_locks := (rf_locks s)(process i := Some i)\<rparr>) else None
     | _ \<Rightarrow> None)"
| "refresh_act ops cl process server (A_Reread i) s = (case rf_threads s i of
       R_Locked forceRefresh c \<Rightarrow> Some (goto i (second_read ops cl s forceRefresh c) s) | _ \<Rightarrow> None)"
| "refresh_act ops cl process server (A_Answer i r) s = (case rf_threads s i of
       R_Sent latest \<Rightarrow>
         if server (rf_log s) (oc_refresh_token latest) r
         then Some (goto i (R_Answered latest r) s\<lparr>rf_log := rf_log s @ [(oc_refresh_token latest, r)]\<rparr>) else None
     | _ \<Rightarrow> None)"
| "refresh_act ops cl process server (A_Finish i) s = (case rf_threads s i of
       R_Answered latest r \<Rightarrow> (case use_answer ops cl s latest r of
           (pc, store) \<Rightarrow> Some (goto i pc s\<lparr>rf_store := store\<rparr>))
     | _ \<Rightarrow> None)"
| "refresh_act ops cl process server (A_Unlock i) s = (case rf_threads s i of
       R_Unlock result \<Rightarrow> Some (goto i (R_Done result) s\<lparr>rf_locks := (rf_locks s)(process i := None)\<rparr>) | _ \<Rightarrow> None)"
| "refresh_act ops cl process server (A_Time t) s = (if rf_now s \<le> t then Some (s\<lparr>rf_now := t\<rparr>) else None)"

fun refresh_run ::
  "'s store_ops \<Rightarrow> api_client \<Rightarrow> (nat \<Rightarrow> nat) \<Rightarrow> token_server \<Rightarrow> refresh_action list \<Rightarrow> 's refreshing
    \<Rightarrow> 's refreshing option" where
  "refresh_run ops cl process server [] s = Some s"
| "refresh_run ops cl process server (a # as) s =
     Option.bind (refresh_act ops cl process server a s) (refresh_run ops cl process server as)"

subsection \<open>What is stated\<close>

fun in_section :: "refresh_pc \<Rightarrow> bool" where
  "in_section (R_Locked forceRefresh c) = True"
| "in_section (R_Sent latest) = True"
| "in_section (R_Answered latest r) = True"
| "in_section (R_Unlock result) = True"
| "in_section _ = False"

text \<open>A server that rotates refresh tokens: the new one is not empty and was never presented.\<close>

definition rotates :: "token_server \<Rightarrow> bool" where
  "rotates server \<longleftrightarrow> (\<forall>log token t. server log token (Inr t) \<longrightarrow>
     tr_refresh_token t \<noteq> [] \<and> tr_refresh_token t \<noteq> token \<and> tr_refresh_token t \<notin> fst ` set log)"

text \<open>The tokens for which the server has already given new ones.\<close>

definition exchanged :: "(string \<times> (refresh_error + token_response)) list \<Rightarrow> string set" where
  "exchanged log = {token. \<exists>t. (token, Inr t) \<in> set log}"

text \<open>No token is presented after it was exchanged.\<close>

definition never_reused :: "(string \<times> (refresh_error + token_response)) list \<Rightarrow> bool" where
  "never_reused log \<longleftrightarrow> (\<forall>xs token t ys. log = xs @ (token, Inr t) # ys \<longrightarrow> token \<notin> fst ` set ys)"

lemma exchanged_append [simp]:
  "exchanged (log @ [(token, Inl e)]) = exchanged log"
  "exchanged (log @ [(token, Inr t)]) = insert token (exchanged log)"
  by (auto simp: exchanged_def)

lemma exchanged_presented: "exchanged log \<subseteq> fst ` set log"
  by (force simp: exchanged_def)

lemma never_reused_append:
  assumes "never_reused log" and "token \<notin> exchanged log"
  shows "never_reused (log @ [(token, r)])"
  unfolding never_reused_def
proof (intro allI impI)
  fix xs tk t ys
  assume eq: "log @ [(token, r)] = xs @ (tk, Inr t) # ys"
  show "tk \<notin> fst ` set ys"
  proof (cases ys rule: rev_cases)
    case (snoc ys' y)
    with eq have log: "log = xs @ (tk, Inr t) # ys'" and y: "y = (token, r)" by auto
    then have "tk \<notin> fst ` set ys'" using assms(1) by (auto simp: never_reused_def)
    moreover have "tk \<noteq> token" using assms(2) log by (auto simp: exchanged_def)
    ultimately show ?thesis by (simp add: snoc y)
  qed simp
qed

text \<open>An interleaving of two threads with locks of their own: both send the stored refresh token.\<close>

definition two_callers :: "token_response \<Rightarrow> refresh_action list" where
  "two_callers t = [A_Call 0 False, A_Call 1 False, A_Read 0, A_Read 1, A_Lock 0, A_Lock 1, A_Reread 0, A_Reread 1,
     A_Answer 0 (Inr t), A_Finish 0, A_Unlock 0, A_Answer 1 (Inl Invalid_Grant), A_Finish 1, A_Unlock 1]"

subsection \<open>One process\<close>

text \<open>A store that takes and removes everything.\<close>

locale reliable_store = credential_store +
  assumes saves: "ok s \<Longrightarrow> fst (st_set ops s a c) = None"
    and set_exact: "ok s \<Longrightarrow> st_set ops s a c = (None, s') \<Longrightarrow> st_get ops s' a = Inr c' \<Longrightarrow> c' = c"
    and deletes: "ok s \<Longrightarrow> fst (st_delete ops s a) = None"

fun exchanging :: "refresh_pc \<Rightarrow> bool" where
  "exchanging (R_Answered latest (Inr t)) = True"
| "exchanging _ = False"

fun thread_ok :: "(string \<times> (refresh_error + token_response)) list \<Rightarrow> refresh_pc \<Rightarrow> bool" where
  "thread_ok log (R_Sent latest) = (oc_refresh_token latest \<notin> exchanged log)"
| "thread_ok log (R_Answered latest (Inr t)) = (tr_refresh_token t \<noteq> [] \<and> tr_refresh_token t \<notin> exchanged log)"
| "thread_ok log _ = True"

lemma outside_section: "\<not> in_section pc \<Longrightarrow> thread_ok log pc \<and> \<not> exchanging pc"
  by (cases "(log, pc)" rule: thread_ok.cases) auto

lemma first_read_outside: "\<not> in_section (first_read ops cl s forceRefresh)"
  by (simp add: first_read_def split: sum.split)

definition token_fresh :: "'s store_ops \<Rightarrow> api_client \<Rightarrow> 's \<Rightarrow> (string \<times> (refresh_error + token_response)) list \<Rightarrow> bool" where
  "token_fresh ops cl store log \<longleftrightarrow>
     (\<forall>c. st_get ops store (client_account cl) = Inr c \<longrightarrow> oc_refresh_token c \<notin> exchanged log)"

context reliable_store begin

text \<open>Only the thread that holds the lock is in the section; the stored token is not exchanged, unless that
  thread has the new one in its hands.\<close>

definition refresh_inv :: "api_client \<Rightarrow> nat \<Rightarrow> 'a refreshing \<Rightarrow> bool" where
  "refresh_inv cl p s \<longleftrightarrow> ok (rf_store s) \<and> (\<forall>i. in_section (rf_threads s i) \<longleftrightarrow> rf_locks s p = Some i)
     \<and> never_reused (rf_log s) \<and> (\<forall>i. thread_ok (rf_log s) (rf_threads s i))
     \<and> (token_fresh ops cl (rf_store s) (rf_log s) \<or> (\<exists>i. exchanging (rf_threads s i)))"

lemma ok_after: "ok s \<Longrightarrow> st_set ops s a c = (r, s') \<Longrightarrow> ok s'"
  using ok_set [of s a c] by simp

lemma alone:
  assumes "refresh_inv cl p s" and "in_section (rf_threads s i)" and "j \<noteq> i"
  shows "\<not> in_section (rf_threads s j)"
proof -
  have "rf_locks s p = Some i" using assms(1,2) by (simp add: refresh_inv_def)
  with assms(1,3) show ?thesis by (simp add: refresh_inv_def)
qed

text \<open>A thread that stays outside, and one that stays inside and is alone there.\<close>

lemma inv_outside:
  assumes "refresh_inv cl p s" and "\<not> in_section (rf_threads s i)" and "\<not> in_section pc"
  shows "refresh_inv cl p (goto i pc s)"
proof -
  have "(\<exists>j. exchanging (rf_threads (goto i pc s) j)) = (\<exists>j. exchanging (rf_threads s j))"
    using outside_section [OF assms(3)] outside_section [OF assms(2)] by (auto simp: goto_def) metis
  then show ?thesis using assms outside_section [OF assms(3)] by (auto simp: refresh_inv_def goto_def)
qed

lemma inv_inside:
  assumes "refresh_inv cl p s" and "in_section (rf_threads s i)" and "in_section pc"
    and "ok store" and "never_reused log" and "thread_ok log pc" and "token_fresh ops cl store log \<or> exchanging pc"
  shows "refresh_inv cl p (goto i pc s\<lparr>rf_store := store, rf_log := log\<rparr>)"
proof -
  have "thread_ok log (rf_threads s j)" if "j \<noteq> i" for j
    using outside_section alone [OF assms(1,2) that] by blast
  moreover have "rf_locks s p = Some i" using assms(1,2) by (simp add: refresh_inv_def)
  ultimately show ?thesis using assms by (auto simp: refresh_inv_def goto_def)
qed

lemma fresh_inside:
  assumes "refresh_inv cl p s" and "in_section (rf_threads s i)" and "\<not> exchanging (rf_threads s i)"
  shows "token_fresh ops cl (rf_store s) (rf_log s)"
proof -
  have "\<not> exchanging (rf_threads s j)" for j
    using outside_section alone [OF assms(1,2), of j] assms(3) by (cases "j = i") auto
  with assms(1) show ?thesis by (simp add: refresh_inv_def)
qed

lemma second_read_inv:
  assumes "refresh_inv cl p s" and "rf_threads s i = R_Locked forceRefresh c"
  shows "refresh_inv cl p (goto i (second_read ops cl s forceRefresh c) s)"
proof -
  let ?pc = "second_read ops cl s forceRefresh c"
  have fresh: "token_fresh ops cl (rf_store s) (rf_log s)" using fresh_inside [OF assms(1), of i] assms(2) by simp
  then have "in_section ?pc" "thread_ok (rf_log s) ?pc"
    by (auto simp: second_read_def token_fresh_def split: sum.split)
  then show ?thesis
    using inv_inside [OF assms(1), of i ?pc "rf_store s" "rf_log s"] fresh assms
    by (simp add: refresh_inv_def goto_def)
qed

lemma answer_inv:
  assumes "refresh_inv cl p s" and "rf_threads s i = R_Sent latest" and "rotates server"
    and "server (rf_log s) (oc_refresh_token latest) r"
  shows "refresh_inv cl p (goto i (R_Answered latest r) s\<lparr>rf_log := rf_log s @ [(oc_refresh_token latest, r)]\<rparr>)"
proof -
  let ?log = "rf_log s @ [(oc_refresh_token latest, r)]"
  have sent: "oc_refresh_token latest \<notin> exchanged (rf_log s)" and reused: "never_reused (rf_log s)" and ok: "ok (rf_store s)"
    using assms(1) assms(2) by (force simp: refresh_inv_def dest: spec [of _ i])+
  have fresh: "token_fresh ops cl (rf_store s) (rf_log s)" using fresh_inside [OF assms(1), of i] assms(2) by simp
  have "thread_ok ?log (R_Answered latest r)"
  proof (cases r)
    case (Inr t)
    then have "tr_refresh_token t \<noteq> []" "tr_refresh_token t \<noteq> oc_refresh_token latest"
      "tr_refresh_token t \<notin> fst ` set (rf_log s)"
      using assms(3,4) unfolding rotates_def by blast+
    then show ?thesis using Inr exchanged_presented [of "rf_log s"] by (simp add: subset_iff) blast
  qed simp
  moreover have "token_fresh ops cl (rf_store s) ?log \<or> exchanging (R_Answered latest r)"
    using fresh by (cases r) (auto simp: token_fresh_def)
  ultimately show ?thesis
    using inv_inside [OF assms(1), of i "R_Answered latest r" "rf_store s" ?log] assms(2) ok
      never_reused_append [OF reused sent]
    by (simp add: goto_def)
qed

lemma finish_inv:
  assumes "refresh_inv cl p s" and "rf_threads s i = R_Answered latest r" and "use_answer ops cl s latest r = (pc, store)"
  shows "refresh_inv cl p (goto i pc s\<lparr>rf_store := store\<rparr>)"
proof -
  let ?a = "client_account cl"
  have ok: "ok (rf_store s)" and reused: "never_reused (rf_log s)" and thread: "thread_ok (rf_log s) (R_Answered latest r)"
    using assms(1,2) by (auto simp: refresh_inv_def dest: spec [of _ i])
  have pc: "in_section pc" "thread_ok (rf_log s) pc" and store: "ok store"
    using assms(3) ok_delete [OF ok] ok
    by (auto dest: ok_after simp: use_answer_def refresh_locked_def with_answer_def Let_def
        split: sum.splits refresh_error.splits prod.splits option.splits)
  have "token_fresh ops cl store (rf_log s)"
  proof (cases r)
    case (Inr t)
    obtain s' where set: "st_set ops (rf_store s) ?a (refreshed_credentials latest t) = (None, s')"
      using saves [OF ok, of ?a "refreshed_credentials latest t"] by (cases "st_set ops (rf_store s) ?a (refreshed_credentials latest t)") auto
    then have "store = s'" using assms(3) Inr by (simp add: use_answer_def refresh_locked_def with_answer_def Let_def)
    moreover have "oc_refresh_token (refreshed_credentials latest t) = tr_refresh_token t"
      using thread Inr by (simp add: refreshed_credentials_def)
    ultimately show ?thesis using set_exact [OF ok set] thread Inr by (auto simp: token_fresh_def)
  next
    case (Inl e)
    then have fresh: "token_fresh ops cl (rf_store s) (rf_log s)" using fresh_inside [OF assms(1), of i] assms(2) by simp
    have "st_get ops (snd (st_delete ops (rf_store s) ?a)) ?a = Inl Not_Found"
      using get_deleted [OF ok, of ?a] deletes [OF ok, of ?a] by (metis prod.collapse)
    then show ?thesis
      using fresh assms(3) Inl
      by (auto simp: use_answer_def refresh_locked_def with_answer_def Let_def token_fresh_def split: refresh_error.splits)
  qed
  then show ?thesis
    using inv_inside [OF assms(1), of i pc store "rf_log s"] pc store reused assms(2) by (simp add: goto_def)
qed

lemma lock_inv:
  assumes "refresh_inv cl p s" and "rf_threads s i = R_Stale forceRefresh c" and "rf_locks s p = None"
  shows "refresh_inv cl p (goto i (R_Locked forceRefresh c) s\<lparr>rf_locks := (rf_locks s)(p := Some i)\<rparr>)"
proof -
  have "\<not> in_section (rf_threads s j)" for j using assms(1,3) by (simp add: refresh_inv_def)
  then show ?thesis using assms(1) outside_section by (auto simp: refresh_inv_def goto_def)
qed

lemma unlock_inv:
  assumes "refresh_inv cl p s" and "rf_threads s i = R_Unlock result"
  shows "refresh_inv cl p (goto i (R_Done result) s\<lparr>rf_locks := (rf_locks s)(p := None)\<rparr>)"
proof -
  have "token_fresh ops cl (rf_store s) (rf_log s)" using fresh_inside [OF assms(1), of i] assms(2) by simp
  then show ?thesis
    using assms alone [OF assms(1), of i] by (auto simp: refresh_inv_def goto_def)
qed

lemma refresh_act_inv:
  assumes "refresh_inv cl p s" and "refresh_act ops cl (\<lambda>i. p) server act s = Some s'" and "rotates server"
  shows "refresh_inv cl p s'"
proof (cases act)
  case (A_Call i forceRefresh)
  then show ?thesis using assms(1,2) by (auto intro!: inv_outside split: refresh_pc.splits)
next
  case (A_Read i)
  then show ?thesis using assms(1,2) first_read_outside by (auto intro!: inv_outside split: refresh_pc.splits)
next
  case (A_Lock i)
  then show ?thesis using assms(1,2) lock_inv by (auto split: refresh_pc.splits if_splits)
next
  case (A_Reread i)
  then show ?thesis using assms(1,2) second_read_inv by (auto split: refresh_pc.splits)
next
  case (A_Answer i r)
  then show ?thesis using assms answer_inv by (auto split: refresh_pc.splits if_splits)
next
  case (A_Finish i)
  then show ?thesis using assms(1,2) finish_inv by (auto split: refresh_pc.splits prod.splits)
next
  case (A_Unlock i)
  then show ?thesis using assms(1,2) unlock_inv by (auto split: refresh_pc.splits)
next
  case (A_Time t)
  then show ?thesis using assms(1,2) by (auto simp: refresh_inv_def split: if_splits)
qed

lemma refresh_run_inv:
  assumes "refresh_inv cl p s" and "refresh_run ops cl (\<lambda>i. p) server acts s = Some s'" and "rotates server"
  shows "refresh_inv cl p s'"
  using assms(1,2)
proof (induction acts arbitrary: s)
  case (Cons a acts)
  then obtain s1 where "refresh_act ops cl (\<lambda>i. p) server a s = Some s1"
    and "refresh_run ops cl (\<lambda>i. p) server acts s1 = Some s'" by (auto simp: bind_eq_Some_conv)
  then show ?case using Cons refresh_act_inv assms(3) by blast
qed simp

lemma refresh_start_inv: "ok store \<Longrightarrow> refresh_inv cl p (refresh_start store now)"
  by (simp add: refresh_inv_def refresh_start_def never_reused_def token_fresh_def exchanged_def)

lemma one_process:
  assumes "ok store" and "rotates server"
    and "refresh_run ops cl (\<lambda>i. p) server acts (refresh_start store now) = Some s"
  shows "never_reused (rf_log s) \<and> (\<forall>i j. in_section (rf_threads s i) \<and> in_section (rf_threads s j) \<longrightarrow> i = j)"
proof -
  have "refresh_inv cl p s" by (rule refresh_run_inv [OF refresh_start_inv [OF assms(1)] assms(3,2)])
  then show ?thesis using alone by (metis refresh_inv_def)
qed

lemma two_processes:
  assumes "ok store" and "st_get ops store (client_account cl) = Inr c" and "\<not> now + client_skew cl < oc_expires_at c"
    and "complete (refreshed_credentials c t)" and "process 0 \<noteq> process 1"
    and "server [] (oc_refresh_token c) (Inr t)"
    and "server [(oc_refresh_token c, Inr t)] (oc_refresh_token c) (Inl Invalid_Grant)"
  shows "\<exists>s. refresh_run ops cl process server (two_callers t) (refresh_start store now) = Some s
    \<and> rf_threads s 0 = R_Done (Inr (refreshed_credentials c t)) \<and> rf_threads s 1 = R_Done (Inl Signed_Out)
    \<and> st_get ops (rf_store s) (client_account cl) = Inl Not_Found
    \<and> map fst (rf_log s) = [oc_refresh_token c, oc_refresh_token c]"
proof -
  let ?a = "client_account cl"
  obtain s1 where set: "st_set ops store ?a (refreshed_credentials c t) = (None, s1)"
    using saves [OF assms(1), of ?a "refreshed_credentials c t"] by (metis prod.collapse)
  have ok1: "ok s1" by (rule ok_after [OF assms(1) set])
  obtain s2 where del: "st_delete ops s1 ?a = (None, s2)"
    using deletes [OF ok1, of ?a] by (metis prod.collapse)
  have gone: "st_get ops s2 ?a = Inl Not_Found" by (rule get_deleted [OF ok1 del])
  show ?thesis
    using assms(2,3,5-7) set del gone
    by (simp add: two_callers_def refresh_start_def goto_def first_read_def second_read_def use_answer_def
        refresh_locked_def with_answer_def Let_def)
qed

end

subsection \<open>The store of the program\<close>

definition reliable_ok :: "bool \<Rightarrow> keyring \<times> file_system \<Rightarrow> bool" where
  "reliable_ok allowFile s \<longleftrightarrow> fallback_ok allowFile s
     \<and> (kr_down (fst s) \<longrightarrow> \<not> fs_prepare_fails (snd s) \<and> \<not> fs_replace_fails (snd s))"

lemma reliable_set:
  assumes "reliable_ok allowFile (k, f)"
  shows "(\<exists>s'. st_set (fallback_store allowFile E) (k, f) a c = (None, s') \<and> reliable_ok allowFile s'
    \<and> (st_get (fallback_store allowFile E) s' a = Inr c' \<longrightarrow> c' = c))"
proof -
  have f: "file_ok f" "\<not> fs_remove_fails f" using assms by (auto simp: reliable_ok_def fallback_ok_def)
  obtain dr df where del: "file_Delete f a = (dr, df)" by fastforce
  note removed = file_Delete_removes [OF f del, of E]
  show ?thesis
  proof (cases "kr_down k")
    case False
    then show ?thesis
      using assms removed fallback_up(1) [OF False, of allowFile E f a c]
        fallback_up(3) [of "k\<lparr>kr_entries := gomap_set a (Some c) (kr_entries k)\<rparr>" allowFile E df a]
      by (auto simp: FallbackStore_def reliable_ok_def fallback_ok_def keyring_takes_all_def decodeCredentials_def del
          split: if_splits)
  next
    case True
    then have allow: allowFile and set: "file_Set f a c
        = (None, f\<lparr>fs_files := gomap_set (file_path f a) (Some c, owner_only) (fs_files f)\<rparr>)"
      using assms by (simp_all add: reliable_ok_def fallback_ok_def file_Set_def file_ok_def)
    then show ?thesis
      using assms True fallback_down(1,3) [OF True, of E] f
      by (auto simp: FallbackStore_def reliable_ok_def fallback_ok_def file_Get_ok decodeCredentials_def split: if_splits)
  qed
qed

lemma reliable_delete:
  assumes "reliable_ok allowFile (k, f)"
  shows "\<exists>s'. st_delete (fallback_store allowFile E) (k, f) a = (None, s') \<and> reliable_ok allowFile s'"
proof -
  have f: "file_ok f" "\<not> fs_remove_fails f" using assms by (auto simp: reliable_ok_def fallback_ok_def)
  obtain dr df where del: "file_Delete f a = (dr, df)" by fastforce
  note removed = file_Delete_removes [OF f del]
  have flags: "fs_prepare_fails df = fs_prepare_fails f" "fs_replace_fails df = fs_replace_fails f"
    using del by (auto simp: file_Delete_def split: if_splits)
  show ?thesis
    using assms removed flags fallback_up(2) [of k allowFile E f a] fallback_down(2) [of k E f a]
    by (cases "kr_down k") (auto simp: FallbackStore_def reliable_ok_def fallback_ok_def keyring_takes_all_def del)
qed

interpretation reliable_fallback: reliable_store "fallback_store allowFile E" "complete_credentials E"
  "reliable_ok allowFile" for allowFile E
proof unfold_locales
  fix s :: "keyring \<times> file_system" and a b :: string and c c' e r s'
  assume ok: "reliable_ok allowFile s"
  then have old: "fallback_ok allowFile s" by (simp add: reliable_ok_def)
  obtain k f where s: "s = (k, f)" by (cases s)
  note set = reliable_set [OF ok [unfolded s], of E a c c', folded s]
  note del = reliable_delete [OF ok [unfolded s], of E a, folded s]
  let ?ops = "fallback_store allowFile E"
  show "st_get ?ops s' a = Inr c" if "complete_credentials E c" "st_set ?ops s a c = (None, s')"
    using that by (rule fallback_store.get_set [OF old])
  show "st_get ?ops s' b = st_get ?ops s b" if "b \<noteq> a" "st_set ?ops s a c = (r, s')"
    using that by (rule fallback_store.get_set_other [OF old])
  show "st_get ?ops s' a = Inl Not_Found" if "st_delete ?ops s a = (None, s')"
    using that by (rule fallback_store.get_deleted [OF old])
  show "st_get ?ops s' b = st_get ?ops s b" if "b \<noteq> a" "st_delete ?ops s a = (r, s')"
    using that by (rule fallback_store.get_delete_other [OF old])
  show "st_get ?ops s' a = st_get ?ops s a" if "st_set ?ops s a c = (Some e, s')"
    using that by (rule fallback_store.failed_set [OF old])
  show "reliable_ok allowFile (snd (st_set ?ops s a c))" "fst (st_set ?ops s a c) = None" using set by auto
  show "reliable_ok allowFile (snd (st_delete ?ops s a))" "fst (st_delete ?ops s a) = None" using del by auto
  show "c' = c" if "st_set ?ops s a c = (None, s')" "st_get ?ops s' a = Inr c'" using set that by auto
qed


text \<open>Two processes of one user have a lock each.  When their access token has expired both present the
  stored refresh token; the server refuses the second one, and that process deletes what the first has
  stored: a call that reported new credentials is followed by a signed-out state.\<close>

theorem second_process_signs_out:
  assumes "reliable_ok allowFile store" and "process 0 \<noteq> process 1"
    and "fallback_Get allowFile (KeyringStore E) (FileStore E) store (client_account cl) = Inr c"
    and "\<not> now + client_skew cl < oc_expires_at c" and "complete_credentials E (refreshed_credentials c t)"
    and "server [] (oc_refresh_token c) (Inr t)"
    and "server [(oc_refresh_token c, Inr t)] (oc_refresh_token c) (Inl Invalid_Grant)"
  shows "\<exists>s. refresh_run (fallback_store allowFile E) cl process server (two_callers t) (refresh_start store now) = Some s
    \<and> rf_threads s 0 = R_Done (Inr (refreshed_credentials c t)) \<and> rf_threads s 1 = R_Done (Inl Signed_Out)
    \<and> fallback_Get allowFile (KeyringStore E) (FileStore E) (rf_store s) (client_account cl) = Inl Not_Found
    \<and> map fst (rf_log s) = [oc_refresh_token c, oc_refresh_token c]"
proof -
  have get: "st_get (fallback_store allowFile E) = fallback_Get allowFile (KeyringStore E) (FileStore E)"
    by (simp add: FallbackStore_def)
  show ?thesis
    using reliable_fallback.two_processes [of allowFile store E cl c now t process server] assms unfolding get by blast
qed

subsection \<open>Samples\<close>

text \<open>A server that gives each token out once and refuses what was presented before.\<close>

definition strict_server :: token_server where
  "strict_server log token r = (case r of
       Inl e \<Rightarrow> e = Invalid_Grant \<and> token \<in> fst ` set log
     | Inr t \<Rightarrow> token \<notin> fst ` set log \<and> tr_refresh_token t \<noteq> [] \<and> tr_refresh_token t \<noteq> token
         \<and> tr_refresh_token t \<notin> fst ` set log)"

lemma strict_rotates: "rotates strict_server"
  by (simp add: rotates_def strict_server_def)

definition sample_answer :: "string \<Rightarrow> string \<Rightarrow> token_response" where
  "sample_answer access token = \<lparr>tr_access_token = access, tr_refresh_token = token, tr_token_type = ''Bearer'',
     tr_scope = [], tr_expires_at = 500, tr_id_token = []\<rparr>"

lemma signed_in_reliable: "reliable_ok False signed_in"
  by (simp add: reliable_ok_def fallback_ok_def signed_in_def sample_keyring_def sample_files_def file_ok_def
      keyring_takes_all_def inj_def)

lemma signed_in_get:
  "fallback_Get False (KeyringStore sample_ext) (FileStore sample_ext) signed_in (client_account sample_client)
    = Inr (Credentials.sample_credentials ''t1'')"
proof -
  have "client_account sample_client = ''oauth:https://issuer:cli''" by code_simp
  moreover have "complete_credentials sample_ext (Credentials.sample_credentials ''t1'')" by code_simp
  ultimately show ?thesis by (simp add: signed_in_def fallback_up(3) sample_keyring_def)
qed

lemma second_process_signs_out_witness:
  "\<exists>s. refresh_run (fallback_store False sample_ext) sample_client (\<lambda>i. i) strict_server
      (two_callers (sample_answer ''t2'' ''r2'')) (refresh_start signed_in 95) = Some s
    \<and> rf_threads s 1 = R_Done (Inl Signed_Out) \<and> map fst (rf_log s) = [''r'', ''r'']"
proof -
  let ?c = "Credentials.sample_credentials ''t1''"
  have late: "\<not> 95 + client_skew sample_client < oc_expires_at ?c" by code_simp
  have complete: "complete_credentials sample_ext (refreshed_credentials ?c (sample_answer ''t2'' ''r2''))" by code_simp
  have server: "strict_server [] (oc_refresh_token ?c) (Inr (sample_answer ''t2'' ''r2''))"
    "strict_server [(oc_refresh_token ?c, Inr (sample_answer ''t2'' ''r2''))] (oc_refresh_token ?c) (Inl Invalid_Grant)"
    by (simp_all add: strict_server_def sample_answer_def Credentials.sample_credentials_def)
  have "oc_refresh_token ?c = ''r''" by (simp add: Credentials.sample_credentials_def)
  then show ?thesis
    using second_process_signs_out [of False signed_in "\<lambda>i. i" sample_ext sample_client ?c 95
        "sample_answer ''t2'' ''r2''" strict_server]
      signed_in_reliable signed_in_get late complete server by auto
qed

definition one_after_another :: "refresh_action list" where
  "one_after_another = [A_Call 0 True, A_Read 0, A_Lock 0, A_Reread 0, A_Answer 0 (Inr (sample_answer ''t2'' ''r2'')),
     A_Finish 0, A_Unlock 0, A_Call 1 True, A_Read 1, A_Lock 1, A_Reread 1,
     A_Answer 1 (Inr (sample_answer ''t3'' ''r3'')), A_Finish 1]"


end
