(* ===== verification/Agent_Connection.thy ===== *)
theory Agent_Connection
  imports Agent_Requests
begin

text \<open>
  \<^verbatim>\<open>serveConnection\<close> of \<^verbatim>\<open>internal/agent/agent.go\<close> with all its goroutines: the
  reader, one handler for each request, the watcher that closes the connection at the cancellation, the
  mutex of \<^verbatim>\<open>socketWriter\<close> and the \<^verbatim>\<open>WaitGroup\<close>.
\<close>

subsection \<open>State\<close>

text \<open>A handler keeps its request: it is forwarded, then the answer waits for the mutex, then it is written.\<close>

datatype handler = H_Running message | H_Answering message message | H_Writing message message | H_Done message

fun handler_request :: "handler \<Rightarrow> message" where
  "handler_request (H_Running m) = m"
| "handler_request (H_Answering m a) = m"
| "handler_request (H_Writing m a) = m"
| "handler_request (H_Done m) = m"

fun handler_done :: "handler \<Rightarrow> bool" where
  "handler_done (H_Done m) = True"
| "handler_done _ = False"

text \<open>The reader: \<open>L_Waiting\<close> is \<^verbatim>\<open>requests.Wait()\<close>, the next three are the deferred calls.\<close>

datatype reader = L_Reading | L_Pong_Lock | L_Pong_Write | L_Waiting serve_error | L_Close_Channel serve_error
  | L_Close_Socket serve_error | L_Cancel serve_error | L_Returned serve_error

datatype writer = Pong_Writer | Answer_Writer nat

record connection =
  cn_received :: "message list"
  cn_handlers :: "handler list"
  cn_pending :: nat
  cn_mutex :: "writer option"
  cn_written :: "(writer \<times> message) list"
  cn_reader :: reader
  cn_watching :: bool
  cn_cancelled :: bool
  cn_channel_closed :: bool
  cn_closed :: bool

definition connection_start :: connection where
  "connection_start = \<lparr>cn_received = [], cn_handlers = [], cn_pending = 0, cn_mutex = None, cn_written = [],
     cn_reader = L_Reading, cn_watching = True, cn_cancelled = False, cn_channel_closed = False, cn_closed = False\<rparr>"

subsection \<open>Steps\<close>

text \<open>\<open>C_Respond i r\<close>: the local server's result for the request of handler \<open>i\<close> is \<open>r\<close>.  A write succeeds or
  fails; on a closed connection it fails.  Its error is ignored.\<close>

datatype connection_action = C_Receive message | C_Read_Fails serve_error | C_Cancelled | C_Watch
  | C_Pong_Lock | C_Pong_Write bool | C_Respond nat local_result | C_Lock nat | C_Write nat bool
  | C_All_Done | C_Close_Channel | C_Close_Socket | C_Cancel

definition receive :: "message \<Rightarrow> connection \<Rightarrow> connection" where
  "receive m s = (let s = s\<lparr>cn_received := cn_received s @ [m]\<rparr> in
     case serve_message m of
       [] \<Rightarrow> s
     | Started request # rest \<Rightarrow>
         s\<lparr>cn_handlers := cn_handlers s @ [H_Running request], cn_pending := Suc (cn_pending s)\<rparr>
     | Wrote answer # rest \<Rightarrow> s\<lparr>cn_reader := L_Pong_Lock\<rparr>)"

definition write_message :: "writer \<Rightarrow> message \<Rightarrow> bool \<Rightarrow> connection \<Rightarrow> connection" where
  "write_message w m written s = s\<lparr>cn_mutex := None,
     cn_written := cn_written s @ (if written \<and> \<not> cn_closed s then [(w, m)] else [])\<rparr>"

definition set_handler :: "nat \<Rightarrow> handler \<Rightarrow> connection \<Rightarrow> connection" where
  "set_handler i h s = s\<lparr>cn_handlers := (cn_handlers s)[i := h]\<rparr>"

definition handler_at :: "connection \<Rightarrow> nat \<Rightarrow> handler option" where
  "handler_at s i = (if i < length (cn_handlers s) then Some (cn_handlers s ! i) else None)"

fun connection_act :: "ext \<Rightarrow> int \<Rightarrow> connection_action \<Rightarrow> connection \<Rightarrow> connection option" where
  "connection_act E port (C_Receive m) s =
     (if cn_reader s = L_Reading \<and> \<not> cn_closed s then Some (receive m s) else None)"
| "connection_act E port (C_Read_Fails err) s =
     (if cn_reader s = L_Reading then Some (s\<lparr>cn_cancelled := True, cn_reader := L_Waiting err\<rparr>) else None)"
| "connection_act E port C_Cancelled s = Some (s\<lparr>cn_cancelled := True\<rparr>)"
| "connection_act E port C_Watch s =
     (if cn_watching s \<and> cn_cancelled s then Some (s\<lparr>cn_watching := False, cn_closed := True\<rparr>)
      else if cn_watching s \<and> cn_channel_closed s then Some (s\<lparr>cn_watching := False\<rparr>) else None)"
| "connection_act E port C_Pong_Lock s =
     (if cn_reader s = L_Pong_Lock \<and> cn_mutex s = None
      then Some (s\<lparr>cn_mutex := Some Pong_Writer, cn_reader := L_Pong_Write\<rparr>) else None)"
| "connection_act E port (C_Pong_Write written) s =
     (if cn_reader s = L_Pong_Write then Some (write_message Pong_Writer pong written s\<lparr>cn_reader := L_Reading\<rparr>) else None)"
| "connection_act E port (C_Respond i r) s = (case handler_at s i of
       Some (H_Running m) \<Rightarrow> Some (set_handler i (H_Answering m (handleRequest E port (\<lambda>request. r) m)) s) | _ \<Rightarrow> None)"
| "connection_act E port (C_Lock i) s = (case handler_at s i of
       Some (H_Answering m a) \<Rightarrow>
         if cn_mutex s = None then Some (set_handler i (H_Writing m a) s\<lparr>cn_mutex := Some (Answer_Writer i)\<rparr>) else None
     | _ \<Rightarrow> None)"
| "connection_act E port (C_Write i written) s = (case handler_at s i of
       Some (H_Writing m a) \<Rightarrow>
         Some (write_message (Answer_Writer i) a written (set_handler i (H_Done m) s)\<lparr>cn_pending := cn_pending s - 1\<rparr>)
     | _ \<Rightarrow> None)"
| "connection_act E port C_All_Done s = (case cn_reader s of
       L_Waiting err \<Rightarrow> if cn_pending s = 0 then Some (s\<lparr>cn_reader := L_Close_Channel err\<rparr>) else None | _ \<Rightarrow> None)"
| "connection_act E port C_Close_Channel s = (case cn_reader s of
       L_Close_Channel err \<Rightarrow> Some (s\<lparr>cn_channel_closed := True, cn_reader := L_Close_Socket err\<rparr>) | _ \<Rightarrow> None)"
| "connection_act E port C_Close_Socket s = (case cn_reader s of
       L_Close_Socket err \<Rightarrow> Some (s\<lparr>cn_closed := True, cn_reader := L_Cancel err\<rparr>) | _ \<Rightarrow> None)"
| "connection_act E port C_Cancel s = (case cn_reader s of
       L_Cancel err \<Rightarrow> Some (s\<lparr>cn_cancelled := True, cn_reader := L_Returned err\<rparr>) | _ \<Rightarrow> None)"

fun connection_run :: "ext \<Rightarrow> int \<Rightarrow> connection_action list \<Rightarrow> connection \<Rightarrow> connection option" where
  "connection_run E port [] s = Some s"
| "connection_run E port (a # as) s = Option.bind (connection_act E port a s) (connection_run E port as)"

subsection \<open>Invariant\<close>

fun is_request :: "message \<Rightarrow> bool" where
  "is_request m = (msg_version m = Version \<and> msg_type m = TypeRequest)"

fun is_ping :: "message \<Rightarrow> bool" where
  "is_ping m = (msg_version m = Version \<and> msg_type m = TypePing)"

fun handler_ok :: "ext \<Rightarrow> int \<Rightarrow> handler \<Rightarrow> bool" where
  "handler_ok E port (H_Answering m a) = (\<exists>r. a = handleRequest E port (\<lambda>request. r) m)"
| "handler_ok E port (H_Writing m a) = (\<exists>r. a = handleRequest E port (\<lambda>request. r) m)"
| "handler_ok E port _ = True"

fun handler_writes :: "handler \<Rightarrow> bool" where
  "handler_writes (H_Writing m a) = True"
| "handler_writes _ = False"

text \<open>The answers among the written messages, with their handlers.\<close>

definition written_answers :: "connection \<Rightarrow> (nat \<times> message) list" where
  "written_answers s = concat (map (\<lambda>(w, m). case w of Pong_Writer \<Rightarrow> [] | Answer_Writer i \<Rightarrow> [(i, m)]) (cn_written s))"

definition written_pongs :: "connection \<Rightarrow> message list" where
  "written_pongs s = concat (map (\<lambda>(w, m). case w of Pong_Writer \<Rightarrow> [m] | Answer_Writer i \<Rightarrow> []) (cn_written s))"

definition answer_ok :: "ext \<Rightarrow> int \<Rightarrow> handler list \<Rightarrow> nat \<times> message \<Rightarrow> bool" where
  "answer_ok E port hs = (\<lambda>(i, a). i < length hs \<and> handler_done (hs ! i)
     \<and> (\<exists>r. a = handleRequest E port (\<lambda>request. r) (handler_request (hs ! i))))"

text \<open>How far the reader is on its way out.\<close>

fun reader_stage :: "reader \<Rightarrow> nat" where
  "reader_stage (L_Waiting err) = 1"
| "reader_stage (L_Close_Channel err) = 2"
| "reader_stage (L_Close_Socket err) = 3"
| "reader_stage (L_Cancel err) = 4"
| "reader_stage (L_Returned err) = 5"
| "reader_stage _ = 0"

fun pongs_due :: "reader \<Rightarrow> nat" where
  "pongs_due L_Pong_Lock = 1"
| "pongs_due L_Pong_Write = 1"
| "pongs_due _ = 0"

definition unfinished :: "handler \<Rightarrow> nat" where
  "unfinished h = (if handler_done h then 0 else 1)"

definition requests_inv :: "ext \<Rightarrow> int \<Rightarrow> connection \<Rightarrow> bool" where
  "requests_inv E port s \<longleftrightarrow> map handler_request (cn_handlers s) = filter is_request (cn_received s)
     \<and> (\<forall>h \<in> set (cn_handlers s). handler_ok E port h)
     \<and> cn_pending s = sum_list (map unfinished (cn_handlers s))"

definition mutex_inv :: "connection \<Rightarrow> bool" where
  "mutex_inv s \<longleftrightarrow> (cn_reader s = L_Pong_Write \<longleftrightarrow> cn_mutex s = Some Pong_Writer)
     \<and> (\<forall>i. (i < length (cn_handlers s) \<and> handler_writes (cn_handlers s ! i)) \<longleftrightarrow> cn_mutex s = Some (Answer_Writer i))"

definition written_inv :: "ext \<Rightarrow> int \<Rightarrow> connection \<Rightarrow> bool" where
  "written_inv E port s \<longleftrightarrow> (\<forall>a \<in> set (written_answers s). answer_ok E port (cn_handlers s) a)
     \<and> distinct (map fst (written_answers s))
     \<and> (\<forall>m \<in> set (written_pongs s). m = pong)
     \<and> length (written_pongs s) + pongs_due (cn_reader s) \<le> length (filter is_ping (cn_received s))"

definition reader_inv :: "connection \<Rightarrow> bool" where
  "reader_inv s \<longleftrightarrow> (1 \<le> reader_stage (cn_reader s) \<longrightarrow> cn_cancelled s)
     \<and> (2 \<le> reader_stage (cn_reader s) \<longrightarrow> cn_pending s = 0)
     \<and> (3 \<le> reader_stage (cn_reader s) \<longrightarrow> cn_channel_closed s)
     \<and> (4 \<le> reader_stage (cn_reader s) \<longrightarrow> cn_closed s)"

definition connection_inv :: "ext \<Rightarrow> int \<Rightarrow> connection \<Rightarrow> bool" where
  "connection_inv E port s \<longleftrightarrow> requests_inv E port s \<and> mutex_inv s \<and> written_inv E port s \<and> reader_inv s"

lemmas connection_invs = connection_inv_def requests_inv_def mutex_inv_def written_inv_def reader_inv_def

lemmas written_views = written_answers_def written_pongs_def

lemma connection_start_inv: "connection_inv E port connection_start"
  by (simp add: connection_invs connection_start_def written_views)

lemma handler_at_Some [simp]: "handler_at s i = Some h \<longleftrightarrow> i < length (cn_handlers s) \<and> cn_handlers s ! i = h"
  by (simp add: handler_at_def)

text \<open>A step of a handler that is not done keeps its request; the count goes down when it is done.\<close>

lemma unfinished_update:
  "i < length hs \<Longrightarrow> sum_list (map unfinished (hs[i := h])) + unfinished (hs ! i) = sum_list (map unfinished hs) + unfinished h"
proof -
  assume i: "i < length hs"
  then have "unfinished (hs ! i) \<le> sum_list (map unfinished hs)" by (intro elem_le_sum_list [of i "map unfinished hs", simplified]) 
  with i show ?thesis by (simp add: map_update sum_list_update)
qed

lemma requests_update:
  assumes "requests_inv E port s" and "i < length (cn_handlers s)" and "handler_request h = handler_request (cn_handlers s ! i)"
    and "handler_ok E port h"
  shows "map handler_request ((cn_handlers s)[i := h]) = filter is_request (cn_received s)
    \<and> (\<forall>h \<in> set ((cn_handlers s)[i := h]). handler_ok E port h)"
proof -
  have "map handler_request ((cn_handlers s)[i := h]) = map handler_request (cn_handlers s)"
    using assms(2,3) by (simp add: map_update list_update_same_conv)
  moreover have "set ((cn_handlers s)[i := h]) \<subseteq> insert h (set (cn_handlers s))" by (rule set_update_subset_insert)
  ultimately show ?thesis using assms(1,4) by (auto simp: requests_inv_def)
qed

lemma answers_update:
  assumes "answer_ok E port hs a" and "i < length hs" and "\<not> handler_done (hs ! i)"
  shows "answer_ok E port (hs[i := h]) a \<and> fst a \<noteq> i"
  using assms by (cases a) (auto simp: answer_ok_def nth_list_update)

lemma serve_message_cases:
  "serve_message m = [] \<and> \<not> is_request m \<and> \<not> is_ping m \<or> serve_message m = [Started m] \<and> is_request m \<and> \<not> is_ping m
    \<or> serve_message m = [Wrote pong] \<and> is_ping m \<and> \<not> is_request m"
  by (auto simp: serve_message_def TypeRequest_def TypePing_def)

lemma receive_inv:
  assumes "connection_inv E port s" and "cn_reader s = L_Reading"
  shows "connection_inv E port (receive m s)"
proof -
  consider (skip) "serve_message m = []" "\<not> is_request m" "\<not> is_ping m"
    | (request) "serve_message m = [Started m]" "is_request m" "\<not> is_ping m"
    | (ping) "serve_message m = [Wrote pong]" "is_ping m" "\<not> is_request m"
    using serve_message_cases [of m] by blast
  then show ?thesis
  proof cases
    case skip
    then show ?thesis using assms by (simp add: receive_def connection_invs written_views del: is_request.simps is_ping.simps)
  next
    case request
    have "answer_ok E port (cn_handlers s @ [H_Running m]) a" if "answer_ok E port (cn_handlers s) a" for a
      using that by (cases a) (auto simp: answer_ok_def nth_append)
    then show ?thesis
      using assms request
      by (auto simp: receive_def connection_invs written_views unfinished_def nth_append less_Suc_eq
          simp del: is_request.simps is_ping.simps)
  next
    case ping
    then show ?thesis using assms by (simp add: receive_def connection_invs written_views del: is_request.simps is_ping.simps)
  qed
qed

lemma set_handler_inv:
  assumes "connection_inv E port s" and "handler_at s i = Some h" and "\<not> handler_done h" and "\<not> handler_writes h"
    and "handler_request h' = handler_request h" and "handler_ok E port h'" and "\<not> handler_done h'"
    and "handler_writes h' \<longrightarrow> cn_mutex s = None"
    and "mutex = (if handler_writes h' then Some (Answer_Writer i) else cn_mutex s)"
  shows "connection_inv E port (set_handler i h' s\<lparr>cn_mutex := mutex\<rparr>)" (is "connection_inv E port ?s'")
proof -
  let ?hs = "cn_handlers s"
  have i: "i < length ?hs" and h: "?hs ! i = h" using assms(2) by simp_all
  have inv: "requests_inv E port s" "mutex_inv s" "written_inv E port s" "reader_inv s"
    using assms(1) by (simp_all add: connection_inv_def)
  have "sum_list (map unfinished (?hs[i := h'])) = sum_list (map unfinished ?hs)"
    using unfinished_update [OF i, of h'] assms(3,7) h by (simp add: unfinished_def)
  then have "requests_inv E port ?s'"
    using requests_update [OF inv(1) i, of h'] inv(1) assms(5,6) h by (simp add: requests_inv_def set_handler_def)
  moreover have "mutex_inv ?s'"
    using inv(2) assms(4,8,9) h i by (auto simp: mutex_inv_def set_handler_def nth_list_update)
  moreover have "answer_ok E port (?hs[i := h']) a" if "a \<in> set (written_answers s)" for a
    using answers_update [OF _ i, of E port a h'] inv(3) assms(3) h that by (simp add: written_inv_def)
  then have "written_inv E port ?s'"
    using inv(3) by (simp add: written_inv_def set_handler_def written_views)
  moreover have "reader_inv ?s'" using inv(4) by (simp add: reader_inv_def set_handler_def)
  ultimately show ?thesis by (simp add: connection_inv_def)
qed

lemma write_inv:
  assumes "connection_inv E port s" and "handler_at s i = Some (H_Writing m a)"
  shows "connection_inv E port
    (write_message (Answer_Writer i) a written (set_handler i (H_Done m) s)\<lparr>cn_pending := cn_pending s - 1\<rparr>)"
    (is "connection_inv E port ?s'")
proof -
  let ?hs = "cn_handlers s"
  have i: "i < length ?hs" and h: "?hs ! i = H_Writing m a" using assms(2) by simp_all
  have inv: "requests_inv E port s" "mutex_inv s" "written_inv E port s" "reader_inv s"
    using assms(1) by (simp_all add: connection_inv_def)
  have mutex: "cn_mutex s = Some (Answer_Writer i)" using inv(2) i h by (force simp: mutex_inv_def)
  have count: "sum_list (map unfinished (?hs[i := H_Done m])) + 1 = sum_list (map unfinished ?hs)"
    using unfinished_update [OF i, of "H_Done m"] h by (simp add: unfinished_def)
  then have "requests_inv E port ?s'"
    using requests_update [OF inv(1) i, of "H_Done m"] inv(1) h
    by (simp add: requests_inv_def set_handler_def write_message_def)
  moreover have "mutex_inv ?s'"
    using inv(2) mutex i by (auto simp: mutex_inv_def set_handler_def write_message_def nth_list_update)
  moreover have "H_Writing m a \<in> set ?hs" using i h by (metis nth_mem)
  then have "answer_ok E port (?hs[i := H_Done m]) (i, a)" using inv(1) i by (force simp: answer_ok_def requests_inv_def)
  moreover have "answer_ok E port (?hs[i := H_Done m]) b \<and> fst b \<noteq> i" if "b \<in> set (written_answers s)" for b
    using answers_update [OF _ i, of E port b "H_Done m"] inv(3) h that by (simp add: written_inv_def)
  moreover have "written_answers ?s' = written_answers s @ (if written \<and> \<not> cn_closed s then [(i, a)] else [])"
    "written_pongs ?s' = written_pongs s"
    by (simp_all add: written_views set_handler_def write_message_def)
  ultimately have "written_inv E port ?s'"
    using inv(3) by (auto simp: written_inv_def set_handler_def write_message_def)
  moreover have "cn_pending s \<noteq> 0" using count inv(1) unfolding requests_inv_def by linarith
  then have "reader_inv ?s'" using inv(4) by (auto simp: reader_inv_def set_handler_def write_message_def)
  ultimately show ?thesis using \<open>requests_inv E port ?s'\<close> \<open>mutex_inv ?s'\<close> by (simp add: connection_inv_def)
qed

lemma pong_inv:
  assumes "connection_inv E port s"
  shows "cn_reader s = L_Pong_Lock \<Longrightarrow> cn_mutex s = None \<Longrightarrow>
      connection_inv E port (s\<lparr>cn_mutex := Some Pong_Writer, cn_reader := L_Pong_Write\<rparr>)"
    "cn_reader s = L_Pong_Write \<Longrightarrow> connection_inv E port (write_message Pong_Writer pong written s\<lparr>cn_reader := L_Reading\<rparr>)"
  using assms by (auto simp: connection_invs written_views write_message_def)

text \<open>The rest only moves the reader and sets flags.\<close>

lemma reader_steps_inv:
  assumes "connection_inv E port s"
  shows "connection_inv E port (s\<lparr>cn_cancelled := True\<rparr>)"
    "connection_inv E port (s\<lparr>cn_watching := False, cn_closed := True\<rparr>)"
    "connection_inv E port (s\<lparr>cn_watching := False\<rparr>)"
    "cn_reader s = L_Reading \<Longrightarrow> connection_inv E port (s\<lparr>cn_cancelled := True, cn_reader := L_Waiting err\<rparr>)"
    "cn_reader s = L_Waiting err \<Longrightarrow> cn_pending s = 0 \<Longrightarrow> connection_inv E port (s\<lparr>cn_reader := L_Close_Channel err\<rparr>)"
    "cn_reader s = L_Close_Channel err \<Longrightarrow>
      connection_inv E port (s\<lparr>cn_channel_closed := True, cn_reader := L_Close_Socket err\<rparr>)"
    "cn_reader s = L_Close_Socket err \<Longrightarrow> connection_inv E port (s\<lparr>cn_closed := True, cn_reader := L_Cancel err\<rparr>)"
    "cn_reader s = L_Cancel err \<Longrightarrow> connection_inv E port (s\<lparr>cn_cancelled := True, cn_reader := L_Returned err\<rparr>)"
  using assms by (auto simp: connection_invs written_views simp del: sum_list_eq_0_iff)

lemma connection_act_inv:
  assumes "connection_inv E port s" and "connection_act E port act s = Some s'"
  shows "connection_inv E port s'"
proof (cases act)
  case (C_Receive m)
  then show ?thesis using assms receive_inv by (auto split: if_splits)
next
  case (C_Respond i r)
  then obtain m where at: "handler_at s i = Some (H_Running m)"
    and s': "s' = set_handler i (H_Answering m (handleRequest E port (\<lambda>request. r) m)) s"
    using assms(2) by (auto split: option.splits handler.splits)
  show ?thesis
    using set_handler_inv [OF assms(1) at, of "H_Answering m (handleRequest E port (\<lambda>request. r) m)"]
    by (auto simp: s' set_handler_def)
next
  case (C_Lock i)
  then obtain m a where at: "handler_at s i = Some (H_Answering m a)" and free: "cn_mutex s = None"
    and s': "s' = set_handler i (H_Writing m a) s\<lparr>cn_mutex := Some (Answer_Writer i)\<rparr>"
    using assms(2) by (auto split: option.splits handler.splits if_splits)
  have "H_Answering m a \<in> set (cn_handlers s)" using at by (metis handler_at_Some nth_mem)
  then have "handler_ok E port (H_Writing m a)" using assms(1) by (force simp: connection_invs)
  then show ?thesis using set_handler_inv [OF assms(1) at, of "H_Writing m a"] free by (simp add: s')
next
  case (C_Write i written)
  then show ?thesis using assms write_inv by (auto split: option.splits handler.splits)
qed (use assms pong_inv [OF assms(1)] reader_steps_inv [OF assms(1)] in \<open>auto split: if_splits reader.splits\<close>)

lemma connection_run_inv:
  "connection_inv E port s \<Longrightarrow> connection_run E port acts s = Some s' \<Longrightarrow> connection_inv E port s'"
proof (induction acts arbitrary: s)
  case (Cons a acts)
  then obtain s1 where "connection_act E port a s = Some s1" "connection_run E port acts s1 = Some s'"
    by (auto simp: bind_eq_Some_conv)
  then show ?case using Cons connection_act_inv by blast
qed simp

subsection \<open>The end of a connection\<close>

fun handler_steps :: "handler \<Rightarrow> nat" where
  "handler_steps (H_Running m) = 3"
| "handler_steps (H_Answering m a) = 2"
| "handler_steps (H_Writing m a) = 1"
| "handler_steps (H_Done m) = 0"

definition connection_steps :: "connection \<Rightarrow> nat" where
  "connection_steps s = sum_list (map handler_steps (cn_handlers s)) + (5 - reader_stage (cn_reader s))
     + (if cn_watching s then 1 else 0)"

definition read_failed :: "connection \<Rightarrow> bool" where
  "read_failed s \<longleftrightarrow> 1 \<le> reader_stage (cn_reader s)"

definition connection_over :: "connection \<Rightarrow> bool" where
  "connection_over s \<longleftrightarrow> reader_stage (cn_reader s) = 5 \<and> list_all handler_done (cn_handlers s)
     \<and> cn_closed s \<and> \<not> cn_watching s"

lemma handler_steps_update:
  assumes "i < length hs" and "handler_steps h < handler_steps (hs ! i)"
  shows "sum_list (map handler_steps (hs[i := h])) < sum_list (map handler_steps hs)"
proof -
  have "handler_steps (hs ! i) \<le> sum_list (map handler_steps hs)"
    using assms(1) by (intro elem_le_sum_list [of i "map handler_steps hs", simplified])
  with assms show ?thesis by (simp add: map_update sum_list_update)
qed

text \<open>After the read error each step, the cancellation from outside apart, brings the end nearer.\<close>

lemma connection_steps_decrease:
  assumes "read_failed s" and "connection_act E port act s = Some s'" and "act \<noteq> C_Cancelled"
  shows "connection_steps s' < connection_steps s \<and> read_failed s'"
proof (cases act)
  case (C_Respond i r)
  then show ?thesis
    using assms(1,2) handler_steps_update [of i "cn_handlers s"]
    by (auto simp: connection_steps_def read_failed_def set_handler_def split: option.splits handler.splits)
next
  case (C_Lock i)
  then show ?thesis
    using assms(1,2) handler_steps_update [of i "cn_handlers s"]
    by (auto simp: connection_steps_def read_failed_def set_handler_def split: option.splits handler.splits if_splits)
next
  case (C_Write i written)
  then show ?thesis
    using assms(1,2) handler_steps_update [of i "cn_handlers s"]
    by (auto simp: connection_steps_def read_failed_def set_handler_def write_message_def
        split: option.splits handler.splits)
qed (use assms in \<open>auto simp: connection_steps_def read_failed_def split: if_splits reader.splits\<close>)

lemma connection_run_bounded:
  assumes "read_failed s" and "connection_run E port acts s = Some s'" and "C_Cancelled \<notin> set acts"
  shows "length acts + connection_steps s' \<le> connection_steps s \<and> read_failed s'"
  using assms
proof (induction acts arbitrary: s)
  case (Cons a acts)
  then obtain s1 where act: "connection_act E port a s = Some s1" and run: "connection_run E port acts s1 = Some s'"
    by (auto simp: bind_eq_Some_conv)
  have "connection_steps s1 < connection_steps s \<and> read_failed s1"
    using connection_steps_decrease [OF Cons.prems(1) act] Cons.prems(3) by auto
  with Cons.IH [OF _ run] Cons.prems(3) show ?case by simp
qed simp

text \<open>A handler that is not done can go on, or the one that holds the mutex can.\<close>

lemma handler_goes_on:
  assumes "connection_inv E port s" and "cn_pending s \<noteq> 0" and "read_failed s"
  shows "\<exists>a. a \<noteq> C_Cancelled \<and> connection_act E port a s \<noteq> None"
proof -
  have "sum_list (map unfinished (cn_handlers s)) \<noteq> 0"
    using assms(1,2) unfolding connection_inv_def requests_inv_def by metis
  then have "\<exists>h \<in> set (cn_handlers s). \<not> handler_done h" by (auto simp: unfinished_def split: if_splits)
  then obtain i where i: "i < length (cn_handlers s)" and "\<not> handler_done (cn_handlers s ! i)"
    by (auto simp: in_set_conv_nth)
  then consider (running) m where "cn_handlers s ! i = H_Running m" | (answering) m a where "cn_handlers s ! i = H_Answering m a"
    | (writing) m a where "cn_handlers s ! i = H_Writing m a"
    by (cases "cn_handlers s ! i") auto
  then show ?thesis
  proof cases
    case running
    have "connection_act E port (C_Respond i Request_Failed) s \<noteq> None" using i running by (simp add: handler_at_def)
    then show ?thesis by blast
  next
    case writing
    have "connection_act E port (C_Write i True) s \<noteq> None" using i writing by (simp add: handler_at_def)
    then show ?thesis by blast
  next
    case answering
    show ?thesis
    proof (cases "cn_mutex s")
      case None
      then have "connection_act E port (C_Lock i) s \<noteq> None" using i answering by (simp add: handler_at_def)
      then show ?thesis by blast
    next
      case (Some w)
      moreover have "w \<noteq> Pong_Writer"
        using Some assms(1,3) by (auto simp: connection_inv_def mutex_inv_def read_failed_def)
      ultimately obtain j where "cn_mutex s = Some (Answer_Writer j)" by (cases w) auto
      then have "j < length (cn_handlers s)" "handler_writes (cn_handlers s ! j)"
        using assms(1) by (auto simp: connection_inv_def mutex_inv_def)
      then have "connection_act E port (C_Write j True) s \<noteq> None"
        by (cases "cn_handlers s ! j") (simp_all add: handler_at_def)
      then show ?thesis by blast
    qed
  qed
qed

lemma reader_goes_on:
  assumes "connection_inv E port s" and "read_failed s" and "\<not> connection_over s"
  shows "\<exists>a. a \<noteq> C_Cancelled \<and> connection_act E port a s \<noteq> None"
proof (cases "cn_pending s = 0")
  case False
  then show ?thesis using handler_goes_on assms(1,2) by blast
next
  case True
  then have handlers: "list_all handler_done (cn_handlers s)"
    using assms(1) by (auto simp: connection_inv_def requests_inv_def unfinished_def list_all_iff split: if_splits)
  show ?thesis
  proof (cases "cn_watching s")
    case True
    moreover have "cn_cancelled s" using assms(1,2) by (simp add: connection_inv_def reader_inv_def read_failed_def)
    ultimately have "connection_act E port C_Watch s \<noteq> None" by simp
    then show ?thesis by blast
  next
    case False
    then have "reader_stage (cn_reader s) \<noteq> 5"
      using assms handlers by (auto simp: connection_over_def connection_inv_def reader_inv_def)
    then consider (wait) err where "cn_reader s = L_Waiting err" | (channel) err where "cn_reader s = L_Close_Channel err"
      | (socket) err where "cn_reader s = L_Close_Socket err" | (cancel) err where "cn_reader s = L_Cancel err"
      using assms(2) by (cases "cn_reader s") (auto simp: read_failed_def)
    then show ?thesis
    proof cases
      case wait
      then have "connection_act E port C_All_Done s \<noteq> None" using True by simp
      then show ?thesis by blast
    next
      case channel
      then have "connection_act E port C_Close_Channel s \<noteq> None" by simp
      then show ?thesis by blast
    next
      case socket
      then have "connection_act E port C_Close_Socket s \<noteq> None" by simp
      then show ?thesis by blast
    next
      case cancel
      then have "connection_act E port C_Cancel s \<noteq> None" by simp
      then show ?thesis by blast
    qed
  qed
qed

subsection \<open>What a connection does\<close>

text \<open>C16: In every interleaving of the reader, the handlers and the watcher: each request is answered at most
  once, with what \<^verbatim>\<open>handleRequest\<close> makes of it and of a result of the local server; everything else
  that is written is a pong, at most one for a ping; and when the function has returned no handler is left
  that could still write, and the connection is closed.\<close>

theorem connection_answers_requests:
  assumes "connection_run E port acts connection_start = Some s"
  shows "let requests = filter is_request (cn_received s) in
      distinct (map fst (written_answers s))
      \<and> (\<forall>(i, a) \<in> set (written_answers s). i < length requests
          \<and> (\<exists>r. a = handleRequest E port (\<lambda>request. r) (requests ! i)))
      \<and> set (written_pongs s) \<subseteq> {pong} \<and> length (written_pongs s) \<le> length (filter is_ping (cn_received s))
      \<and> ((\<exists>err. cn_reader s = L_Returned err) \<longrightarrow>
          length (cn_handlers s) = length requests \<and> list_all handler_done (cn_handlers s) \<and> cn_closed s)"
proof -
  let ?hs = "cn_handlers s" and ?requests = "filter is_request (cn_received s)"
  have inv: "connection_inv E port s" by (rule connection_run_inv [OF connection_start_inv assms])
  then have requests: "map handler_request ?hs = ?requests" by (simp add: connection_inv_def requests_inv_def)
  then have len: "length ?hs = length ?requests" by (metis length_map)
  have "i < length ?requests \<and> (\<exists>r. a = handleRequest E port (\<lambda>request. r) (?requests ! i))"
    if "(i, a) \<in> set (written_answers s)" for i a
  proof -
    have "answer_ok E port ?hs (i, a)" using inv that by (simp add: connection_inv_def written_inv_def)
    then have i: "i < length ?hs" and r: "\<exists>r. a = handleRequest E port (\<lambda>request. r) (handler_request (?hs ! i))"
      by (simp_all add: answer_ok_def)
    have "handler_request (?hs ! i) = ?requests ! i" using i by (simp add: requests [symmetric])
    then show ?thesis using i r len by simp
  qed
  moreover have "list_all handler_done ?hs \<and> cn_closed s" if "cn_reader s = L_Returned err" for err
  proof -
    have "sum_list (map unfinished ?hs) = 0" "cn_closed s"
      using inv that by (auto simp: connection_inv_def requests_inv_def reader_inv_def)
    then show ?thesis by (auto simp: list_all_iff unfinished_def split: if_splits)
  qed
  moreover have "distinct (map fst (written_answers s))" "set (written_pongs s) \<subseteq> {pong}"
    "length (written_pongs s) \<le> length (filter is_ping (cn_received s))"
    using inv by (auto simp: connection_inv_def written_inv_def)
  ultimately show ?thesis using len by (auto simp: Let_def)
qed


text \<open>A ping and a request; the socket fails while the handler waits for the local server.\<close>

definition sample_traffic :: "connection_action list" where
  "sample_traffic = [C_Receive (pong\<lparr>msg_type := TypePing\<rparr>), C_Pong_Lock, C_Pong_Write True, C_Receive sample_message,
     C_Respond 0 Deadline_Exceeded, C_Lock 0, C_Write 0 True, C_Receive sample_message, C_Read_Fails Read_Error]"

lemma sample_traffic_runs:
  "case connection_run sample_ext 3000 sample_traffic connection_start of None \<Rightarrow> False
   | Some s \<Rightarrow> map fst (written_answers s) = [0] \<and> length (written_pongs s) = 1 \<and> length (cn_handlers s) = 2
       \<and> read_failed s \<and> \<not> connection_over s \<and> connection_steps s = 8"
  by code_simp

lemma sample_traffic_ends:
  "\<exists>s. connection_run sample_ext 3000 sample_traffic connection_start = Some s
    \<and> map fst (written_answers s) = [0] \<and> length (cn_handlers s) = 2 \<and> read_failed s"
  using sample_traffic_runs by (auto split: option.splits)

lemma connection_answers_requests_witness:
  "\<exists>s. connection_run sample_ext 3000 sample_traffic connection_start = Some s
    \<and> map fst (written_answers s) = [0] \<and> length (written_pongs s) \<le> length (filter is_ping (cn_received s))"
proof -
  obtain s where s: "connection_run sample_ext 3000 sample_traffic connection_start = Some s"
    and answers: "map fst (written_answers s) = [0]"
    using sample_traffic_ends by (elim exE conjE) (rule that)
  have "length (written_pongs s) \<le> length (filter is_ping (cn_received s))"
    using connection_answers_requests [OF s] unfolding Let_def by (elim conjE)
  with s answers show ?thesis by (intro exI [of _ s] conjI)
qed


end
