(* ===== verification/Atomic_Save.thy ===== *)
theory Atomic_Save
  imports Go_Prelude "HOL-Library.Sublist"
begin

text \<open>
  How the settings and the credential files are written: \<^verbatim>\<open>config.Save\<close> and
  \<^verbatim>\<open>FileStore.Set\<close> fill a temporary file and rename it with \<^verbatim>\<open>atomicfile.Replace\<close>.
  Any number of such writers, one system call a step, each of which may fail; to stop between two steps is a
  crash or what a reader of the file sees.
\<close>

subsection \<open>One writer\<close>

datatype save_failure = Create_Failed | Secure_Failed | Write_Failed | Sync_Failed | Close_Failed
  | Replace_Failed | Mode_Failed

datatype save_pc = V_Create | V_Secure | V_Write string | V_Sync | V_Close | V_Replace | V_Mode
  | V_Cleanup "save_failure option" | V_Done "save_failure option"

type_synonym files = "(string, string \<times> nat) gomap"

definition owner_mode :: nat where
  "owner_mode = 384"

definition set_mode :: "string \<Rightarrow> files \<Rightarrow> files" where
  "set_mode p fs = (case map_of fs p of None \<Rightarrow> fs | Some (c, mode) \<Rightarrow> gomap_set p (c, owner_mode) fs)"

definition append_to :: "string \<Rightarrow> string \<Rightarrow> files \<Rightarrow> files" where
  "append_to p xs fs = (case map_of fs p of None \<Rightarrow> fs | Some (c, mode) \<Rightarrow> gomap_set p (c @ xs, mode) fs)"

text \<open>\<^verbatim>\<open>Replace\<close> is one call of the operating system, which moves the file in place of the other.\<close>

definition Replace_file :: "string \<Rightarrow> string \<Rightarrow> files \<Rightarrow> files" where
  "Replace_file source destination fs = (case map_of fs source of None \<Rightarrow> fs
     | Some file \<Rightarrow> gomap_del source (gomap_set destination file fs))"

text \<open>A step with the result \<open>good\<close> of its call, which writes \<open>n\<close> more bytes if it is a write.\<close>

fun save_step :: "string \<Rightarrow> string \<Rightarrow> string \<Rightarrow> bool \<Rightarrow> nat \<Rightarrow> save_pc \<Rightarrow> files \<Rightarrow> save_pc \<times> files" where
  "save_step path temporary data good n V_Create fs =
     (if good then (V_Secure, gomap_set temporary ([], owner_mode) fs) else (V_Done (Some Create_Failed), fs))"
| "save_step path temporary data good n V_Secure fs =
     (if good then (V_Write data, set_mode temporary fs) else (V_Cleanup (Some Secure_Failed), fs))"
| "save_step path temporary data good n (V_Write rest) fs =
     (if \<not> good then V_Cleanup (Some Write_Failed) else if length rest \<le> n then V_Sync else V_Write (drop n rest),
      append_to temporary (take n rest) fs)"
| "save_step path temporary data good n V_Sync fs = (if good then V_Close else V_Cleanup (Some Sync_Failed), fs)"
| "save_step path temporary data good n V_Close fs = (if good then V_Replace else V_Cleanup (Some Close_Failed), fs)"
| "save_step path temporary data good n V_Replace fs =
     (if good then (V_Mode, Replace_file temporary path fs) else (V_Cleanup (Some Replace_Failed), fs))"
| "save_step path temporary data good n V_Mode fs =
     (if good then (V_Cleanup None, set_mode path fs) else (V_Cleanup (Some Mode_Failed), fs))"
| "save_step path temporary data good n (V_Cleanup result) fs =
     (V_Done result, if good then gomap_del temporary fs else fs)"
| "save_step path temporary data good n (V_Done result) fs = (V_Done result, fs)"

subsection \<open>Several writers\<close>

record save_system =
  sv_files :: files
  sv_writers :: "nat \<Rightarrow> save_pc"

definition save_start :: "files \<Rightarrow> save_system" where
  "save_start fs = \<lparr>sv_files = fs, sv_writers = (\<lambda>i. V_Create)\<rparr>"

definition save_move ::
  "string \<Rightarrow> (nat \<Rightarrow> string) \<Rightarrow> (nat \<Rightarrow> string) \<Rightarrow> nat \<times> bool \<times> nat \<Rightarrow> save_system \<Rightarrow> save_system" where
  "save_move path temporary data = (\<lambda>(i, good, n) s.
     case save_step path (temporary i) (data i) good n (sv_writers s i) (sv_files s) of
       (pc, fs) \<Rightarrow> \<lparr>sv_files = fs, sv_writers = (sv_writers s)(i := pc)\<rparr>)"

definition save_run ::
  "string \<Rightarrow> (nat \<Rightarrow> string) \<Rightarrow> (nat \<Rightarrow> string) \<Rightarrow> (nat \<times> bool \<times> nat) list \<Rightarrow> files \<Rightarrow> save_system" where
  "save_run path temporary data moves fs = fold (save_move path temporary data) moves (save_start fs)"

text \<open>The names that \<^verbatim>\<open>CreateTemp\<close> chooses are new and different.\<close>

definition new_names :: "string \<Rightarrow> (nat \<Rightarrow> string) \<Rightarrow> files \<Rightarrow> bool" where
  "new_names path temporary fs \<longleftrightarrow> inj temporary \<and> (\<forall>i. temporary i \<noteq> path \<and> map_of fs (temporary i) = None)"

subsection \<open>Invariant\<close>

fun writer_ok :: "string \<Rightarrow> save_pc \<Rightarrow> (string \<times> nat) option \<Rightarrow> bool" where
  "writer_ok data V_Create file = (file = None)"
| "writer_ok data V_Secure file = (file = Some ([], owner_mode))"
| "writer_ok data (V_Write rest) file = (\<exists>c. file = Some (c, owner_mode) \<and> data = c @ rest)"
| "writer_ok data (V_Cleanup result) file = (\<forall>c m. file = Some (c, m) \<longrightarrow> m = owner_mode \<and> prefix c data)"
| "writer_ok data (V_Done result) file = (\<forall>c m. file = Some (c, m) \<longrightarrow> m = owner_mode \<and> prefix c data)"
| "writer_ok data V_Mode file = (file = None)"
| "writer_ok data _ file = (file = Some (data, owner_mode))"

text \<open>Past the rename the file is somebody's.\<close>

fun replaced :: "save_pc \<Rightarrow> bool" where
  "replaced V_Mode = True"
| "replaced (V_Cleanup result) = (result = None \<or> result = Some Mode_Failed)"
| "replaced (V_Done result) = (result = None \<or> result = Some Mode_Failed)"
| "replaced _ = False"

definition save_inv :: "string \<Rightarrow> (nat \<Rightarrow> string) \<Rightarrow> (nat \<Rightarrow> string) \<Rightarrow> files \<Rightarrow> save_system \<Rightarrow> bool" where
  "save_inv path temporary data fs s \<longleftrightarrow>
     (\<forall>i. writer_ok (data i) (sv_writers s i) (map_of (sv_files s) (temporary i)))
     \<and> (\<forall>p. p \<noteq> path \<longrightarrow> p \<notin> range temporary \<longrightarrow> map_of (sv_files s) p = map_of fs p)
     \<and> ((\<forall>i. \<not> replaced (sv_writers s i)) \<and> map_of (sv_files s) path = map_of fs path
        \<or> (\<exists>i. replaced (sv_writers s i) \<and> map_of (sv_files s) path = Some (data i, owner_mode)))"

lemma map_of_file_ops:
  "map_of (set_mode p fs) q = (if q = p then map_option (\<lambda>(c, m). (c, owner_mode)) (map_of fs p) else map_of fs q)"
  "map_of (append_to p xs fs) q = (if q = p then map_option (\<lambda>(c, m). (c @ xs, m)) (map_of fs p) else map_of fs q)"
  "map_of (Replace_file source destination fs) q = (if map_of fs source = None then map_of fs q
     else if q = source then None else if q = destination then map_of fs source else map_of fs q)"
  by (auto simp: set_mode_def append_to_def Replace_file_def split: option.split prod.split)

text \<open>What a step does to the own temporary file, to the path and to the rest.\<close>

lemma save_step_own:
  assumes "save_step path t data good n pc fs = (pc', fs')" and "t \<noteq> path" and "writer_ok data pc (map_of fs t)"
  shows "writer_ok data pc' (map_of fs' t)"
  using assms(1,3) assms(2)
  by (cases "(path, t, data, good, n, pc, fs)" rule: save_step.cases)
    (auto simp: map_of_file_ops take_is_prefix split: if_splits)

lemma save_step_path:
  assumes "save_step path t data good n pc fs = (pc', fs')" and "t \<noteq> path" and "writer_ok data pc (map_of fs t)"
  shows "(replaced pc' \<longleftrightarrow> replaced pc) \<and> (map_of fs' path = map_of fs path
      \<or> replaced pc \<and> map_of fs' path = map_option (\<lambda>(c, m). (c, owner_mode)) (map_of fs path))
    \<or> replaced pc' \<and> map_of fs' path = Some (data, owner_mode)"
  using assms
  by (cases "(path, t, data, good, n, pc, fs)" rule: save_step.cases)
    (auto simp: map_of_file_ops split: if_splits)

lemma save_step_others:
  assumes "save_step path t data good n pc fs = (pc', fs')" and "q \<noteq> path" and "q \<noteq> t"
  shows "map_of fs' q = map_of fs q"
  using assms
  by (cases "(path, t, data, good, n, pc, fs)" rule: save_step.cases)
    (auto simp: map_of_file_ops split: if_splits)

lemma save_move_inv:
  assumes "new_names path temporary fs" and "save_inv path temporary data fs s"
  shows "save_inv path temporary data fs (save_move path temporary data move s)"
proof -
  obtain i good n where move: "move = (i, good, n)" by (cases move)
  obtain pc fs' where step: "save_step path (temporary i) (data i) good n (sv_writers s i) (sv_files s) = (pc, fs')"
    by fastforce
  let ?s' = "\<lparr>sv_files = fs', sv_writers = (sv_writers s)(i := pc)\<rparr>"
  have names: "temporary j \<noteq> path" "temporary j = temporary i \<longleftrightarrow> j = i" for j
    using assms(1) by (auto simp: new_names_def inj_eq)
  have own: "writer_ok (data j) (sv_writers s j) (map_of (sv_files s) (temporary j))" for j
    using assms(2) by (simp add: save_inv_def)
  have "writer_ok (data j) (sv_writers ?s' j) (map_of fs' (temporary j))" for j
    using save_step_own [OF step names(1) own] save_step_others [OF step, of "temporary j"] own [of j] names
    by (cases "j = i") auto
  moreover have "map_of fs' p = map_of fs p" if "p \<noteq> path" "p \<notin> range temporary" for p
    using save_step_others [OF step that(1)] that assms(2) by (auto simp: save_inv_def)
  moreover have "(\<forall>j. \<not> replaced (sv_writers ?s' j)) \<and> map_of fs' path = map_of fs path
      \<or> (\<exists>j. replaced (sv_writers ?s' j) \<and> map_of fs' path = Some (data j, owner_mode))"
    using save_step_path [OF step names(1) own]
  proof
    assume kept: "(replaced pc \<longleftrightarrow> replaced (sv_writers s i)) \<and> (map_of fs' path = map_of (sv_files s) path
      \<or> replaced (sv_writers s i) \<and> map_of fs' path = map_option (\<lambda>(c, m). (c, owner_mode)) (map_of (sv_files s) path))"
    then have same: "replaced (sv_writers ?s' j) = replaced (sv_writers s j)" for j by simp
    show ?thesis using assms(2) kept unfolding save_inv_def same by fastforce
  next
    assume "replaced pc \<and> map_of fs' path = Some (data i, owner_mode)"
    then show ?thesis by (intro disjI2 exI [of _ i]) simp
  qed
  ultimately show ?thesis using step by (simp add: save_inv_def save_move_def move)
qed

lemma save_run_inv:
  assumes "new_names path temporary fs"
  shows "save_inv path temporary data fs (save_run path temporary data moves fs)"
proof -
  have "save_inv path temporary data fs (save_start fs)"
    using assms by (auto simp: save_inv_def save_start_def new_names_def)
  then have "save_inv path temporary data fs (fold (save_move path temporary data) moves s)"
    if "save_inv path temporary data fs s" for s
    using that by (induction moves arbitrary: s) (simp_all add: save_move_inv [OF assms])
  then show ?thesis using \<open>save_inv path temporary data fs (save_start fs)\<close> by (simp add: save_run_def)
qed

subsection \<open>Properties\<close>

text \<open>C20: At every moment of every interleaving, so also after a crash, the file is the old one or has the
  complete text of one of the writers and is readable by its owner only; so is each temporary file, which holds
  a beginning of its writer's text; no other file changes; and when a writer has reported success the old
  file is gone.\<close>

theorem saved_file_is_whole:
  assumes "new_names path temporary fs" and "s = save_run path temporary data moves fs"
  shows "(map_of (sv_files s) path = map_of fs path \<or> (\<exists>i. map_of (sv_files s) path = Some (data i, owner_mode)))
    \<and> (\<forall>i c mode. map_of (sv_files s) (temporary i) = Some (c, mode) \<longrightarrow> mode = owner_mode \<and> prefix c (data i))
    \<and> (\<forall>p. p \<noteq> path \<and> p \<notin> range temporary \<longrightarrow> map_of (sv_files s) p = map_of fs p)
    \<and> (sv_writers s i = V_Done None \<longrightarrow> (\<exists>j. map_of (sv_files s) path = Some (data j, owner_mode)))"
proof -
  have inv: "save_inv path temporary data fs s" using save_run_inv [OF assms(1)] assms(2) by simp
  have "mode = owner_mode \<and> prefix c (data i)" if "map_of (sv_files s) (temporary i) = Some (c, mode)" for i c mode
  proof -
    have "writer_ok (data i) (sv_writers s i) (map_of (sv_files s) (temporary i))" using inv by (simp add: save_inv_def)
    then have "writer_ok (data i) (sv_writers s i) (Some (c, mode))" by (simp only: that)
    then show ?thesis by (cases "sv_writers s i") auto
  qed
  moreover have "\<exists>j. map_of (sv_files s) path = Some (data j, owner_mode)" if "sv_writers s i = V_Done None"
  proof -
    have "replaced (sv_writers s i)" using that by simp
    then show ?thesis using inv unfolding save_inv_def by blast
  qed
  ultimately show ?thesis using inv unfolding save_inv_def by blast
qed

text \<open>A writer that is alone: the file is the new one exactly when the rename has worked.\<close>

lemma other_writers:
  "j \<noteq> i \<Longrightarrow> list_all (\<lambda>move. fst move = i) moves \<Longrightarrow>
    sv_writers (fold (save_move path temporary data) moves s) j = sv_writers s j"
proof (induction moves arbitrary: s)
  case (Cons move moves)
  then show ?case by (cases move) (simp add: save_move_def split: prod.split)
qed simp

lemma save_alone:
  assumes "new_names path temporary fs" and "list_all (\<lambda>move. fst move = i) moves"
    and "s = save_run path temporary data moves fs" and "sv_writers s i = V_Done result"
  shows "map_of (sv_files s) path
    = (if result = None \<or> result = Some Mode_Failed then Some (data i, owner_mode) else map_of fs path)"
proof -
  have inv: "save_inv path temporary data fs s" using save_run_inv [OF assms(1)] assms(3) by simp
  have "\<not> replaced (sv_writers s j)" if "j \<noteq> i" for j
    using other_writers [OF that assms(2)] assms(3) by (simp add: save_run_def save_start_def)
  then have only: "replaced (sv_writers s j) \<Longrightarrow> j = i" for j by blast
  have "replaced (sv_writers s i) = (result = None \<or> result = Some Mode_Failed)" using assms(4) by simp
  then show ?thesis using inv only unfolding save_inv_def by metis
qed

definition sample_names :: "nat \<Rightarrow> string" where
  "sample_names i = replicate (Suc i) (CHR ''t'')"

lemma saved_file_is_whole_witness:
  "map_of (sv_files (save_run ''config.json'' sample_names (\<lambda>i. if i = 0 then ''old text'' else ''new'')
      [(0, True, 0), (1, True, 0), (0, True, 0), (1, True, 0), (0, True, 3), (1, True, 2), (1, True, 9), (0, False, 1),
       (1, True, 0), (1, True, 0), (1, True, 0)] [(''other'', (''x'', 420))])) ''config.json'' = Some (''new'', 384)
    \<and> map_of (sv_files (save_run ''config.json'' sample_names (\<lambda>i. if i = 0 then ''old text'' else ''new'')
      [(0, True, 0), (1, True, 0), (0, True, 0), (1, True, 0), (0, True, 3), (1, True, 2), (1, True, 9), (0, False, 1),
       (1, True, 0), (1, True, 0), (1, True, 0)] [(''other'', (''x'', 420))])) ''other'' = Some (''x'', 420)"
proof -
  let ?data = "\<lambda>i. if i = 0 then ''old text'' else ''new''"
  let ?moves = "[(0, True, 0), (1, True, 0), (0, True, 0), (1, True, 0), (0, True, 3), (1, True, 2), (1, True, 9),
    (0, False, 1), (1, True, 0), (1, True, 0), (1, True, 0)] :: (nat \<times> bool \<times> nat) list"
  have chars: "set (sample_names i) = {CHR ''t''}" for i by (auto simp: sample_names_def)
  have apart: "set p \<noteq> {CHR ''t''} \<Longrightarrow> p \<noteq> sample_names i" for p i using chars by blast
  have names: "new_names ''config.json'' sample_names [(''other'', (''x'', 420))]"
    using apart [of "''config.json''"] apart [of "''other''"]
    by (auto simp: new_names_def inj_def sample_names_def dest: arg_cong [of _ _ length])
  have "map_of (sv_files (save_run ''config.json'' sample_names ?data ?moves [(''other'', (''x'', 420))])) ''config.json''
      = Some (''new'', 384)" by code_simp
  moreover have "''other'' \<noteq> ''config.json''" "''other'' \<notin> range sample_names" using apart [of "''other''"] by auto
  ultimately show ?thesis
    using saved_file_is_whole [OF names refl, of ?data ?moves] by simp
qed

end
