(* ===== verification/Saved_Files.thy ===== *)
theory Saved_Files
  imports Atomic_Save Stored_Credentials Stored_Settings
begin

text \<open>
  The steps of \<open>Atomic_Save\<close> refine the writes of \<open>Stored_Settings\<close> and \<open>Stored_Credentials\<close>: with a writer
  that is alone the flags of those models say which call failed.
\<close>

fun prepare_failure :: "save_failure option \<Rightarrow> bool" where
  "prepare_failure None = False"
| "prepare_failure (Some Replace_Failed) = False"
| "prepare_failure (Some Mode_Failed) = False"
| "prepare_failure _ = True"

definition disk_for :: "save_failure option \<Rightarrow> config_disk \<Rightarrow> config_disk" where
  "disk_for result d = d\<lparr>cd_prepare_fails := prepare_failure result, cd_replace_fails := (result = Some Replace_Failed),
     cd_chmod_fails := (result = Some Mode_Failed)\<rparr>"

definition system_for :: "save_failure option \<Rightarrow> file_system \<Rightarrow> file_system" where
  "system_for result f = f\<lparr>fs_prepare_fails := prepare_failure result, fs_replace_fails := (result = Some Replace_Failed),
     fs_chmod_fails := (result = Some Mode_Failed)\<rparr>"

lemma failure_cases:
  "prepare_failure result \<or> result = None \<or> result = Some Replace_Failed \<or> result = Some Mode_Failed"
  by (cases result rule: prepare_failure.cases) auto

lemma prepare_failed: "prepare_failure result \<Longrightarrow> result \<noteq> None \<and> result \<noteq> Some Mode_Failed"
  by (cases result rule: prepare_failure.cases) auto

lemma owner_modes: "owner_mode = private_mode" "owner_mode = owner_only"
  by (simp_all add: owner_mode_def private_mode_def owner_only_def)

text \<open>When the writer of valid settings is done, the file is what \<open>Save_text\<close> leaves, and the error is there
  when \<open>Save_text\<close> has one.\<close>

theorem settings_steps_refine:
  assumes "new_names path temporary fs" and "list_all (\<lambda>move. fst move = i) moves"
    and "s = save_run path temporary data moves fs" and "sv_writers s i = V_Done result"
    and "config_Validate c = None" and "config_text c = Some (data i)"
  shows "td_file (snd (Save_text c \<lparr>td_file = map_of fs path, td_disk = disk_for result d\<rparr>)) = map_of (sv_files s) path
    \<and> (fst (Save_text c \<lparr>td_file = map_of fs path, td_disk = disk_for result d\<rparr>) = None \<longleftrightarrow> result = None)"
  using save_alone [OF assms(1-4)] assms(5,6) failure_cases [of result]
  by (auto simp: Save_text_def disk_for_def owner_modes(1))

text \<open>The same for credentials in the files of the fallback store.\<close>

theorem credentials_steps_refine:
  assumes "new_names path temporary fs" and "list_all (\<lambda>move. fst move = i) moves"
    and "s = save_run path temporary data moves fs" and "sv_writers s i = V_Done result"
    and "encodeCredentials c = Some (data i)" and "path = file_path f account"
  shows "map_of (tf_files (snd (text_file_Set \<lparr>tf_files = fs, tf_system = system_for result f\<rparr> account c))) path
      = map_of (sv_files s) path
    \<and> (fst (text_file_Set \<lparr>tf_files = fs, tf_system = system_for result f\<rparr> account c) = None \<longleftrightarrow> result = None)"
proof -
  define s0 where "s0 = \<lparr>tf_files = fs, tf_system = system_for result f\<rparr>"
  have s0: "text_file_path s0 account = path" "tf_files s0 = fs" "fs_prepare_fails (tf_system s0) = prepare_failure result"
    "fs_replace_fails (tf_system s0) = (result = Some Replace_Failed)" "fs_chmod_fails (tf_system s0) = (result = Some Mode_Failed)"
    by (simp_all add: s0_def text_file_path_def file_path_def system_for_def assms(6))
  consider "prepare_failure result" | "result = None" | "result = Some Replace_Failed" | "result = Some Mode_Failed"
    using failure_cases [of result] by blast
  then show ?thesis
    unfolding s0_def [symmetric] using save_alone [OF assms(1-4)] assms(5)
    by cases (auto simp: text_file_Set_def s0 owner_modes(2) simp del: not_None_eq dest: prepare_failed)
qed

subsection \<open>Samples\<close>

definition quiet_save :: "string \<Rightarrow> (nat \<times> bool \<times> nat) list" where
  "quiet_save data = replicate 8 (0, True, length data)"

lemma quiet_save_done: "sv_writers (save_run path temporary data (quiet_save (data 0)) fs) 0 = V_Done None"
  by (simp add: quiet_save_def save_run_def save_start_def save_move_def eval_nat_numeral split: prod.split)

lemma sample_names_new: "CHR ''.'' \<in> set path \<Longrightarrow> new_names path sample_names []"
proof -
  assume dot: "CHR ''.'' \<in> set path"
  have "CHR ''.'' \<notin> set (sample_names i)" for i by (auto simp: sample_names_def)
  then have "sample_names i \<noteq> path" for i using dot by metis
  then show ?thesis
    by (auto simp: new_names_def inj_def sample_names_def dest: arg_cong [of _ _ length])
qed

definition sample_settings :: config where
  "sample_settings = SetOAuth ''https://api.example/'' ''https://issuer.example'' ''cli'' [''openid''] ''u'' 5 empty_config"

definition sound_disk :: config_disk where
  "sound_disk = \<lparr>cd_file = None, cd_read_fails = False, cd_prepare_fails = False, cd_replace_fails = False,
     cd_chmod_fails = False, cd_remove_fails = False\<rparr>"

lemma settings_steps_refine_witness:
  "\<exists>t. config_text sample_settings = Some t
    \<and> td_file (snd (Save_text sample_settings \<lparr>td_file = None, td_disk = disk_for None sound_disk\<rparr>))
      = map_of (sv_files (save_run ''config.json'' sample_names (\<lambda>i. t) (quiet_save t) [])) ''config.json''"
proof -
  have "storable_config sample_settings" and valid: "config_Validate sample_settings = None" by code_simp+
  then obtain t where t: "config_text sample_settings = Some t" by (auto simp: config_text_def storable_config_def)
  have names: "new_names ''config.json'' sample_names []" by (rule sample_names_new) simp
  have alone: "list_all (\<lambda>move. fst move = 0) (quiet_save t)" by (simp add: quiet_save_def list_all_iff)
  have ended: "sv_writers (save_run ''config.json'' sample_names (\<lambda>i. t) (quiet_save t) []) 0 = V_Done None"
    using quiet_save_done [of "''config.json''" sample_names "\<lambda>i. t" "[]"] by simp
  note settings_steps_refine [OF names alone refl ended valid, of sound_disk]
  with t show ?thesis by simp
qed

lemma credentials_steps_refine_witness:
  "\<exists>t. encodeCredentials sample_credentials = Some t
    \<and> map_of (tf_files (snd (text_file_Set \<lparr>tf_files = [], tf_system = system_for None sample_files\<rparr> ''a'' sample_credentials)))
        (file_path sample_files ''a'')
      = map_of (sv_files (save_run (file_path sample_files ''a'') sample_names (\<lambda>i. t) (quiet_save t) []))
        (file_path sample_files ''a'')"
proof -
  let ?path = "file_path sample_files ''a''"
  have "storable sample_credentials" by code_simp
  then obtain t where t: "encodeCredentials sample_credentials = Some t" using storable_encoded by blast
  have names: "new_names ?path sample_names []" by (rule sample_names_new) (simp add: file_path_def)
  have alone: "list_all (\<lambda>move. fst move = 0) (quiet_save t)" by (simp add: quiet_save_def list_all_iff)
  have ended: "sv_writers (save_run ?path sample_names (\<lambda>i. t) (quiet_save t) []) 0 = V_Done None"
    using quiet_save_done [of ?path sample_names "\<lambda>i. t" "[]"] by simp
  note credentials_steps_refine [OF names alone refl ended t refl]
  with t show ?thesis by simp
qed

end
