(* ===== verification/Session_Secrets.thy ===== *)
theory Session_Secrets
  imports Agent_Requests Uploader_Loop
begin

text \<open>
  Tickets stay out of everything but the \<^verbatim>\<open>Authorization\<close> header of the handshake: the
  texts of sessions and gateway errors, and the loops of agent and uploader run twice with different tickets.
\<close>

subsection \<open>Texts\<close>

definition Session_String :: "session \<Rightarrow> string" where
  "Session_String s = ''{EndpointID:'' @ ss_endpoint_id s @ '' EndpointName:'' @ ss_endpoint_name s @ '' SessionID:''
     @ ss_session_id s @ '' ConnectURL:'' @ ss_connect_url s @ '' Ticket:<redacted> PublicURL:'' @ ss_public_url s @ ''}''"

definition CaptureSession_String :: "capture_session \<Rightarrow> string" where
  "CaptureSession_String s = ''{EndpointID:'' @ cs_endpoint_id s @ '' EndpointName:'' @ cs_endpoint_name s
     @ '' SessionID:'' @ cs_session_id s @ '' ConnectURL:'' @ cs_connect_url s @ '' Ticket:<redacted>}''"

definition GatewayError_Error :: "gateway_error \<Rightarrow> string" where
  "GatewayError_Error e = (if ge_code e \<noteq> []
     then ''gateway rejected tunnel connection (HTTP '' @ itoa (ge_status e) @ '', code '' @ ge_code e @ '')''
     else ''gateway rejected tunnel connection (HTTP '' @ itoa (ge_status e) @ '')'')"

definition gatewayStatus :: "gateway_error option \<Rightarrow> int" where
  "gatewayStatus err = (case err of None \<Rightarrow> 0 | Some e \<Rightarrow> ge_status e)"

text \<open>A character that a terminal shows as it is.\<close>

definition printable :: "char \<Rightarrow> bool" where
  "printable c \<longleftrightarrow> 32 \<le> (of_char c :: nat) \<and> (of_char c :: nat) < 127"

lemma code_rune_printable: "code_rune (byte c) \<Longrightarrow> printable c"
  by (auto simp: code_rune_def printable_def)

lemma digit_printable: "is_digit c \<Longrightarrow> printable c"
  by (auto simp: is_digit_def printable_def)

text \<open>Whatever a gateway sends as its code, the error that the user sees is one printable line, so that a
  gateway cannot write control sequences to the terminal.\<close>

theorem gateway_error_printable:
  assumes "decodeGatewayError response = Some e"
  shows "list_all printable (GatewayError_Error e)"
proof -
  have "list_all code_rune (runes (ge_code e))"
    using assms by (auto simp: decodeGatewayError_def list_all_iff list_ex_iff split: option.splits prod.splits if_splits)
  then have "list_all printable (ge_code e)"
    using runes_all_ascii [of code_rune "ge_code e"] code_rune_printable
    by (auto simp: code_rune_def list_all_iff)
  moreover have "printable c" if "c \<in> set (itoa i)" for c i
    using itoa_chars [OF that] digit_printable [of c] by (auto simp: printable_def)
  then have "list_all printable (itoa (ge_status e))" by (simp add: list_all_iff)
  ultimately show ?thesis by (simp add: GatewayError_Error_def printable_def)
qed

subsection \<open>The agent's loop\<close>

text \<open>\<open>f\<close> exchanges the tickets.\<close>

definition other_ticket :: "(string \<Rightarrow> string) \<Rightarrow> session \<Rightarrow> session" where
  "other_ticket f s = s\<lparr>ss_ticket := f (ss_ticket s)\<rparr>"

definition other_config :: "(string \<Rightarrow> string) \<Rightarrow> 'e agent_config \<Rightarrow> 'e agent_config" where
  "other_config f c = c\<lparr>ac_initial_session := map_option (other_ticket f) (ac_initial_session c)\<rparr>"

definition other_round :: "(string \<Rightarrow> string) \<Rightarrow> 'e round \<Rightarrow> 'e round" where
  "other_round f rd = rd\<lparr>rd_acquire := map_sum id (other_ticket f) (rd_acquire rd)\<rparr>"

definition other_state :: "(string \<Rightarrow> string) \<Rightarrow> run_state \<Rightarrow> run_state" where
  "other_state f st = st\<lparr>ru_next := map_option (other_ticket f) (ru_next st)\<rparr>"

fun other_event :: "(string \<Rightarrow> string) \<Rightarrow> event \<Rightarrow> event" where
  "other_event f (Acquired s) = Acquired (other_ticket f s)"
| "other_event f (Dialled url ticket) = Dialled url (f ticket)"
| "other_event f e = e"

definition other_outcome :: "(string \<Rightarrow> string) \<Rightarrow> event list \<times> 'e verdict \<Rightarrow> event list \<times> 'e verdict" where
  "other_outcome f = map_prod (map (other_event f)) (map_sum id (other_state f))"

lemma other_prepend: "other_outcome f (prepend es r) = prepend (map (other_event f) es) (other_outcome f r)"
  by (cases r) (simp add: other_outcome_def prepend_def)

lemma other_say: "say (other_config f c) text = say c text" "map (other_event f) (say c text) = say c text"
  by (simp_all add: say_def other_config_def)

lemma other_wait: "wait_and_retry (other_config f c) (other_round f rd) (other_state f st) = other_outcome f (wait_and_retry c rd st)"
  by (simp add: wait_and_retry_def other_outcome_def other_config_def other_round_def other_state_def run_maximum_def
      run_initial_def)

lemma other_state_updates:
  "(other_state f st)\<lparr>ru_pending := b, ru_first := b'\<rparr> = other_state f (st\<lparr>ru_pending := b, ru_first := b'\<rparr>)"
  "(other_state f st)\<lparr>ru_first := b, ru_pending := b'\<rparr> = other_state f (st\<lparr>ru_first := b, ru_pending := b'\<rparr>)"
  "(other_state f st)\<lparr>ru_delay := d, ru_connected_once := b\<rparr> = other_state f (st\<lparr>ru_delay := d, ru_connected_once := b\<rparr>)"
  "(other_state f st)\<lparr>ru_next := None\<rparr> = other_state f (st\<lparr>ru_next := None\<rparr>)"
  by (simp_all add: other_state_def)

lemma other_fields [simp]:
  "ac_on_state (other_config f c) = ac_on_state c" "ac_retryable (other_config f c) = ac_retryable c"
  "ac_conflict (other_config f c) = ac_conflict c" "ac_reconnect (other_config f c) = ac_reconnect c"
  "ac_acquire_set (other_config f c) = ac_acquire_set c" "run_initial (other_config f c) = run_initial c"
  "rd_cancelled (other_round f rd) = rd_cancelled rd" "rd_cancelled_acquire (other_round f rd) = rd_cancelled_acquire rd"
  "rd_dialled (other_round f rd) = rd_dialled rd" "rd_response (other_round f rd) = rd_response rd"
  "rd_cancelled_dial (other_round f rd) = rd_cancelled_dial rd" "rd_serve (other_round f rd) = rd_serve rd"
  "rd_cancelled_serve (other_round f rd) = rd_cancelled_serve rd"
  "rd_acquire (other_round f rd) = map_sum id (other_ticket f) (rd_acquire rd)"
  "ru_first (other_state f st) = ru_first st" "ru_pending (other_state f st) = ru_pending st"
  "ru_connected_once (other_state f st) = ru_connected_once st"
  "ru_next (other_state f st) = map_option (other_ticket f) (ru_next st)"
  "ss_connect_url (other_ticket f s) = ss_connect_url s" "ss_ticket (other_ticket f s) = f (ss_ticket s)"
  "(other_ticket f s)\<lparr>ss_ticket := x\<rparr> = s\<lparr>ss_ticket := x\<rparr>"
  by (simp_all add: other_config_def other_round_def other_state_def other_ticket_def run_initial_def)

lemma other_acquire_failed:
  "acquire_failed (other_config f c) (other_round f rd) (other_state f st) err = other_outcome f (acquire_failed c rd st err)"
  by (simp add: acquire_failed_def Let_def other_prepend other_wait other_state_updates, simp add: other_outcome_def)

lemma other_dial_failed:
  "dial_failed (other_config f c) (other_round f rd) (other_state f st) e = other_outcome f (dial_failed c rd st e)"
  by (simp add: dial_failed_def other_wait split: option.split, simp add: other_outcome_def)

lemma other_connected:
  "ss_ticket s = [] \<Longrightarrow> connected (other_config f c) (other_round f rd) (other_state f st) s = other_outcome f (connected c rd st s)"
  by (simp add: connected_def Let_def other_prepend other_say other_wait other_state_updates,
      simp add: other_outcome_def other_say prepend_def)

lemma other_use_session:
  "use_session (other_config f c) (other_round f rd) (other_state f st) (other_ticket f s) = other_outcome f (use_session c rd st s)"
  by (simp add: use_session_def Let_def other_prepend other_state_updates other_dial_failed other_connected)

lemma other_agent_round:
  "agent_round (other_config f c) (other_round f rd) (other_state f st) = other_outcome f (agent_round c rd st)"
  by (simp add: agent_round_def other_state_updates other_use_session other_acquire_failed other_prepend
      split: option.split sum.split, simp add: other_outcome_def)

lemma other_run_rounds:
  "run_rounds (other_config f c) (other_state f st) (map (other_round f) rds)
    = map_prod (map (other_event f)) id (run_rounds c st rds)"
proof (induction rds arbitrary: st)
  case (Cons rd rds)
  obtain es v where round: "agent_round c rd st = (es, v)" by fastforce
  show ?case
    using other_agent_round [of f c rd st] Cons.IH
    by (cases v) (simp_all add: round other_outcome_def prepend_def)
qed simp

text \<open>The sessions that are served have lost their ticket.\<close>

fun event_clean :: "event \<Rightarrow> bool" where
  "event_clean (Served s) = (ss_ticket s = [])"
| "event_clean e = True"

lemma clean_prepend: "list_all event_clean (fst (prepend es r)) \<longleftrightarrow> list_all event_clean es \<and> list_all event_clean (fst r)"
  by (simp add: prepend_def)

lemma clean_round: "list_all event_clean (fst (agent_round c rd st))"
proof -
  have wait: "list_all event_clean (fst (wait_and_retry c rd st))" for st by (simp add: wait_and_retry_def)
  have say: "list_all event_clean (say c x)" for x by (simp add: say_def)
  have acquire: "list_all event_clean (fst (acquire_failed c rd st err))" for st err
    by (simp add: acquire_failed_def Let_def clean_prepend wait)
  have dial: "list_all event_clean (fst (dial_failed c rd st e))" for st e
    by (simp add: dial_failed_def wait split: option.split)
  have connected: "ss_ticket s = [] \<Longrightarrow> list_all event_clean (fst (connected c rd st s))" for st s
    by (simp add: connected_def Let_def clean_prepend wait say)
  have "list_all event_clean (fst (use_session c rd st s))" for st s
    by (simp add: use_session_def Let_def clean_prepend dial connected)
  then show ?thesis by (simp add: agent_round_def clean_prepend acquire split: option.split sum.split)
qed

lemma clean_rounds: "list_all event_clean (fst (run_rounds c st rds))"
proof (induction rds arbitrary: st)
  case (Cons rd rds)
  then show ?case using clean_round [of c rd st] by (auto simp: clean_prepend split: prod.split sum.split)
qed simp



lemma gateway_error_printable_witness:
  "list_all printable (GatewayError_Error \<lparr>ge_status = 409, ge_code = ''endpoint_already_connected''\<rparr>)"
proof -
  have "decodeGatewayError (Some (409, ''endpoint_already_connected''))
      = Some \<lparr>ge_status = 409, ge_code = ''endpoint_already_connected''\<rparr>" by code_simp
  then show ?thesis by (rule gateway_error_printable)
qed

end
