(* ===== verification/Go_Json_Decoder.thy ===== *)
theory Go_Json_Decoder
  imports Go_Json_Structs
begin

text \<open>
  \<^verbatim>\<open>json.Decoder\<close> on a response body: it reads the first value of the stream and stops
  there, and when the caller ignores its error the fields that could be read keep what they got.
\<close>

subsection \<open>The first value of a text\<close>

definition next_token :: "string \<Rightarrow> (token \<times> string) option" where
  "next_token s = (case s of [] \<Rightarrow> None
     | c # s' \<Rightarrow> (case punctuation c of
         Some t \<Rightarrow> Some (t, s')
       | None \<Rightarrow>
           if c = quote_mark then map_option (map_prod T_Str id) (scan_string s')
           else if is_digit c \<or> c = CHR ''-'' then
             (if valid_number (c # takeWhile number_char s')
              then Some (T_Num (c # takeWhile number_char s'), dropWhile number_char s') else None)
           else if c # takeWhile is_lower s' \<in> {''true'', ''false'', ''null''}
             then Some (T_Word (c # takeWhile is_lower s'), dropWhile is_lower s') else None))"

lemma next_token_shorter:
  assumes "next_token s = Some (t, rest)"
  shows "length rest < length s"
proof (cases s)
  case (Cons c s')
  have word: "length (dropWhile is_lower s') \<le> length s'" and number: "length (dropWhile number_char s') \<le> length s'"
    by (rule length_dropWhile_le)+
  define numeral where "numeral = (if valid_number (c # takeWhile number_char s')
    then Some (T_Num (c # takeWhile number_char s'), dropWhile number_char s') else None)"
  define literal where "literal = (if c # takeWhile is_lower s' \<in> {''true'', ''false'', ''null''}
    then Some (T_Word (c # takeWhile is_lower s'), dropWhile is_lower s') else None)"
  have eq: "next_token s = (case punctuation c of Some t \<Rightarrow> Some (t, s') | None \<Rightarrow>
      if c = quote_mark then map_option (map_prod T_Str id) (scan_string s')
      else if is_digit c \<or> c = CHR ''-'' then numeral else literal)"
    by (simp only: Cons next_token_def numeral_def literal_def list.case)
  have "numeral = Some (t, rest) \<Longrightarrow> rest = dropWhile number_char s'" "literal = Some (t, rest) \<Longrightarrow> rest = dropWhile is_lower s'"
    by (simp_all add: numeral_def literal_def split: if_split_asm)
  then show ?thesis
    using assms [unfolded eq] word number unfolding Cons
    by (auto simp: le_imp_less_Suc dest: scan_string_shorter split: option.splits if_split_asm)
qed (use assms in \<open>simp add: next_token_def\<close>)

lemma tokens_next:
  "c \<notin> set json_space \<Longrightarrow> tokens (c # s) = (case next_token (c # s) of None \<Rightarrow> None
     | Some (t, rest) \<Rightarrow> map_option ((#) t) (tokens rest))"
  unfolding tokens.simps(2) next_token_def list.case
  by (cases "punctuation c"; cases "c = quote_mark"; cases "is_digit c \<or> c = CHR ''-''")
    (simp_all del: insert_iff split: option.split)

text \<open>Tokens are read until the value is complete.\<close>

fun done_value :: "pstate \<Rightarrow> json option" where
  "done_value (P_Done v) = Some v"
| "done_value _ = None"

function read_value :: "string \<Rightarrow> pstate \<Rightarrow> json option" where
  "read_value s p = (case done_value p of Some v \<Rightarrow> Some v
     | None \<Rightarrow> (case s of [] \<Rightarrow> None
       | c # s' \<Rightarrow>
           if c \<in> set json_space then read_value s' p
           else (case next_token s of None \<Rightarrow> None
             | Some (t, rest) \<Rightarrow> (case parse_step t p of None \<Rightarrow> None | Some p' \<Rightarrow> read_value rest p'))))"
  by pat_completeness auto
termination
  by (relation "measure (\<lambda>(s, p). length s)") (auto dest: next_token_shorter)

declare read_value.simps [simp del]

text \<open>The decoder sees only that the word \<open>null\<close> is over, not what follows it.\<close>

definition first_value :: "string \<Rightarrow> json option" where
  "first_value s = (if prefix ''null'' (dropWhile (\<lambda>c. c \<in> set json_space) s) then Some J_Null
     else read_value s (P_Value []))"

text \<open>A text that is one value, possibly between white space, is read as this value.\<close>

lemma read_value_whole:
  "tokens s = Some ts \<Longrightarrow> parse_tokens ts p = Some (P_Done v) \<Longrightarrow> read_value s p = Some v"
proof (induction s p arbitrary: ts rule: read_value.induct)
  case (1 s p)
  show ?case
  proof (cases "done_value p")
    case (Some w)
    then have p: "p = P_Done w" by (cases p) auto
    have "ts = []" using "1.prems"(2) by (cases ts) (simp_all add: p)
    then show ?thesis using "1.prems"(2) by (simp add: read_value.simps p)
  next
    case None
    show ?thesis
    proof (cases s)
      case Nil
      then show ?thesis using "1.prems" None by auto
    next
      case (Cons c s')
      show ?thesis
      proof (cases "c \<in> set json_space")
        case True
        then have "tokens s' = Some ts" using "1.prems"(1) by (simp add: Cons tokens.simps(2))
        then have "read_value s' p = Some v" using "1.IH"(1) [OF None Cons True] "1.prems"(2) by simp
        then show ?thesis by (simp add: read_value.simps [of "c # s'"] None Cons True)
      next
        case other: False
        then obtain t rest ts' where token: "next_token s = Some (t, rest)" and rest: "tokens rest = Some ts'"
          and ts: "ts = t # ts'"
          using "1.prems"(1) by (auto simp: Cons tokens_next split: option.splits)
        obtain p' where step: "parse_step t p = Some p'" and more: "parse_tokens ts' p' = Some (P_Done v)"
          using "1.prems"(2) by (auto simp: ts bind_eq_Some_conv)
        have "read_value rest p' = Some v" using "1.IH"(2) [OF None Cons other token refl step rest more] .
        then show ?thesis using other by (simp add: read_value.simps [of "c # s'"] None Cons token [unfolded Cons] step)
      qed
    qed
  qed
qed

lemma first_value_whole:
  assumes "parse_json s = Some (J_Obj ms)"
  shows "first_value s = Some (J_Obj ms)"
proof -
  obtain ts where ts: "tokens s = Some ts" and run: "parse_tokens ts (P_Value []) = Some (P_Done (J_Obj ms))"
    using assms by (auto simp: parse_json_def bind_eq_Some_conv split: option.splits pstate.splits)
  have "\<not> prefix ''null'' (dropWhile (\<lambda>c. c \<in> set json_space) s)"
  proof
    define s' where "s' = dropWhile (\<lambda>c. c \<in> set json_space) s"
    assume "prefix ''null'' (dropWhile (\<lambda>c. c \<in> set json_space) s)"
    then obtain rest where s': "s' = CHR ''n'' # ''ull'' @ rest" by (auto simp: s'_def prefix_def)
    have "s = takeWhile (\<lambda>c. c \<in> set json_space) s @ s'" by (simp add: s'_def)
    moreover have "set (takeWhile (\<lambda>c. c \<in> set json_space) s) \<subseteq> set json_space" by (auto dest: set_takeWhileD)
    ultimately have "tokens s' = Some ts" using ts tokens_space by metis
    moreover have "CHR ''n'' \<notin> set json_space" "punctuation (CHR ''n'') = None" "CHR ''n'' \<noteq> quote_mark"
      "\<not> (is_digit (CHR ''n'') \<or> CHR ''n'' = CHR ''-'')"
      by (simp_all add: json_space_def punctuation_def quote_mark_def is_digit_def)
    ultimately obtain w ts' where "ts = T_Word w # ts'"
      unfolding s' by (auto simp: tokens_next next_token_def simp del: insert_iff split: option.splits if_split_asm)
    then have run': "parse_tokens ts' (P_Done (if w = ''null'' then J_Null else J_Bool (w = ''true''))) = Some (P_Done (J_Obj ms))"
      using run by simp
    then show False by (cases ts') (auto split: if_splits)
  qed
  then show ?thesis using read_value_whole [OF ts run] by (simp add: first_value_def)
qed

text \<open>The decoder gets at most \<^verbatim>\<open>limit\<close> bytes.\<close>

definition decode_body :: "ext \<Rightarrow> nat \<Rightarrow> 'a json_field list \<Rightarrow> string \<Rightarrow> 'a \<Rightarrow> 'a option" where
  "decode_body E limit fs body x = Option.bind (first_value (take limit body)) (\<lambda>j. dec_struct E fs j x)"

subsection \<open>A decoder whose error is ignored\<close>

text \<open>After a value of the wrong type the decoder goes on with the next member, except for those fields whose
  error ends it at once.\<close>

fun dec_ignoring :: "ext \<Rightarrow> 'a json_field list \<Rightarrow> string list \<Rightarrow> (string \<times> json) list \<Rightarrow> 'a \<Rightarrow> 'a" where
  "dec_ignoring E fs fatal [] x = x"
| "dec_ignoring E fs fatal ((k, j) # ms) x = (case find_field E fs (unquote_json k) of
       None \<Rightarrow> dec_ignoring E fs fatal ms x
     | Some (n, om, w, r) \<Rightarrow> (case r j x of
         Some x' \<Rightarrow> dec_ignoring E fs fatal ms x'
       | None \<Rightarrow> if n \<in> set fatal then x else dec_ignoring E fs fatal ms x))"

definition decode_ignoring :: "ext \<Rightarrow> nat \<Rightarrow> 'a json_field list \<Rightarrow> string list \<Rightarrow> string \<Rightarrow> 'a \<Rightarrow> 'a" where
  "decode_ignoring E limit fs fatal body x = (case first_value (take limit body) of
       Some (J_Obj ms) \<Rightarrow> dec_ignoring E fs fatal ms x | _ \<Rightarrow> x)"

lemma dec_ignoring_same: "dec_members E fs ms x = Some y \<Longrightarrow> dec_ignoring E fs fatal ms x = y"
  by (induction ms arbitrary: x rule: list.induct) (auto simp: bind_eq_Some_conv split: option.splits prod.splits)

text \<open>Members that a table does not know change nothing, wherever they stand.\<close>

lemma dec_members_append:
  "dec_members E fs (ms @ ms') x = Option.bind (dec_members E fs ms x) (dec_members E fs ms')"
  by (induction ms arbitrary: x) (auto split: option.split intro!: Option.bind_cong)

lemma unknown_member:
  "find_field E fs (unquote_json k) = None \<Longrightarrow> dec_members E fs (ms @ (k, j) # ms') x = dec_members E fs (ms @ ms') x"
  by (auto simp: dec_members_append intro!: Option.bind_cong)

subsection \<open>Lists of strings\<close>

text \<open>A value with, for each of its slices, what is in the array behind it.\<close>

type_synonym 'a spared = "'a \<times> (string \<Rightarrow> string list)"

definition lift_field :: "'a json_field \<Rightarrow> 'a spared json_field" where
  "lift_field = (\<lambda>(n, om, w, r). (n, \<lambda>x. om (fst x), \<lambda>x. w (fst x), \<lambda>j x. map_option (\<lambda>v. (v, snd x)) (r j (fst x))))"

definition list_field :: "string \<Rightarrow> ('a \<Rightarrow> string list) \<Rightarrow> ((string list \<Rightarrow> string list) \<Rightarrow> 'a \<Rightarrow> 'a) \<Rightarrow> 'a spared json_field" where
  "list_field name get upd = (name, \<lambda>x. False, \<lambda>x. enc_slice enc_string (append_nil (Some (get (fst x))), []),
     \<lambda>j x. map_option (\<lambda>(v, spare). (upd (\<lambda>_. elems v) (fst x), (snd x)(name := spare)))
       (dec_slice dec_string [] j (append_nil (Some (get (fst x))), snd x name)))"

definition no_spare :: "'a \<Rightarrow> 'a spared" where
  "no_spare x = (x, \<lambda>n. [])"

lemma run_list:
  assumes "list_all utf8_valid (get (fst m))" and "get (fst x) = []" and "snd x name = []"
  shows "run_fields (list_field name get upd # fs) m x
    = run_fields fs m (upd (\<lambda>_. get (fst m)) (fst x), (snd x)(name := []))"
proof -
  let ?v = "append_nil (Some (get (fst m)))"
  have "dec_slice dec_string [] (enc_slice enc_string (?v, [])) (None, []) = Some (map_option (map to_valid) ?v, [])"
    using dec_enc_slice [of ?v dec_string enc_string "[]" to_valid] by (simp add: dec_enc_string)
  moreover have "map to_valid (get (fst m)) = get (fst m)"
    using assms(1) by (intro map_idI) (simp add: list_all_iff to_valid_id)
  then have "elems (map_option (map to_valid) ?v) = get (fst m)" by (simp add: append_nil_def)
  ultimately show ?thesis using assms(2,3) by (simp add: list_field_def append_nil_def)
qed

lemma run_lift:
  "run_fields (lift_field (field name keep get upd enc dec) # fs) m x
    = Option.bind (dec (enc (get (fst m))) (get (fst x))) (\<lambda>v. run_fields fs m (upd (\<lambda>_. v) (fst x), snd x))"
  by (cases "dec (enc (get (fst m))) (get (fst x))") (simp_all add: lift_field_def field_def keep_def)

end
