(* ===== verification/Api_Documents.thy ===== *)
theory Api_Documents
  imports Go_Json_Decoder Session_Requests Login_Configuration Agent
begin

text \<open>
  The JSON documents that the agent exchanges with the control plane, the authorization server and the
  gateway, as the struct tags of \<^verbatim>\<open>internal/apiclient\<close>, \<^verbatim>\<open>internal/oauth\<close> and
  \<^verbatim>\<open>internal/agent\<close> say.  The other theories take what a body decodes to from the environment; here it is
  computed from the bytes of the body.
\<close>

subsection \<open>Tables\<close>

definition session_request_fields :: "tunnel_session_request json_field list" where
  "session_request_fields =
     [field ''endpointName'' keep tq_endpoint_name tq_endpoint_name_update enc_string dec_string,
      field ''protocol'' keep tq_protocol tq_protocol_update enc_string dec_string,
      field ''localPort'' keep tq_local_port tq_local_port_update enc_int dec_int,
      field ''protocolVersion'' keep tq_protocol_version tq_protocol_version_update enc_int dec_int]"

definition endpoint_fields :: "endpoint_response json_field list" where
  "endpoint_fields =
     [field ''id'' keep ep_id ep_id_update enc_string dec_string,
      field ''name'' keep ep_name ep_name_update enc_string dec_string,
      field ''hostname'' keep ep_hostname ep_hostname_update enc_string dec_string,
      field ''publicUrl'' keep ep_public_url ep_public_url_update enc_string dec_string]"

definition tunnel_fields :: "tunnel_response json_field list" where
  "tunnel_fields =
     [field ''sessionId'' keep tn_session_id tn_session_id_update enc_string dec_string,
      field ''connectUrl'' keep tn_connect_url tn_connect_url_update enc_string dec_string,
      field ''ticket'' keep tn_ticket tn_ticket_update enc_string dec_string,
      field ''expiresAt'' keep tn_expires_at tn_expires_at_update enc_time dec_time,
      field ''protocolVersion'' keep tn_protocol_version tn_protocol_version_update enc_int dec_int]"

definition session_fields :: "ext \<Rightarrow> (endpoint_response \<times> tunnel_response) json_field list" where
  "session_fields E =
     [field ''endpoint'' keep fst apfst (enc_struct endpoint_fields) (dec_struct E endpoint_fields),
      field ''tunnel'' keep snd apsnd (enc_struct tunnel_fields) (dec_struct E tunnel_fields)]"

text \<open>The capture session has two anonymous structs.\<close>

definition capture_endpoint_fields :: "capture_session_response json_field list" where
  "capture_endpoint_fields =
     [field ''id'' keep cv_endpoint_id cv_endpoint_id_update enc_string dec_string,
      field ''name'' keep cv_endpoint_name cv_endpoint_name_update enc_string dec_string]"

definition capture_fields :: "capture_session_response json_field list" where
  "capture_fields =
     [field ''sessionId'' keep cv_session_id cv_session_id_update enc_string dec_string,
      field ''connectUrl'' keep cv_connect_url cv_connect_url_update enc_string dec_string,
      field ''ticket'' keep cv_ticket cv_ticket_update enc_string dec_string,
      field ''expiresAt'' keep cv_expires_at cv_expires_at_update enc_time dec_time,
      field ''protocolVersion'' keep cv_protocol_version cv_protocol_version_update enc_int dec_int]"

definition capture_session_fields :: "ext \<Rightarrow> capture_session_response json_field list" where
  "capture_session_fields E =
     [(''endpoint'', \<lambda>x. False, enc_struct capture_endpoint_fields, dec_struct E capture_endpoint_fields),
      (''capture'', \<lambda>x. False, enc_struct capture_fields, dec_struct E capture_fields)]"

definition problem_fields :: "problem json_field list" where
  "problem_fields =
     [field ''status'' keep pb_status pb_status_update enc_int dec_int,
      field ''code'' keep pb_code pb_code_update enc_string dec_string,
      field ''message'' keep pb_message pb_message_update enc_string dec_string,
      field ''requestId'' (\<lambda>v. v = []) pb_request_id pb_request_id_update enc_string dec_string]"

definition login_configuration_fields :: "login_configuration spared json_field list" where
  "login_configuration_fields =
     [lift_field (field ''issuer'' keep lc_issuer lc_issuer_update enc_string dec_string),
      lift_field (field ''clientId'' keep lc_client_id lc_client_id_update enc_string dec_string),
      list_field ''scopes'' lc_scopes lc_scopes_update]"

definition metadata_fields :: "metadata spared json_field list" where
  "metadata_fields =
     [lift_field (field ''issuer'' keep md_issuer md_issuer_update enc_string dec_string),
      lift_field (field ''authorization_endpoint'' keep md_authorization_endpoint md_authorization_endpoint_update enc_string dec_string),
      lift_field (field ''token_endpoint'' keep md_token_endpoint md_token_endpoint_update enc_string dec_string),
      lift_field (field ''userinfo_endpoint'' keep md_userinfo_endpoint md_userinfo_endpoint_update enc_string dec_string),
      lift_field (field ''revocation_endpoint'' keep md_revocation_endpoint md_revocation_endpoint_update enc_string dec_string),
      list_field ''grant_types_supported'' md_grant_types md_grant_types_update,
      list_field ''code_challenge_methods_supported'' md_challenge_methods md_challenge_methods_update,
      list_field ''token_endpoint_auth_methods_supported'' md_auth_methods md_auth_methods_update,
      list_field ''scopes_supported'' md_scopes md_scopes_update]"

definition identity_fields :: "identity json_field list" where
  "identity_fields =
     [field ''userId'' keep me_user_id me_user_id_update enc_string dec_string,
      field ''authenticationMethod'' keep me_authentication_method me_authentication_method_update enc_string dec_string]"

text \<open>\<^verbatim>\<open>json.Number\<close> keeps the text of a number, which may also come in quotes; \<^verbatim>\<open>json.RawMessage\<close> takes
  any value.\<close>

definition enc_number :: "string \<Rightarrow> json" where
  "enc_number lit = (if lit = [] then J_Num ''0'' else J_Num lit)"

definition dec_number :: "json \<Rightarrow> string \<Rightarrow> string option" where
  "dec_number j v = (case j of J_Null \<Rightarrow> Some v | J_Num lit \<Rightarrow> Some lit
     | J_Str raw \<Rightarrow> (if valid_number (unquote_json raw) then Some (unquote_json raw) else None) | _ \<Rightarrow> None)"

definition enc_scope :: "raw_scope \<Rightarrow> json" where
  "enc_scope scope = (case scope of Scope_Absent \<Rightarrow> J_Null | Scope_Text x \<Rightarrow> enc_string x
     | Scope_List xs \<Rightarrow> J_Arr (map enc_string xs) | Scope_Other \<Rightarrow> J_Bool False)"

definition dec_scope :: "json \<Rightarrow> raw_scope \<Rightarrow> raw_scope option" where
  "dec_scope j v = Some (case j of J_Null \<Rightarrow> Scope_Absent | J_Str raw \<Rightarrow> Scope_Text (unquote_json raw)
     | _ \<Rightarrow> (case dec_slice dec_string [] j (None, []) of
         Some (xs, spare) \<Rightarrow> Scope_List (elems xs) | None \<Rightarrow> Scope_Other))"

definition token_fields :: "raw_token_response json_field list" where
  "token_fields =
     [field ''access_token'' keep rw_access_token rw_access_token_update enc_string dec_string,
      field ''refresh_token'' keep rw_refresh_token rw_refresh_token_update enc_string dec_string,
      field ''token_type'' keep rw_token_type rw_token_type_update enc_string dec_string,
      field ''scope'' keep rw_scope rw_scope_update enc_scope dec_scope,
      field ''expires_in'' keep rw_expires_in rw_expires_in_update enc_number dec_number,
      field ''id_token'' keep rw_id_token rw_id_token_update enc_string dec_string,
      field ''error'' keep rw_error rw_error_update enc_string dec_string,
      field ''error_description'' keep rw_description rw_description_update enc_string dec_string]"

definition code_fields :: "string json_field list" where
  "code_fields = [field ''code'' keep (\<lambda>x. x) (\<lambda>f. f) enc_string dec_string]"

subsection \<open>From bodies\<close>

definition maxResponseSize :: nat where
  "maxResponseSize = 1048576"

definition empty_endpoint :: endpoint_response where
  "empty_endpoint = \<lparr>ep_id = [], ep_name = [], ep_hostname = [], ep_public_url = []\<rparr>"

definition empty_tunnel :: tunnel_response where
  "empty_tunnel = \<lparr>tn_session_id = [], tn_connect_url = [], tn_ticket = [], tn_expires_at = 0, tn_protocol_version = 0\<rparr>"

definition empty_capture :: capture_session_response where
  "empty_capture = \<lparr>cv_endpoint_id = [], cv_endpoint_name = [], cv_session_id = [], cv_connect_url = [],
     cv_ticket = [], cv_expires_at = 0, cv_protocol_version = 0\<rparr>"

definition empty_login_configuration :: login_configuration where
  "empty_login_configuration = \<lparr>lc_issuer = [], lc_client_id = [], lc_scopes = []\<rparr>"

definition empty_metadata :: metadata where
  "empty_metadata = \<lparr>md_issuer = [], md_authorization_endpoint = [], md_token_endpoint = [], md_userinfo_endpoint = [],
     md_revocation_endpoint = [], md_grant_types = [], md_challenge_methods = [], md_auth_methods = [], md_scopes = []\<rparr>"

definition empty_token :: raw_token_response where
  "empty_token = \<lparr>rw_access_token = [], rw_refresh_token = [], rw_token_type = [], rw_scope = Scope_Absent,
     rw_expires_in = [], rw_id_token = [], rw_error = [], rw_description = []\<rparr>"

text \<open>A response: status, request ID of the header, and the body unless it cannot be read.\<close>

record http_answer =
  ha_status :: int
  ha_request_id :: string
  ha_body :: "string option"

definition problem_body :: "ext \<Rightarrow> http_answer \<Rightarrow> problem" where
  "problem_body E a = (let p = \<lparr>pb_status = ha_status a, pb_code = [], pb_message = [], pb_request_id = []\<rparr> in
     case ha_body a of None \<Rightarrow> p | Some body \<Rightarrow> decode_ignoring E maxResponseSize problem_fields [] body p)"

definition answer_body :: "ext \<Rightarrow> 'b json_field list \<Rightarrow> 'b \<Rightarrow> http_answer \<Rightarrow> 'b session_body" where
  "answer_body E fs zero a = (case ha_body a of None \<Rightarrow> Body_Unreadable
     | Some body \<Rightarrow> if maxResponseSize < length body then Body_Too_Large
         else (case Option.bind (parse_json body) (\<lambda>j. dec_struct E fs j zero) of
             None \<Rightarrow> Body_Undecodable | Some b \<Rightarrow> Session_Body b))"

definition session_answer_of :: "ext \<Rightarrow> 'b json_field list \<Rightarrow> 'b \<Rightarrow> http_answer \<Rightarrow> 'b session_answer" where
  "session_answer_of E fs zero a = \<lparr>sa_status = ha_status a, sa_request_id = ha_request_id a,
     sa_problem = Some (problem_body E a), sa_body = answer_body E fs zero a\<rparr>"

definition session_payload :: "tunnel_session_request \<Rightarrow> string" where
  "session_payload request = print_json (enc_struct session_request_fields request)"

text \<open>\<open>http\<close> gives the answer to the \<open>i\<close>-th request for a target with a payload and a token.\<close>

type_synonym http = "string \<Rightarrow> string \<Rightarrow> nat \<Rightarrow> string \<Rightarrow> http_answer option"

definition tunnel_session_http ::
  "ext \<Rightarrow> 's store_ops \<Rightarrow> api_client \<Rightarrow> 's client_env \<Rightarrow> string \<Rightarrow> http \<Rightarrow> tunnel_session_request
    \<Rightarrow> session_validation \<Rightarrow> 's \<Rightarrow> (session_error + endpoint_response \<times> tunnel_response) \<times> 's" where
  "tunnel_session_http E ops cl V apiURL http request v s = CreateTunnelSession E ops cl V apiURL
     (\<lambda>target i token. map_option (session_answer_of E (session_fields E) (empty_endpoint, empty_tunnel))
        (http target (session_payload request) i token)) request v s"

definition capture_session_http ::
  "ext \<Rightarrow> 's store_ops \<Rightarrow> api_client \<Rightarrow> 's client_env \<Rightarrow> string \<Rightarrow> http \<Rightarrow> string
    \<Rightarrow> session_validation \<Rightarrow> 's \<Rightarrow> (session_error + capture_session_response) \<times> 's" where
  "capture_session_http E ops cl V apiURL http name v s = CreateDependencyCaptureSession E ops cl V apiURL
     (\<lambda>target i token. map_option (session_answer_of E (capture_session_fields E) empty_capture)
        (http target [] i token)) name v s"

definition login_configuration_body :: "ext \<Rightarrow> string \<Rightarrow> login_configuration option" where
  "login_configuration_body E body = map_option fst
     (decode_body E maxResponseSize login_configuration_fields body (no_spare empty_login_configuration))"

definition metadata_body :: "ext \<Rightarrow> string \<Rightarrow> metadata option" where
  "metadata_body E body = map_option fst (decode_body E maxResponseSize metadata_fields body (no_spare empty_metadata))"

definition identity_body :: "ext \<Rightarrow> string \<Rightarrow> identity option" where
  "identity_body E body = decode_body E maxResponseSize identity_fields body
     \<lparr>me_user_id = [], me_authentication_method = []\<rparr>"

text \<open>Of a rejected token request the fields that could be read are used.\<close>

definition token_answer :: "ext \<Rightarrow> int \<times> string \<Rightarrow> int \<times> raw_token_response option" where
  "token_answer E = (\<lambda>(status, body). (status,
     if status < 200 \<or> 300 \<le> status
     then Some (decode_ignoring E maxResponseSize token_fields [''expires_in''] body empty_token)
     else decode_body E maxResponseSize token_fields body empty_token))"

definition gateway_answer :: "ext \<Rightarrow> int \<times> string \<Rightarrow> int \<times> string" where
  "gateway_answer E = (\<lambda>(status, body). (status, decode_ignoring E 65536 code_fields [] body []))"

definition login_configuration_http :: "ext \<Rightarrow> (string \<Rightarrow> (int \<times> string) option) \<Rightarrow> string \<Rightarrow> string + login_configuration" where
  "login_configuration_http E get apiURL =
     DiscoverLoginConfiguration (\<lambda>target. map_option (map_prod id (login_configuration_body E)) (get target)) apiURL"

definition discover_http :: "ext \<Rightarrow> (string \<Rightarrow> (int \<times> string) option) \<Rightarrow> metadata_cache \<Rightarrow> string
    \<Rightarrow> (string + metadata) \<times> metadata_cache" where
  "discover_http E get = Discover (\<lambda>target. map_option (map_prod id (metadata_body E)) (get target))"

definition token_http :: "ext \<Rightarrow> (string \<Rightarrow> string \<Rightarrow> (int \<times> string) option) \<Rightarrow> token_post" where
  "token_http E post endpoint form = map_option (token_answer E) (post endpoint form)"

subsection \<open>What is read back\<close>

text \<open>What a peer can write with these tables: valid UTF-8, 64-bit numbers, years of four digits.\<close>

definition valid_request :: "tunnel_session_request \<Rightarrow> bool" where
  "valid_request q \<longleftrightarrow> utf8_valid (tq_endpoint_name q) \<and> utf8_valid (tq_protocol q)
     \<and> int64 (tq_local_port q) \<and> int64 (tq_protocol_version q)"

definition valid_session :: "endpoint_response \<Rightarrow> tunnel_response \<Rightarrow> bool" where
  "valid_session e t \<longleftrightarrow> utf8_valid (ep_id e) \<and> utf8_valid (ep_name e) \<and> utf8_valid (ep_hostname e) \<and> utf8_valid (ep_public_url e)
     \<and> utf8_valid (tn_session_id t) \<and> utf8_valid (tn_connect_url t) \<and> utf8_valid (tn_ticket t)
     \<and> year_ok (tn_expires_at t) \<and> int64 (tn_protocol_version t)"

definition valid_capture :: "capture_session_response \<Rightarrow> bool" where
  "valid_capture r \<longleftrightarrow> utf8_valid (cv_endpoint_id r) \<and> utf8_valid (cv_endpoint_name r) \<and> utf8_valid (cv_session_id r)
     \<and> utf8_valid (cv_connect_url r) \<and> utf8_valid (cv_ticket r) \<and> year_ok (cv_expires_at r) \<and> int64 (cv_protocol_version r)"

definition valid_login_configuration :: "login_configuration \<Rightarrow> bool" where
  "valid_login_configuration c \<longleftrightarrow> utf8_valid (lc_issuer c) \<and> utf8_valid (lc_client_id c) \<and> list_all utf8_valid (lc_scopes c)"

definition valid_metadata :: "metadata \<Rightarrow> bool" where
  "valid_metadata m \<longleftrightarrow> utf8_valid (md_issuer m) \<and> utf8_valid (md_authorization_endpoint m) \<and> utf8_valid (md_token_endpoint m)
     \<and> utf8_valid (md_userinfo_endpoint m) \<and> utf8_valid (md_revocation_endpoint m) \<and> list_all utf8_valid (md_grant_types m)
     \<and> list_all utf8_valid (md_challenge_methods m) \<and> list_all utf8_valid (md_auth_methods m) \<and> list_all utf8_valid (md_scopes m)"

definition valid_token :: "raw_token_response \<Rightarrow> bool" where
  "valid_token r \<longleftrightarrow> utf8_valid (rw_access_token r) \<and> utf8_valid (rw_refresh_token r) \<and> utf8_valid (rw_token_type r)
     \<and> (case rw_scope r of Scope_Absent \<Rightarrow> True | Scope_Text x \<Rightarrow> utf8_valid x | Scope_List xs \<Rightarrow> list_all utf8_valid xs
        | Scope_Other \<Rightarrow> True)
     \<and> number_ok (rw_expires_in r) \<and> utf8_valid (rw_id_token r) \<and> utf8_valid (rw_error r) \<and> utf8_valid (rw_description r)"

text \<open>A document is an object whose members are well formed.\<close>

lemma document_parsed:
  assumes "list_all (\<lambda>(n, om, w, r). json_ok (w x) \<and> depth (w x) \<le> 9) fs"
  shows "parse_json (print_json (enc_struct fs x)) = Some (enc_struct fs x)"
proof -
  note ok = enc_fields_ok [OF assms]
  have "depth (enc_struct fs x) \<le> maxNestingDepth" using ok unfolding maxNestingDepth_def by linarith
  then show ?thesis using ok by (intro parse_print_json) simp
qed

lemma document_body:
  assumes "list_all (\<lambda>(n, om, w, r). json_ok (w x) \<and> depth (w x) \<le> 9) fs" and "length (print_json (enc_struct fs x)) \<le> limit"
  shows "decode_body E limit fs (print_json (enc_struct fs x)) zero = dec_struct E fs (enc_struct fs x) zero"
proof -
  have "first_value (print_json (enc_struct fs x)) = Some (enc_struct fs x)"
    using first_value_whole document_parsed [OF assms(1)] unfolding enc_struct_def by blast
  then show ?thesis using assms(2) by (simp add: decode_body_def)
qed

lemmas name_facts = wf_fields_def field_def lift_field_def list_field_def utf8_valid_ascii is_ascii_def

lemma document_tables:
  "wf_fields session_request_fields" "wf_fields endpoint_fields" "wf_fields tunnel_fields" "wf_fields (session_fields E)"
  "wf_fields capture_endpoint_fields" "wf_fields capture_fields" "wf_fields (capture_session_fields E)"
  "wf_fields login_configuration_fields" "wf_fields metadata_fields" "wf_fields identity_fields" "wf_fields token_fields"
  by (simp_all add: name_facts session_request_fields_def endpoint_fields_def tunnel_fields_def session_fields_def
      capture_endpoint_fields_def capture_fields_def capture_session_fields_def login_configuration_fields_def
      metadata_fields_def identity_fields_def token_fields_def)

lemma slice_member_ok: "json_ok (enc_slice enc_string v) \<and> depth (enc_slice enc_string v) \<le> 9"
  using enc_slice_ok [of enc_string 0 v] by simp

lemma inner_ok:
  "json_ok (enc_struct endpoint_fields e) \<and> depth (enc_struct endpoint_fields e) \<le> 9"
  "json_ok (enc_struct tunnel_fields t) \<and> depth (enc_struct tunnel_fields t) \<le> 9"
  "json_ok (enc_struct capture_endpoint_fields r) \<and> depth (enc_struct capture_endpoint_fields r) \<le> 9"
  "json_ok (enc_struct capture_fields r) \<and> depth (enc_struct capture_fields r) \<le> 9"
  by (rule conjI, rule conjunct1 [OF enc_fields_ok [where d = 0]], simp add: endpoint_fields_def tunnel_fields_def
      capture_endpoint_fields_def capture_fields_def field_def,
      rule order_trans [OF conjunct2 [OF enc_fields_ok [where d = 0]]], simp add: endpoint_fields_def tunnel_fields_def
      capture_endpoint_fields_def capture_fields_def field_def, simp)+

lemma session_request_read:
  assumes "valid_request q"
  shows "Option.bind (parse_json (session_payload q))
    (\<lambda>j. dec_struct E session_request_fields j \<lparr>tq_endpoint_name = [], tq_protocol = [], tq_local_port = 0, tq_protocol_version = 0\<rparr>) = Some q"
proof -
  have "list_all (\<lambda>(n, om, w, r). json_ok (w q) \<and> depth (w q) \<le> 9) session_request_fields"
    by (simp add: session_request_fields_def field_def)
  from document_parsed [OF this] show ?thesis
    using assms by (cases q) (simp add: session_payload_def dec_enc_struct document_tables, simp add: session_request_fields_def
        field_runs valid_request_def to_valid_id)
qed

lemma endpoint_read: "valid_session e t \<Longrightarrow> dec_struct E endpoint_fields (enc_struct endpoint_fields e) empty_endpoint = Some e"
  by (cases e) (simp add: dec_enc_struct document_tables, simp add: endpoint_fields_def field_runs valid_session_def empty_endpoint_def to_valid_id)

lemma tunnel_read: "valid_session e t \<Longrightarrow> dec_struct E tunnel_fields (enc_struct tunnel_fields t) empty_tunnel = Some t"
  by (cases t) (simp add: dec_enc_struct document_tables, simp add: tunnel_fields_def field_runs valid_session_def empty_tunnel_def to_valid_id)

lemma session_read:
  assumes "valid_session e t"
  shows "Option.bind (parse_json (print_json (enc_struct (session_fields E) (e, t))))
    (\<lambda>j. dec_struct E (session_fields E) j (empty_endpoint, empty_tunnel)) = Some (e, t)"
proof -
  have "list_all (\<lambda>(n, om, w, r). json_ok (w (e, t)) \<and> depth (w (e, t)) \<le> 9) (session_fields E)"
    using inner_ok by (simp add: session_fields_def field_def)
  from document_parsed [OF this] show ?thesis
    by (simp add: dec_enc_struct document_tables, simp add: session_fields_def field_runs endpoint_read [OF assms] tunnel_read [OF assms])
qed

lemma capture_inner_read:
  assumes "valid_capture r"
  shows "dec_struct E capture_endpoint_fields (enc_struct capture_endpoint_fields r) x
      = Some (x\<lparr>cv_endpoint_id := cv_endpoint_id r, cv_endpoint_name := cv_endpoint_name r\<rparr>)"
    "dec_struct E capture_fields (enc_struct capture_fields r) x
      = Some (x\<lparr>cv_session_id := cv_session_id r, cv_connect_url := cv_connect_url r, cv_ticket := cv_ticket r,
          cv_expires_at := cv_expires_at r, cv_protocol_version := cv_protocol_version r\<rparr>)"
  using assms
  by (simp_all add: dec_enc_struct document_tables,
      simp_all add: capture_endpoint_fields_def capture_fields_def field_runs valid_capture_def to_valid_id)

lemma capture_read:
  assumes "valid_capture r"
  shows "Option.bind (parse_json (print_json (enc_struct (capture_session_fields E) r)))
    (\<lambda>j. dec_struct E (capture_session_fields E) j empty_capture) = Some r"
proof -
  have "list_all (\<lambda>(n, om, w, f). json_ok (w r) \<and> depth (w r) \<le> 9) (capture_session_fields E)"
    using inner_ok by (simp add: capture_session_fields_def)
  note parsed = document_parsed [OF this]
  have "run_fields (capture_session_fields E) r empty_capture = Some r"
    by (simp add: capture_session_fields_def capture_inner_read [OF assms] empty_capture_def)
  with parsed show ?thesis by (simp add: dec_enc_struct document_tables)
qed

lemma login_configuration_read:
  assumes "valid_login_configuration c"
    and "length (print_json (enc_struct login_configuration_fields (no_spare c))) \<le> maxResponseSize"
  shows "login_configuration_body E (print_json (enc_struct login_configuration_fields (no_spare c))) = Some c"
proof -
  have "list_all (\<lambda>(n, om, w, r). json_ok (w (no_spare c)) \<and> depth (w (no_spare c)) \<le> 9) login_configuration_fields"
    using slice_member_ok by (simp add: login_configuration_fields_def lift_field_def list_field_def field_def)
  from document_body [OF this assms(2)] show ?thesis
    using assms(1)
    by (cases c) (simp add: login_configuration_body_def dec_enc_struct document_tables, simp add: login_configuration_fields_def
        run_lift run_list no_spare_def empty_login_configuration_def valid_login_configuration_def dec_enc_string to_valid_id)
qed

lemma metadata_read:
  assumes "valid_metadata m" and "length (print_json (enc_struct metadata_fields (no_spare m))) \<le> maxResponseSize"
  shows "metadata_body E (print_json (enc_struct metadata_fields (no_spare m))) = Some m"
proof -
  have "list_all (\<lambda>(n, om, w, r). json_ok (w (no_spare m)) \<and> depth (w (no_spare m)) \<le> 9) metadata_fields"
    using slice_member_ok by (simp add: metadata_fields_def lift_field_def list_field_def field_def)
  from document_body [OF this assms(2)] show ?thesis
    using assms(1)
    by (cases m) (simp add: metadata_body_def dec_enc_struct document_tables, simp add: metadata_fields_def
        run_lift run_list no_spare_def empty_metadata_def valid_metadata_def dec_enc_string to_valid_id)
qed

lemma identity_read:
  assumes "utf8_valid (me_user_id me)" and "utf8_valid (me_authentication_method me)"
    and "length (print_json (enc_struct identity_fields me)) \<le> maxResponseSize"
  shows "identity_body E (print_json (enc_struct identity_fields me)) = Some me"
proof -
  have "list_all (\<lambda>(n, om, w, r). json_ok (w me) \<and> depth (w me) \<le> 9) identity_fields"
    by (simp add: identity_fields_def field_def)
  from document_body [OF this assms(3)] show ?thesis
    using assms(1,2) by (cases me) (simp add: identity_body_def dec_enc_struct document_tables, simp add: identity_fields_def
        field_runs to_valid_id)
qed

lemma scope_read:
  "rw_scope r \<noteq> Scope_Other \<Longrightarrow> valid_token r \<Longrightarrow> dec_scope (enc_scope (rw_scope r)) v = Some (rw_scope r)"
proof (cases "rw_scope r")
  case (Scope_List xs)
  assume "valid_token r"
  then have "map to_valid xs = xs"
    by (intro map_idI) (simp add: valid_token_def Scope_List list_all_iff to_valid_id)
  then have "dec_slice dec_string [] (J_Arr (map enc_string xs)) (None, []) = Some (Some xs, [])"
    using dec_enc_slice [of "Some xs" dec_string enc_string "[]" to_valid] by (simp add: dec_enc_string enc_slice_def)
  then show ?thesis by (simp add: dec_scope_def enc_scope_def Scope_List)
qed (auto simp: dec_scope_def enc_scope_def enc_string_def unquote_quote_json valid_token_def to_valid_id)

lemma token_read:
  assumes "valid_token r" and "rw_scope r \<noteq> Scope_Other" and "rw_expires_in r \<noteq> []"
    and "length (print_json (enc_struct token_fields r)) \<le> maxResponseSize" and "200 \<le> status" and "status < 300"
  shows "token_answer E (status, print_json (enc_struct token_fields r)) = (status, Some r)"
proof -
  have number: "dec_number (enc_number (rw_expires_in r)) v = Some (rw_expires_in r)" for v
    using assms(3) by (simp add: dec_number_def enc_number_def)
  have "json_ok (enc_number (rw_expires_in r)) \<and> depth (enc_number (rw_expires_in r)) \<le> 9"
    using assms(1,3) by (simp add: enc_number_def valid_token_def)
  moreover have "json_ok (enc_scope v) \<and> depth (enc_scope v) \<le> 9" for v
    using slice_member_ok by (auto simp: enc_scope_def list_all_iff split: raw_scope.split)
  ultimately have "list_all (\<lambda>(n, om, w, f). json_ok (w r) \<and> depth (w r) \<le> 9) token_fields"
    by (simp add: token_fields_def field_def)
  from document_body [OF this assms(4)] show ?thesis
    using assms(1,5,6) scope_read [OF assms(2,1)] number
    by (cases r) (simp add: token_answer_def dec_enc_struct document_tables, simp add: token_fields_def
        field_runs empty_token_def valid_token_def to_valid_id)
qed

text \<open>The documents of a login: what the control plane and the authorization server write is what the agent
  reads.\<close>

theorem login_documents_read_back:
  assumes "valid_login_configuration c" and "valid_metadata m" and "valid_token r" and "rw_scope r \<noteq> Scope_Other"
    and "rw_expires_in r \<noteq> []" and "utf8_valid (me_user_id me)" and "utf8_valid (me_authentication_method me)"
    and "length (print_json (enc_struct login_configuration_fields (no_spare c))) \<le> maxResponseSize"
    and "length (print_json (enc_struct metadata_fields (no_spare m))) \<le> maxResponseSize"
    and "length (print_json (enc_struct token_fields r)) \<le> maxResponseSize"
    and "length (print_json (enc_struct identity_fields me)) \<le> maxResponseSize"
  shows "login_configuration_body E (print_json (enc_struct login_configuration_fields (no_spare c))) = Some c
    \<and> metadata_body E (print_json (enc_struct metadata_fields (no_spare m))) = Some m
    \<and> token_answer E (200, print_json (enc_struct token_fields r)) = (200, Some r)
    \<and> identity_body E (print_json (enc_struct identity_fields me)) = Some me"
  using assms login_configuration_read metadata_read token_read [of r 200] identity_read by simp

text \<open>Of an error answer the problem is read.\<close>

lemma problem_read:
  assumes "utf8_valid (pb_code p)" and "utf8_valid (pb_message p)" and "utf8_valid (pb_request_id p)" and "int64 (pb_status p)"
    and "length (print_json (enc_struct problem_fields p)) \<le> maxResponseSize"
    and "ha_body a = Some (print_json (enc_struct problem_fields p))"
  shows "problem_body E a = p"
proof -
  have fields: "wf_fields problem_fields" by (simp add: name_facts problem_fields_def)
  have "list_all (\<lambda>(n, om, w, r). json_ok (w p) \<and> depth (w p) \<le> 9) problem_fields"
    by (simp add: problem_fields_def field_def)
  note parsed = document_parsed [OF this]
  define ms where "ms = (case enc_struct problem_fields p of J_Obj ms \<Rightarrow> ms | _ \<Rightarrow> [])"
  have doc: "enc_struct problem_fields p = J_Obj ms" by (simp add: ms_def enc_struct_def)
  define zero where "zero = \<lparr>pb_status = ha_status a, pb_code = [], pb_message = [], pb_request_id = []\<rparr>"
  have "dec_struct E problem_fields (enc_struct problem_fields p) zero = Some p"
    using assms(1-4) by (cases p) (simp add: dec_enc_struct fields, simp add: problem_fields_def field_runs zero_def to_valid_id)
  then have "dec_members E problem_fields ms zero = Some p" by (simp add: doc dec_struct_def)
  then have "dec_ignoring E problem_fields [] ms zero = p" by (rule dec_ignoring_same)
  moreover have "first_value (print_json (enc_struct problem_fields p)) = Some (J_Obj ms)"
    using parsed by (intro first_value_whole) (simp add: doc)
  ultimately show ?thesis
    using assms(5,6) by (simp add: problem_body_def decode_ignoring_def zero_def [symmetric])
qed

subsection \<open>A tunnel session over the wire\<close>


definition sample_http :: http where
  "sample_http target payload i token = Some \<lparr>ha_status = 201, ha_request_id = ''r'',
     ha_body = Some (print_json (enc_struct (session_fields sample_ext) (sample_endpoint, sample_tunnel)))\<rparr>"

lemma sample_year: "year_ok 20" by code_simp

lemma sample_session_valid: "valid_request sample_tunnel_request" "valid_session sample_endpoint sample_tunnel"
  by (simp_all add: valid_request_def valid_session_def sample_tunnel_request_def sample_endpoint_def sample_tunnel_def
      utf8_valid_ascii is_ascii_def int64_def sample_year)

lemma sample_session_size:
  "length (print_json (enc_struct (session_fields sample_ext) (sample_endpoint, sample_tunnel))) \<le> maxResponseSize"
proof -
  have time: "enc_time 20 = J_Str ''0001-01-01T00:00:00.00000002Z''" unfolding enc_time_def by code_simp
  show ?thesis
    by (simp add: maxResponseSize_def enc_struct_def session_fields_def endpoint_fields_def tunnel_fields_def field_def
        sample_endpoint_def sample_tunnel_def time enc_string_def enc_int_def itoa_def digits_of.simps quoted_def keep_def
        quote_json.simps(2) quote_byte_def unicode_escape_def is_ascii_def backslash_def quote_mark_def)
qed


end
