(* ===== verification/Spec2Isabelle.thy ===== *)
theory Spec2Isabelle
  imports Hop_Headers Naming Behaviors Capture Proxy_Connections Agent_Requests Uploader_Loop
    Api_Client Api_Sessions Run_Properties Auth_Logout Readiness Certificates
    Dependency_Runtime Event_Size Stored_Credentials Stored_Settings Tunnel_Copy Proxy_Serve
    Refresh_Concurrency Agent_Connection Saved_Files Session_Secrets Api_Documents
begin

text \<open>
  \<^bold>\<open>The Mockingo agent: model and correctness properties\<close>

  The agent makes a local HTTP server reachable through a public endpoint, and records and replays
  the HTTP dependencies of the program it serves.  It signs the user in with OAuth and keeps the
  tokens in a credential store (\<^verbatim>\<open>internal/oauth\<close>), asks the control plane for a tunnel
  session (\<^verbatim>\<open>internal/apiclient\<close>), presents the session's one-time ticket to a gateway over a
  WebSocket and forwards the requests that arrive there to \<^verbatim>\<open>127.0.0.1\<close>
  (\<^verbatim>\<open>internal/agent\<close>).  The messages on that connection, their limits and their validation
  are package \<^verbatim>\<open>tunnelprotocol\<close>.  On the other side a local proxy
  (\<^verbatim>\<open>internal/dependencycapture\<close>) sees the outgoing requests of the served program: it answers
  those for which a behaviour is configured, forwards the others, and hands a redacted event of each
  to an uploader, whose capture connection also delivers the behaviour snapshots.

  \<^bold>\<open>Conventions.\<close>  A Go string and a byte slice are lists of the 256 values of \<open>char\<close>; a slice
  that may be nil is an option; a Go map is an association list whose order stands for the unspecified
  iteration order, so that what is proved holds for each order.  Errors are values of an option or a
  sum.  An \<^verbatim>\<open>int\<close>, a duration (nanoseconds) or a time (nanoseconds since the zero time) is an
  \<open>int\<close>; where the code's 64-bit arithmetic can wrap, the wrap-around is written out.  What is not in
  the repository is a parameter: the Unicode case tables, the UUID and media-type parsers (record
  \<open>ext\<close>), decompressors, the network, the local server, the clock and the random generator (records
  of functions, or what one turn of a loop observes), the operating system's keyring and file system
  (states with the operations used).

  \<^bold>\<open>Theories and code.\<close>
  \<^item> \<open>Go_Prelude\<close>, \<open>Go_Utf8\<close>, \<open>Go_Strings\<close>, \<open>Go_Net\<close>, \<open>Go_Base64\<close>, \<open>Go_Url\<close>, \<open>Go_Query\<close>, \<open>Go_Flag\<close>: the
    parts of the Go standard library the code uses, with the lemmas the components share.
  \<^item> \<open>Tunnel_Protocol\<close>: \<^verbatim>\<open>tunnelprotocol\<close>'s message types, limits, \<^verbatim>\<open>Validate\<close> and the
    checks below it, \<^verbatim>\<open>ReadBody\<close>.  The grammar lemmas say what the validators accept.
  \<^item> \<open>Go_Json_Strings\<close>, \<open>Go_Json\<close>, \<open>Go_Time_Text\<close>, \<open>Go_Json_Structs\<close>: package \<^verbatim>\<open>encoding/json\<close> as the code
    uses it: string literals, the tokenizer and the parser with its depth limit, times, and the field tables by
    which structs are written and read.  The reader gives back what the writer wrote.
  \<^item> \<open>Codec\<close>, \<open>Codec_Properties\<close>, \<open>Event_Size\<close>: \<^verbatim>\<open>codec.go\<close> with the tags of \<^verbatim>\<open>message.go\<close>; what
    \<^verbatim>\<open>Decode\<close> makes of what \<^verbatim>\<open>Encode\<close> wrote, and how long a valid event can be.
  \<^item> \<open>Hop_Headers\<close>: \<^verbatim>\<open>tunnelhttp.FilterHeaders\<close> and the proxy's \<^verbatim>\<open>filterHopHeaders\<close>,
    two instances of the locale \<open>hop_filter\<close>.
  \<^item> \<open>Naming\<close>: \<^verbatim>\<open>internal/naming\<close>.
  \<^item> \<open>Behaviors\<close>: \<^verbatim>\<open>behaviors.go\<close>, the behaviour store; locale \<open>behavior_table\<close> is what the
    proxy relies on.
  \<^item> \<open>Capture\<close>: \<^verbatim>\<open>capture.go\<close>, inspection copies (locale \<open>stream_observer\<close>) and redaction.
  \<^item> \<open>Proxy\<close>, \<open>Proxy_Connections\<close>: \<^verbatim>\<open>proxy.go\<close>; a handler run is a function of the request
    and the environment, CONNECT handling is a list of connection actions, the single-connection
    listener with its two concurrent closers is a step relation.
  \<^item> \<open>Tunnel_Copy\<close>, \<open>Proxy_Serve\<close>: \<^verbatim>\<open>copyTunnel\<close> with its two goroutines and both peers, and
    \<^verbatim>\<open>Serve\<close> with the goroutine that shuts the server down, as step relations.
  \<^item> \<open>Backoff\<close>: the delay functions of both reconnect loops, two instances of the locale \<open>backoff\<close>.
  \<^item> \<open>Agent\<close>, \<open>Agent_Requests\<close>: \<^verbatim>\<open>agent.go\<close>.  \<^verbatim>\<open>runTicket\<close> is a step function over its
    local variables, \<^verbatim>\<open>handleRequest\<close> a function from the message to the written message.
  \<^item> \<open>Agent_Connection\<close>: \<^verbatim>\<open>serveConnection\<close> with its reader, handler and watcher goroutines, the write
    mutex and the wait group, as actions on a state; a run is any list of actions.
  \<^item> \<open>Session_Secrets\<close>: the texts of sessions and gateway errors, and that nothing which the agent's loop
    emits depends on a ticket.
  \<^item> \<open>Uploader\<close>, \<open>Uploader_Loop\<close>: \<^verbatim>\<open>uploader.go\<close>; one capture connection is a step relation
    in which producers, the reader goroutine and the select loop interleave.
  \<^item> \<open>Credentials\<close>: \<^verbatim>\<open>credentials.go\<close>; the interface \<^verbatim>\<open>CredentialStore\<close> is the locale
    \<open>credential_store\<close> with the keyring, the file and the fallback store as interpretations.
  \<^item> \<open>Stored_Credentials\<close>, \<open>Stored_Settings\<close>: the JSON texts that the keyring, the credential files and
    the settings file hold (\<^verbatim>\<open>encodeCredentials\<close>, \<^verbatim>\<open>decodeCredentials\<close>, \<^verbatim>\<open>Save\<close> and \<^verbatim>\<open>Load\<close>).  The
    locale \<open>store_refinement\<close> states that a store over texts answers as the store over records.
  \<^item> \<open>Api_Client\<close>, \<open>Api_Sessions\<close>: \<^verbatim>\<open>client.go\<close>, \<^verbatim>\<open>tunnel_session.go\<close>,
    \<^verbatim>\<open>dependency_capture_session.go\<close>; the client's lemmas are proved for any credential store.
  \<^item> \<open>Refresh_Concurrency\<close>: \<^verbatim>\<open>Client.credentials\<close> called by many goroutines and by several processes; the
    locale \<open>reliable_store\<close> extends \<open>credential_store\<close>.
  \<^item> \<open>Session_Requests\<close>, \<open>Login_Configuration\<close>: the client's unauthenticated and session requests,
    from the arguments to the checked answer (\<^verbatim>\<open>CreateTunnelSession\<close>,
    \<^verbatim>\<open>CreateDependencyCaptureSession\<close>, \<^verbatim>\<open>DiscoverLoginConfiguration\<close>).
  \<^item> \<open>Go_Json_Decoder\<close>, \<open>Api_Documents\<close>: \<^verbatim>\<open>json.Decoder\<close> on the first value of a body, and the documents of the
    control plane, the authorization server and the gateway by their struct tags: what the requests above take
    as decoded is computed there from the bytes.
  \<^item> \<open>Oauth\<close>, \<open>Oauth_Urls\<close>, \<open>Oauth_Tokens\<close>: \<^verbatim>\<open>oauth.go\<close>; metadata and the process-wide
    cache, the authorization URL and PKCE material, token requests and responses.
  \<^item> \<open>Oauth_Callback\<close>: \<^verbatim>\<open>callback.go\<close>; the local server as a fold over the requests that reach it.
  \<^item> \<open>Config\<close>: \<^verbatim>\<open>config.go\<close>; the settings file is a state with the points at which a write can
    fail.
  \<^item> \<open>Atomic_Save\<close>, \<open>Saved_Files\<close>: how the settings and the credential files are written and replaced, one
    system call a step, and that these steps refine \<open>Stored_Settings\<close> and \<open>Stored_Credentials\<close>.
  \<^item> \<open>Cli_Args\<close>: \<^verbatim>\<open>args.go\<close> and the environment helpers; \<open>ParseRun\<close> runs over the model of Go's
    package \<^verbatim>\<open>flag\<close>.
  \<^item> \<open>Auth_Commands\<close>, \<open>Auth_Login\<close>, \<open>Auth_Logout\<close>: \<^verbatim>\<open>auth_commands.go\<close>; login, whoami and
    logout as functions on a world of credential store, settings file and metadata cache.
  \<^item> \<open>Child_Process\<close>, \<open>Readiness\<close>: \<^verbatim>\<open>process.go\<close> and \<^verbatim>\<open>readiness.go\<close>.
  \<^item> \<open>Cli_Run\<close>, \<open>Run_Properties\<close>: \<^verbatim>\<open>run.go\<close>; the run command is a function from the
    arguments and the sequence of events its \<^verbatim>\<open>select\<close> statements see to the actions it takes
    and its exit.
  \<^item> \<open>Certificate_Files\<close>, \<open>Certificates\<close>: \<^verbatim>\<open>ca.go\<close>; the two files of the CA with one
    file-system call a step, for one process and for interleavings, and the cache of leaf certificates.
    \<open>Go_Time\<close> has the calendar that their lifetimes need.
  \<^item> \<open>Dependency_Runtime\<close>: \<^verbatim>\<open>dependency_runtime.go\<close>, the wiring of CA, store, proxy,
    uploader and capture sessions.

  \<^bold>\<open>What the properties show.\<close>  Tickets are used once, in order, and only at trusted gateways; waits
  follow the doubling schedule and the agent keeps reconnecting; forwarded requests stay on the local
  host and each gets the answer its branch prescribes; configured behaviours are matched exactly and
  replayed without touching the network; events carry no configured secret and are accepted by the
  protocol exactly under the stated bounds; queued events are written in order without loss or
  duplication; every connection a CONNECT handler opens is closed; credentials are read back as
  stored and refreshed once.  Messages, and the documents of the control plane, are read
  back as they were written.  A login stores exactly what the authorization server granted to this
  login, a failed one leaves nothing, a logout forgets; a run creates sessions only for its own name
  at trusted gateways, stops what it started, and its exit status is the one its events deserve.
  Some lemmas show where the code does not do what it means to: behaviours with headers in lower
  case, a keyring that refuses a write, a token lifetime that wraps around, a login without a
  refresh token, a second process that presents a refresh token again, a tunnel that outlives the proxy.

  \<^bold>\<open>Bounds.\<close>  The recursions are structural or on the length of the input, with these exceptions.
  \<open>runes\<close> consumes at least one byte a turn and is defined with that measure.  A loop of the agent or of
  the uploader consumes the list of what the world did, one element a turn, so that a statement about
  every list is a statement about every number of turns.  The request loop of the API client has fuel
  two, the bound of the code's own counter.  \<open>split_fields\<close> has the length of its argument plus one, and
  each turn consumes a byte.

  The readiness wait terminates by the number of ticks left before its deadline.  A run consumes the
  list of its events; a list that ends before the run does leaves it waiting (no exit).

  \<^bold>\<open>Not modelled.\<close>  TLS, the contents of certificates and keys, the WebSocket protocol and its dialer,
  operating-system processes and signals, the browser, the Windows and macOS variants of system calls, and most
  of the texts the commands print: they are calls into other packages or into the system, or plain output.
\<close>

end
